(* ===== verification/Prelude.thy ===== *)
theory Prelude
  imports Complex_Main "HOL-Library.Char_ord" "HOL-Library.Multiset" "HOL-Library.List_Lexorder"
begin

section \<open>Shared types, control operators and lemmas\<close>

text \<open>
  What every component of the model uses: identifiers and instants, Python's dictionaries
  as association lists in insertion order, JSON values, the sequencing of operations that
  may raise, and the lemma collections the component theories extend.

  \<^item> A UUID is an opaque identifier and an instant is a count of microseconds since the
    epoch in UTC, so that subtraction of two instants is exact, as Python's is.
  \<^item> An operation that may raise returns a value of \<open>'e + 'a\<close>; one that also changes the
    database returns the pair of that value and the new state, so that the writes made
    before an exception are visible in the model.
\<close>

named_theorems step_defs \<open>definitions of the operations of a component\<close>

named_theorems frame_simps \<open>what an operation leaves unchanged\<close>

type_synonym uuid = nat

type_synonym instant = int

text \<open>JSON-like values: audit details, stored documents and hashed metadata.\<close>

datatype json =
    JNull
  | JBool bool
  | JInt int
  | JStr string
  | JUuid uuid
  | JList "json list"
  | JObj "(string \<times> json) list"

subsection \<open>Exceptions and state\<close>

definition rbind :: "'e + 'a \<Rightarrow> ('a \<Rightarrow> 'e + 'b) \<Rightarrow> 'e + 'b" where
  "rbind r k = (case r of Inl e \<Rightarrow> Inl e | Inr x \<Rightarrow> k x)"

definition attempt :: "'e + 'a \<Rightarrow> 's \<Rightarrow> ('a \<Rightarrow> ('e + 'b) \<times> 's) \<Rightarrow> ('e + 'b) \<times> 's" where
  "attempt r s k = (case r of Inl e \<Rightarrow> (Inl e, s) | Inr x \<Rightarrow> k x)"

definition ensure :: "bool \<Rightarrow> 'e \<Rightarrow> 'e + unit" where
  "ensure b e = (if b then Inr () else Inl e)"

fun mapM_r :: "('a \<Rightarrow> 'e + 'b) \<Rightarrow> 'a list \<Rightarrow> 'e + 'b list" where
  "mapM_r f [] = Inr []"
| "mapM_r f (x # xs) = rbind (f x) (\<lambda>y. rbind (mapM_r f xs) (\<lambda>ys. Inr (y # ys)))"

lemma rbind_simps [simp]:
  "rbind (Inl e) k = Inl e"
  "rbind (Inr x) k = k x"
  by (simp_all add: rbind_def)

lemma rbind_Inr_iff [simp]: "rbind r k = Inr y \<longleftrightarrow> (\<exists>x. r = Inr x \<and> k x = Inr y)"
  by (cases r) simp_all

lemma rbind_Inl_iff: "rbind r k = Inl e \<longleftrightarrow> r = Inl e \<or> (\<exists>x. r = Inr x \<and> k x = Inl e)"
  by (cases r) auto

lemma attempt_simps [simp]:
  "attempt (Inl e) s k = (Inl e, s)"
  "attempt (Inr x) s k = k x"
  by (simp_all add: attempt_def)

lemma attempt_Inr_iff [simp]:
  "attempt r s k = (Inr y, t) \<longleftrightarrow> (\<exists>x. r = Inr x \<and> k x = (Inr y, t))"
  by (cases r) simp_all

lemma attempt_Inl_iff:
  "attempt r s k = (Inl e, t) \<longleftrightarrow> r = Inl e \<and> t = s \<or> (\<exists>x. r = Inr x \<and> k x = (Inl e, t))"
  by (cases r) auto

lemma ensure_iff [simp]:
  "ensure b e = Inr u \<longleftrightarrow> b"
  "ensure b e = Inl e' \<longleftrightarrow> \<not> b \<and> e' = e"
  by (auto simp: ensure_def)

lemma ensure_True [simp]: "ensure True e = Inr ()"
  by (simp add: ensure_def)

lemma ensure_False [simp]: "ensure False e = Inl e"
  by (simp add: ensure_def)

lemma mapM_r_Inr_length: "mapM_r f xs = Inr ys \<Longrightarrow> length ys = length xs"
  by (induction xs arbitrary: ys) auto

lemma mapM_r_Inr_iff: "mapM_r f xs = Inr ys \<longleftrightarrow> map f xs = map Inr ys"
  by (induction xs arbitrary: ys) (auto simp: map_eq_Cons_conv)

lemma mapM_r_nth:
  assumes "mapM_r f xs = Inr ys" and "i < length ys"
  shows "f (xs ! i) = Inr (ys ! i)"
proof -
  from assms have eq: "map f xs = map Inr ys" by (simp add: mapM_r_Inr_iff)
  then have "length xs = length ys" by (metis length_map)
  with eq assms(2) show ?thesis by (metis nth_map)
qed

lemma mapM_r_mem: "mapM_r f xs = Inr ys \<Longrightarrow> y \<in> set ys \<Longrightarrow> \<exists>x \<in> set xs. f x = Inr y"
  by (induction xs arbitrary: ys) auto

subsection \<open>Dictionaries in insertion order\<close>

type_synonym ('k, 'v) dict = "('k \<times> 'v) list"

fun dict_put :: "'k \<Rightarrow> 'v \<Rightarrow> ('k, 'v) dict \<Rightarrow> ('k, 'v) dict" where
  "dict_put k v [] = [(k, v)]"
| "dict_put k v ((k', v') # d) = (if k = k' then (k, v) # d else (k', v') # dict_put k v d)"

definition dict_get :: "('k, 'v) dict \<Rightarrow> 'k \<Rightarrow> 'v option" where
  "dict_get d k = map_of d k"

definition dict_of :: "('k \<times> 'v) list \<Rightarrow> ('k, 'v) dict" where
  "dict_of kvs = foldl (\<lambda>d kv. dict_put (fst kv) (snd kv) d) [] kvs"

definition dict_merge :: "('k, 'v) dict \<Rightarrow> ('k, 'v) dict \<Rightarrow> ('k, 'v) dict" where
  "dict_merge d e = foldl (\<lambda>acc kv. dict_put (fst kv) (snd kv) acc) d e"

lemma map_of_dict_put [simp]: "map_of (dict_put k v d) = (map_of d)(k \<mapsto> v)"
  by (induction d) auto

lemma dict_get_put [simp]: "dict_get (dict_put k v d) k' = (if k' = k then Some v else dict_get d k')"
  by (simp add: dict_get_def)

lemma dict_get_Nil [simp]: "dict_get [] k = None"
  by (simp add: dict_get_def)

lemma set_keys_dict_put [simp]: "fst ` set (dict_put k v d) = insert k (fst ` set d)"
  by (induction k v d rule: dict_put.induct) (simp_all add: insert_commute)

lemma distinct_dict_put: "distinct (map fst d) \<Longrightarrow> distinct (map fst (dict_put k v d))"
proof (induction k v d rule: dict_put.induct)
  case (2 k v k' v' d)
  have "k' \<in> fst ` set (dict_put k v d) \<longleftrightarrow> k' = k \<or> k' \<in> fst ` set d"
    by simp
  with 2 show ?case by auto
qed simp

lemma foldl_dict_put_get:
  "map_of (foldl (\<lambda>acc kv. dict_put (fst kv) (snd kv) acc) d kvs) = map_of d ++ map_of (rev kvs)"
  by (induction kvs arbitrary: d) auto

lemma dict_get_merge: "dict_get (dict_merge d e) k = (case map_of (rev e) k of Some v \<Rightarrow> Some v | None \<Rightarrow> dict_get d k)"
  by (simp add: dict_get_def dict_merge_def foldl_dict_put_get map_add_def split: option.splits)

lemma dict_get_of: "dict_get (dict_of kvs) k = map_of (rev kvs) k"
  by (simp add: dict_get_def dict_of_def foldl_dict_put_get)

lemma keys_foldl_dict_put:
  "fst ` set (foldl (\<lambda>acc kv. dict_put (fst kv) (snd kv) acc) d kvs) = fst ` set d \<union> fst ` set kvs"
  by (induction kvs arbitrary: d) auto

lemma keys_dict_merge: "fst ` set (dict_merge d e) = fst ` set d \<union> fst ` set e"
  by (simp add: dict_merge_def keys_foldl_dict_put)

lemma keys_dict_of: "fst ` set (dict_of kvs) = fst ` set kvs"
  by (simp add: dict_of_def keys_foldl_dict_put)

lemma distinct_foldl_dict_put:
  "distinct (map fst d) \<Longrightarrow> distinct (map fst (foldl (\<lambda>acc kv. dict_put (fst kv) (snd kv) acc) d kvs))"
  by (induction kvs arbitrary: d) (auto intro: distinct_dict_put)

lemma distinct_dict_of: "distinct (map fst (dict_of kvs))"
  by (simp add: dict_of_def distinct_foldl_dict_put)

subsection \<open>Strings\<close>

text \<open>Python's \<open>str.lower\<close>, \<open>str.upper\<close> and \<open>str.strip\<close> on ASCII text.\<close>

definition is_upper_ascii :: "char \<Rightarrow> bool" where
  "is_upper_ascii c \<longleftrightarrow> 65 \<le> (of_char c :: nat) \<and> (of_char c :: nat) \<le> 90"

definition is_lower_ascii :: "char \<Rightarrow> bool" where
  "is_lower_ascii c \<longleftrightarrow> 97 \<le> (of_char c :: nat) \<and> (of_char c :: nat) \<le> 122"

definition is_digit_ascii :: "char \<Rightarrow> bool" where
  "is_digit_ascii c \<longleftrightarrow> 48 \<le> (of_char c :: nat) \<and> (of_char c :: nat) \<le> 57"

definition to_lower_char :: "char \<Rightarrow> char" where
  "to_lower_char c = (if is_upper_ascii c then char_of ((of_char c :: nat) + 32) else c)"

definition to_upper_char :: "char \<Rightarrow> char" where
  "to_upper_char c = (if is_lower_ascii c then char_of ((of_char c :: nat) - 32) else c)"

definition str_lower :: "string \<Rightarrow> string" where
  "str_lower s = map to_lower_char s"

definition str_upper :: "string \<Rightarrow> string" where
  "str_upper s = map to_upper_char s"

text \<open>
  \<open>str.strip\<close> and the pattern \<open>\s\<close> both recognise the ASCII white-space characters 9 to 13,
  28 to 31 and the space.
\<close>

definition is_space :: "char \<Rightarrow> bool" where
  "is_space c \<longleftrightarrow> (let n = (of_char c :: nat) in (9 \<le> n \<and> n \<le> 13) \<or> (28 \<le> n \<and> n \<le> 32))"

definition str_strip :: "string \<Rightarrow> string" where
  "str_strip s = rev (dropWhile is_space (rev (dropWhile is_space s)))"

text \<open>The characters of the pattern \<open>\w\<close>.\<close>

definition is_word_char :: "char \<Rightarrow> bool" where
  "is_word_char c \<longleftrightarrow> is_upper_ascii c \<or> is_lower_ascii c \<or> is_digit_ascii c \<or> c = CHR ''_''"

fun join_with :: "string \<Rightarrow> string list \<Rightarrow> string" where
  "join_with sep [] = []"
| "join_with sep [x] = x"
| "join_with sep (x # y # xs) = x @ sep @ join_with sep (y # xs)"

lemma to_lower_char_idem [simp]: "to_lower_char (to_lower_char c) = to_lower_char c"
proof (cases "is_upper_ascii c")
  case True
  then have "(of_char c :: nat) + 32 < 256" and "65 \<le> (of_char c :: nat)"
    by (auto simp: is_upper_ascii_def)
  then have "(of_char (char_of ((of_char c :: nat) + 32) :: char) :: nat) = of_char c + 32"
    by simp
  with True show ?thesis by (simp add: to_lower_char_def is_upper_ascii_def)
qed (simp add: to_lower_char_def)

lemma str_lower_idem [simp]: "str_lower (str_lower s) = str_lower s"
  by (simp add: str_lower_def)

subsection \<open>Lists\<close>

lemma find_Some_in: "List.find P xs = Some x \<Longrightarrow> x \<in> set xs \<and> P x"
  by (auto simp: find_Some_iff)

lemma find_map_preserving:
  "(\<And>x. P (f x) = P x) \<Longrightarrow> List.find P (map f xs) = map_option f (List.find P xs)"
  by (induction xs) auto

lemma filter_map_preserving:
  "(\<And>x. x \<in> set xs \<Longrightarrow> P (f x) = P x) \<Longrightarrow> (\<And>x. x \<in> set xs \<Longrightarrow> P x \<Longrightarrow> f x = x) \<Longrightarrow>
    filter P (map f xs) = filter P xs"
  by (induction xs) auto

end
