(* ===== verification/Errors.thy ===== *)
theory Errors
  imports Prelude
begin

section \<open>The exceptions of the platform\<close>

text \<open>
  One datatype for the exception classes that the modelled code raises or lets through, so
  that operations of different components compose. A constructor carries what a handler or
  an audit record can read off the exception; message texts that only interpolate those
  values are left out.
\<close>

datatype mapping_issue =
    WrongEntity string string
  | UnknownOntologyField string
  | UnknownColumn string string
  | DerivedUnknownColumn string string
  | ExpressionTooDeepIn string
  | UnitWithoutCanonicalUnit string
  | UnsupportedUnit string string
  | ValueMapNotEnum string
  | ValueMapInvalidTargets string "string list"
  | RequiredFieldNotMapped string
  | JoinNotApproved string
  | JoinSchemaNotAllowed string
  | JoinTableNotAllowed string

datatype exn =
    ValueError string
  | KeyError string
  | TypeError string
  | AttributeError string
  | AssertionError
  | IntegrityError
  | MultipleResultsFound
  | ValidationError string
  | TenantMismatchError
  | AuthenticationError string
  | AuthorizationError string uuid uuid
  | UngrantableScopeError "string list"
  | ExpiryInThePastError instant
  | DevTokenIssuanceNotAllowedError
  | RateLimitExceededError string
  | ConnectionFailedError string
  | WriteStatementRejectedError
  | DisallowedObjectError string "string option"
  | SecretNotFoundError string
  | ConnectionNotReadyError
  | ConnectionDisabledError uuid
  | UnsupportedEngineError string
  | ExpressionEvaluationError string
  | ExpressionTooDeepError
  | MappingValidationError "mapping_issue list"
  | InvalidMappingStateTransitionError string string
  | MappingNotProductionReadyError uuid
  | TargetMappingUnavailableError string
  | ColumnNotDirectlyMappedError string
  | QueryCostExceededError nat
  | UnknownDeriveFunctionError string
  | UnknownLabelFunctionError string
  | TargetRowNotFoundError string
  | DatasetTenantMismatchError
  | InvalidModelStageTransitionError string string
  | IncompatibleAdapterError uuid uuid
  | NoProductionModelError string
  | PredictionTaskNotConfiguredError string
  | ArtifactIntegrityError uuid
  | TimeoutExceededError
  | CircuitOpenError
  | SharedPretrainingConsentError uuid
  | ExternalError string

end
