(* ===== verification/Tenancy.thy ===== *)
theory Tenancy
  imports Errors
begin

section \<open>Roles, consent and the trusted tenant context\<close>

text \<open>
  \<open>hermes_rpt/tenants/enums.py\<close> and \<open>context.py\<close>. A tenant context is what every
  tenant-owned operation of the platform is given; its role and scope sets are Python
  frozen sets of strings, modelled as sets. The identifiers are opaque.
\<close>

datatype role_name =
    PLATFORM_ADMIN | TENANT_ADMIN_ROLE | DATA_STEWARD | ML_ENGINEER
  | MANAGER | OPERATOR | READ_ONLY_AUDITOR | SERVICE_ACCOUNT

fun role_value :: "role_name \<Rightarrow> string" where
  "role_value PLATFORM_ADMIN = ''platform_admin''"
| "role_value TENANT_ADMIN_ROLE = ''tenant_admin''"
| "role_value DATA_STEWARD = ''data_steward''"
| "role_value ML_ENGINEER = ''ml_engineer''"
| "role_value MANAGER = ''manager''"
| "role_value OPERATOR = ''operator''"
| "role_value READ_ONLY_AUDITOR = ''read_only_auditor''"
| "role_value SERVICE_ACCOUNT = ''service_account''"

datatype consent_status = CONSENT_GRANTED | CONSENT_REVOKED | CONSENT_EXPIRED

record tenant_context =
  tc_tenant :: uuid
  tc_principal :: uuid
  tc_roles :: "string set"
  tc_scopes :: "string set"
  tc_correlation :: "string option"
  tc_principal_type :: string

definition has_role :: "tenant_context \<Rightarrow> string \<Rightarrow> bool" where
  "has_role ctx r \<longleftrightarrow> r \<in> tc_roles ctx"

definition has_scope :: "tenant_context \<Rightarrow> string \<Rightarrow> bool" where
  "has_scope ctx s \<longleftrightarrow> s \<in> tc_scopes ctx"

definition is_service_account :: "tenant_context \<Rightarrow> bool" where
  "is_service_account ctx \<longleftrightarrow> tc_principal_type ctx = ''service''"

lemma role_value_inj: "role_value a = role_value b \<longleftrightarrow> a = b"
  by (cases a; cases b) simp_all

end
