(* ===== verification/Repository.thy ===== *)
theory Repository
  imports Tenancy
begin

section \<open>Tables, sessions and tenant-scoped repositories\<close>

text \<open>
  \<open>hermes_rpt/common/repository.py\<close>. A table is the list of its rows in insertion order;
  the rows of every table extend \<open>tenant_row\<close>, which holds the primary key and the tenant
  column (\<open>UUIDPKMixin\<close>, \<open>TenantOwnedMixin\<close>). The column is optional because an entity
  that was not added yet, a shared model or a platform-level audit event has none.

  The session is the control-plane transaction: \<open>session_get\<close> looks a primary key up,
  \<open>session_add\<close> inserts and flushes, which the primary key constraint can refuse, and an
  assignment to an attribute of a loaded entity is \<open>row_set\<close> on its table. Generated
  identifiers are arguments of the operations.
\<close>

record tenant_row =
  row_id :: uuid
  row_tenant :: "uuid option"

type_synonym 'z table = "'z tenant_row_scheme list"

definition session_get :: "'z table \<Rightarrow> uuid \<Rightarrow> 'z tenant_row_scheme option" where
  "session_get t i = List.find (\<lambda>r. row_id r = i) t"

definition session_add :: "'z table \<Rightarrow> 'z tenant_row_scheme \<Rightarrow> exn + 'z table" where
  "session_add t r = (if row_id r \<in> row_id ` set t then Inl IntegrityError else Inr (t @ [r]))"

definition session_delete :: "'z table \<Rightarrow> 'z tenant_row_scheme \<Rightarrow> 'z table" where
  "session_delete t r = filter (\<lambda>x. row_id x \<noteq> row_id r) t"

definition row_set ::
  "'z table \<Rightarrow> uuid \<Rightarrow> ('z tenant_row_scheme \<Rightarrow> 'z tenant_row_scheme) \<Rightarrow> 'z table" where
  "row_set t i f = map (\<lambda>r. if row_id r = i then f r else r) t"

definition repo_get :: "'z table \<Rightarrow> uuid \<Rightarrow> tenant_context \<Rightarrow> 'z tenant_row_scheme option" where
  "repo_get t i ctx =
     (case session_get t i of
        None \<Rightarrow> None
      | Some e \<Rightarrow> if row_tenant e \<noteq> Some (tc_tenant ctx) then None else Some e)"

definition repo_require :: "'z table \<Rightarrow> uuid \<Rightarrow> tenant_context \<Rightarrow> exn + 'z tenant_row_scheme" where
  "repo_require t i ctx =
     (case repo_get t i ctx of None \<Rightarrow> Inl TenantMismatchError | Some e \<Rightarrow> Inr e)"

definition list_for_tenant :: "'z table \<Rightarrow> tenant_context \<Rightarrow> 'z table" where
  "list_for_tenant t ctx = filter (\<lambda>r. row_tenant r = Some (tc_tenant ctx)) t"

definition repo_add ::
  "'z table \<Rightarrow> 'z tenant_row_scheme \<Rightarrow> tenant_context \<Rightarrow> exn + ('z tenant_row_scheme \<times> 'z table)" where
  "repo_add t e ctx =
     (case row_tenant e of
        None \<Rightarrow>
          (let e' = e\<lparr>row_tenant := Some (tc_tenant ctx)\<rparr>
           in rbind (session_add t e') (\<lambda>t'. Inr (e', t')))
      | Some tid \<Rightarrow>
          if tid \<noteq> tc_tenant ctx then Inl TenantMismatchError
          else rbind (session_add t e) (\<lambda>t'. Inr (e, t')))"

definition repo_delete ::
  "'z table \<Rightarrow> 'z tenant_row_scheme \<Rightarrow> tenant_context \<Rightarrow> exn + 'z table" where
  "repo_delete t e ctx =
     (if row_tenant e \<noteq> Some (tc_tenant ctx) then Inl TenantMismatchError
      else Inr (session_delete t e))"

subsection \<open>Basic facts\<close>

lemma session_get_Some: "session_get t i = Some r \<Longrightarrow> r \<in> set t \<and> row_id r = i"
  by (auto simp: session_get_def dest: find_Some_in)

lemma session_get_None: "session_get t i = None \<longleftrightarrow> i \<notin> row_id ` set t"
  by (auto simp: session_get_def find_None_iff)

lemma session_get_distinct:
  "distinct (map row_id t) \<Longrightarrow> r \<in> set t \<Longrightarrow> session_get t (row_id r) = Some r"
  by (induction t) (auto simp: session_get_def rev_image_eqI)

lemma repo_get_Some_iff:
  "repo_get t i ctx = Some r \<longleftrightarrow> session_get t i = Some r \<and> row_tenant r = Some (tc_tenant ctx)"
  by (auto simp: repo_get_def split: option.splits)

lemma repo_require_Inr_iff:
  "repo_require t i ctx = Inr r \<longleftrightarrow> session_get t i = Some r \<and> row_tenant r = Some (tc_tenant ctx)"
  by (auto simp: repo_require_def repo_get_def split: option.splits)

lemma repo_require_ctx:
  "tc_tenant ctx = tc_tenant ctx' \<Longrightarrow> repo_require t i ctx = repo_require t i ctx'"
  "tc_tenant ctx = tc_tenant ctx' \<Longrightarrow> repo_get t i ctx = repo_get t i ctx'"
  by (simp_all add: repo_require_def repo_get_def split: option.split)

lemma repo_require_Inl:
  "repo_require t i ctx = Inl e \<Longrightarrow> e = TenantMismatchError"
  by (auto simp: repo_require_def split: option.splits)

lemma repo_require_cases:
  obtains "repo_require t i ctx = Inl TenantMismatchError"
  | r where "repo_require t i ctx = Inr r" "r \<in> set t" "row_id r = i"
      "row_tenant r = Some (tc_tenant ctx)"
  by (cases "repo_require t i ctx") (auto simp: repo_require_Inr_iff dest: repo_require_Inl session_get_Some)

lemma row_set_ids [simp]:
  "(\<And>r. row_id (f r) = row_id r) \<Longrightarrow> map row_id (row_set t i f) = map row_id t"
  by (simp add: row_set_def)

lemma list_for_tenant_mem:
  "r \<in> set (list_for_tenant t ctx) \<longleftrightarrow> r \<in> set t \<and> row_tenant r = Some (tc_tenant ctx)"
  by (simp add: list_for_tenant_def)

lemma repo_add_Inr:
  assumes "repo_add t e ctx = Inr (e', t')"
  shows "t' = t @ [e'] \<and> row_tenant e' = Some (tc_tenant ctx) \<and> row_id e' = row_id e \<and>
    row_id e \<notin> row_id ` set t \<and> e' = e\<lparr>row_tenant := Some (tc_tenant ctx)\<rparr>"
  using assms
  by (cases e) (auto simp: repo_add_def session_add_def Let_def split: option.splits if_splits)

lemma repo_add_new:
  "row_tenant e = None \<Longrightarrow> row_id e \<notin> row_id ` set t \<Longrightarrow>
    repo_add t e ctx = Inr (e\<lparr>row_tenant := Some (tc_tenant ctx)\<rparr>,
                           t @ [e\<lparr>row_tenant := Some (tc_tenant ctx)\<rparr>])"
  by (simp add: repo_add_def session_add_def Let_def)

subsection \<open>Well-formed tables\<close>

text \<open>
  Primary keys are distinct, and every identifier was generated on behalf of one tenant:
  \<open>g\<close> names that tenant. That such a \<open>g\<close> exists is what \<open>uuid.uuid4\<close> gives the code,
  which never retries around a collision of identifiers.
\<close>

definition table_wf :: "(uuid \<Rightarrow> uuid) \<Rightarrow> 'z table \<Rightarrow> bool" where
  "table_wf g t \<longleftrightarrow> distinct (map row_id t) \<and> (\<forall>r \<in> set t. row_tenant r = Some (g (row_id r)))"

lemma table_wf_Nil [simp]: "table_wf g []"
  by (simp add: table_wf_def)

lemma table_wf_append:
  "table_wf g t \<Longrightarrow> row_id e \<notin> row_id ` set t \<Longrightarrow> row_tenant e = Some (g (row_id e)) \<Longrightarrow>
    table_wf g (t @ [e])"
  by (auto simp: table_wf_def)

lemma table_wf_row_set:
  assumes "table_wf g t" and "\<And>r. row_id (f r) = row_id r" and "\<And>r. row_tenant (f r) = row_tenant r"
  shows "table_wf g (row_set t i f)"
proof -
  have "map row_id (row_set t i f) = map row_id t"
    using assms(2) by (rule row_set_ids)
  moreover have "\<forall>r \<in> set (row_set t i f). row_tenant r = Some (g (row_id r))"
    using assms by (auto simp: table_wf_def row_set_def)
  ultimately show ?thesis using assms(1) by (simp only: table_wf_def)
qed

lemma table_wf_delete: "table_wf g t \<Longrightarrow> table_wf g (session_delete t r)"
  by (auto simp: table_wf_def session_delete_def distinct_map_filter)

text \<open>The rows of one tenant, whatever its context's other fields are.\<close>

definition rows_of :: "uuid \<Rightarrow> 'z table \<Rightarrow> 'z table" where
  "rows_of c t = filter (\<lambda>r. row_tenant r = Some c) t"

lemma list_for_tenant_rows_of: "list_for_tenant t ctx = rows_of (tc_tenant ctx) t"
  by (simp add: list_for_tenant_def rows_of_def)

lemma rows_of_append [simp]: "rows_of c (t @ u) = rows_of c t @ rows_of c u"
  by (simp add: rows_of_def)

lemma rows_of_single [simp]: "rows_of c [r] = (if row_tenant r = Some c then [r] else [])"
  by (simp add: rows_of_def)

lemma rows_of_row_set_other:
  assumes "\<And>r. r \<in> set t \<Longrightarrow> row_id r = i \<Longrightarrow> row_tenant r \<noteq> Some c"
    and "\<And>r. row_tenant (f r) = row_tenant r"
  shows "rows_of c (row_set t i f) = rows_of c t"
  using assms by (induction t) (auto simp: rows_of_def row_set_def)

lemma rows_of_row_set:
  assumes "\<And>r. row_tenant (f r) = row_tenant r"
  shows "rows_of c (row_set t i f) = row_set (rows_of c t) i f"
  using assms by (induction t) (auto simp: rows_of_def row_set_def)

lemma rows_of_delete: "rows_of c (session_delete t r) = session_delete (rows_of c t) r"
  by (simp add: rows_of_def session_delete_def conj_commute)

lemma repo_get_rows_of:
  assumes "table_wf g t"
  shows "repo_get t i ctx = session_get (rows_of (tc_tenant ctx) t) i"
proof (cases "session_get (rows_of (tc_tenant ctx) t) i")
  case None
  then have "i \<notin> row_id ` set (rows_of (tc_tenant ctx) t)"
    by (simp add: session_get_None)
  then have "repo_get t i ctx \<noteq> Some r" for r
    by (auto simp: repo_get_Some_iff rows_of_def dest: session_get_Some)
  with None show ?thesis by (cases "repo_get t i ctx") auto
next
  case (Some r)
  then have r: "r \<in> set t" "row_tenant r = Some (tc_tenant ctx)" "row_id r = i"
    by (auto dest!: session_get_Some simp: rows_of_def)
  with assms have "session_get t i = Some r"
    using session_get_distinct [of t r] by (simp add: table_wf_def)
  with r Some show ?thesis by (simp add: repo_get_Some_iff)
qed

lemma repo_require_rows_of:
  assumes "table_wf g t" and "table_wf g u" and "rows_of (tc_tenant ctx) t = rows_of (tc_tenant ctx) u"
  shows "repo_require t i ctx = repo_require u i ctx"
  using assms by (simp add: repo_require_def repo_get_rows_of)

lemma repo_add_local:
  assumes t: "table_wf g t" and u: "table_wf g u"
    and eq: "rows_of (tc_tenant ctx) t = rows_of (tc_tenant ctx) u"
    and g: "g (row_id e) = tc_tenant ctx"
  shows "map_sum id fst (repo_add t e ctx) = map_sum id fst (repo_add u e ctx)"
proof -
  have own: "row_id e \<in> row_id ` set x \<longleftrightarrow> row_id e \<in> row_id ` set (rows_of (tc_tenant ctx) x)"
    if "table_wf g x" for x :: "'a table"
    using that g by (force simp: table_wf_def rows_of_def)
  from own [OF t] own [OF u] eq
  have "row_id e \<in> row_id ` set t \<longleftrightarrow> row_id e \<in> row_id ` set u" by simp
  then show ?thesis
    by (auto simp: repo_add_def session_add_def Let_def split: option.splits)
qed

subsection \<open>Isolation as an interface\<close>

text \<open>
  What the platform's services promise one another about tenants: a step taken for a
  tenant changes nothing of another tenant's view, and what it does to its own tenant's
  view depends on that view only. Over any interleaving of the steps of several tenants it
  follows that a tenant sees what it would see if it were alone.
\<close>

fun run_steps :: "('op \<Rightarrow> uuid \<Rightarrow> 's \<Rightarrow> 's) \<Rightarrow> ('op \<times> uuid) list \<Rightarrow> 's \<Rightarrow> 's" where
  "run_steps step [] s = s"
| "run_steps step ((x, c) # xs) s = run_steps step xs (step x c s)"

locale tenant_isolated =
  fixes step :: "'op \<Rightarrow> uuid \<Rightarrow> 's \<Rightarrow> 's"
    and view :: "uuid \<Rightarrow> 's \<Rightarrow> 'v"
    and inv :: "'s \<Rightarrow> bool"
    and ok :: "'op \<Rightarrow> uuid \<Rightarrow> bool"
  assumes inv_step: "inv s \<Longrightarrow> ok x c \<Longrightarrow> inv (step x c s)"
    and step_frame: "inv s \<Longrightarrow> ok x c \<Longrightarrow> c' \<noteq> c \<Longrightarrow> view c' (step x c s) = view c' s"
    and step_local: "inv s \<Longrightarrow> inv t \<Longrightarrow> ok x c \<Longrightarrow> view c s = view c t \<Longrightarrow>
      view c (step x c s) = view c (step x c t)"
begin

lemma run_inv: "inv s \<Longrightarrow> \<forall>(x, c) \<in> set xs. ok x c \<Longrightarrow> inv (run_steps step xs s)"
proof (induction xs arbitrary: s)
  case (Cons xc xs)
  then show ?case by (cases xc) (auto intro: inv_step)
qed simp

lemma run_frame:
  "inv s \<Longrightarrow> \<forall>(x, c) \<in> set xs. ok x c \<and> c \<noteq> c' \<Longrightarrow> view c' (run_steps step xs s) = view c' s"
proof (induction xs arbitrary: s)
  case (Cons xc xs)
  then show ?case by (cases xc) (auto simp: inv_step step_frame)
qed simp

lemma run_purge:
  "inv s \<Longrightarrow> inv t \<Longrightarrow> \<forall>(x, c) \<in> set xs. ok x c \<Longrightarrow> view c' s = view c' t \<Longrightarrow>
    view c' (run_steps step xs s) = view c' (run_steps step (filter (\<lambda>xc. snd xc = c') xs) t)"
proof (induction xs arbitrary: s t)
  case Nil
  then show ?case by simp
next
  case (Cons xc xs)
  obtain x c where xc: "xc = (x, c)" by (cases xc)
  with Cons.prems have ok: "ok x c" and oks: "\<forall>(x, c) \<in> set xs. ok x c"
    and s': "inv (step x c s)" by (auto intro: inv_step)
  show ?case
  proof (cases "c = c'")
    case True
    with Cons.prems ok have "view c' (step x c s) = view c' (step x c t)"
      by (auto intro: step_local)
    from Cons.IH [OF s' inv_step [OF Cons.prems(2) ok] oks this] True xc show ?thesis by simp
  next
    case False
    with Cons.prems ok have "view c' (step x c s) = view c' t"
      by (simp add: step_frame)
    from Cons.IH [OF s' Cons.prems(2) oks this] False xc show ?thesis by simp
  qed
qed

end

end
