(* ===== verification/AuditTrail.thy ===== *)
theory AuditTrail
  imports Repository
begin

section \<open>The audit trail\<close>

text \<open>
  \<open>hermes_rpt/audit\<close>. The control-plane state of every component extends \<open>audit_db\<close>, the
  state that holds the audit log; recording an event appends it. The tenant of an event may
  be missing (an authentication failure before any tenant was known), and a tenant's view
  of the trail has neither another tenant's events nor those without a tenant.
\<close>

datatype audit_outcome = SUCCESS | DENIED | ERROR_OUTCOME

record audit_event =
  ae_tenant :: "uuid option"
  ae_principal :: "uuid option"
  ae_principal_type :: string
  ae_action :: string
  ae_resource_type :: "string option"
  ae_resource_id :: "uuid option"
  ae_outcome :: audit_outcome
  ae_correlation :: "string option"
  ae_details :: "(string \<times> json) list"

record audit_db =
  audit_log :: "audit_event list"

definition audit_record :: "audit_event \<Rightarrow> 'z audit_db_scheme \<Rightarrow> 'z audit_db_scheme" where
  "audit_record e db = db\<lparr>audit_log := audit_log db @ [e]\<rparr>"

text \<open>
  The arguments most services pass: tenant, principal and correlation id of the context,
  and the default principal type of \<open>AuditService.record\<close>.
\<close>

definition audit_for ::
  "tenant_context \<Rightarrow> string \<Rightarrow> audit_outcome \<Rightarrow> string \<Rightarrow> uuid \<Rightarrow> (string \<times> json) list \<Rightarrow> audit_event" where
  "audit_for ctx action outcome rtype rid details =
     \<lparr>ae_tenant = Some (tc_tenant ctx), ae_principal = Some (tc_principal ctx),
      ae_principal_type = ''unknown'', ae_action = action, ae_resource_type = Some rtype,
      ae_resource_id = Some rid, ae_outcome = outcome, ae_correlation = tc_correlation ctx,
      ae_details = details\<rparr>"

text \<open>\<open>AuditEventRepository.list_for_tenant\<close>: newest first.\<close>

definition audit_list_for_tenant :: "'z audit_db_scheme \<Rightarrow> tenant_context \<Rightarrow> audit_event list" where
  "audit_list_for_tenant db ctx =
     rev (filter (\<lambda>e. ae_tenant e = Some (tc_tenant ctx)) (audit_log db))"

definition events_of :: "uuid \<Rightarrow> 'z audit_db_scheme \<Rightarrow> audit_event list" where
  "events_of c db = filter (\<lambda>e. ae_tenant e = Some c) (audit_log db)"

lemma audit_log_record [simp]: "audit_log (audit_record e db) = audit_log db @ [e]"
  by (simp add: audit_record_def)

lemma events_of_record [simp]:
  "events_of c (audit_record e db) = events_of c db @ (if ae_tenant e = Some c then [e] else [])"
  by (simp add: events_of_def)

lemma audit_for_sel [simp]:
  "ae_tenant (audit_for ctx a oc t i d) = Some (tc_tenant ctx)"
  "ae_principal (audit_for ctx a oc t i d) = Some (tc_principal ctx)"
  "ae_action (audit_for ctx a oc t i d) = a"
  "ae_outcome (audit_for ctx a oc t i d) = oc"
  "ae_resource_id (audit_for ctx a oc t i d) = Some i"
  "ae_details (audit_for ctx a oc t i d) = d"
  by (simp_all add: audit_for_def)

lemma audit_list_for_tenant_mem:
  "e \<in> set (audit_list_for_tenant db ctx) \<longleftrightarrow> e \<in> set (audit_log db) \<and> ae_tenant e = Some (tc_tenant ctx)"
  by (auto simp: audit_list_for_tenant_def)

end
