(* ===== verification/Settings.thy ===== *)
theory Settings
  imports Errors
begin

section \<open>Process-wide settings\<close>

text \<open>
  \<open>hermes_rpt/common/settings.py\<close>: the fields the rest of the model reads and the
  validators that refuse to start a half-configured or insecurely configured process. The
  reading of environment variables is the library's.
\<close>

datatype environment = LOCAL | CI | STAGING | PRODUCTION_ENV

record settings =
  set_environment :: environment
  set_database_url :: string
  set_log_level :: string
  set_secret_backend :: string
  set_gcp_project :: string
  set_jwt_secret :: string
  set_jwt_algorithm :: string
  set_jwt_issuer :: string
  set_jwt_audience :: string
  set_jwt_leeway :: int
  set_access_ttl :: int
  set_service_ttl :: int

definition insecure_dev_jwt_secret :: string where
  "insecure_dev_jwt_secret = ''local-dev-only-insecure-secret-do-not-use-in-production''"

definition validate_log_level :: "string \<Rightarrow> exn + string" where
  "validate_log_level v =
     (let normalised = str_upper v
      in if normalised \<notin> {''DEBUG'', ''INFO'', ''WARNING'', ''ERROR'', ''CRITICAL''}
         then Inl (ValueError ''log_level'') else Inr normalised)"

definition starts_with :: "string \<Rightarrow> string \<Rightarrow> bool" where
  "starts_with p s \<longleftrightarrow> take (length p) s = p"

definition validate_database_url :: "string \<Rightarrow> exn + string" where
  "validate_database_url v =
     (if \<not> (starts_with ''postgresql://'' v \<or> starts_with ''postgresql+asyncpg://'' v)
      then Inl (ValueError ''database_url'') else Inr v)"

definition validate_secret_backend :: "string \<Rightarrow> exn + string" where
  "validate_secret_backend v =
     (if v \<notin> {''local'', ''google_secret_manager''}
      then Inl (ValueError ''secret_provider_backend'') else Inr v)"

definition validate_jwt_algorithm :: "string \<Rightarrow> exn + string" where
  "validate_jwt_algorithm v =
     (if v \<notin> {''HS256'', ''HS384'', ''HS512'', ''RS256'', ''RS384'', ''RS512'', ''ES256'', ''ES384''}
      then Inl (ValueError ''jwt_algorithm'') else Inr v)"

definition reject_insecure_jwt_secret :: "settings \<Rightarrow> exn + settings" where
  "reject_insecure_jwt_secret s =
     (if set_environment s \<in> {STAGING, PRODUCTION_ENV} \<and> set_jwt_secret s = insecure_dev_jwt_secret
      then Inl (ValueError ''jwt_secret_key'') else Inr s)"

definition require_gcp_project :: "settings \<Rightarrow> exn + settings" where
  "require_gcp_project s =
     (if set_secret_backend s = ''google_secret_manager'' \<and> set_gcp_project s = []
      then Inl (ValueError ''gcp_project_id'') else Inr s)"

text \<open>Construction of \<open>Settings\<close>: the field validators, then the model validators.\<close>

definition make_settings :: "settings \<Rightarrow> exn + settings" where
  "make_settings s =
     rbind (validate_log_level (set_log_level s)) (\<lambda>level.
     rbind (validate_database_url (set_database_url s)) (\<lambda>url.
     rbind (validate_secret_backend (set_secret_backend s)) (\<lambda>backend.
     rbind (validate_jwt_algorithm (set_jwt_algorithm s)) (\<lambda>alg.
     rbind (reject_insecure_jwt_secret (s\<lparr>set_log_level := level\<rparr>))
       require_gcp_project))))"

lemma validate_log_level_Inr: "validate_log_level v = Inr w \<Longrightarrow> w = str_upper v"
  by (simp only: validate_log_level_def Let_def sum.inject sum.distinct split: if_splits)

lemma validate_database_url_Inr: "validate_database_url v = Inr w \<Longrightarrow> w = v"
  by (simp only: validate_database_url_def sum.inject sum.distinct split: if_splits)

lemma validate_secret_backend_Inr: "validate_secret_backend v = Inr w \<Longrightarrow> w = v"
  by (simp only: validate_secret_backend_def sum.inject sum.distinct split: if_splits)

lemma validate_jwt_algorithm_Inr: "validate_jwt_algorithm v = Inr w \<Longrightarrow> w = v"
  by (simp only: validate_jwt_algorithm_def sum.inject sum.distinct split: if_splits)

lemma validate_jwt_algorithm_none: "validate_jwt_algorithm ''none'' = Inl (ValueError ''jwt_algorithm'')"
  by (simp add: validate_jwt_algorithm_def)

lemma reject_insecure_jwt_secret_Inr:
  "reject_insecure_jwt_secret s = Inr s' \<longleftrightarrow> s' = s \<and>
    \<not> (set_environment s \<in> {STAGING, PRODUCTION_ENV} \<and> set_jwt_secret s = insecure_dev_jwt_secret)"
  unfolding reject_insecure_jwt_secret_def by (simp split: if_split) blast

lemma require_gcp_project_Inr:
  "require_gcp_project s = Inr s' \<longleftrightarrow> s' = s \<and>
    \<not> (set_secret_backend s = ''google_secret_manager'' \<and> set_gcp_project s = [])"
  unfolding require_gcp_project_def by (simp split: if_split) blast

lemma make_settings_Inr:
  assumes "make_settings s = Inr s'"
  shows "s' = s\<lparr>set_log_level := str_upper (set_log_level s)\<rparr>"
    and "set_environment s \<in> {STAGING, PRODUCTION_ENV} \<Longrightarrow> set_jwt_secret s \<noteq> insecure_dev_jwt_secret"
    and "set_jwt_algorithm s \<noteq> ''none''"
proof -
  from assms obtain level alg where
    "validate_log_level (set_log_level s) = Inr level"
    "validate_jwt_algorithm (set_jwt_algorithm s) = Inr alg"
    "reject_insecure_jwt_secret (s\<lparr>set_log_level := level\<rparr>) = Inr s'"
    unfolding make_settings_def rbind_Inr_iff require_gcp_project_Inr by blast
  note this [unfolded reject_insecure_jwt_secret_Inr]
  then show "s' = s\<lparr>set_log_level := str_upper (set_log_level s)\<rparr>"
    and "set_environment s \<in> {STAGING, PRODUCTION_ENV} \<Longrightarrow> set_jwt_secret s \<noteq> insecure_dev_jwt_secret"
    using validate_log_level_Inr by auto
  show "set_jwt_algorithm s \<noteq> ''none''"
    using \<open>validate_jwt_algorithm (set_jwt_algorithm s) = Inr alg\<close> validate_jwt_algorithm_none by fastforce
qed

end
