(* ===== verification/Identity.thy ===== *)
theory Identity
  imports AuditTrail Settings
begin

section \<open>Tokens, claims and authorisation\<close>

text \<open>
  \<open>hermes_rpt/auth\<close>: scopes, the claims of a verified token, the token verifier and
  issuers, the request dependencies that build the tenant context and check scopes, roles
  and principal type, and the rate limiter.

  PyJWT is not part of the repository: \<open>enc\<close> and \<open>dec\<close> are parameters of the issuer and of
  the verifier. \<open>jwt_contract\<close> states what PyJWT documents of a token that was encoded with
  the key and algorithm it is decoded with.
\<close>

datatype scope_name =
    TENANT_READ | TENANT_ADMIN | CONNECTION_MANAGE | SCHEMA_DISCOVER | MAPPING_MANAGE
  | PREDICTION_EXECUTE | MODEL_TRAIN | MODEL_PROMOTE | AUDIT_READ | MONITORING_READ
  | SERVICE_CREDENTIAL_MANAGE

fun scope_value :: "scope_name \<Rightarrow> string" where
  "scope_value TENANT_READ = ''tenant:read''"
| "scope_value TENANT_ADMIN = ''tenant:admin''"
| "scope_value CONNECTION_MANAGE = ''connection:manage''"
| "scope_value SCHEMA_DISCOVER = ''schema:discover''"
| "scope_value MAPPING_MANAGE = ''mapping:manage''"
| "scope_value PREDICTION_EXECUTE = ''prediction:execute''"
| "scope_value MODEL_TRAIN = ''model:train''"
| "scope_value MODEL_PROMOTE = ''model:promote''"
| "scope_value AUDIT_READ = ''audit:read''"
| "scope_value MONITORING_READ = ''monitoring:read''"
| "scope_value SERVICE_CREDENTIAL_MANAGE = ''service_credential:manage''"

definition all_scopes :: "scope_name list" where
  "all_scopes = [TENANT_READ, TENANT_ADMIN, CONNECTION_MANAGE, SCHEMA_DISCOVER, MAPPING_MANAGE,
     PREDICTION_EXECUTE, MODEL_TRAIN, MODEL_PROMOTE, AUDIT_READ, MONITORING_READ,
     SERVICE_CREDENTIAL_MANAGE]"

datatype principal_type = HUMAN | SERVICE

fun principal_type_value :: "principal_type \<Rightarrow> string" where
  "principal_type_value HUMAN = ''human''"
| "principal_type_value SERVICE = ''service''"

lemma scope_value_inj [simp]: "scope_value a = scope_value b \<longleftrightarrow> a = b"
  by (cases a; cases b) simp_all

lemma set_all_scopes [simp]: "set all_scopes = UNIV"
proof -
  have "s \<in> set all_scopes" for s by (cases s) (simp_all add: all_scopes_def)
  then show ?thesis by auto
qed

lemma principal_type_value_inj [simp]: "principal_type_value a = principal_type_value b \<longleftrightarrow> a = b"
  by (cases a; cases b) simp_all

subsection \<open>Claims\<close>

record token_claims =
  cl_sub :: uuid
  cl_tenant :: uuid
  cl_roles :: "string set"
  cl_scopes :: "string set"
  cl_principal_type :: principal_type
  cl_iss :: string
  cl_aud :: string
  cl_exp :: int
  cl_iat :: int
  cl_jti :: string

type_synonym payload = "(string, json) dict"

fun uuid_claim :: "json option \<Rightarrow> exn + uuid" where
  "uuid_claim (Some (JUuid u)) = Inr u"
| "uuid_claim _ = Inl (ValidationError ''uuid'')"

fun str_claim :: "json option \<Rightarrow> exn + string" where
  "str_claim (Some (JStr s)) = Inr s"
| "str_claim _ = Inl (ValidationError ''str'')"

fun int_claim :: "json option \<Rightarrow> exn + int" where
  "int_claim (Some (JInt i)) = Inr i"
| "int_claim _ = Inl (ValidationError ''int'')"

text \<open>The \<open>before\<close> validator turns a list into a frozen set; the field's default is empty.\<close>

fun strings_claim :: "json option \<Rightarrow> exn + string set" where
  "strings_claim None = Inr {}"
| "strings_claim (Some (JList xs)) =
     rbind (mapM_r (\<lambda>x. str_claim (Some x)) xs) (\<lambda>ss. Inr (set ss))"
| "strings_claim _ = Inl (ValidationError ''frozenset'')"

fun principal_claim :: "json option \<Rightarrow> exn + principal_type" where
  "principal_claim None = Inr HUMAN"
| "principal_claim (Some (JStr s)) =
     (if s = ''human'' then Inr HUMAN else if s = ''service'' then Inr SERVICE
      else Inl (ValidationError ''principal_type''))"
| "principal_claim _ = Inl (ValidationError ''principal_type'')"

definition validate_claims :: "payload \<Rightarrow> exn + token_claims" where
  "validate_claims p =
     rbind (uuid_claim (dict_get p ''sub'')) (\<lambda>sub.
     rbind (uuid_claim (dict_get p ''tenant_id'')) (\<lambda>tid.
     rbind (strings_claim (dict_get p ''roles'')) (\<lambda>roles.
     rbind (strings_claim (dict_get p ''scopes'')) (\<lambda>scopes.
     rbind (principal_claim (dict_get p ''principal_type'')) (\<lambda>pt.
     rbind (str_claim (dict_get p ''iss'')) (\<lambda>iss.
     rbind (str_claim (dict_get p ''aud'')) (\<lambda>aud.
     rbind (int_claim (dict_get p ''exp'')) (\<lambda>exp.
     rbind (int_claim (dict_get p ''iat'')) (\<lambda>iat.
     rbind (str_claim (dict_get p ''jti'')) (\<lambda>jti.
     Inr \<lparr>cl_sub = sub, cl_tenant = tid, cl_roles = roles, cl_scopes = scopes,
          cl_principal_type = pt, cl_iss = iss, cl_aud = aud, cl_exp = exp, cl_iat = iat,
          cl_jti = jti\<rparr>))))))))))"

subsection \<open>Verification and issuance\<close>

datatype jwt_error =
    ExpiredSignature | InvalidIssuer | InvalidAudience | MissingRequiredClaim
  | InvalidSignature | OtherJWTError

type_synonym 'tok jwt_encoder = "payload \<Rightarrow> string \<Rightarrow> string \<Rightarrow> 'tok"

text \<open>Arguments: token, key, algorithm, issuer, audience, leeway, required claims, now.\<close>

type_synonym 'tok jwt_decoder =
  "'tok \<Rightarrow> string \<Rightarrow> string \<Rightarrow> string \<Rightarrow> string \<Rightarrow> int \<Rightarrow> string list \<Rightarrow> int \<Rightarrow> jwt_error + payload"

fun jwt_error_reason :: "jwt_error \<Rightarrow> string" where
  "jwt_error_reason ExpiredSignature = ''expired_token''"
| "jwt_error_reason InvalidIssuer = ''invalid_issuer''"
| "jwt_error_reason InvalidAudience = ''invalid_audience''"
| "jwt_error_reason MissingRequiredClaim = ''missing_required_claim''"
| "jwt_error_reason InvalidSignature = ''invalid_signature''"
| "jwt_error_reason OtherJWTError = ''malformed_token''"

definition required_claims :: "string list" where
  "required_claims = [''exp'', ''iat'', ''sub'', ''tenant_id'', ''iss'', ''aud'', ''jti'']"

definition verify_token :: "'tok jwt_decoder \<Rightarrow> settings \<Rightarrow> int \<Rightarrow> 'tok \<Rightarrow> exn + token_claims" where
  "verify_token dec s now tok =
     (case dec tok (set_jwt_secret s) (set_jwt_algorithm s) (set_jwt_issuer s) (set_jwt_audience s)
             (set_jwt_leeway s) required_claims now of
        Inl e \<Rightarrow> Inl (AuthenticationError (jwt_error_reason e))
      | Inr p \<Rightarrow>
          (case validate_claims p of
             Inl _ \<Rightarrow> Inl (AuthenticationError ''invalid_claim_shape'')
           | Inr c \<Rightarrow> Inr c))"

definition build_signed_token ::
  "'tok jwt_encoder \<Rightarrow> settings \<Rightarrow> uuid \<Rightarrow> uuid \<Rightarrow> string list \<Rightarrow> string list \<Rightarrow> principal_type \<Rightarrow>
   int option \<Rightarrow> string option \<Rightarrow> string option \<Rightarrow> int \<Rightarrow> string \<Rightarrow> 'tok" where
  "build_signed_token enc s tid pid roles scopes pt ttl issuer audience issued_at jti =
     (let default_ttl = (if pt = SERVICE then set_service_ttl s else set_access_ttl s);
          expires_at = issued_at + (case ttl of Some t \<Rightarrow> t | None \<Rightarrow> default_ttl);
          or_default = (\<lambda>x d. case x of None \<Rightarrow> d | Some v \<Rightarrow> if v = [] then d else v)
      in enc [(''sub'', JUuid pid), (''tenant_id'', JUuid tid),
              (''roles'', JList (map JStr roles)), (''scopes'', JList (map JStr scopes)),
              (''principal_type'', JStr (principal_type_value pt)),
              (''iss'', JStr (or_default issuer (set_jwt_issuer s))),
              (''aud'', JStr (or_default audience (set_jwt_audience s))),
              (''iat'', JInt issued_at), (''exp'', JInt expires_at), (''jti'', JStr jti)]
             (set_jwt_secret s) (set_jwt_algorithm s))"

definition issue_dev_token ::
  "'tok jwt_encoder \<Rightarrow> settings \<Rightarrow> uuid \<Rightarrow> uuid \<Rightarrow> string list \<Rightarrow> string list \<Rightarrow> principal_type \<Rightarrow>
   int option \<Rightarrow> string option \<Rightarrow> string option \<Rightarrow> int \<Rightarrow> string \<Rightarrow> exn + 'tok" where
  "issue_dev_token enc s tid pid roles scopes pt ttl issuer audience now jti =
     (if set_environment s \<notin> {LOCAL, CI} then Inl DevTokenIssuanceNotAllowedError
      else Inr (build_signed_token enc s tid pid roles scopes pt ttl issuer audience now jti))"

definition issue_service_token ::
  "'tok jwt_encoder \<Rightarrow> settings \<Rightarrow> uuid \<Rightarrow> uuid \<Rightarrow> string list \<Rightarrow> int \<Rightarrow> string \<Rightarrow> 'tok" where
  "issue_service_token enc s tid pid scopes now jti =
     build_signed_token enc s tid pid [] scopes SERVICE (Some (set_service_ttl s)) None None now jti"

text \<open>
  What PyJWT documents: a token signed with the same key and algorithm decodes to its
  payload when every required claim is there, the issuer and audience match, it has not
  expired (\<open>exp\<close> is after \<open>now\<close> less the leeway) and was not issued in the future.
\<close>

definition jwt_contract :: "'tok jwt_encoder \<Rightarrow> 'tok jwt_decoder \<Rightarrow> bool" where
  "jwt_contract enc dec \<longleftrightarrow>
     (\<forall>p k a iss aud leeway req now i e.
        (\<forall>c \<in> set req. dict_get p c \<noteq> None) \<and>
        dict_get p ''iss'' = Some (JStr iss) \<and> dict_get p ''aud'' = Some (JStr aud) \<and>
        dict_get p ''exp'' = Some (JInt e) \<and> now - leeway < e \<and>
        dict_get p ''iat'' = Some (JInt i) \<and> i \<le> now + leeway \<longrightarrow>
        dec (enc p k a) k a iss aud leeway req now = Inr p)"

subsection \<open>Request dependencies\<close>

text \<open>
  What a request brings: its headers, the bearer credentials the HTTP scheme found, and the
  correlation id the middleware stored. The dependency binds the tenant into the database
  session (row-level security) and into the request state.
\<close>

record 'tok request =
  req_headers :: "(string \<times> string) list"
  req_bearer :: "'tok option"
  req_correlation :: "string option"

record bound_context =
  bc_context :: tenant_context
  bc_rls_tenant :: uuid
  bc_request_tenant :: uuid

definition get_bearer_token :: "'tok request \<Rightarrow> exn + 'tok" where
  "get_bearer_token r =
     (case req_bearer r of None \<Rightarrow> Inl (AuthenticationError ''missing_token'') | Some t \<Rightarrow> Inr t)"

definition context_of_claims :: "token_claims \<Rightarrow> string option \<Rightarrow> tenant_context" where
  "context_of_claims c corr =
     \<lparr>tc_tenant = cl_tenant c, tc_principal = cl_sub c, tc_roles = cl_roles c,
      tc_scopes = cl_scopes c, tc_correlation = corr,
      tc_principal_type = principal_type_value (cl_principal_type c)\<rparr>"

definition get_tenant_context ::
  "'tok jwt_decoder \<Rightarrow> settings \<Rightarrow> int \<Rightarrow> 'tok request \<Rightarrow> exn + bound_context" where
  "get_tenant_context dec s now r =
     rbind (get_bearer_token r) (\<lambda>tok.
     rbind (verify_token dec s now tok) (\<lambda>claims.
       (let ctx = context_of_claims claims (req_correlation r)
        in Inr \<lparr>bc_context = ctx, bc_rls_tenant = tc_tenant ctx, bc_request_tenant = tc_tenant ctx\<rparr>)))"

definition require_scopes :: "scope_name list \<Rightarrow> tenant_context \<Rightarrow> exn + tenant_context" where
  "require_scopes required ctx =
     (let missing = filter (\<lambda>s. s \<notin> tc_scopes ctx) (remdups (map scope_value required))
      in if missing \<noteq> []
         then Inl (AuthorizationError (''missing_scope:'' @ join_with '','' (sort missing))
                     (tc_tenant ctx) (tc_principal ctx))
         else Inr ctx)"

definition require_roles :: "string list \<Rightarrow> tenant_context \<Rightarrow> exn + tenant_context" where
  "require_roles required ctx =
     (if \<not> list_ex (has_role ctx) required
      then Inl (AuthorizationError (''missing_role:'' @ join_with '','' (sort required))
                  (tc_tenant ctx) (tc_principal ctx))
      else Inr ctx)"

definition require_human :: "tenant_context \<Rightarrow> exn + tenant_context" where
  "require_human ctx =
     (if tc_principal_type ctx \<noteq> principal_type_value HUMAN
      then Inl (AuthorizationError ''service_token_not_allowed_here'' (tc_tenant ctx) (tc_principal ctx))
      else Inr ctx)"

definition require_service :: "tenant_context \<Rightarrow> exn + tenant_context" where
  "require_service ctx =
     (if tc_principal_type ctx \<noteq> principal_type_value SERVICE
      then Inl (AuthorizationError ''human_token_not_allowed_here'' (tc_tenant ctx) (tc_principal ctx))
      else Inr ctx)"

lemma require_scopes_Inr_iff:
  "require_scopes required ctx = Inr c \<longleftrightarrow> c = ctx \<and> scope_value ` set required \<subseteq> tc_scopes ctx"
  by (auto simp: require_scopes_def Let_def filter_empty_conv)

lemma require_roles_Inr_iff:
  "require_roles required ctx = Inr c \<longleftrightarrow> c = ctx \<and> set required \<inter> tc_roles ctx \<noteq> {}"
  by (auto simp: require_roles_def list_ex_iff has_role_def)

lemma mapM_str_claim [simp]: "mapM_r (\<lambda>x. str_claim (Some x)) (map JStr ss) = Inr ss"
  by (induction ss) simp_all

subsection \<open>Rate limiting\<close>

text \<open>
  \<open>InMemoryFixedWindowRateLimiter\<close>: per key, the start of the current window and the count
  of requests in it; \<open>now\<close> is the monotonic clock. A key never seen has window start and
  count 0 (\<open>defaultdict\<close>).
\<close>

record rate_limiter =
  rl_max_requests :: int
  rl_window :: int
  rl_windows :: "string \<Rightarrow> (int \<times> int) option"

definition rate_check :: "rate_limiter \<Rightarrow> int \<Rightarrow> string \<Rightarrow> (exn + unit) \<times> rate_limiter" where
  "rate_check rl now key =
     (let (start0, count0) = (case rl_windows rl key of None \<Rightarrow> (0, 0) | Some w \<Rightarrow> w);
          (start, count) = (if now - start0 \<ge> rl_window rl then (now, 0) else (start0, count0));
          count' = count + 1;
          rl' = rl\<lparr>rl_windows := (rl_windows rl)(key \<mapsto> (start, count'))\<rparr>
      in (if count' > rl_max_requests rl then Inl (RateLimitExceededError key) else Inr (), rl'))"

fun rate_run :: "rate_limiter \<Rightarrow> (int \<times> string) list \<Rightarrow> (exn + unit) list \<times> rate_limiter" where
  "rate_run rl [] = ([], rl)"
| "rate_run rl ((now, key) # es) =
     (let (r, rl') = rate_check rl now key; (rs, rl'') = rate_run rl' es in (r # rs, rl''))"

text \<open>The times at which requests of a key were let through.\<close>

fun admitted :: "rate_limiter \<Rightarrow> (int \<times> string) list \<Rightarrow> string \<Rightarrow> int list" where
  "admitted rl [] k = []"
| "admitted rl ((now, key) # es) k =
     (let (r, rl') = rate_check rl now key
      in (if key = k \<and> r = Inr () then [now] else []) @ admitted rl' es k)"

definition window_of :: "rate_limiter \<Rightarrow> string \<Rightarrow> int \<times> int" where
  "window_of rl k = (case rl_windows rl k of None \<Rightarrow> (0, 0) | Some w \<Rightarrow> w)"

text \<open>
  How many requests with a time in \<open>[a, a + W)\<close> a window state can still let through, when
  no request before \<open>lo\<close> is to come.
\<close>

definition window_budget :: "int \<Rightarrow> int \<Rightarrow> int \<Rightarrow> int \<Rightarrow> int \<times> int \<Rightarrow> int" where
  "window_budget m w a lo sc =
     (if fst sc \<ge> a + w then 0
      else if fst sc \<ge> a then max 0 (m - snd sc)
      else if lo \<ge> a then max 0 (m - snd sc) + m else 2 * m)"

lemma rate_check_config [simp]:
  "rl_max_requests (snd (rate_check rl now key)) = rl_max_requests rl"
  "rl_window (snd (rate_check rl now key)) = rl_window rl"
  by (simp_all add: rate_check_def Let_def split: prod.split)

lemma window_of_rate_check:
  "window_of (snd (rate_check rl now key)) k =
     (if k \<noteq> key then window_of rl k
      else if now - fst (window_of rl k) \<ge> rl_window rl then (now, 1)
      else (fst (window_of rl k), snd (window_of rl k) + 1))"
  by (auto simp: window_of_def rate_check_def Let_def split: prod.split option.split)

lemma rate_check_result:
  "fst (rate_check rl now key) = Inr () \<longleftrightarrow>
     snd (window_of (snd (rate_check rl now key)) key) \<le> rl_max_requests rl"
  by (auto simp: window_of_def rate_check_def Let_def split: prod.split option.split)

lemma admitted_budget:
  assumes "0 \<le> rl_max_requests rl" and "0 < rl_window rl"
    and "sorted (map fst es)" and "\<forall>e \<in> set es. lo \<le> fst e"
    and "fst (window_of rl k) \<le> lo" and "0 \<le> snd (window_of rl k)"
  shows "int (length (filter (\<lambda>t. a \<le> t \<and> t < a + rl_window rl) (admitted rl es k)))
    \<le> window_budget (rl_max_requests rl) (rl_window rl) a lo (window_of rl k)"
  using assms
proof (induction es arbitrary: rl lo)
  case Nil
  then show ?case by (simp add: window_budget_def)
next
  case (Cons e es)
  obtain now key where e: "e = (now, key)" by (cases e)
  define rl' where "rl' = snd (rate_check rl now key)"
  have later: "\<forall>e \<in> set es. now \<le> fst e" using Cons.prems(3) e by simp
  have w: "window_of rl' k = (if k \<noteq> key then window_of rl k
      else if now - fst (window_of rl k) \<ge> rl_window rl then (now, 1)
      else (fst (window_of rl k), snd (window_of rl k) + 1))"
    by (simp add: rl'_def window_of_rate_check)
  have le: "lo \<le> now" using Cons.prems(4) e by simp
  then have "fst (window_of rl' k) \<le> now" "0 \<le> snd (window_of rl' k)"
    using Cons.prems by (auto simp: w)
  with Cons.IH [of rl' now] Cons.prems later
  have IH: "int (length (filter (\<lambda>t. a \<le> t \<and> t < a + rl_window rl) (admitted rl' es k)))
      \<le> window_budget (rl_max_requests rl) (rl_window rl) a now (window_of rl' k)"
    by (simp add: rl'_def)
  have adm: "admitted rl (e # es) k =
      (if key = k \<and> fst (rate_check rl now key) = Inr () then [now] else []) @ admitted rl' es k"
    by (simp add: e rl'_def split: prod.split)
  show ?case
  proof (cases "key = k")
    case False
    with IH adm w le Cons.prems(1,6) show ?thesis by (auto simp: window_budget_def split: if_splits)
  next
    case True
    have r: "fst (rate_check rl now k) = Inr () \<longleftrightarrow> snd (window_of rl' k) \<le> rl_max_requests rl"
      by (simp add: rate_check_result rl'_def True)
    from IH adm w r le Cons.prems(1,2,5,6) True show ?thesis
      by (auto simp: window_budget_def split: if_splits)
  qed
qed

text \<open>
  C23: the limiter as a bound. For any key and any span of time of one window's length, at
  most twice \<open>max_requests\<close> requests of that key are let through (the fixed window lets a
  burst at the end of one window and at the start of the next through), however the requests
  of other keys are interleaved.
\<close>

theorem rate_limiter_bound:
  assumes "0 \<le> m" and "0 < w" and "sorted (map fst es)" and "\<forall>e \<in> set es. 0 \<le> fst e"
  shows "int (length (filter (\<lambda>t. a \<le> t \<and> t < a + w)
      (admitted \<lparr>rl_max_requests = m, rl_window = w, rl_windows = (\<lambda>_. None)\<rparr> es k))) \<le> 2 * m"
proof -
  let ?rl = "\<lparr>rl_max_requests = m, rl_window = w, rl_windows = (\<lambda>_. None)\<rparr>"
  have "int (length (filter (\<lambda>t. a \<le> t \<and> t < a + rl_window ?rl) (admitted ?rl es k)))
      \<le> window_budget (rl_max_requests ?rl) (rl_window ?rl) a 0 (window_of ?rl k)"
    by (rule admitted_budget) (use assms in \<open>simp_all add: window_of_def\<close>)
  also have "\<dots> \<le> 2 * m"
    using assms(1) by (simp add: window_budget_def window_of_def)
  finally show ?thesis by simp
qed

theorem rate_limiter_bound_witness:
  "int (length (filter (\<lambda>t. 59 \<le> t \<and> t < 59 + 60)
      (admitted \<lparr>rl_max_requests = 1, rl_window = 60, rl_windows = (\<lambda>_. None)\<rparr>
         [(59, ''k''), (59, ''k''), (60, ''k''), (61, ''k'')] ''k''))) \<le> 2 * 1"
  by (rule rate_limiter_bound) simp_all

subsection \<open>Issued tokens verify\<close>

lemma verify_signed_token:
  assumes "jwt_contract enc dec" and "issued \<le> now + set_jwt_leeway s"
    and "now - set_jwt_leeway s < issued + ttl"
  shows "verify_token dec s now
      (build_signed_token enc s tid pid roles scopes pt (Some ttl) None None issued jti) =
    Inr \<lparr>cl_sub = pid, cl_tenant = tid, cl_roles = set roles, cl_scopes = set scopes,
      cl_principal_type = pt, cl_iss = set_jwt_issuer s, cl_aud = set_jwt_audience s,
      cl_exp = issued + ttl, cl_iat = issued, cl_jti = jti\<rparr>"
proof -
  let ?p = "[(''sub'', JUuid pid), (''tenant_id'', JUuid tid), (''roles'', JList (map JStr roles)),
    (''scopes'', JList (map JStr scopes)), (''principal_type'', JStr (principal_type_value pt)),
    (''iss'', JStr (set_jwt_issuer s)), (''aud'', JStr (set_jwt_audience s)),
    (''iat'', JInt issued), (''exp'', JInt (issued + ttl)), (''jti'', JStr jti)]"
  have "dec (enc ?p (set_jwt_secret s) (set_jwt_algorithm s)) (set_jwt_secret s) (set_jwt_algorithm s)
      (set_jwt_issuer s) (set_jwt_audience s) (set_jwt_leeway s) required_claims now = Inr ?p"
    using assms unfolding jwt_contract_def
    by (elim allE [where x = ?p] allE impE) (auto simp: required_claims_def dict_get_def)
  moreover have "validate_claims ?p = Inr \<lparr>cl_sub = pid, cl_tenant = tid, cl_roles = set roles,
      cl_scopes = set scopes, cl_principal_type = pt, cl_iss = set_jwt_issuer s,
      cl_aud = set_jwt_audience s, cl_exp = issued + ttl, cl_iat = issued, cl_jti = jti\<rparr>"
    by (cases pt) (simp_all add: validate_claims_def dict_get_def)
  ultimately show ?thesis
    by (simp add: verify_token_def build_signed_token_def Let_def)
qed

end
