(* ===== verification/Credentials.thy ===== *)
theory Credentials
  imports Identity
begin

section \<open>Service credentials\<close>

text \<open>
  \<open>hermes_rpt/auth/service.py\<close> with its model and repository, and the token-exchange
  endpoint of \<open>apps/api/routers/auth.py\<close>. The state adds the credential table and the
  tenant the transaction is bound to for row-level security. \<open>h\<close> is the digest
  (\<open>hashlib.sha256\<close>); the random secret, the client id and the row id are arguments, and
  the constant-time comparison is equality.
\<close>

record service_credential = tenant_row +
  sc_name :: string
  sc_client_id :: string
  sc_secret_hash :: string
  sc_scopes :: "string list"
  sc_active :: bool
  sc_expires :: "instant option"
  sc_last_used :: "instant option"
  sc_revoked :: "instant option"

record auth_db = audit_db +
  auth_credentials :: "service_credential list"
  auth_bound :: "uuid option"

subsection \<open>Operations\<close>

definition bind_tenant :: "uuid option \<Rightarrow> 'z auth_db_scheme \<Rightarrow> 'z auth_db_scheme" where
  "bind_tenant t db = (case t of None \<Rightarrow> db | Some i \<Rightarrow> db\<lparr>auth_bound := Some i\<rparr>)"

definition grantable_scopes :: "string list" where
  "grantable_scopes = map scope_value
     (filter (\<lambda>s. s \<noteq> TENANT_ADMIN \<and> s \<noteq> SERVICE_CREDENTIAL_MANAGE) all_scopes)"

definition find_by_client_id :: "'z auth_db_scheme \<Rightarrow> string \<Rightarrow> exn + service_credential option" where
  "find_by_client_id db cid =
     (case filter (\<lambda>r. sc_client_id r = cid) (auth_credentials db) of
        [] \<Rightarrow> Inr None
      | [r] \<Rightarrow> Inr (Some r)
      | _ \<Rightarrow> Inl MultipleResultsFound)"

text \<open>Insertion under the unique constraint of the column \<open>client_id\<close>.\<close>

definition add_credential ::
  "'z auth_db_scheme \<Rightarrow> service_credential \<Rightarrow> tenant_context \<Rightarrow> exn + (service_credential \<times> 'z auth_db_scheme)" where
  "add_credential db r ctx =
     (if sc_client_id r \<in> sc_client_id ` set (auth_credentials db) then Inl IntegrityError
      else rbind (repo_add (auth_credentials db) r ctx)
             (\<lambda>(r', t). Inr (r', db\<lparr>auth_credentials := t\<rparr>)))"

text \<open>
  The expiry asked for is a datetime: a wall clock with the offset of its zone, if it has one. Comparing
  a datetime without a zone with the present raises.
\<close>

definition expiry_instant :: "(instant \<times> int option) option \<Rightarrow> exn + instant option" where
  "expiry_instant expires =
     (case expires of
        None \<Rightarrow> Inr None
      | Some (clock, None) \<Rightarrow> Inl (TypeError ''can't compare offset-naive and offset-aware datetimes'')
      | Some (clock, Some off) \<Rightarrow> Inr (Some (clock - off)))"

definition issue_credential ::
  "(string \<Rightarrow> string) \<Rightarrow> tenant_context \<Rightarrow> string \<Rightarrow> string list \<Rightarrow> (instant \<times> int option) option \<Rightarrow> instant \<Rightarrow>
   uuid \<Rightarrow> string \<Rightarrow> string \<Rightarrow> 'z auth_db_scheme \<Rightarrow>
   (exn + service_credential \<times> string) \<times> 'z auth_db_scheme" where
  "issue_credential h ctx name scopes expires now fresh secret token db =
     (let requested = sort (remdups scopes);
          ungrantable = filter (\<lambda>s. s \<notin> set grantable_scopes) requested
      in attempt (ensure (ungrantable = []) (UngrantableScopeError ungrantable)) db (\<lambda>_.
         attempt (expiry_instant expires) db (\<lambda>expiry.
         attempt (case expiry of None \<Rightarrow> Inr () | Some e \<Rightarrow> ensure (now < e) (ExpiryInThePastError e)) db (\<lambda>_.
         attempt (add_credential db
             \<lparr>row_id = fresh, row_tenant = Some (tc_tenant ctx), sc_name = name,
              sc_client_id = ''hrpt_svc_'' @ token, sc_secret_hash = h secret, sc_scopes = requested,
              sc_active = True, sc_expires = expiry, sc_last_used = None, sc_revoked = None\<rparr> ctx) db
           (\<lambda>(r, db').
              (Inr (r, secret),
               audit_record ((audit_for ctx ''service_credential.create'' SUCCESS ''ServiceCredential''
                   (row_id r) [(''name'', JStr name), (''scopes'', JList (map JStr requested))])
                   \<lparr>ae_principal_type := tc_principal_type ctx\<rparr>) db'))))))"

text \<open>The audit record of an exchange attempt on a known credential.\<close>

definition exchange_event ::
  "service_credential \<Rightarrow> audit_outcome \<Rightarrow> (string \<times> json) list \<Rightarrow> audit_event" where
  "exchange_event r outcome details =
     \<lparr>ae_tenant = row_tenant r, ae_principal = Some (row_id r),
      ae_principal_type = ''service_credential'', ae_action = ''auth.service_token_exchange'',
      ae_resource_type = Some ''ServiceCredential'', ae_resource_id = Some (row_id r),
      ae_outcome = outcome, ae_correlation = None, ae_details = details\<rparr>"

text \<open>The audit record of an exchange attempt that names no credential.\<close>

definition anonymous_exchange_event :: "string \<Rightarrow> audit_event" where
  "anonymous_exchange_event reason =
     \<lparr>ae_tenant = None, ae_principal = None, ae_principal_type = ''service_credential'',
      ae_action = ''auth.service_token_exchange'', ae_resource_type = None, ae_resource_id = None,
      ae_outcome = DENIED, ae_correlation = None, ae_details = [(''reason'', JStr reason)]\<rparr>"

definition authenticate_credential ::
  "(string \<Rightarrow> string) \<Rightarrow> string \<Rightarrow> string \<Rightarrow> instant \<Rightarrow> 'z auth_db_scheme \<Rightarrow>
   (exn + service_credential) \<times> 'z auth_db_scheme" where
  "authenticate_credential h cid secret now db =
     attempt (find_by_client_id db cid) db (\<lambda>found.
       (let db1 = bind_tenant (case found of Some r \<Rightarrow> row_tenant r | None \<Rightarrow> None) db
        in case found of
             None \<Rightarrow>
               (Inl (AuthenticationError ''service_credential_not_found''),
                audit_record (anonymous_exchange_event ''unknown_client_id'') db1)
           | Some r \<Rightarrow>
               if h secret \<noteq> sc_secret_hash r then
                 (Inl (AuthenticationError ''service_credential_wrong_secret''),
                  audit_record (exchange_event r DENIED [(''reason'', JStr ''wrong_secret'')]) db1)
               else if \<not> sc_active r then
                 (Inl (AuthenticationError ''service_credential_revoked''),
                  audit_record (exchange_event r DENIED [(''reason'', JStr ''revoked'')]) db1)
               else if (case sc_expires r of Some e \<Rightarrow> e \<le> now | None \<Rightarrow> False) then
                 (Inl (AuthenticationError ''service_credential_expired''),
                  audit_record (exchange_event r DENIED [(''reason'', JStr ''expired'')]) db1)
               else
                 (Inr (r\<lparr>sc_last_used := Some now\<rparr>),
                  audit_record (exchange_event r SUCCESS [])
                    (db1\<lparr>auth_credentials :=
                       row_set (auth_credentials db1) (row_id r) (\<lambda>x. x\<lparr>sc_last_used := Some now\<rparr>)\<rparr>))))"

definition revoke_credential ::
  "uuid \<Rightarrow> tenant_context \<Rightarrow> instant \<Rightarrow> 'z auth_db_scheme \<Rightarrow>
   (exn + service_credential) \<times> 'z auth_db_scheme" where
  "revoke_credential cid ctx now db =
     attempt (repo_require (auth_credentials db) cid ctx) db (\<lambda>r.
       (Inr (r\<lparr>sc_active := False, sc_revoked := Some now\<rparr>),
        audit_record ((audit_for ctx ''service_credential.revoke'' SUCCESS ''ServiceCredential'' (row_id r) [])
            \<lparr>ae_principal_type := tc_principal_type ctx\<rparr>)
          (db\<lparr>auth_credentials := row_set (auth_credentials db) (row_id r)
                (\<lambda>x. x\<lparr>sc_active := False, sc_revoked := Some now\<rparr>)\<rparr>)))"

definition list_credentials :: "'z auth_db_scheme \<Rightarrow> tenant_context \<Rightarrow> service_credential list" where
  "list_credentials db ctx = list_for_tenant (auth_credentials db) ctx"

subsection \<open>The token-exchange endpoint\<close>

text \<open>
  The endpoint commits after a rate-limit denial and after a successful exchange only; an
  exception of the service leaves the transaction uncommitted (the binding of the tenant
  ends with the transaction either way), and the handler of
  \<open>apps/api/exception_handlers.py\<close> then writes its own record in a session of its own.
\<close>

datatype 'tok http_response =
    TokenResponse 'tok int string
  | TooManyRequests
  | Unauthorized
  | InternalError

definition auth_failure_event :: "string option \<Rightarrow> string \<Rightarrow> string \<Rightarrow> audit_event" where
  "auth_failure_event corr reason path =
     \<lparr>ae_tenant = None, ae_principal = None, ae_principal_type = ''unknown'',
      ae_action = ''auth.authenticate'', ae_resource_type = None, ae_resource_id = None,
      ae_outcome = DENIED, ae_correlation = corr,
      ae_details = [(''reason'', JStr reason), (''path'', JStr path)]\<rparr>"

record limiters =
  lim_client :: rate_limiter
  lim_ip :: rate_limiter

definition initial_limiters :: limiters where
  "initial_limiters =
     \<lparr>lim_client = \<lparr>rl_max_requests = 5, rl_window = 60, rl_windows = (\<lambda>_. None)\<rparr>,
      lim_ip = \<lparr>rl_max_requests = 20, rl_window = 60, rl_windows = (\<lambda>_. None)\<rparr>\<rparr>"

definition check_limits ::
  "limiters \<Rightarrow> int \<Rightarrow> string \<Rightarrow> string \<Rightarrow> (exn + unit) \<times> limiters" where
  "check_limits l tick cid ip =
     (case rate_check (lim_client l) tick (''client:'' @ cid) of
        (Inl e, c) \<Rightarrow> (Inl e, l\<lparr>lim_client := c\<rparr>)
      | (Inr _, c) \<Rightarrow>
          (case rate_check (lim_ip l) tick (''ip:'' @ ip) of
             (res, i) \<Rightarrow> (res, l\<lparr>lim_client := c, lim_ip := i\<rparr>)))"

definition exchange_service_token ::
  "(string \<Rightarrow> string) \<Rightarrow> 'tok jwt_encoder \<Rightarrow> settings \<Rightarrow> string \<Rightarrow> string \<Rightarrow> string \<Rightarrow> string option \<Rightarrow>
   int \<Rightarrow> instant \<Rightarrow> int \<Rightarrow> string \<Rightarrow> limiters \<Rightarrow> 'z auth_db_scheme \<Rightarrow>
   'tok http_response \<times> limiters \<times> 'z auth_db_scheme" where
  "exchange_service_token h enc s cid secret ip corr tick now issued jti limits db =
     (case check_limits limits tick cid ip of
        (Inl _, limits') \<Rightarrow>
          (TooManyRequests, limits', audit_record (anonymous_exchange_event ''rate_limited'') db)
      | (Inr _, limits') \<Rightarrow>
          (case authenticate_credential h cid secret now db of
             (Inr r, db') \<Rightarrow>
               (TokenResponse
                  (issue_service_token enc s (the (row_tenant r)) (row_id r) (sc_scopes r) issued jti)
                  (set_service_ttl s) (join_with '' '' (sc_scopes r)), limits', db'\<lparr>auth_bound := None\<rparr>)
           | (Inl (AuthenticationError reason), _) \<Rightarrow>
               (Unauthorized, limits',
                audit_record (auth_failure_event corr reason ''/v1/auth/service-token'') db)
           | (Inl _, _) \<Rightarrow> (InternalError, limits', db)))"

subsection \<open>Facts about single operations\<close>

lemma ensure_requested:
  "ensure (filter (\<lambda>s. s \<notin> A) xs = []) e = Inr () \<longleftrightarrow> set xs \<subseteq> A"
  by (auto simp: filter_empty_conv)

lemma add_credential_Inr:
  assumes "add_credential db r ctx = Inr (r', db')" and "row_tenant r = Some (tc_tenant ctx)"
  shows "r' = r \<and> db' = db\<lparr>auth_credentials := auth_credentials db @ [r]\<rparr> \<and>
    row_id r \<notin> row_id ` set (auth_credentials db) \<and>
    sc_client_id r \<notin> sc_client_id ` set (auth_credentials db)"
  using assms
  by (auto simp: add_credential_def repo_add_def session_add_def split: if_splits prod.splits)

lemma issue_credential_cases:
  obtains e where "issue_credential h ctx name scopes expires now fresh secret token db = (Inl e, db)"
  | r ev where
      "issue_credential h ctx name scopes expires now fresh secret token db =
         (Inr (r, secret), audit_record ev (db\<lparr>auth_credentials := auth_credentials db @ [r]\<rparr>))"
      "row_id r = fresh" "row_tenant r = Some (tc_tenant ctx)"
      "sc_client_id r = ''hrpt_svc_'' @ token" "sc_secret_hash r = h secret" "sc_active r"
      "sc_scopes r = sort (remdups scopes)" "set (sc_scopes r) \<subseteq> set grantable_scopes"
      "expiry_instant expires = Inr (sc_expires r)" "ae_tenant ev = Some (tc_tenant ctx)"
      "fresh \<notin> row_id ` set (auth_credentials db)"
      "''hrpt_svc_'' @ token \<notin> sc_client_id ` set (auth_credentials db)"
proof -
  let ?req = "sort (remdups scopes)"
  let ?row = "\<lambda>expiry. \<lparr>row_id = fresh, row_tenant = Some (tc_tenant ctx), sc_name = name,
    sc_client_id = ''hrpt_svc_'' @ token, sc_secret_hash = h secret, sc_scopes = ?req,
    sc_active = True, sc_expires = expiry, sc_last_used = None, sc_revoked = None\<rparr>"
  consider (ungrantable) "\<not> set ?req \<subseteq> set grantable_scopes"
    | (naive) e where "expiry_instant expires = Inl e" "set ?req \<subseteq> set grantable_scopes"
    | (past) e where "expiry_instant expires = Inr (Some e)" "\<not> now < e" "set ?req \<subseteq> set grantable_scopes"
    | (ok) expiry where "set ?req \<subseteq> set grantable_scopes" "expiry_instant expires = Inr expiry"
        "(case expiry of None \<Rightarrow> Inr () | Some e \<Rightarrow> ensure (now < e) (ExpiryInThePastError e)) = Inr ()"
  proof (cases "expiry_instant expires")
    case (Inr expiry)
    with that(1,3) that(4) [of expiry] show thesis by (cases expiry) auto
  qed (use that in blast)
  then show thesis
  proof cases
    case ungrantable
    then have "filter (\<lambda>s. s \<notin> set grantable_scopes) ?req \<noteq> []" by (auto simp: filter_empty_conv)
    then show thesis
      by (intro that(1)) (simp add: issue_credential_def Let_def del: set_sort sorted_sort)
  next
    case naive
    then have "filter (\<lambda>s. s \<notin> set grantable_scopes) ?req = []" by (auto simp: filter_empty_conv)
    with naive show thesis by (intro that(1)) (simp add: issue_credential_def Let_def)
  next
    case past
    then have "filter (\<lambda>s. s \<notin> set grantable_scopes) ?req = []" by (auto simp: filter_empty_conv)
    with past show thesis by (intro that(1)) (simp add: issue_credential_def Let_def)
  next
    case ok
    then have req: "filter (\<lambda>s. s \<notin> set grantable_scopes) ?req = []" by (auto simp: filter_empty_conv)
    show thesis
    proof (cases "add_credential db (?row expiry) ctx")
      case (Inl e)
      with ok req show thesis by (intro that(1)) (simp add: issue_credential_def Let_def)
    next
      case (Inr p)
      obtain r db' where p: "p = (r, db')" by (cases p)
      from add_credential_Inr [OF Inr [unfolded p]] ok req Inr p show thesis
        by (intro that(2) [where r = "?row expiry"]) (auto simp: issue_credential_def Let_def)
    qed
  qed
qed

text \<open>The two rows updates of the component and the invariant of the table.\<close>

definition cred_wf :: "(uuid \<Rightarrow> uuid) \<Rightarrow> (string \<Rightarrow> uuid) \<Rightarrow> 'z auth_db_scheme \<Rightarrow> bool" where
  "cred_wf g gc db \<longleftrightarrow>
     table_wf g (auth_credentials db) \<and> distinct (map sc_client_id (auth_credentials db)) \<and>
     (\<forall>r \<in> set (auth_credentials db). row_tenant r = Some (gc (sc_client_id r)) \<and>
        set (sc_scopes r) \<subseteq> set grantable_scopes)"

lemma filter_unique: "distinct (map f xs) \<Longrightarrow> x \<in> set xs \<Longrightarrow> filter (\<lambda>y. f y = f x) xs = [x]"
  by (induction xs) (auto simp: filter_empty_conv, metis image_eqI)

lemma find_by_client_id_Some:
  assumes "find_by_client_id db cid = Inr (Some r)"
  shows "r \<in> set (auth_credentials db) \<and> sc_client_id r = cid \<and>
    filter (\<lambda>r. sc_client_id r = cid) (auth_credentials db) = [r]"
proof -
  from assms have f: "filter (\<lambda>r. sc_client_id r = cid) (auth_credentials db) = [r]"
    by (auto simp: find_by_client_id_def split: list.splits)
  have "r \<in> set (filter (\<lambda>r. sc_client_id r = cid) (auth_credentials db))"
    unfolding f by simp
  then have "r \<in> set (auth_credentials db) \<and> sc_client_id r = cid" by simp
  with f show ?thesis by blast
qed

lemma find_by_client_id_wf:
  assumes "distinct (map sc_client_id (auth_credentials db))" and "r \<in> set (auth_credentials db)"
  shows "find_by_client_id db (sc_client_id r) = Inr (Some r)"
  using filter_unique [OF assms] by (simp add: find_by_client_id_def)

lemma find_by_client_id_total:
  assumes "distinct (map sc_client_id (auth_credentials db))"
  obtains "find_by_client_id db cid = Inr None" "cid \<notin> sc_client_id ` set (auth_credentials db)"
  | r where "find_by_client_id db cid = Inr (Some r)" "r \<in> set (auth_credentials db)" "sc_client_id r = cid"
proof (cases "cid \<in> sc_client_id ` set (auth_credentials db)")
  case True
  then obtain r where "r \<in> set (auth_credentials db)" "cid = sc_client_id r" by auto
  with find_by_client_id_wf [OF assms] show ?thesis by (intro that(2)) auto
next
  case False
  then have "filter (\<lambda>r. sc_client_id r = cid) (auth_credentials db) = []"
    by (auto simp: filter_empty_conv)
  with False show ?thesis by (intro that(1)) (simp_all add: find_by_client_id_def)
qed

lemma bind_tenant_frame [simp]:
  "auth_credentials (bind_tenant t db) = auth_credentials db"
  "audit_log (bind_tenant t db) = audit_log db"
  "events_of c (bind_tenant t db) = events_of c db"
  by (simp_all add: bind_tenant_def events_of_def split: option.split)

lemma auth_credentials_record [simp]: "auth_credentials (audit_record e db) = auth_credentials db"
  by (simp add: audit_record_def)

lemma events_of_credentials [simp]:
  "events_of c (db\<lparr>auth_credentials := t\<rparr>) = events_of c db"
  "events_of c (db\<lparr>auth_bound := b\<rparr>) = events_of c db"
  by (simp_all add: events_of_def)

lemma exchange_event_tenant [simp]:
  "ae_tenant (exchange_event r oc d) = row_tenant r"
  "ae_tenant (anonymous_exchange_event s) = None"
  "ae_tenant (auth_failure_event corr reason path) = None"
  by (simp_all add: exchange_event_def anonymous_exchange_event_def auth_failure_event_def)

text \<open>What an exchange writes, as a function of the row it found.\<close>

lemma authenticate_credential_found:
  assumes "find_by_client_id db cid = Inr (Some r)"
  obtains e ev db' where "authenticate_credential h cid secret now db = (Inl e, audit_record ev db')"
      "auth_credentials db' = auth_credentials db" "audit_log db' = audit_log db"
      "ae_tenant ev = row_tenant r"
      "\<not> (h secret = sc_secret_hash r \<and> sc_active r \<and> (\<forall>e. sc_expires r = Some e \<longrightarrow> now < e))"
  | ev db' where
      "authenticate_credential h cid secret now db = (Inr (r\<lparr>sc_last_used := Some now\<rparr>), audit_record ev db')"
      "auth_credentials db' =
        row_set (auth_credentials db) (row_id r) (\<lambda>x. x\<lparr>sc_last_used := Some now\<rparr>)"
      "audit_log db' = audit_log db" "ae_tenant ev = row_tenant r" "ae_outcome ev = SUCCESS"
      "h secret = sc_secret_hash r" "sc_active r" "\<forall>e. sc_expires r = Some e \<longrightarrow> now < e"
proof -
  let ?ok = "h secret = sc_secret_hash r \<and> sc_active r \<and> (\<forall>e. sc_expires r = Some e \<longrightarrow> now < e)"
  let ?db = "bind_tenant (row_tenant r) db"
  show thesis
  proof (cases ?ok)
    case True
    then show thesis
      by (intro that(2) [where ev = "exchange_event r SUCCESS []"
            and db' = "?db\<lparr>auth_credentials :=
               row_set (auth_credentials ?db) (row_id r) (\<lambda>x. x\<lparr>sc_last_used := Some now\<rparr>)\<rparr>"])
        (auto simp: authenticate_credential_def assms Let_def exchange_event_def split: option.splits)
  next
    case False
    then consider "h secret \<noteq> sc_secret_hash r" | "h secret = sc_secret_hash r" "\<not> sc_active r"
      | e where "h secret = sc_secret_hash r" "sc_active r" "sc_expires r = Some e" "e \<le> now"
      by force
    then obtain e reason where
      "authenticate_credential h cid secret now db =
         (Inl e, audit_record (exchange_event r DENIED [(''reason'', JStr reason)]) ?db)"
      by cases (simp_all add: authenticate_credential_def assms)
    with False show thesis
      by (intro that(1) [where ev = "exchange_event r DENIED [(''reason'', JStr reason)]" and db' = ?db]) auto
  qed
qed

lemma authenticate_credential_unknown:
  "find_by_client_id db cid = Inr None \<Longrightarrow>
    authenticate_credential h cid secret now db =
      (Inl (AuthenticationError ''service_credential_not_found''),
       audit_record (anonymous_exchange_event ''unknown_client_id'') db)"
  by (simp add: authenticate_credential_def bind_tenant_def)

subsection \<open>Histories of operations\<close>

datatype cred_op =
    OpIssue tenant_context string "string list" "(instant \<times> int option) option" instant uuid string string
  | OpAuthenticate string string instant
  | OpRevoke tenant_context uuid instant

fun cred_step :: "(string \<Rightarrow> string) \<Rightarrow> cred_op \<Rightarrow> uuid \<Rightarrow> 'z auth_db_scheme \<Rightarrow> 'z auth_db_scheme" where
  "cred_step h (OpIssue ctx name scopes expires now fresh secret token) c db =
     snd (issue_credential h ctx name scopes expires now fresh secret token db)"
| "cred_step h (OpAuthenticate cid secret now) c db = snd (authenticate_credential h cid secret now db)"
| "cred_step h (OpRevoke ctx cid now) c db = snd (revoke_credential cid ctx now db)"

text \<open>
  An operation is of tenant \<open>c\<close> when its context is, and when the identifiers it generates
  or names were generated for \<open>c\<close>.
\<close>

fun cred_op_of :: "(uuid \<Rightarrow> uuid) \<Rightarrow> (string \<Rightarrow> uuid) \<Rightarrow> cred_op \<Rightarrow> uuid \<Rightarrow> bool" where
  "cred_op_of g gc (OpIssue ctx name scopes expires now fresh secret token) c \<longleftrightarrow>
     tc_tenant ctx = c \<and> g fresh = c \<and> gc (''hrpt_svc_'' @ token) = c"
| "cred_op_of g gc (OpAuthenticate cid secret now) c \<longleftrightarrow> gc cid = c"
| "cred_op_of g gc (OpRevoke ctx cid now) c \<longleftrightarrow> tc_tenant ctx = c"

definition cred_view :: "uuid \<Rightarrow> 'z auth_db_scheme \<Rightarrow> service_credential list \<times> audit_event list" where
  "cred_view c db = (rows_of c (auth_credentials db), events_of c db)"

lemma revoke_credential_cases:
  obtains "revoke_credential cid ctx now db = (Inl TenantMismatchError, db)"
      "repo_require (auth_credentials db) cid ctx = Inl TenantMismatchError"
  | r ev where "repo_require (auth_credentials db) cid ctx = Inr r"
      "r \<in> set (auth_credentials db)" "row_id r = cid" "row_tenant r = Some (tc_tenant ctx)"
      "ae_tenant ev = Some (tc_tenant ctx)" "ev = (audit_for ctx ''service_credential.revoke'' SUCCESS
         ''ServiceCredential'' cid [])\<lparr>ae_principal_type := tc_principal_type ctx\<rparr>"
      "revoke_credential cid ctx now db =
        (Inr (r\<lparr>sc_active := False, sc_revoked := Some now\<rparr>),
         audit_record ev (db\<lparr>auth_credentials := row_set (auth_credentials db) cid
              (\<lambda>x. x\<lparr>sc_active := False, sc_revoked := Some now\<rparr>)\<rparr>))"
proof (cases rule: repo_require_cases [of "auth_credentials db" cid ctx])
  case 1
  then show thesis by (intro that(1)) (simp_all add: revoke_credential_def)
next
  case (2 r)
  then show thesis
    by (intro that(2) [where r = r]) (simp_all add: revoke_credential_def audit_for_def)
qed

lemma cred_wf_row_set:
  assumes "cred_wf g gc db" and "\<And>r. row_id (f r) = row_id r" and "\<And>r. row_tenant (f r) = row_tenant r"
    and "\<And>r. sc_client_id (f r) = sc_client_id r" and "\<And>r. sc_scopes (f r) = sc_scopes r"
    and "auth_credentials db' = row_set (auth_credentials db) i f"
  shows "cred_wf g gc db'"
proof -
  have "map sc_client_id (auth_credentials db') = map sc_client_id (auth_credentials db)"
    using assms by (simp add: row_set_def)
  moreover have "\<forall>r \<in> set (auth_credentials db'). row_tenant r = Some (gc (sc_client_id r)) \<and>
      set (sc_scopes r) \<subseteq> set grantable_scopes"
    using assms by (fastforce simp: cred_wf_def row_set_def)
  ultimately show ?thesis
    using assms table_wf_row_set [of g "auth_credentials db" f i] by (simp add: cred_wf_def)
qed

lemma cred_wf_same: "auth_credentials db' = auth_credentials db \<Longrightarrow> cred_wf g gc db' \<longleftrightarrow> cred_wf g gc db"
  by (simp add: cred_wf_def)

lemma cred_wf_step:
  assumes "cred_wf g gc db" and "cred_op_of g gc x c"
  shows "cred_wf g gc (cred_step h x c db)"
proof (cases x)
  case (OpIssue ctx name scopes expires now fresh secret token)
  show ?thesis
  proof (cases rule: issue_credential_cases [of h ctx name scopes expires now fresh secret token db])
    case (2 r ev)
    with assms OpIssue show ?thesis
      by (auto simp: cred_wf_def intro: table_wf_append)
  qed (use assms OpIssue in simp)
next
  case (OpAuthenticate cid secret now)
  have d: "distinct (map sc_client_id (auth_credentials db))" using assms by (simp add: cred_wf_def)
  show ?thesis
  proof (cases rule: find_by_client_id_total [OF d, of cid])
    case 1
    with assms OpAuthenticate show ?thesis
      by (simp add: authenticate_credential_unknown cred_wf_def)
  next
    case (2 r)
    show ?thesis
    proof (cases rule: authenticate_credential_found [OF 2(1), of h secret now])
      case (1 e ev db')
      with assms OpAuthenticate show ?thesis by (simp add: cred_wf_def)
    next
      case (2 ev db')
      then have eq: "auth_credentials (cred_step h x c db) =
          row_set (auth_credentials db) (row_id r) (\<lambda>x. x\<lparr>sc_last_used := Some now\<rparr>)"
        by (simp add: OpAuthenticate)
      show ?thesis by (rule cred_wf_row_set [OF assms(1) _ _ _ _ eq]) simp_all
    qed
  qed
next
  case (OpRevoke ctx cid now)
  show ?thesis
  proof (cases rule: revoke_credential_cases [of cid ctx now db])
    case 1
    with assms OpRevoke show ?thesis by simp
  next
    case (2 r ev)
    then have eq: "auth_credentials (cred_step h x c db) =
        row_set (auth_credentials db) cid (\<lambda>x. x\<lparr>sc_active := False, sc_revoked := Some now\<rparr>)"
      by (simp add: OpRevoke)
    show ?thesis by (rule cred_wf_row_set [OF assms(1) _ _ _ _ eq]) simp_all
  qed
qed

subsection \<open>Isolation of the tenants' credentials\<close>

lemma add_credential_eq:
  "row_tenant r = Some (tc_tenant ctx) \<Longrightarrow>
    add_credential db r ctx =
      (if sc_client_id r \<in> sc_client_id ` set (auth_credentials db) \<or> row_id r \<in> row_id ` set (auth_credentials db)
       then Inl IntegrityError
       else Inr (r, db\<lparr>auth_credentials := auth_credentials db @ [r]\<rparr>))"
  by (simp add: add_credential_def repo_add_def session_add_def)

lemma cred_wf_own_ids:
  assumes "cred_wf g gc db"
  shows "g i = c \<Longrightarrow> i \<in> row_id ` set (auth_credentials db) \<longleftrightarrow>
      i \<in> row_id ` set (rows_of c (auth_credentials db))"
    and "gc cid = c \<Longrightarrow> cid \<in> sc_client_id ` set (auth_credentials db) \<longleftrightarrow>
      cid \<in> sc_client_id ` set (rows_of c (auth_credentials db))"
  using assms by (force simp: cred_wf_def table_wf_def rows_of_def)+

lemma find_by_client_id_local:
  assumes "cred_wf g gc db" and "cred_wf g gc db'" and "gc cid = c"
    and "rows_of c (auth_credentials db) = rows_of c (auth_credentials db')"
  shows "find_by_client_id db cid = find_by_client_id db' cid"
proof -
  have "filter (\<lambda>r. sc_client_id r = cid) (auth_credentials x) =
      filter (\<lambda>r. sc_client_id r = cid) (rows_of c (auth_credentials x))" if "cred_wf g gc x" for x
    unfolding rows_of_def filter_filter using that assms(3)
    by (intro filter_cong) (auto simp: cred_wf_def)
  from this [OF assms(1)] this [OF assms(2)] assms(4) show ?thesis
    by (simp add: find_by_client_id_def)
qed

lemma cred_view_record:
  "cred_view c (audit_record ev db) =
    (rows_of c (auth_credentials db), events_of c db @ (if ae_tenant ev = Some c then [ev] else []))"
  by (simp add: cred_view_def)

lemma cred_step_frame:
  assumes "cred_wf g gc db" and "cred_op_of g gc x c" and "c' \<noteq> c"
  shows "cred_view c' (cred_step h x c db) = cred_view c' db"
proof (cases x)
  case (OpIssue ctx name scopes expires now fresh secret token)
  show ?thesis
  proof (cases rule: issue_credential_cases [of h ctx name scopes expires now fresh secret token db])
    case (2 r ev)
    with assms OpIssue show ?thesis by (simp add: cred_view_def)
  qed (use assms OpIssue in simp)
next
  case (OpAuthenticate cid secret now)
  have d: "distinct (map sc_client_id (auth_credentials db))" using assms by (simp add: cred_wf_def)
  show ?thesis
  proof (cases rule: find_by_client_id_total [OF d, of cid])
    case 1
    with OpAuthenticate show ?thesis by (simp add: authenticate_credential_unknown cred_view_def)
  next
    case (2 r)
    have r: "row_tenant r = Some c" using 2 assms OpAuthenticate by (auto simp: cred_wf_def)
    have other: "\<And>x. x \<in> set (auth_credentials db) \<Longrightarrow> row_id x = row_id r \<Longrightarrow> row_tenant x \<noteq> Some c'"
      using assms r 2 by (auto simp: cred_wf_def table_wf_def)
    show ?thesis
    proof (cases rule: authenticate_credential_found [OF 2(1), of h secret now])
      case (1 e ev db')
      with assms OpAuthenticate r show ?thesis by (simp add: cred_view_def events_of_def)
    next
      case (2 ev db')
      have "rows_of c' (row_set (auth_credentials db) (row_id r) (\<lambda>x. x\<lparr>sc_last_used := Some now\<rparr>)) =
          rows_of c' (auth_credentials db)"
        by (rule rows_of_row_set_other) (use other in simp_all)
      with 2 assms OpAuthenticate r show ?thesis by (simp add: cred_view_def events_of_def)
    qed
  qed
next
  case (OpRevoke ctx cid now)
  show ?thesis
  proof (cases rule: revoke_credential_cases [of cid ctx now db])
    case (2 r ev)
    have other: "\<And>x. x \<in> set (auth_credentials db) \<Longrightarrow> row_id x = cid \<Longrightarrow> row_tenant x \<noteq> Some c'"
      using assms 2 OpRevoke by (auto simp: cred_wf_def table_wf_def)
    have "rows_of c' (row_set (auth_credentials db) cid (\<lambda>x. x\<lparr>sc_active := False, sc_revoked := Some now\<rparr>)) =
        rows_of c' (auth_credentials db)"
      by (rule rows_of_row_set_other) (use other in simp_all)
    with 2 assms OpRevoke show ?thesis by (simp add: cred_view_def)
  qed (use OpRevoke in simp)
qed

lemma issue_credential_local:
  assumes "cred_wf g gc s" and "cred_wf g gc t" and "cred_view c s = cred_view c t"
    and "cred_op_of g gc (OpIssue ctx name scopes expires now fresh secret token) c"
  shows "cred_view c (snd (issue_credential h ctx name scopes expires now fresh secret token s)) =
    cred_view c (snd (issue_credential h ctx name scopes expires now fresh secret token t))"
proof -
  let ?tok = "''hrpt_svc_'' @ token"
  have "fresh \<in> row_id ` set (auth_credentials s) \<longleftrightarrow> fresh \<in> row_id ` set (auth_credentials t)"
    and "?tok \<in> sc_client_id ` set (auth_credentials s) \<longleftrightarrow> ?tok \<in> sc_client_id ` set (auth_credentials t)"
    using assms cred_wf_own_ids(1) [of g gc s fresh c] cred_wf_own_ids(1) [of g gc t fresh c]
      cred_wf_own_ids(2) [of g gc s ?tok c] cred_wf_own_ids(2) [of g gc t ?tok c]
    by (simp_all add: cred_view_def)
  then show ?thesis
    using assms(3) by (simp add: issue_credential_def Let_def attempt_def add_credential_eq cred_view_def
        split: sum.split)
qed

lemma authenticate_credential_local:
  assumes "cred_wf g gc s" and "cred_wf g gc t" and "cred_view c s = cred_view c t" and "gc cid = c"
  shows "cred_view c (snd (authenticate_credential h cid secret now s)) =
    cred_view c (snd (authenticate_credential h cid secret now t))"
proof -
  have eq: "find_by_client_id s cid = find_by_client_id t cid"
    using assms by (intro find_by_client_id_local) (auto simp: cred_view_def)
  have "rows_of c (row_set (auth_credentials s) i (\<lambda>x. x\<lparr>sc_last_used := Some now\<rparr>)) =
      rows_of c (row_set (auth_credentials t) i (\<lambda>x. x\<lparr>sc_last_used := Some now\<rparr>))" for i
    using assms(3) by (simp add: rows_of_row_set cred_view_def)
  with eq assms(3) show ?thesis
    by (simp add: authenticate_credential_def attempt_def cred_view_def Let_def split: sum.split option.split)
qed

lemma revoke_credential_local:
  assumes "cred_wf g gc s" and "cred_wf g gc t" and "cred_view c s = cred_view c t" and "tc_tenant ctx = c"
  shows "cred_view c (snd (revoke_credential cid ctx now s)) = cred_view c (snd (revoke_credential cid ctx now t))"
proof -
  have "repo_require (auth_credentials s) cid ctx = repo_require (auth_credentials t) cid ctx"
    using assms by (intro repo_require_rows_of [where g = g]) (simp_all add: cred_wf_def cred_view_def)
  moreover have "rows_of c (row_set (auth_credentials s) i (\<lambda>x. x\<lparr>sc_active := False, sc_revoked := Some now\<rparr>)) =
      rows_of c (row_set (auth_credentials t) i (\<lambda>x. x\<lparr>sc_active := False, sc_revoked := Some now\<rparr>))" for i
    using assms(3) by (simp add: rows_of_row_set cred_view_def)
  ultimately show ?thesis
    using assms(3)
    by (cases "repo_require (auth_credentials t) cid ctx")
      (simp_all add: revoke_credential_def attempt_def cred_view_def del: repo_require_Inr_iff)
qed

lemma cred_step_local:
  assumes "cred_wf g gc s" and "cred_wf g gc t" and "cred_op_of g gc x c" and "cred_view c s = cred_view c t"
  shows "cred_view c (cred_step h x c s) = cred_view c (cred_step h x c t)"
  using assms issue_credential_local authenticate_credential_local revoke_credential_local
  by (cases x) simp_all

interpretation cred: tenant_isolated "cred_step h" cred_view "cred_wf g gc" "cred_op_of g gc"
  for h :: "string \<Rightarrow> string" and g :: "uuid \<Rightarrow> uuid" and gc :: "string \<Rightarrow> uuid"
  by unfold_locales (auto intro: cred_wf_step cred_step_frame cred_step_local)

subsection \<open>Properties\<close>

definition empty_auth_db :: auth_db where
  "empty_auth_db = \<lparr>audit_log = [], auth_credentials = [], auth_bound = None\<rparr>"

lemma cred_wf_empty: "cred_wf g gc empty_auth_db"
  by (simp add: cred_wf_def empty_auth_db_def)

definition ctx_a :: tenant_context where
  "ctx_a = \<lparr>tc_tenant = 1, tc_principal = 10, tc_roles = {}, tc_scopes = {}, tc_correlation = None,
     tc_principal_type = ''human''\<rparr>"

definition ctx_b :: tenant_context where
  "ctx_b = ctx_a\<lparr>tc_tenant := 2, tc_principal := 20\<rparr>"

text \<open>
  Whatever operations on service credentials the tenants of the platform interleave, from
  the empty table a tenant's credentials and its audit trail are what they would be had the
  other tenants' operations not happened at all.
\<close>

theorem credentials_noninterference:
  "\<forall>(x, c) \<in> set ops. cred_op_of g gc x c \<Longrightarrow>
    cred_view t (run_steps (cred_step h) ops empty_auth_db) =
    cred_view t (run_steps (cred_step h) (filter (\<lambda>xc. snd xc = t) ops) empty_auth_db)"
  by (rule cred.run_purge [OF cred_wf_empty cred_wf_empty]) simp_all

theorem credentials_noninterference_witness:
  "cred_view 1 (run_steps (cred_step rev)
      [(OpIssue ctx_a ''vms'' [''tenant:read''] None 5 100 ''s'' ''a'', 1),
       (OpIssue ctx_b ''erp'' [''audit:read''] None 5 200 ''t'' ''b'', 2),
       (OpAuthenticate ''hrpt_svc_a'' ''s'' 6, 1)] empty_auth_db) =
   cred_view 1 (run_steps (cred_step rev)
      [(OpIssue ctx_a ''vms'' [''tenant:read''] None 5 100 ''s'' ''a'', 1),
       (OpAuthenticate ''hrpt_svc_a'' ''s'' 6, 1)] empty_auth_db)"
  using credentials_noninterference
    [of "[(OpIssue ctx_a ''vms'' [''tenant:read''] None 5 100 ''s'' ''a'', 1),
       (OpIssue ctx_b ''erp'' [''audit:read''] None 5 200 ''t'' ''b'', 2),
       (OpAuthenticate ''hrpt_svc_a'' ''s'' 6, 1)]"
      "\<lambda>i. if i = 100 then 1 else 2" "\<lambda>s. if s = ''hrpt_svc_a'' then 1 else 2" 1 rev]
  by (simp add: ctx_a_def ctx_b_def)

lemma authenticate_credential_iff:
  assumes "cred_wf g gc db"
  shows "(\<exists>r. fst (authenticate_credential h cid secret now db) = Inr r) \<longleftrightarrow>
    (\<exists>r \<in> set (auth_credentials db). sc_client_id r = cid \<and> h secret = sc_secret_hash r \<and>
       sc_active r \<and> (\<forall>e. sc_expires r = Some e \<longrightarrow> now < e))"
proof -
  have d: "distinct (map sc_client_id (auth_credentials db))" using assms by (simp add: cred_wf_def)
  show ?thesis
  proof (cases rule: find_by_client_id_total [OF d, of cid])
    case 1
    then show ?thesis by (auto simp: authenticate_credential_unknown)
  next
    case (2 r)
    have only: "(\<exists>r' \<in> set (auth_credentials db). sc_client_id r' = cid \<and> P r') \<longleftrightarrow> P r" for P
      using d 2 by (metis inj_on_def distinct_map)
    show ?thesis
      unfolding only
      by (cases rule: authenticate_credential_found [OF 2(1), of h secret now]) simp_all
  qed
qed

text \<open>A revoked credential: some row with the client id, and it is inactive.\<close>

definition is_revoked :: "string \<Rightarrow> 'z auth_db_scheme \<Rightarrow> bool" where
  "is_revoked cid db \<longleftrightarrow> (\<exists>r \<in> set (auth_credentials db). sc_client_id r = cid \<and> \<not> sc_active r)"

lemma is_revoked_row_set:
  assumes "is_revoked cid db" and "\<And>r. sc_client_id (f r) = sc_client_id r"
    and "\<And>r. \<not> sc_active r \<Longrightarrow> \<not> sc_active (f r)"
    and "auth_credentials db' = row_set (auth_credentials db) i f"
  shows "is_revoked cid db'"
proof -
  from assms(1) obtain r where r: "r \<in> set (auth_credentials db)" "sc_client_id r = cid" "\<not> sc_active r"
    by (auto simp: is_revoked_def)
  then have "(if row_id r = i then f r else r) \<in> set (auth_credentials db')"
    unfolding assms(4) row_set_def by (auto intro: rev_image_eqI)
  moreover have "sc_client_id (if row_id r = i then f r else r) = cid"
    and "\<not> sc_active (if row_id r = i then f r else r)"
    using r assms(2,3) by simp_all
  ultimately show ?thesis unfolding is_revoked_def by blast
qed

lemma is_revoked_step:
  assumes "cred_wf g gc db" and "is_revoked cid db"
  shows "is_revoked cid (cred_step h x c db)"
proof (cases x)
  case (OpIssue ctx name scopes expires now fresh secret token)
  with assms show ?thesis
    by (cases rule: issue_credential_cases [of h ctx name scopes expires now fresh secret token db])
      (auto simp: is_revoked_def)
next
  case (OpAuthenticate cid' secret now)
  have d: "distinct (map sc_client_id (auth_credentials db))" using assms by (simp add: cred_wf_def)
  show ?thesis
  proof (cases rule: find_by_client_id_total [OF d, of cid'])
    case 1
    with OpAuthenticate assms show ?thesis by (simp add: authenticate_credential_unknown is_revoked_def)
  next
    case (2 r)
    show ?thesis
    proof (cases rule: authenticate_credential_found [OF 2(1), of h secret now])
      case (1 e ev db')
      with assms OpAuthenticate show ?thesis by (simp add: is_revoked_def)
    next
      case (2 ev db')
      then have eq: "auth_credentials (cred_step h x c db) =
          row_set (auth_credentials db) (row_id r) (\<lambda>x. x\<lparr>sc_last_used := Some now\<rparr>)"
        by (simp add: OpAuthenticate)
      show ?thesis by (rule is_revoked_row_set [OF assms(2) _ _ eq]) simp_all
    qed
  qed
next
  case (OpRevoke ctx i now)
  show ?thesis
  proof (cases rule: revoke_credential_cases [of i ctx now db])
    case 1
    with assms OpRevoke show ?thesis by simp
  next
    case (2 r ev)
    then have eq: "auth_credentials (cred_step h x c db) =
        row_set (auth_credentials db) i (\<lambda>x. x\<lparr>sc_active := False, sc_revoked := Some now\<rparr>)"
      by (simp add: OpRevoke)
    show ?thesis by (rule is_revoked_row_set [OF assms(2) _ _ eq]) simp_all
  qed
qed

lemma is_revoked_run:
  "cred_wf g gc db \<Longrightarrow> is_revoked cid db \<Longrightarrow> \<forall>(x, c) \<in> set ops. cred_op_of g gc x c \<Longrightarrow>
    is_revoked cid (run_steps (cred_step h) ops db)"
proof (induction ops arbitrary: db)
  case (Cons xc ops)
  then show ?case by (cases xc) (auto intro: cred_wf_step is_revoked_step)
qed simp

text \<open>
  C19: revocation is final. Once a credential has been revoked, no later exchange with its
  client id succeeds, with whatever secret and at whatever time, and whatever operations any
  tenant performs in between.
\<close>

theorem revoked_credential_never_authenticates:
  assumes wf: "cred_wf g gc db" and rev: "revoke_credential i ctx now db = (Inr r, db')"
    and ops: "\<forall>(x, c) \<in> set ops. cred_op_of g gc x c"
  shows "\<exists>e. fst (authenticate_credential h (sc_client_id r) secret later
    (run_steps (cred_step h) ops db')) = Inl e"
proof -
  from rev have db': "db' = cred_step h (OpRevoke ctx i now) (tc_tenant ctx) db" by simp
  have wf': "cred_wf g gc db'" unfolding db' by (rule cred_wf_step [OF wf]) simp
  have "is_revoked (sc_client_id r) db'"
    using rev by (cases rule: revoke_credential_cases [of i ctx now db])
      (auto simp: is_revoked_def row_set_def)
  from is_revoked_run [OF wf' this ops]
  have revd: "is_revoked (sc_client_id r) (run_steps (cred_step h) ops db')" .
  have wf'': "cred_wf g gc (run_steps (cred_step h) ops db')"
    using wf' ops by (rule cred.run_inv)
  then have d: "distinct (map sc_client_id (auth_credentials (run_steps (cred_step h) ops db')))"
    by (simp add: cred_wf_def)
  have "\<not> (\<exists>r'. fst (authenticate_credential h (sc_client_id r) secret later
      (run_steps (cred_step h) ops db')) = Inr r')"
    unfolding authenticate_credential_iff [OF wf''] using revd d
    by (metis is_revoked_def inj_on_def distinct_map)
  then show ?thesis by (metis sum.exhaust)
qed

definition sample_credential :: service_credential where
  "sample_credential = \<lparr>row_id = 100, row_tenant = Some 1, sc_name = ''vms'', sc_client_id = ''hrpt_svc_a'',
     sc_secret_hash = ''s'', sc_scopes = [''tenant:read''], sc_active = True, sc_expires = None,
     sc_last_used = None, sc_revoked = None\<rparr>"

definition sample_auth_db :: auth_db where
  "sample_auth_db = \<lparr>audit_log = [], auth_credentials = [sample_credential], auth_bound = None\<rparr>"

lemma sample_auth_db_wf: "cred_wf (\<lambda>_. 1) (\<lambda>_. 1) sample_auth_db"
  by (simp add: cred_wf_def sample_auth_db_def sample_credential_def table_wf_def
      grantable_scopes_def all_scopes_def)

theorem revoked_credential_never_authenticates_witness:
  "\<exists>e. fst (authenticate_credential (\<lambda>s. s) ''hrpt_svc_a'' ''s'' 50
     (run_steps (cred_step (\<lambda>s. s)) [(OpAuthenticate ''hrpt_svc_a'' ''s'' 20, 1)]
       (snd (revoke_credential 100 ctx_a 10 sample_auth_db)))) = Inl e"
proof -
  let ?db' = "snd (revoke_credential 100 ctx_a 10 sample_auth_db)"
  let ?r = "sample_credential\<lparr>sc_active := False, sc_revoked := Some 10\<rparr>"
  have "revoke_credential 100 ctx_a 10 sample_auth_db = (Inr ?r, ?db')"
    by (simp add: revoke_credential_def repo_require_def repo_get_def session_get_def
        sample_auth_db_def sample_credential_def ctx_a_def)
  from revoked_credential_never_authenticates [OF sample_auth_db_wf this,
      of "[(OpAuthenticate ''hrpt_svc_a'' ''s'' 20, 1)]" "\<lambda>s. s" "''s''" 50]
  show ?thesis by (simp add: sample_credential_def)
qed

subsection \<open>The exchange end to end\<close>

lemma exchange_token_cases:
  assumes "exchange_service_token h enc s cid secret ip corr tick now issued jti limits db =
      (TokenResponse tok ttl scopes, limits', db')" and "cred_wf g gc db"
  obtains r where "r \<in> set (auth_credentials db)" "sc_client_id r = cid" "sc_active r"
    "h secret = sc_secret_hash r"
    "tok = issue_service_token enc s (the (row_tenant r)) (row_id r) (sc_scopes r) issued jti"
proof -
  from assms(1) obtain r' db1 where auth: "authenticate_credential h cid secret now db = (Inr r', db1)"
    and tok: "tok = issue_service_token enc s (the (row_tenant r')) (row_id r') (sc_scopes r') issued jti"
    by (auto simp: exchange_service_token_def split: prod.splits sum.splits exn.splits)
  have d: "distinct (map sc_client_id (auth_credentials db))" using assms(2) by (simp add: cred_wf_def)
  show thesis
  proof (cases rule: find_by_client_id_total [OF d, of cid])
    case 1
    with auth show thesis by (simp add: authenticate_credential_unknown)
  next
    case (2 r)
    show thesis
      by (cases rule: authenticate_credential_found [OF 2(1), of h secret now])
        (use that [of r] 2 auth tok in auto)
  qed
qed

text \<open>
  A service token is confined to its credential. A token the exchange endpoint returns
  verifies, while it has not expired, to a context of the tenant that owns the credential,
  whatever tenant the request's headers name; its principal is the credential, it is refused
  where a human is required, and the two scopes that would let it govern the tenant or mint
  credentials are refused too.
\<close>

theorem exchanged_token_is_confined:
  assumes wf: "cred_wf g gc db" and jwt: "jwt_contract enc dec"
    and ex: "exchange_service_token h enc s cid secret ip corr tick now issued jti limits db =
      (TokenResponse tok ttl scopes, limits', db')"
    and t: "issued \<le> later + set_jwt_leeway s" "later - set_jwt_leeway s < issued + set_service_ttl s"
  shows "\<exists>r b. r \<in> set (auth_credentials db) \<and> sc_client_id r = cid \<and>
    get_tenant_context dec s later \<lparr>req_headers = hs, req_bearer = Some tok, req_correlation = corr'\<rparr> = Inr b \<and>
    row_tenant r = Some (tc_tenant (bc_context b)) \<and> bc_rls_tenant b = tc_tenant (bc_context b) \<and>
    tc_principal (bc_context b) = row_id r \<and> tc_scopes (bc_context b) = set (sc_scopes r) \<and>
    (\<exists>e. require_human (bc_context b) = Inl e) \<and>
    (\<exists>e. require_scopes [TENANT_ADMIN] (bc_context b) = Inl e) \<and>
    (\<exists>e. require_scopes [SERVICE_CREDENTIAL_MANAGE] (bc_context b) = Inl e)"
proof -
  from ex wf obtain r where r: "r \<in> set (auth_credentials db)" "sc_client_id r = cid"
    and tok: "tok = issue_service_token enc s (the (row_tenant r)) (row_id r) (sc_scopes r) issued jti"
    by (rule exchange_token_cases)
  from r wf have ten: "row_tenant r = Some (the (row_tenant r))"
    and gr: "set (sc_scopes r) \<subseteq> set grantable_scopes"
    by (auto simp: cred_wf_def)
  from gr have no: "\<not> scope_value ` set [TENANT_ADMIN] \<subseteq> set (sc_scopes r)"
      "\<not> scope_value ` set [SERVICE_CREDENTIAL_MANAGE] \<subseteq> set (sc_scopes r)"
    by (auto simp: grantable_scopes_def all_scopes_def)
  let ?ctx = "\<lparr>tc_tenant = the (row_tenant r), tc_principal = row_id r, tc_roles = {},
    tc_scopes = set (sc_scopes r), tc_correlation = corr', tc_principal_type = ''service''\<rparr>"
  have get: "get_tenant_context dec s later \<lparr>req_headers = hs, req_bearer = Some tok, req_correlation = corr'\<rparr> =
      Inr \<lparr>bc_context = ?ctx, bc_rls_tenant = tc_tenant ?ctx, bc_request_tenant = tc_tenant ?ctx\<rparr>"
    using verify_signed_token [OF jwt t]
    by (simp add: get_tenant_context_def get_bearer_token_def tok issue_service_token_def
        context_of_claims_def Let_def)
  have "\<exists>e. require_scopes [x] ?ctx = Inl e" if "\<not> scope_value ` set [x] \<subseteq> set (sc_scopes r)" for x
    using that require_scopes_Inr_iff [of "[x]" ?ctx] by (cases "require_scopes [x] ?ctx") auto
  with no get r ten show ?thesis
    by (intro exI [of _ r] exI [of _ "\<lparr>bc_context = ?ctx, bc_rls_tenant = tc_tenant ?ctx,
        bc_request_tenant = tc_tenant ?ctx\<rparr>"]) (simp add: require_human_def)
qed

text \<open>A codec that satisfies the contract: the token is its payload with key and algorithm.\<close>

definition sample_enc :: "(payload \<times> string \<times> string) jwt_encoder" where
  "sample_enc p k a = (p, k, a)"

definition sample_dec :: "(payload \<times> string \<times> string) jwt_decoder" where
  "sample_dec tok k a iss aud leeway req now =
     (case tok of (p, k', a') \<Rightarrow>
        if k' \<noteq> k \<or> a' \<noteq> a then Inl InvalidSignature
        else if list_ex (\<lambda>c. dict_get p c = None) req then Inl MissingRequiredClaim
        else if dict_get p ''iss'' \<noteq> Some (JStr iss) then Inl InvalidIssuer
        else if dict_get p ''aud'' \<noteq> Some (JStr aud) then Inl InvalidAudience
        else (case dict_get p ''exp'' of
            Some (JInt e) \<Rightarrow> if now - leeway < e then Inr p else Inl ExpiredSignature
          | _ \<Rightarrow> Inl OtherJWTError))"

lemma sample_jwt_contract: "jwt_contract sample_enc sample_dec"
  by (auto simp: jwt_contract_def sample_enc_def sample_dec_def list_ex_iff)

definition sample_settings :: settings where
  "sample_settings = \<lparr>set_environment = LOCAL, set_database_url = ''postgresql://db'',
     set_log_level = ''INFO'', set_secret_backend = ''local'', set_gcp_project = [],
     set_jwt_secret = ''k'', set_jwt_algorithm = ''HS256'', set_jwt_issuer = ''i'',
     set_jwt_audience = ''a'', set_jwt_leeway = 5, set_access_ttl = 900, set_service_ttl = 3600\<rparr>"

lemma sample_exchange:
  "\<exists>tok ttl scopes limits' db'. exchange_service_token (\<lambda>s. s) sample_enc sample_settings ''hrpt_svc_a'' ''s''
     ''ip'' None 100 1000 1000 ''j'' initial_limiters sample_auth_db = (TokenResponse tok ttl scopes, limits', db')"
  by (simp add: exchange_service_token_def check_limits_def rate_check_def initial_limiters_def Let_def
      authenticate_credential_def find_by_client_id_def sample_auth_db_def sample_credential_def
      del: split_paired_Ex)

theorem exchanged_token_is_confined_witness:
  "\<exists>tok. \<exists>r b. r \<in> set (auth_credentials sample_auth_db) \<and> sc_client_id r = ''hrpt_svc_a'' \<and>
    get_tenant_context sample_dec sample_settings 2000
      \<lparr>req_headers = [(''X-Tenant-Id'', ''2'')], req_bearer = Some tok, req_correlation = None\<rparr> = Inr b \<and>
    row_tenant r = Some (tc_tenant (bc_context b)) \<and>
    (\<exists>e. require_human (bc_context b) = Inl e)"
proof -
  from sample_exchange obtain tok ttl scopes limits' db' where
    "exchange_service_token (\<lambda>s. s) sample_enc sample_settings ''hrpt_svc_a'' ''s''
       ''ip'' None 100 1000 1000 ''j'' initial_limiters sample_auth_db = (TokenResponse tok ttl scopes, limits', db')"
    by blast
  note ex = this
  have t: "(1000::int) \<le> 2000 + set_jwt_leeway sample_settings"
      "2000 - set_jwt_leeway sample_settings < 1000 + set_service_ttl sample_settings"
    by (simp_all add: sample_settings_def)
  from exchanged_token_is_confined [OF sample_auth_db_wf sample_jwt_contract ex t,
      of "[(''X-Tenant-Id'', ''2'')]" None]
  show ?thesis by (elim exE conjE, intro exI conjI) assumption+
qed

text \<open>
  What a refused exchange leaves behind. The endpoint does not commit when the service
  raises, so the denial the service recorded against the credential's tenant is rolled back:
  a refused exchange changes neither the credentials nor any tenant's audit trail, and the
  one event that is added names no tenant.
\<close>

theorem refused_exchange_leaves_no_tenant_event:
  assumes "exchange_service_token h enc s cid secret ip corr tick now issued jti limits db = (Unauthorized, limits', db')"
  shows "auth_credentials db' = auth_credentials db \<and> (\<forall>c. events_of c db' = events_of c db) \<and>
    (\<exists>reason. audit_log db' =
       audit_log db @ [auth_failure_event corr reason ''/v1/auth/service-token''])"
  using assms
  by (auto simp: exchange_service_token_def split: prod.splits sum.splits exn.splits)

theorem refused_exchange_leaves_no_tenant_event_witness:
  "\<exists>limits' db'. exchange_service_token (\<lambda>s. s) sample_enc sample_settings ''hrpt_svc_a'' ''wrong''
     ''ip'' None 100 1000 1000 ''j'' initial_limiters sample_auth_db = (Unauthorized, limits', db') \<and>
   events_of 1 db' = []"
proof -
  obtain limits' db' where ex: "exchange_service_token (\<lambda>s. s) sample_enc sample_settings ''hrpt_svc_a'' ''wrong''
     ''ip'' None 100 1000 1000 ''j'' initial_limiters sample_auth_db = (Unauthorized, limits', db')"
    by (simp add: exchange_service_token_def check_limits_def rate_check_def initial_limiters_def Let_def
        authenticate_credential_def find_by_client_id_def sample_auth_db_def sample_credential_def)
  from refused_exchange_leaves_no_tenant_event [OF ex] ex show ?thesis
    by (auto simp: sample_auth_db_def events_of_def)
qed

end
