(* ===== verification/QueryGuard.thy ===== *)
theory QueryGuard
  imports Errors
begin

section \<open>The query guard\<close>

text \<open>
  \<open>hermes_rpt/connectors/query_guard.py\<close>: the shape check on statements and the allowlist
  check on objects. The two regular expressions are anchored alternations of keywords followed
  by a word boundary, compared without case, so a match is a keyword that is a prefix of the
  statement and is not continued by a word character.
\<close>

definition leading_keyword :: "string \<Rightarrow> string \<Rightarrow> bool" where
  "leading_keyword kw s \<longleftrightarrow>
     str_upper (take (length kw) s) = kw \<and>
     (case drop (length kw) s of [] \<Rightarrow> True | c # _ \<Rightarrow> \<not> is_word_char c)"

definition write_or_ddl_keywords :: "string list" where
  "write_or_ddl_keywords = [''INSERT'', ''UPDATE'', ''DELETE'', ''MERGE'', ''UPSERT'', ''CREATE'',
     ''ALTER'', ''DROP'', ''TRUNCATE'', ''GRANT'', ''REVOKE'', ''CALL'', ''COPY'', ''VACUUM'',
     ''EXECUTE'', ''DO'']"

definition allowed_leading_keywords :: "string list" where
  "allowed_leading_keywords = [''SELECT'', ''WITH'', ''EXPLAIN'']"

definition re_match :: "string list \<Rightarrow> string \<Rightarrow> bool" where
  "re_match kws s \<longleftrightarrow> list_ex (\<lambda>kw. leading_keyword kw (dropWhile is_space s)) kws"

definition assert_read_only_statement :: "string \<Rightarrow> exn + unit" where
  "assert_read_only_statement sql =
     (let stripped = str_strip sql
      in if re_match write_or_ddl_keywords stripped then Inl WriteStatementRejectedError
         else if \<not> re_match allowed_leading_keywords stripped then Inl WriteStatementRejectedError
         else Inr ())"

definition assert_object_allowed :: "string \<Rightarrow> string option \<Rightarrow> string list \<Rightarrow> string list \<Rightarrow> exn + unit" where
  "assert_object_allowed schema table schemas tables =
     (if schema \<notin> set schemas then Inl (DisallowedObjectError schema table)
      else case table of
          None \<Rightarrow> Inr ()
        | Some t \<Rightarrow> if t \<notin> set tables then Inl (DisallowedObjectError schema table) else Inr ())"

subsection \<open>The guard reads the first word\<close>

text \<open>The reference: the longest run of word characters at the start of the statement.\<close>

definition first_word :: "string \<Rightarrow> string" where
  "first_word s = str_upper (takeWhile is_word_char (dropWhile is_space s))"

lemma upper_word_char: "is_word_char (to_upper_char c) \<longleftrightarrow> is_word_char c"
proof (cases "is_lower_ascii c")
  case True
  then have n: "(of_char c :: nat) - 32 < 256" "97 \<le> (of_char c :: nat)" "(of_char c :: nat) \<le> 122"
    by (auto simp: is_lower_ascii_def)
  then have "(of_char (char_of ((of_char c :: nat) - 32) :: char) :: nat) = of_char c - 32"
    by simp
  moreover from n have "65 \<le> (of_char c :: nat) - 32" "(of_char c :: nat) - 32 \<le> 90"
    by arith+
  ultimately show ?thesis using True
    by (simp add: to_upper_char_def is_word_char_def is_upper_ascii_def)
qed (simp add: to_upper_char_def)

lemma leading_keyword_takeWhile:
  assumes "\<forall>c \<in> set kw. is_word_char c"
  shows "leading_keyword kw s \<longleftrightarrow> str_upper (takeWhile is_word_char s) = kw"
proof
  assume l: "leading_keyword kw s"
  then have up: "map to_upper_char (take (length kw) s) = kw"
    by (simp add: leading_keyword_def str_upper_def)
  then have "\<forall>c \<in> set (take (length kw) s). is_word_char c"
    using assms upper_word_char by (metis imageI list.set_map)
  then have "takeWhile is_word_char (take (length kw) s @ drop (length kw) s) =
      take (length kw) s @ takeWhile is_word_char (drop (length kw) s)"
    by (intro takeWhile_append2) blast
  moreover have "takeWhile is_word_char (drop (length kw) s) = []"
    using l by (auto simp: leading_keyword_def split: list.splits)
  ultimately show "str_upper (takeWhile is_word_char s) = kw"
    using up by (simp add: str_upper_def)
next
  assume r: "str_upper (takeWhile is_word_char s) = kw"
  then have len: "length kw = length (takeWhile is_word_char s)"
    by (auto simp: str_upper_def)
  have "take (length kw) s = takeWhile is_word_char s"
    using len takeWhile_eq_take [of is_word_char s] by simp
  moreover have "drop (length kw) s = dropWhile is_word_char s"
    using len dropWhile_eq_drop [of is_word_char s] by simp
  moreover have "\<not> is_word_char c" if "dropWhile is_word_char s = c # cs" for c cs
    using that by (metis hd_dropWhile list.distinct(1) list.sel(1))
  ultimately show "leading_keyword kw s"
    using r by (auto simp: leading_keyword_def split: list.split)
qed

lemma re_match_first_word:
  "\<forall>kw \<in> set kws. \<forall>c \<in> set kw. is_word_char c \<Longrightarrow> re_match kws s \<longleftrightarrow> first_word s \<in> set kws"
  by (auto simp: re_match_def list_ex_iff first_word_def leading_keyword_takeWhile)

lemma keywords_word_chars:
  "\<forall>kw \<in> set write_or_ddl_keywords. \<forall>c \<in> set kw. is_word_char c"
  "\<forall>kw \<in> set allowed_leading_keywords. \<forall>c \<in> set kw. is_word_char c"
  by (simp_all add: write_or_ddl_keywords_def allowed_leading_keywords_def is_word_char_def is_upper_ascii_def)

lemma keywords_disjoint: "set allowed_leading_keywords \<inter> set write_or_ddl_keywords = {}"
  by (simp add: write_or_ddl_keywords_def allowed_leading_keywords_def)

text \<open>
  What the two regular expressions decide. A statement passes the guard exactly when its
  first word, in upper case, is \<open>SELECT\<close>, \<open>WITH\<close> or \<open>EXPLAIN\<close>; in particular the
  deny-list never matters, and the rest of the statement is not looked at.
\<close>

theorem read_only_guard_reads_first_word:
  "assert_read_only_statement sql =
     (if first_word (str_strip sql) \<in> {''SELECT'', ''WITH'', ''EXPLAIN''} then Inr ()
      else Inl WriteStatementRejectedError)"
proof -
  have allowed: "set allowed_leading_keywords = {''SELECT'', ''WITH'', ''EXPLAIN''}"
    by (simp only: allowed_leading_keywords_def list.set)
  show ?thesis
    unfolding assert_read_only_statement_def Let_def allowed [symmetric]
      re_match_first_word [OF keywords_word_chars(1)] re_match_first_word [OF keywords_word_chars(2)]
    using keywords_disjoint by (auto split: if_split)
qed

text \<open>A leading comment is refused, and a data-modifying common table expression passes.\<close>

lemma guard_examples:
  "assert_read_only_statement ''-- note'' = Inl WriteStatementRejectedError"
  "assert_read_only_statement ''with d as (delete from t) select 1'' = Inr ()"
  by (code_simp, code_simp)

lemma object_allowed_iff:
  "assert_object_allowed schema table schemas tables = Inr () \<longleftrightarrow>
    schema \<in> set schemas \<and> (\<forall>t. table = Some t \<longrightarrow> t \<in> set tables)"
  by (simp add: assert_object_allowed_def split: option.split)

end
