(* ===== verification/SecretStore.thy ===== *)
theory SecretStore
  imports Errors
begin

section \<open>Secret providers\<close>

text \<open>
  \<open>hermes_rpt/secrets/provider.py\<close>: the interface \<open>SecretProvider\<close> as a locale, what the
  connection lifecycle relies on of it, and the in-process provider, a dictionary from
  reference keys to secrets. A new reference key is \<open>local-dev:\<close> followed by a fresh UUID.
\<close>

type_synonym secrets = "(string, string) dict"

definition local_reference_key :: "string \<Rightarrow> string" where
  "local_reference_key u = ''local-dev:'' @ u"

definition local_store :: "string \<Rightarrow> string \<Rightarrow> secrets \<Rightarrow> string \<times> secrets" where
  "local_store u secret s = (let k = local_reference_key u in (k, dict_put k secret s))"

definition local_resolve :: "string \<Rightarrow> secrets \<Rightarrow> exn + string" where
  "local_resolve k s = (case dict_get s k of None \<Rightarrow> Inl (SecretNotFoundError k) | Some v \<Rightarrow> Inr v)"

definition dict_pop :: "'k \<Rightarrow> ('k, 'v) dict \<Rightarrow> ('k, 'v) dict" where
  "dict_pop k d = filter (\<lambda>kv. fst kv \<noteq> k) d"

definition local_delete :: "string \<Rightarrow> secrets \<Rightarrow> secrets" where
  "local_delete k s = dict_pop k s"

lemma dict_get_pop [simp]: "dict_get (dict_pop k d) k' = (if k' = k then None else dict_get d k')"
  by (induction d) (auto simp: dict_get_def dict_pop_def)

text \<open>
  The contract. A stored secret resolves under the key returned, storing and deleting leave
  the other keys as they were, and a deleted key no longer resolves.
\<close>

locale secret_provider =
  fixes store :: "'f \<Rightarrow> string \<Rightarrow> 's \<Rightarrow> string \<times> 's"
    and resolve :: "string \<Rightarrow> 's \<Rightarrow> exn + string"
    and delete :: "string \<Rightarrow> 's \<Rightarrow> 's"
  assumes resolve_store: "store u v s = (k, s') \<Longrightarrow> resolve k s' = Inr v"
    and resolve_store_other: "store u v s = (k, s') \<Longrightarrow> k' \<noteq> k \<Longrightarrow> resolve k' s' = resolve k' s"
    and resolve_delete: "resolve k (delete k s) = Inl (SecretNotFoundError k)"
    and resolve_delete_other: "k' \<noteq> k \<Longrightarrow> resolve k' (delete k s) = resolve k' s"
begin

lemma rotate_secret_store:
  assumes "store u v s = (k, s')" and "k \<noteq> old"
  shows "resolve k (delete old s') = Inr v"
    and "resolve old (delete old s') = Inl (SecretNotFoundError old)"
    and "k' \<noteq> k \<Longrightarrow> k' \<noteq> old \<Longrightarrow> resolve k' (delete old s') = resolve k' s"
  using assms by (simp_all add: resolve_delete resolve_delete_other resolve_store resolve_store_other)

lemma delete_idem: "resolve k' (delete k (delete k s)) = resolve k' (delete k s)"
  by (cases "k' = k") (simp_all add: resolve_delete resolve_delete_other)

end

interpretation local_dev: secret_provider local_store local_resolve local_delete
  by unfold_locales (auto simp: local_store_def local_resolve_def local_delete_def Let_def)

end
