(* ===== verification/Pools.thy ===== *)
theory Pools
  imports SecretStore
begin

section \<open>Connection targets, engines and the pool registry\<close>

text \<open>
  \<open>hermes_rpt/connectors/interfaces.py\<close>, \<open>postgres.py\<close>, \<open>health.py\<close> and
  \<open>pool_registry.py\<close>. An engine is what the repository passes to the library that builds
  it: the address, the limits, the TLS mode and the session defaults. Whether an engine can be
  reached is a parameter (\<open>probe\<close>), the safe summary of the driver's exception if not.
\<close>

record connection_target =
  ct_host :: string
  ct_port :: int
  ct_database :: string
  ct_username :: string
  ct_password :: string
  ct_tls_mode :: string

datatype tls = NoTLS | EncryptOnly | VerifyFull

record engine =
  en_target :: connection_target
  en_pool_size :: nat
  en_max_overflow :: nat
  en_pre_ping :: bool
  en_connect_timeout :: nat
  en_tls :: tls
  en_server_settings :: "(string \<times> string) list"

definition build_ssl_context :: "string \<Rightarrow> tls" where
  "build_ssl_context mode =
     (if mode = ''disable'' then NoTLS else if mode = ''require'' then EncryptOnly else VerifyFull)"

definition build_engine :: "connection_target \<Rightarrow> engine" where
  "build_engine t =
     \<lparr>en_target = t, en_pool_size = 2, en_max_overflow = 3, en_pre_ping = True,
      en_connect_timeout = 5, en_tls = build_ssl_context (ct_tls_mode t),
      en_server_settings = [(''default_transaction_read_only'', ''on''), (''statement_timeout'', ''10000'')]\<rparr>"

record health_result =
  hr_healthy :: bool
  hr_checked_at :: instant
  hr_error :: "string option"

text \<open>\<open>ConnectionHealthChecker.check\<close> over \<open>check_connectivity\<close>.\<close>

definition health_check :: "(engine \<Rightarrow> string option) \<Rightarrow> instant \<Rightarrow> engine \<Rightarrow> health_result" where
  "health_check probe now e =
     (case probe e of
        Some summary \<Rightarrow> \<lparr>hr_healthy = False, hr_checked_at = now, hr_error = Some summary\<rparr>
      | None \<Rightarrow> \<lparr>hr_healthy = True, hr_checked_at = now, hr_error = None\<rparr>)"

subsection \<open>The registry\<close>

type_synonym pool_key = "uuid \<times> uuid"

text \<open>The engines by tenant and connection, and the engines that were disposed of.\<close>

record pools =
  po_engines :: "(pool_key, engine) dict"
  po_disposed :: "engine list"

definition pool_get_or_create :: "pool_key \<Rightarrow> connection_target \<Rightarrow> pools \<Rightarrow> engine \<times> pools" where
  "pool_get_or_create k t p =
     (case dict_get (po_engines p) k of
        Some e \<Rightarrow> (e, p)
      | None \<Rightarrow> (let e = build_engine t in (e, p\<lparr>po_engines := dict_put k e (po_engines p)\<rparr>)))"

definition pool_get_existing :: "pool_key \<Rightarrow> pools \<Rightarrow> engine option" where
  "pool_get_existing k p = dict_get (po_engines p) k"

definition pool_evict :: "pool_key \<Rightarrow> pools \<Rightarrow> pools" where
  "pool_evict k p =
     (case dict_get (po_engines p) k of
        None \<Rightarrow> p
      | Some e \<Rightarrow> \<lparr>po_engines = dict_pop k (po_engines p), po_disposed = po_disposed p @ [e]\<rparr>)"

definition pool_evict_all_for_tenant :: "uuid \<Rightarrow> pools \<Rightarrow> pools" where
  "pool_evict_all_for_tenant t p =
     foldl (\<lambda>q k. pool_evict k q) p (filter (\<lambda>k. fst k = t) (map fst (po_engines p)))"

definition pool_count :: "pools \<Rightarrow> nat" where
  "pool_count p = length (po_engines p)"

text \<open>The contract of a registry of engines by key, and what its clients prove from it.\<close>

locale engine_registry =
  fixes create :: "'k \<Rightarrow> 't \<Rightarrow> 'p \<Rightarrow> 'e \<times> 'p"
    and existing :: "'k \<Rightarrow> 'p \<Rightarrow> 'e option"
    and evict :: "'k \<Rightarrow> 'p \<Rightarrow> 'p"
    and build :: "'t \<Rightarrow> 'e"
  assumes create_hit: "existing k p = Some e \<Longrightarrow> create k t p = (e, p)"
    and create_miss: "existing k p = None \<Longrightarrow> fst (create k t p) = build t"
    and existing_create: "existing k (snd (create k t p)) = Some (fst (create k t p))"
    and existing_create_other: "k' \<noteq> k \<Longrightarrow> existing k' (snd (create k t p)) = existing k' p"
    and existing_evict: "existing k (evict k p) = None"
    and existing_evict_other: "k' \<noteq> k \<Longrightarrow> existing k' (evict k p) = existing k' p"
begin

definition fresh_for :: "('k \<Rightarrow> 't option) \<Rightarrow> 'p \<Rightarrow> bool" where
  "fresh_for cur p \<longleftrightarrow> (\<forall>k e. existing k p = Some e \<longrightarrow> (\<exists>t. cur k = Some t \<and> e = build t))"

lemma create_fresh:
  assumes "fresh_for cur p" and "cur k = Some t"
  shows "fst (create k t p) = build t" and "fresh_for cur (snd (create k t p))"
proof -
  show b: "fst (create k t p) = build t"
  proof (cases "existing k p")
    case (Some e)
    with assms have "e = build t" unfolding fresh_for_def by force
    with Some show ?thesis by (simp add: create_hit)
  qed (simp add: create_miss)
  show "fresh_for cur (snd (create k t p))"
    unfolding fresh_for_def
  proof (intro allI impI)
    fix k' e assume "existing k' (snd (create k t p)) = Some e"
    then show "\<exists>t. cur k' = Some t \<and> e = build t"
      using assms b by (cases "k' = k") (auto simp: existing_create existing_create_other fresh_for_def)
  qed
qed

lemma evict_fresh:
  assumes "fresh_for cur p" and "\<And>k' t. k' \<noteq> k \<Longrightarrow> cur k' = Some t \<Longrightarrow> cur' k' = Some t"
  shows "fresh_for cur' (evict k p)"
  unfolding fresh_for_def
proof (intro allI impI)
  fix k' e assume "existing k' (evict k p) = Some e"
  then show "\<exists>t. cur' k' = Some t \<and> e = build t"
    using assms by (cases "k' = k") (force simp: existing_evict existing_evict_other fresh_for_def)+
qed

lemma fresh_for_cong:
  assumes "fresh_for cur p" and "\<And>k. existing k p \<noteq> None \<Longrightarrow> cur' k = cur k"
  shows "fresh_for cur' p"
  using assms unfolding fresh_for_def by (metis option.distinct(1))

end

interpretation registry: engine_registry pool_get_or_create pool_get_existing pool_evict build_engine
  by unfold_locales
    (auto simp: pool_get_or_create_def pool_get_existing_def pool_evict_def Let_def split: option.splits)

lemma build_engine_read_only:
  "map_of (en_server_settings (build_engine t)) ''default_transaction_read_only'' = Some ''on''"
  by (simp add: build_engine_def)

lemma evict_fold:
  "dict_get (po_engines (foldl (\<lambda>q k. pool_evict k q) p ks)) k =
    (if k \<in> set ks then None else dict_get (po_engines p) k)"
proof (induction ks arbitrary: p)
  case (Cons k' ks)
  have "dict_get (po_engines (pool_evict k' p)) k = (if k = k' then None else dict_get (po_engines p) k)"
    using registry.existing_evict [of k' p] registry.existing_evict_other [of k k' p]
    by (simp add: pool_get_existing_def)
  with Cons show ?case by (cases "k = k'") auto
qed simp

text \<open>
  Evicting a tenant. Afterwards the registry has no engine of that tenant left, and the
  engine of every other tenant's connection is the one it was.
\<close>

theorem evict_all_for_tenant_exact:
  "pool_get_existing (t, c) (pool_evict_all_for_tenant t' p) =
    (if t = t' then None else pool_get_existing (t, c) p)"
proof -
  have "dict_get (po_engines p) (t, c) = None" if "(t, c) \<notin> set (map fst (po_engines p))"
    using that by (simp add: dict_get_def map_of_eq_None_iff)
  then show ?thesis
    unfolding pool_evict_all_for_tenant_def pool_get_existing_def evict_fold by auto
qed

end
