(* ===== verification/Connections.thy ===== *)
theory Connections
  imports AuditTrail Pools
begin

section \<open>The connection lifecycle\<close>

text \<open>
  \<open>hermes_rpt/connectors/service.py\<close> with \<open>models.py\<close> and \<open>enums.py\<close>. The state adds the
  two metadata tables, the pool registry and the secret store; the last two are process
  memory, but their writes are in the order the code makes them. Generated identifiers, the
  clock and the outcome of probing an engine are arguments. The column \<open>version\<close>, maintained
  by the ORM, is left out.
\<close>

datatype database_engine = POSTGRESQL | MYSQL | MSSQL | ORACLE

fun engine_value :: "database_engine \<Rightarrow> string" where
  "engine_value POSTGRESQL = ''postgresql''"
| "engine_value MYSQL = ''mysql''"
| "engine_value MSSQL = ''mssql''"
| "engine_value ORACLE = ''oracle''"

datatype connection_status = PENDING_VALIDATION | CONN_ACTIVE | CONN_DISABLED | CONN_ERROR

record credential_ref = tenant_row +
  cr_provider :: string
  cr_key :: string
  cr_active :: bool
  cr_rotated :: "instant option"

record connection = tenant_row +
  cn_name :: string
  cn_engine :: database_engine
  cn_host :: string
  cn_port :: int
  cn_database :: string
  cn_username :: string
  cn_tls_mode :: string
  cn_credential :: uuid
  cn_status :: connection_status
  cn_schemas :: "string list"
  cn_tables :: "string list"
  cn_validated_at :: "instant option"
  cn_last_error :: "string option"

record conn_db = audit_db +
  db_connections :: "connection list"
  db_credential_refs :: "credential_ref list"
  db_pools :: pools
  db_secrets :: secrets

record connection_spec =
  sp_name :: string
  sp_engine :: database_engine
  sp_host :: string
  sp_port :: int
  sp_database :: string
  sp_username :: string
  sp_secret :: string
  sp_tls_mode :: string
  sp_schemas :: "string list option"
  sp_tables :: "string list option"

subsection \<open>Operations\<close>

definition connection_event ::
  "tenant_context \<Rightarrow> string \<Rightarrow> audit_outcome \<Rightarrow> uuid \<Rightarrow> (string \<times> json) list \<Rightarrow> audit_event" where
  "connection_event ctx action outcome i details =
     audit_for ctx action outcome ''CustomerDatabaseConnection'' i details"

definition register_connection ::
  "tenant_context \<Rightarrow> connection_spec \<Rightarrow> string \<Rightarrow> uuid \<Rightarrow> uuid \<Rightarrow> 'z conn_db_scheme \<Rightarrow>
   (exn + connection) \<times> 'z conn_db_scheme" where
  "register_connection ctx sp u fresh_ref fresh_conn db =
     (let (key, secrets) = local_store u (sp_secret sp) (db_secrets db);
          db1 = db\<lparr>db_secrets := secrets\<rparr>
      in attempt (repo_add (db_credential_refs db1)
             \<lparr>row_id = fresh_ref, row_tenant = None, cr_provider = ''local_dev'', cr_key = key,
              cr_active = True, cr_rotated = None\<rparr> ctx) db1 (\<lambda>(cred, refs).
         (let db2 = db1\<lparr>db_credential_refs := refs\<rparr>
          in attempt (repo_add (db_connections db2)
               \<lparr>row_id = fresh_conn, row_tenant = None, cn_name = sp_name sp, cn_engine = sp_engine sp,
                cn_host = sp_host sp, cn_port = sp_port sp, cn_database = sp_database sp,
                cn_username = sp_username sp, cn_tls_mode = sp_tls_mode sp,
                cn_credential = row_id cred, cn_status = PENDING_VALIDATION,
                cn_schemas = (case sp_schemas sp of None \<Rightarrow> [] | Some l \<Rightarrow> l),
                cn_tables = (case sp_tables sp of None \<Rightarrow> [] | Some l \<Rightarrow> l),
                cn_validated_at = None, cn_last_error = None\<rparr> ctx) db2 (\<lambda>(conn, conns).
             (Inr conn,
              audit_record (connection_event ctx ''connection.register'' SUCCESS (row_id conn)
                  [(''name'', JStr (sp_name sp)), (''engine'', JStr (engine_value (sp_engine sp))),
                   (''host'', JStr (sp_host sp)), (''database'', JStr (sp_database sp))])
                (db2\<lparr>db_connections := conns\<rparr>))))))"

definition resolve_target :: "connection \<Rightarrow> tenant_context \<Rightarrow> 'z conn_db_scheme \<Rightarrow> exn + connection_target" where
  "resolve_target conn ctx db =
     rbind (repo_require (db_credential_refs db) (cn_credential conn) ctx) (\<lambda>cred.
     rbind (local_resolve (cr_key cred) (db_secrets db)) (\<lambda>password.
       Inr \<lparr>ct_host = cn_host conn, ct_port = cn_port conn, ct_database = cn_database conn,
            ct_username = cn_username conn, ct_password = password, ct_tls_mode = cn_tls_mode conn\<rparr>))"

definition get_or_create_engine ::
  "uuid \<Rightarrow> tenant_context \<Rightarrow> 'z conn_db_scheme \<Rightarrow> (exn + connection \<times> engine) \<times> 'z conn_db_scheme" where
  "get_or_create_engine i ctx db =
     attempt (repo_require (db_connections db) i ctx) db (\<lambda>conn.
       if cn_status conn = CONN_DISABLED then (Inl (ConnectionDisabledError i), db)
       else attempt (resolve_target conn ctx db) db (\<lambda>target.
         (let (e, p) = pool_get_or_create (tc_tenant ctx, row_id conn) target (db_pools db)
          in (Inr (conn, e), db\<lparr>db_pools := p\<rparr>))))"

definition set_connection :: "uuid \<Rightarrow> (connection \<Rightarrow> connection) \<Rightarrow> 'z conn_db_scheme \<Rightarrow> 'z conn_db_scheme" where
  "set_connection i f db = db\<lparr>db_connections := row_set (db_connections db) i f\<rparr>"

definition apply_health :: "health_result \<Rightarrow> connection \<Rightarrow> connection" where
  "apply_health r c =
     (if hr_healthy r
      then c\<lparr>cn_validated_at := Some (hr_checked_at r), cn_status := CONN_ACTIVE, cn_last_error := None\<rparr>
      else c\<lparr>cn_validated_at := Some (hr_checked_at r), cn_status := CONN_ERROR, cn_last_error := hr_error r\<rparr>)"

definition validate_connection ::
  "(engine \<Rightarrow> string option) \<Rightarrow> uuid \<Rightarrow> tenant_context \<Rightarrow> instant \<Rightarrow> 'z conn_db_scheme \<Rightarrow>
   (exn + connection) \<times> 'z conn_db_scheme" where
  "validate_connection probe i ctx now db =
     attempt (repo_require (db_connections db) i ctx) db (\<lambda>conn.
     attempt (resolve_target conn ctx db) db (\<lambda>target.
       (let (e, p) = pool_get_or_create (tc_tenant ctx, row_id conn) target (db_pools db);
            result = health_check probe now e
        in (Inr (apply_health result conn),
            audit_record (connection_event ctx ''connection.validate''
                (if hr_healthy result then SUCCESS else ERROR_OUTCOME) (row_id conn)
                [(''healthy'', JBool (hr_healthy result)),
                 (''error_summary'', case hr_error result of None \<Rightarrow> JNull | Some s \<Rightarrow> JStr s)])
              (set_connection (row_id conn) (apply_health result) (db\<lparr>db_pools := p\<rparr>))))))"

definition enable_connection ::
  "uuid \<Rightarrow> tenant_context \<Rightarrow> 'z conn_db_scheme \<Rightarrow> (exn + connection) \<times> 'z conn_db_scheme" where
  "enable_connection i ctx db =
     attempt (repo_require (db_connections db) i ctx) db (\<lambda>conn.
       if cn_validated_at conn = None then (Inl ConnectionNotReadyError, db)
       else (Inr (conn\<lparr>cn_status := CONN_ACTIVE\<rparr>),
             audit_record (connection_event ctx ''connection.enable'' SUCCESS (row_id conn) [])
               (set_connection (row_id conn) (\<lambda>c. c\<lparr>cn_status := CONN_ACTIVE\<rparr>) db)))"

definition disable_connection ::
  "uuid \<Rightarrow> tenant_context \<Rightarrow> 'z conn_db_scheme \<Rightarrow> (exn + connection) \<times> 'z conn_db_scheme" where
  "disable_connection i ctx db =
     attempt (repo_require (db_connections db) i ctx) db (\<lambda>conn.
       (let db1 = set_connection (row_id conn) (\<lambda>c. c\<lparr>cn_status := CONN_DISABLED\<rparr>) db;
            db2 = db1\<lparr>db_pools := pool_evict (tc_tenant ctx, row_id conn) (db_pools db1)\<rparr>
        in (Inr (conn\<lparr>cn_status := CONN_DISABLED\<rparr>),
            audit_record (connection_event ctx ''connection.disable'' SUCCESS (row_id conn) []) db2)))"

definition rotate_secret ::
  "uuid \<Rightarrow> tenant_context \<Rightarrow> string \<Rightarrow> string \<Rightarrow> uuid \<Rightarrow> instant \<Rightarrow> 'z conn_db_scheme \<Rightarrow>
   (exn + connection) \<times> 'z conn_db_scheme" where
  "rotate_secret i ctx secret u fresh_ref now db =
     attempt (repo_require (db_connections db) i ctx) db (\<lambda>conn.
     attempt (repo_require (db_credential_refs db) (cn_credential conn) ctx) db (\<lambda>old.
       (let (key, secrets) = local_store u secret (db_secrets db);
            db1 = db\<lparr>db_secrets := secrets\<rparr>
        in attempt (repo_add (db_credential_refs db1)
               \<lparr>row_id = fresh_ref, row_tenant = None, cr_provider = cr_provider old, cr_key = key,
                cr_active = True, cr_rotated = None\<rparr> ctx) db1 (\<lambda>(new, refs).
           (let refs' = row_set refs (row_id old) (\<lambda>r. r\<lparr>cr_active := False, cr_rotated := Some now\<rparr>);
                upd = (\<lambda>c. c\<lparr>cn_credential := row_id new, cn_status := PENDING_VALIDATION\<rparr>);
                db2 = set_connection (row_id conn) upd (db1\<lparr>db_credential_refs := refs'\<rparr>);
                db3 = db2\<lparr>db_pools := pool_evict (tc_tenant ctx, row_id conn) (db_pools db2)\<rparr>;
                db4 = db3\<lparr>db_secrets := local_delete (cr_key old) (db_secrets db3)\<rparr>
            in (Inr (upd conn),
                audit_record (connection_event ctx ''connection.rotate_secret'' SUCCESS (row_id conn) []) db4))))))"

definition delete_connection ::
  "uuid \<Rightarrow> tenant_context \<Rightarrow> 'z conn_db_scheme \<Rightarrow> (exn + unit) \<times> 'z conn_db_scheme" where
  "delete_connection i ctx db =
     attempt (repo_require (db_connections db) i ctx) db (\<lambda>conn.
       (let cred = repo_get (db_credential_refs db) (cn_credential conn) ctx;
            db1 = db\<lparr>db_pools := pool_evict (tc_tenant ctx, row_id conn) (db_pools db)\<rparr>
        in attempt (repo_delete (db_connections db1) conn ctx) db1 (\<lambda>conns.
           (let db2 = db1\<lparr>db_connections := conns\<rparr>
            in attempt (case cred of
                   None \<Rightarrow> Inr db2
                 | Some c \<Rightarrow> rbind (repo_delete (db_credential_refs db2) c ctx) (\<lambda>refs.
                     Inr (db2\<lparr>db_credential_refs := refs,
                              db_secrets := local_delete (cr_key c) (db_secrets db2)\<rparr>))) db2 (\<lambda>db3.
               (Inr (), audit_record (connection_event ctx ''connection.delete'' SUCCESS i []) db3))))))"

definition get_connection :: "uuid \<Rightarrow> tenant_context \<Rightarrow> 'z conn_db_scheme \<Rightarrow> exn + connection" where
  "get_connection i ctx db = repo_require (db_connections db) i ctx"

definition list_connections :: "tenant_context \<Rightarrow> 'z conn_db_scheme \<Rightarrow> connection list" where
  "list_connections ctx db = list_for_tenant (db_connections db) ctx"

subsection \<open>The current target of a connection\<close>

definition tenant_only :: "uuid \<Rightarrow> tenant_context" where
  "tenant_only t = \<lparr>tc_tenant = t, tc_principal = 0, tc_roles = {}, tc_scopes = {},
     tc_correlation = None, tc_principal_type = ''human''\<rparr>"

lemma tc_tenant_only [simp]: "tc_tenant (tenant_only t) = t"
  by (simp add: tenant_only_def)

definition current_target :: "'z conn_db_scheme \<Rightarrow> pool_key \<Rightarrow> connection_target option" where
  "current_target db k =
     (case rbind (repo_require (db_connections db) (snd k) (tenant_only (fst k)))
        (\<lambda>conn. resolve_target conn (tenant_only (fst k)) db) of
        Inl _ \<Rightarrow> None | Inr t \<Rightarrow> Some t)"

lemma current_target_iff:
  "current_target db (t, c) = Some tg \<longleftrightarrow>
    (\<exists>conn cred pw. session_get (db_connections db) c = Some conn \<and> row_tenant conn = Some t \<and>
       session_get (db_credential_refs db) (cn_credential conn) = Some cred \<and> row_tenant cred = Some t \<and>
       local_resolve (cr_key cred) (db_secrets db) = Inr pw \<and>
       tg = \<lparr>ct_host = cn_host conn, ct_port = cn_port conn, ct_database = cn_database conn,
             ct_username = cn_username conn, ct_password = pw, ct_tls_mode = cn_tls_mode conn\<rparr>)"
proof -
  have "current_target db (t, c) = Some tg \<longleftrightarrow>
      rbind (repo_require (db_connections db) c (tenant_only t))
        (\<lambda>conn. resolve_target conn (tenant_only t) db) = Inr tg"
    by (cases "rbind (repo_require (db_connections db) c (tenant_only t))
        (\<lambda>conn. resolve_target conn (tenant_only t) db)")
      (simp_all add: current_target_def del: rbind_Inr_iff)
  also have "\<dots> \<longleftrightarrow> (\<exists>conn cred pw. session_get (db_connections db) c = Some conn \<and> row_tenant conn = Some t \<and>
       session_get (db_credential_refs db) (cn_credential conn) = Some cred \<and> row_tenant cred = Some t \<and>
       local_resolve (cr_key cred) (db_secrets db) = Inr pw \<and>
       tg = \<lparr>ct_host = cn_host conn, ct_port = cn_port conn, ct_database = cn_database conn,
             ct_username = cn_username conn, ct_password = pw, ct_tls_mode = cn_tls_mode conn\<rparr>)"
    unfolding resolve_target_def rbind_Inr_iff repo_require_Inr_iff tc_tenant_only by auto
  finally show ?thesis .
qed

lemma resolve_target_tenant:
  "resolve_target conn (tenant_only (tc_tenant ctx)) db = resolve_target conn ctx db"
  by (simp add: resolve_target_def repo_require_ctx [of "tenant_only (tc_tenant ctx)" ctx])

lemma current_target_resolve:
  "session_get (db_connections db) c = Some conn \<Longrightarrow> row_tenant conn = Some (tc_tenant ctx) \<Longrightarrow>
    resolve_target conn ctx db = Inr tg \<Longrightarrow> current_target db (tc_tenant ctx, c) = Some tg"
  by (simp add: current_target_def resolve_target_tenant repo_require_def repo_get_def)

definition conn_wf :: "(uuid \<Rightarrow> uuid) \<Rightarrow> 'z conn_db_scheme \<Rightarrow> bool" where
  "conn_wf g db \<longleftrightarrow>
     table_wf g (db_connections db) \<and> table_wf g (db_credential_refs db) \<and>
     distinct (map cn_credential (db_connections db)) \<and> distinct (map cr_key (db_credential_refs db)) \<and>
     set (map cn_credential (db_connections db)) \<subseteq> row_id ` set (db_credential_refs db)"

definition pools_fresh :: "'z conn_db_scheme \<Rightarrow> bool" where
  "pools_fresh db \<longleftrightarrow> registry.fresh_for (current_target db) (db_pools db)"

text \<open>A key of a secret that was generated by no earlier call.\<close>

definition fresh_key :: "string \<Rightarrow> 'z conn_db_scheme \<Rightarrow> bool" where
  "fresh_key u db \<longleftrightarrow> local_reference_key u \<notin> cr_key ` set (db_credential_refs db)"

lemma session_get_append:
  "session_get (t @ [r]) i = (case session_get t i of Some x \<Rightarrow> Some x | None \<Rightarrow> if row_id r = i then Some r else None)"
  by (induction t) (auto simp: session_get_def)

lemma session_get_row_set:
  assumes "\<And>r. row_id (f r) = row_id r"
  shows "session_get (row_set t i f) j = map_option (\<lambda>r. if row_id r = i then f r else r) (session_get t j)"
  unfolding session_get_def row_set_def using assms by (induction t) auto

lemma session_get_row_set_other:
  assumes "\<And>r. row_id (f r) = row_id r" and "j \<noteq> i"
  shows "session_get (row_set t i f) j = session_get t j"
  using assms session_get_Some [of t j]
  by (cases "session_get t j") (auto simp: session_get_row_set)

lemma session_get_delete:
  "session_get (session_delete t r) j = (if j = row_id r then None else session_get t j)"
  by (induction t) (auto simp: session_get_def session_delete_def)

lemma repo_add_None:
  "row_tenant e = None \<Longrightarrow>
    repo_add t e ctx =
      (if row_id e \<in> row_id ` set t then Inl IntegrityError
       else Inr (e\<lparr>row_tenant := Some (tc_tenant ctx)\<rparr>, t @ [e\<lparr>row_tenant := Some (tc_tenant ctx)\<rparr>]))"
  by (simp add: repo_add_def session_add_def Let_def)

lemma current_target_set_connection:
  assumes "\<And>c. row_id (f c) = row_id c" "\<And>c. row_tenant (f c) = row_tenant c"
    and "\<And>c. cn_credential (f c) = cn_credential c" "\<And>c. cn_host (f c) = cn_host c"
    and "\<And>c. cn_port (f c) = cn_port c" "\<And>c. cn_database (f c) = cn_database c"
    and "\<And>c. cn_username (f c) = cn_username c" "\<And>c. cn_tls_mode (f c) = cn_tls_mode c"
  shows "current_target (set_connection i f db) = current_target db"
proof (rule ext)
  fix k :: pool_key
  obtain t c where k: "k = (t, c)" by (cases k)
  have "current_target (set_connection i f db) (t, c) = Some tg \<longleftrightarrow> current_target db (t, c) = Some tg" for tg
    unfolding current_target_iff using assms
    by (cases "session_get (db_connections db) c")
      (auto simp: set_connection_def session_get_row_set split: if_splits)
  then show "current_target (set_connection i f db) k = current_target db k"
    unfolding k by (cases "current_target db (t, c)") (metis option.exhaust)+
qed

lemma current_target_cong:
  "db_connections db' = db_connections db \<Longrightarrow> db_credential_refs db' = db_credential_refs db \<Longrightarrow>
    db_secrets db' = db_secrets db \<Longrightarrow> current_target db' = current_target db"
  by (rule ext) (simp add: current_target_def resolve_target_def)

lemma current_target_stable:
  assumes "current_target db (t, c) = Some tg"
    and "\<And>conn. session_get (db_connections db) c = Some conn \<Longrightarrow> session_get (db_connections db') c = Some conn"
    and "\<And>conn cred. session_get (db_connections db) c = Some conn \<Longrightarrow>
      session_get (db_credential_refs db) (cn_credential conn) = Some cred \<Longrightarrow>
      \<exists>cred'. session_get (db_credential_refs db') (cn_credential conn) = Some cred' \<and>
        row_tenant cred' = row_tenant cred \<and> cr_key cred' = cr_key cred \<and>
        local_resolve (cr_key cred) (db_secrets db') = local_resolve (cr_key cred) (db_secrets db)"
  shows "current_target db' (t, c) = Some tg"
  using assms(1) assms(2,3) unfolding current_target_iff by fastforce

lemma pools_fresh_stable:
  assumes "pools_fresh db" and "db_pools db' = db_pools db"
    and "\<And>k tg. current_target db k = Some tg \<Longrightarrow> current_target db' k = Some tg"
  shows "pools_fresh db'"
  using assms unfolding pools_fresh_def registry.fresh_for_def by metis

subsection \<open>Every operation keeps the pools fresh\<close>

lemma conn_record [simp]:
  "db_connections (audit_record e db) = db_connections db"
  "db_credential_refs (audit_record e db) = db_credential_refs db"
  "db_pools (audit_record e db) = db_pools db"
  "db_secrets (audit_record e db) = db_secrets db"
  by (simp_all add: audit_record_def)

lemma current_target_frame [simp]:
  "current_target (audit_record e db) = current_target db"
  "current_target (db\<lparr>db_pools := p\<rparr>) = current_target db"
  by (rule current_target_cong; simp)+

lemma set_connection_frame [simp]:
  "db_credential_refs (set_connection i f db) = db_credential_refs db"
  "db_pools (set_connection i f db) = db_pools db"
  "db_secrets (set_connection i f db) = db_secrets db"
  "db_connections (set_connection i f db) = row_set (db_connections db) i f"
  by (simp_all add: set_connection_def)

lemma conn_wf_cong:
  "db_connections db' = db_connections db \<Longrightarrow> db_credential_refs db' = db_credential_refs db \<Longrightarrow>
    conn_wf g db' \<longleftrightarrow> conn_wf g db"
  by (simp add: conn_wf_def)

lemma conn_wf_set_connection:
  assumes "conn_wf g db" and "\<And>c. row_id (f c) = row_id c" and "\<And>c. row_tenant (f c) = row_tenant c"
    and "\<And>c. cn_credential (f c) = cn_credential c"
  shows "conn_wf g (set_connection i f db)"
proof -
  have "map cn_credential (row_set (db_connections db) i f) = map cn_credential (db_connections db)"
    using assms(4) by (simp add: row_set_def)
  with assms table_wf_row_set [of g "db_connections db" f i] show ?thesis
    by (simp add: conn_wf_def del: set_map)
qed

definition conn_ok :: "(uuid \<Rightarrow> uuid) \<Rightarrow> 'z conn_db_scheme \<Rightarrow> bool" where
  "conn_ok g db \<longleftrightarrow> conn_wf g db \<and> pools_fresh db"

lemma pool_create_fresh:
  assumes "pools_fresh db" and "session_get (db_connections db) c = Some conn"
    and "row_tenant conn = Some (tc_tenant ctx)" and "resolve_target conn ctx db = Inr tg"
    and "pool_get_or_create (tc_tenant ctx, c) tg (db_pools db) = (e, p)"
  shows "e = build_engine tg" and "pools_fresh (db\<lparr>db_pools := p\<rparr>)"
proof -
  have cur: "current_target db (tc_tenant ctx, c) = Some tg"
    using assms by (intro current_target_resolve)
  from registry.create_fresh [OF assms(1) [unfolded pools_fresh_def] cur] assms(5)
  show "e = build_engine tg" and "pools_fresh (db\<lparr>db_pools := p\<rparr>)"
    by (simp_all add: pools_fresh_def)
qed

lemma apply_health_sel [simp]:
  "row_id (apply_health r c) = row_id c" "row_tenant (apply_health r c) = row_tenant c"
  "cn_credential (apply_health r c) = cn_credential c" "cn_host (apply_health r c) = cn_host c"
  "cn_port (apply_health r c) = cn_port c" "cn_database (apply_health r c) = cn_database c"
  "cn_username (apply_health r c) = cn_username c" "cn_tls_mode (apply_health r c) = cn_tls_mode c"
  by (simp_all add: apply_health_def)

lemma conn_ok_engine:
  assumes "conn_ok g db"
  shows "conn_ok g (snd (get_or_create_engine i ctx db))"
proof (cases rule: repo_require_cases [of "db_connections db" i ctx])
  case (2 conn)
  then have sg: "session_get (db_connections db) i = Some conn" by (simp add: repo_require_Inr_iff)
  show ?thesis
  proof (cases "cn_status conn = CONN_DISABLED \<or> (\<exists>e. resolve_target conn ctx db = Inl e)")
    case True
    with 2 assms show ?thesis by (auto simp: get_or_create_engine_def)
  next
    case False
    then obtain tg where tg: "resolve_target conn ctx db = Inr tg"
      by (cases "resolve_target conn ctx db") auto
    obtain e p where ep: "pool_get_or_create (tc_tenant ctx, i) tg (db_pools db) = (e, p)"
      by (cases "pool_get_or_create (tc_tenant ctx, i) tg (db_pools db)")
    from pool_create_fresh [OF _ sg 2(4) tg ep] assms 2 False tg ep show ?thesis
      by (simp add: get_or_create_engine_def conn_ok_def conn_wf_def)
  qed
qed (use assms in \<open>simp add: get_or_create_engine_def\<close>)

lemma conn_ok_set_connection:
  assumes "conn_ok g db"
    and "\<And>c. row_id (f c) = row_id c" "\<And>c. row_tenant (f c) = row_tenant c"
    and "\<And>c. cn_credential (f c) = cn_credential c" "\<And>c. cn_host (f c) = cn_host c"
    and "\<And>c. cn_port (f c) = cn_port c" "\<And>c. cn_database (f c) = cn_database c"
    and "\<And>c. cn_username (f c) = cn_username c" "\<And>c. cn_tls_mode (f c) = cn_tls_mode c"
  shows "conn_ok g (audit_record ev (set_connection i f db))"
  using assms conn_wf_set_connection [of g db f i] current_target_set_connection [of f i db]
  by (simp add: conn_ok_def conn_wf_def pools_fresh_def del: set_map)

lemma conn_ok_validate:
  assumes "conn_ok g db"
  shows "conn_ok g (snd (validate_connection probe i ctx now db))"
proof (cases rule: repo_require_cases [of "db_connections db" i ctx])
  case (2 conn)
  then have sg: "session_get (db_connections db) i = Some conn" by (simp add: repo_require_Inr_iff)
  show ?thesis
  proof (cases "resolve_target conn ctx db")
    case (Inl e)
    with 2 assms show ?thesis by (simp add: validate_connection_def)
  next
    case (Inr tg)
    obtain e p where ep: "pool_get_or_create (tc_tenant ctx, i) tg (db_pools db) = (e, p)"
      by (cases "pool_get_or_create (tc_tenant ctx, i) tg (db_pools db)")
    have "conn_ok g (db\<lparr>db_pools := p\<rparr>)"
      using pool_create_fresh [OF _ sg 2(4) Inr ep] assms by (simp add: conn_ok_def conn_wf_def)
    then have "conn_ok g (audit_record ev (set_connection i (apply_health r) (db\<lparr>db_pools := p\<rparr>)))" for ev r
      by (rule conn_ok_set_connection) simp_all
    with 2 Inr ep show ?thesis by (simp add: validate_connection_def Let_def)
  qed
qed (use assms in \<open>simp add: validate_connection_def\<close>)

lemma conn_ok_enable:
  assumes "conn_ok g db"
  shows "conn_ok g (snd (enable_connection i ctx db))"
proof (cases rule: repo_require_cases [of "db_connections db" i ctx])
  case (2 conn)
  have "conn_ok g (audit_record ev (set_connection i (\<lambda>c. c\<lparr>cn_status := CONN_ACTIVE\<rparr>) db))" for ev
    by (rule conn_ok_set_connection [OF assms]) simp_all
  with 2 assms show ?thesis by (simp add: enable_connection_def)
qed (use assms in \<open>simp add: enable_connection_def\<close>)

lemma conn_ok_evict:
  assumes "conn_ok g db"
  shows "conn_ok g (db\<lparr>db_pools := pool_evict k (db_pools db)\<rparr>)"
  using assms registry.evict_fresh [of "current_target db" "db_pools db" k "current_target db"]
  by (simp add: conn_ok_def conn_wf_def pools_fresh_def)

lemma conn_ok_disable:
  assumes "conn_ok g db"
  shows "conn_ok g (snd (disable_connection i ctx db))"
proof (cases rule: repo_require_cases [of "db_connections db" i ctx])
  case (2 conn)
  have "conn_ok g (audit_record ev (set_connection i (\<lambda>c. c\<lparr>cn_status := CONN_DISABLED\<rparr>)
      (db\<lparr>db_pools := pool_evict k (db_pools db)\<rparr>)))" for ev k
    by (rule conn_ok_set_connection [OF conn_ok_evict [OF assms]]) simp_all
  moreover have "(set_connection i f db)\<lparr>db_pools := p\<rparr> = set_connection i f (db\<lparr>db_pools := p\<rparr>)" for f p
    by (simp add: set_connection_def)
  ultimately show ?thesis using 2 by (simp add: disable_connection_def Let_def)
qed (use assms in \<open>simp add: disable_connection_def\<close>)

lemma local_store_eq: "local_store u v s = (local_reference_key u, dict_put (local_reference_key u) v s)"
  by (simp add: local_store_def Let_def)

lemma local_resolve_put [simp]:
  "k' \<noteq> k \<Longrightarrow> local_resolve k' (dict_put k v s) = local_resolve k' s"
  by (simp add: local_resolve_def)

lemma fresh_key_resolve:
  assumes "fresh_key u db" and "cred \<in> set (db_credential_refs db)"
  shows "local_resolve (cr_key cred) (dict_put (local_reference_key u) v s) = local_resolve (cr_key cred) s"
  using assms by (intro local_resolve_put) (metis fresh_key_def image_eqI)

lemma conn_ok_store:
  assumes "conn_ok g db" and "fresh_key u db"
  shows "conn_ok g (db\<lparr>db_secrets := dict_put (local_reference_key u) v (db_secrets db)\<rparr>)"
proof -
  let ?db = "db\<lparr>db_secrets := dict_put (local_reference_key u) v (db_secrets db)\<rparr>"
  have "pools_fresh ?db"
  proof (rule pools_fresh_stable [of db])
    fix k tg assume "current_target db k = Some tg"
    then show "current_target ?db k = Some tg"
      by (cases k; simp only:, elim current_target_stable)
        (auto dest!: session_get_Some simp: fresh_key_resolve [OF assms(2)])
  qed (use assms in \<open>simp_all add: conn_ok_def\<close>)
  with assms show ?thesis by (simp add: conn_ok_def conn_wf_def)
qed

lemma conn_ok_add_ref:
  assumes "conn_ok g db" and "row_id r \<notin> row_id ` set (db_credential_refs db)"
    and "row_tenant r = Some (g (row_id r))" and "cr_key r \<notin> cr_key ` set (db_credential_refs db)"
  shows "conn_ok g (db\<lparr>db_credential_refs := db_credential_refs db @ [r]\<rparr>)"
proof -
  let ?db = "db\<lparr>db_credential_refs := db_credential_refs db @ [r]\<rparr>"
  have "pools_fresh ?db"
  proof (rule pools_fresh_stable [of db])
    fix k tg assume "current_target db k = Some tg"
    then show "current_target ?db k = Some tg"
      by (cases k; simp only:, elim current_target_stable) (auto simp: session_get_append)
  qed (use assms in \<open>simp_all add: conn_ok_def\<close>)
  with assms show ?thesis by (auto simp: conn_ok_def conn_wf_def intro: table_wf_append)
qed

lemma conn_ok_add_connection:
  assumes "conn_ok g db" and "row_id r \<notin> row_id ` set (db_connections db)"
    and "row_tenant r = Some (g (row_id r))" and "cn_credential r \<in> row_id ` set (db_credential_refs db)"
    and "cn_credential r \<notin> cn_credential ` set (db_connections db)"
  shows "conn_ok g (audit_record ev (db\<lparr>db_connections := db_connections db @ [r]\<rparr>))"
proof -
  let ?db = "db\<lparr>db_connections := db_connections db @ [r]\<rparr>"
  have "pools_fresh ?db"
  proof (rule pools_fresh_stable [of db])
    fix k tg assume "current_target db k = Some tg"
    then show "current_target ?db k = Some tg"
      by (cases k; simp only:, elim current_target_stable) (auto simp: session_get_append)
  qed (use assms in \<open>simp_all add: conn_ok_def\<close>)
  with assms show ?thesis
    by (auto simp: conn_ok_def conn_wf_def pools_fresh_def intro: table_wf_append)
qed

lemma conn_ok_register:
  assumes ok: "conn_ok g db" and fresh: "fresh_key u db"
    and g: "g fresh_ref = tc_tenant ctx" "g fresh_conn = tc_tenant ctx"
  shows "conn_ok g (snd (register_connection ctx sp u fresh_ref fresh_conn db))"
proof -
  define db1 where "db1 = db\<lparr>db_secrets := dict_put (local_reference_key u) (sp_secret sp) (db_secrets db)\<rparr>"
  have ok1: "conn_ok g db1" unfolding db1_def using ok fresh by (rule conn_ok_store)
  have same: "db_credential_refs db1 = db_credential_refs db" "db_connections db1 = db_connections db"
    by (simp_all add: db1_def)
  show ?thesis
  proof (cases "fresh_ref \<in> row_id ` set (db_credential_refs db)")
    case True
    with ok1 show ?thesis
      by (simp add: register_connection_def local_store_eq repo_add_None Let_def flip: db1_def)
  next
    case ref: False
    define r where "r = \<lparr>row_id = fresh_ref, row_tenant = Some (tc_tenant ctx), cr_provider = ''local_dev'',
      cr_key = local_reference_key u, cr_active = True, cr_rotated = None\<rparr>"
    define db2 where "db2 = db1\<lparr>db_credential_refs := db_credential_refs db1 @ [r]\<rparr>"
    have ok2: "conn_ok g db2"
      unfolding db2_def using ok1 ref fresh g
      by (intro conn_ok_add_ref) (auto simp: r_def same fresh_key_def)
    have unused: "fresh_ref \<notin> cn_credential ` set (db_connections db)"
      using ok ref by (auto simp: conn_ok_def conn_wf_def)
    show ?thesis
    proof (cases "fresh_conn \<in> row_id ` set (db_connections db)")
      case True
      then have "snd (register_connection ctx sp u fresh_ref fresh_conn db) = db2"
        using ref by (simp add: register_connection_def local_store_eq repo_add_None Let_def db1_def db2_def r_def)
      with ok2 show ?thesis by simp
    next
      case False
      then obtain ev n where
        "snd (register_connection ctx sp u fresh_ref fresh_conn db) =
           audit_record ev (db2\<lparr>db_connections := db_connections db2 @ [n]\<rparr>)"
        "row_id n = fresh_conn" "row_tenant n = Some (tc_tenant ctx)" "cn_credential n = fresh_ref"
        using ref by (simp add: register_connection_def local_store_eq repo_add_None Let_def db1_def db2_def r_def)
      moreover have "conn_ok g (audit_record ev (db2\<lparr>db_connections := db_connections db2 @ [n]\<rparr>))"
        by (rule conn_ok_add_connection [OF ok2])
          (use calculation False unused g in \<open>auto simp: db2_def same r_def\<close>)
      ultimately show ?thesis by simp
    qed
  qed
qed

lemma distinct_map_row_set:
  assumes "distinct (map row_id t)" and "distinct (map f t)" and "\<And>x. f (u x) = v" and "v \<notin> f ` set t"
  shows "distinct (map f (row_set t i u))"
  using assms(1,2,4)
proof (induction t)
  case (Cons x t)
  show ?case
  proof (cases "row_id x = i")
    case True
    with Cons.prems(1) have "\<forall>y \<in> set t. row_id y \<noteq> i" by (simp add: image_iff) metis
    then have "row_set t i u = t"
      unfolding row_set_def by (intro map_idI) simp
    with Cons.prems True show ?thesis by (simp add: row_set_def assms(3))
  next
    case False
    have "f x \<noteq> f (if row_id y = i then u y else y)" if "y \<in> set t" for y
      using that Cons.prems assms(3) by auto
    with Cons False show ?thesis by (auto simp: row_set_def)
  qed
qed (simp add: row_set_def)

lemma session_get_inj:
  assumes "distinct (map row_id t)" and "distinct (map f t)"
    and "session_get t i = Some x" and "session_get t j = Some y" and "f x = f y"
  shows "i = j"
proof -
  have "x \<in> set t" "y \<in> set t" "row_id x = i" "row_id y = j"
    using assms(3,4) by (auto dest: session_get_Some)
  with assms(2,5) have "x = y" by (metis distinct_map inj_on_def)
  with \<open>row_id x = i\<close> \<open>row_id y = j\<close> show ?thesis by simp
qed

text \<open>
  What happens to the target of every connection but one when that connection's reference,
  \<open>old\<close>, is retired and its secret deleted.
\<close>

lemma current_target_other:
  assumes wf: "conn_wf g db"
    and conn: "session_get (db_connections db) i = Some conn" "row_tenant conn = Some t"
    and old: "session_get (db_credential_refs db) (cn_credential conn) = Some old"
    and conns: "\<And>j. j \<noteq> i \<Longrightarrow> session_get (db_connections db') j = session_get (db_connections db) j"
    and refs: "\<And>j. j \<noteq> cn_credential conn \<Longrightarrow>
      session_get (db_credential_refs db') j = session_get (db_credential_refs db) j"
    and secrets: "db_secrets db' = local_delete (cr_key old) (db_secrets db)"
    and k: "k \<noteq> (t, i)" and cur: "current_target db k = Some tg"
  shows "current_target db' k = Some tg"
proof -
  obtain t' c where kk: "k = (t', c)" by (cases k)
  from cur kk obtain conn' where conn': "session_get (db_connections db) c = Some conn'" "row_tenant conn' = Some t'"
    by (auto simp: current_target_iff)
  with conn k kk have c: "c \<noteq> i" by auto
  have ids: "distinct (map row_id (db_connections db))" "distinct (map cn_credential (db_connections db))"
    "distinct (map row_id (db_credential_refs db))" "distinct (map cr_key (db_credential_refs db))"
    using wf by (simp_all add: conn_wf_def table_wf_def)
  have cred: "cn_credential conn' \<noteq> cn_credential conn"
    using session_get_inj [OF ids(1,2) conn'(1) conn(1)] c by auto
  show ?thesis unfolding kk
  proof (rule current_target_stable [OF cur [unfolded kk]])
    fix x assume "session_get (db_connections db) c = Some x"
    with conns [OF c] show "session_get (db_connections db') c = Some x" by simp
  next
    fix x cr assume x: "session_get (db_connections db) c = Some x"
      and cr: "session_get (db_credential_refs db) (cn_credential x) = Some cr"
    have xc: "cn_credential x \<noteq> cn_credential conn" using x conn' cred by simp
    have "cr_key cr \<noteq> cr_key old"
      using session_get_inj [OF ids(3,4) cr old] xc by auto
    then have "local_resolve (cr_key cr) (db_secrets db') = local_resolve (cr_key cr) (db_secrets db)"
      unfolding secrets by (rule local_dev.resolve_delete_other)
    with refs [OF xc] cr show "\<exists>cred'. session_get (db_credential_refs db') (cn_credential x) = Some cred' \<and>
        row_tenant cred' = row_tenant cr \<and> cr_key cred' = cr_key cr \<and>
        local_resolve (cr_key cr) (db_secrets db') = local_resolve (cr_key cr) (db_secrets db)"
      by auto
  qed
qed

lemma pools_fresh_evict:
  assumes "pools_fresh db" and "db_pools db' = pool_evict k (db_pools db)"
    and "\<And>k' tg. k' \<noteq> k \<Longrightarrow> current_target db k' = Some tg \<Longrightarrow> current_target db' k' = Some tg"
  shows "pools_fresh db'"
  unfolding pools_fresh_def assms(2)
  by (rule registry.evict_fresh [OF assms(1) [unfolded pools_fresh_def]]) (rule assms(3))

lemma conn_ok_rotate:
  assumes ok: "conn_ok g db" and fresh: "fresh_key u db" and g: "g fresh_ref = tc_tenant ctx"
  shows "conn_ok g (snd (rotate_secret i ctx secret u fresh_ref now db))"
proof (cases rule: repo_require_cases [of "db_connections db" i ctx])
  case 1
  with ok show ?thesis by (simp add: rotate_secret_def)
next
  case (2 conn)
  then have conn: "session_get (db_connections db) i = Some conn" by (simp add: repo_require_Inr_iff)
  show ?thesis
  proof (cases rule: repo_require_cases [of "db_credential_refs db" "cn_credential conn" ctx])
    case 1
    with 2 ok show ?thesis by (simp add: rotate_secret_def)
  next
    case old: (2 old)
    then have sold: "session_get (db_credential_refs db) (cn_credential conn) = Some old"
      by (simp add: repo_require_Inr_iff)
    define db1 where "db1 = db\<lparr>db_secrets := dict_put (local_reference_key u) secret (db_secrets db)\<rparr>"
    have ok1: "conn_ok g db1" unfolding db1_def using ok fresh by (rule conn_ok_store)
    have same: "db_credential_refs db1 = db_credential_refs db" "db_connections db1 = db_connections db"
      by (simp_all add: db1_def)
    show ?thesis
    proof (cases "fresh_ref \<in> row_id ` set (db_credential_refs db)")
      case True
      then have "snd (rotate_secret i ctx secret u fresh_ref now db) = db1"
        using 2 old by (simp add: rotate_secret_def local_store_eq repo_add_None Let_def db1_def)
      with ok1 show ?thesis by simp
    next
      case False
      define r where "r = \<lparr>row_id = fresh_ref, row_tenant = Some (tc_tenant ctx), cr_provider = cr_provider old,
        cr_key = local_reference_key u, cr_active = True, cr_rotated = None\<rparr>"
      define db2 where "db2 = db1\<lparr>db_credential_refs := db_credential_refs db1 @ [r]\<rparr>"
      let ?f = "\<lambda>x. x\<lparr>cr_active := False, cr_rotated := Some now\<rparr>"
      let ?upd = "\<lambda>c. c\<lparr>cn_credential := fresh_ref, cn_status := PENDING_VALIDATION\<rparr>"
      have ok2: "conn_ok g db2"
        unfolding db2_def using ok1 False fresh g
        by (intro conn_ok_add_ref) (auto simp: r_def same fresh_key_def)
      have unused: "fresh_ref \<notin> cn_credential ` set (db_connections db)"
        using ok False by (auto simp: conn_ok_def conn_wf_def)
      define ev where "ev = connection_event ctx ''connection.rotate_secret'' SUCCESS i []"
      define db' where "db' = snd (rotate_secret i ctx secret u fresh_ref now db)"
      have eq: "db_connections db' = row_set (db_connections db2) i ?upd"
        "db_credential_refs db' = row_set (db_credential_refs db2) (cn_credential conn) ?f"
        "db_pools db' = pool_evict (tc_tenant ctx, i) (db_pools db2)"
        "db_secrets db' = local_delete (cr_key old) (db_secrets db2)"
        unfolding db'_def using 2 old False
        by (simp_all add: rotate_secret_def local_store_eq repo_add_None Let_def db1_def db2_def r_def
            set_connection_def)
      have "pools_fresh db'"
      proof (rule pools_fresh_evict [of db2])
        show "pools_fresh db2" using ok2 by (simp add: conn_ok_def)
        fix k tg assume "k \<noteq> (tc_tenant ctx, i)" and "current_target db2 k = Some tg"
        then show "current_target db' k = Some tg"
          by (elim current_target_other [where g = g and db = db2 and conn = conn and old = old, rotated -1])
            (use ok2 conn sold 2(4) in
              \<open>auto simp: conn_ok_def eq db2_def same session_get_append session_get_row_set_other
                split: option.split\<close>)
      qed (simp add: eq)
      moreover have "conn_wf g db'"
      proof -
        have wf2: "conn_wf g db2" using ok2 by (simp add: conn_ok_def)
        then have "distinct (map cn_credential (db_connections db'))"
          unfolding eq using unused
          by (intro distinct_map_row_set) (auto simp: conn_wf_def table_wf_def db2_def same)
        moreover have "map cr_key (db_credential_refs db') = map cr_key (db_credential_refs db2)"
          by (simp add: eq row_set_def)
        moreover have "map row_id (db_credential_refs db') = map row_id (db_credential_refs db2)"
          by (simp add: eq)
        then have "row_id ` set (db_credential_refs db') = row_id ` set (db_credential_refs db2)"
          by (metis list.set_map)
        moreover have "cn_credential ` set (db_connections db') \<subseteq> row_id ` set (db_credential_refs db2)"
          using wf2 by (auto simp: eq row_set_def conn_wf_def db2_def r_def)
        ultimately show ?thesis
          using wf2 table_wf_row_set [of g "db_connections db2" ?upd i]
            table_wf_row_set [of g "db_credential_refs db2" ?f "cn_credential conn"]
          by (simp add: conn_wf_def eq del: set_map) (simp add: eq)
      qed
      ultimately show ?thesis by (simp add: conn_ok_def db'_def)
    qed
  qed
qed

lemma session_delete_subset: "set (session_delete t r) \<subseteq> set t"
  by (auto simp: session_delete_def)

lemma conn_ok_delete:
  assumes ok: "conn_ok g db"
  shows "conn_ok g (snd (delete_connection i ctx db))"
proof (cases rule: repo_require_cases [of "db_connections db" i ctx])
  case 1
  with ok show ?thesis by (simp add: delete_connection_def)
next
  case (2 conn)
  then have conn: "session_get (db_connections db) i = Some conn" by (simp add: repo_require_Inr_iff)
  have wf: "conn_wf g db" using ok by (simp add: conn_ok_def)
  then have other: "cn_credential c \<noteq> cn_credential conn" if "c \<in> set (session_delete (db_connections db) conn)" for c
    using that 2 by (auto simp: conn_wf_def session_delete_def distinct_map inj_on_def)
  have dist: "distinct (map cn_credential (session_delete (db_connections db) conn))"
    using wf by (simp add: conn_wf_def session_delete_def distinct_map_filter)
  define db' where "db' = snd (delete_connection i ctx db)"
  show ?thesis
  proof (cases "repo_get (db_credential_refs db) (cn_credential conn) ctx")
    case None
    then have eq: "db_connections db' = session_delete (db_connections db) conn"
      "db_credential_refs db' = db_credential_refs db" "db_secrets db' = db_secrets db"
      "db_pools db' = pool_evict (tc_tenant ctx, i) (db_pools db)"
      using 2 by (simp_all add: db'_def delete_connection_def repo_delete_def Let_def)
    have "pools_fresh db'"
    proof (rule pools_fresh_evict [of db])
      fix k tg assume k: "k \<noteq> (tc_tenant ctx, i)" and cur: "current_target db k = Some tg"
      obtain t c where kk: "k = (t, c)" by (cases k)
      have "c \<noteq> i" using cur k conn 2(4) by (auto simp: kk current_target_iff)
      with kk cur 2(3) show "current_target db' k = Some tg"
        by (simp only:, elim current_target_stable) (auto simp: eq session_get_delete)
    qed (use ok eq in \<open>simp_all add: conn_ok_def\<close>)
    moreover have "conn_wf g db'"
      using wf dist table_wf_delete [of g "db_connections db" conn] session_delete_subset [of "db_connections db" conn]
      by (auto simp: conn_wf_def eq)
    ultimately show ?thesis by (simp add: conn_ok_def db'_def)
  next
    case (Some old)
    then have sold: "session_get (db_credential_refs db) (cn_credential conn) = Some old"
      and told: "row_tenant old = Some (tc_tenant ctx)" by (simp_all add: repo_get_Some_iff)
    then have rold: "row_id old = cn_credential conn" by (auto dest: session_get_Some)
    have eq: "db_connections db' = session_delete (db_connections db) conn"
      "db_credential_refs db' = session_delete (db_credential_refs db) old"
      "db_secrets db' = local_delete (cr_key old) (db_secrets db)"
      "db_pools db' = pool_evict (tc_tenant ctx, i) (db_pools db)"
      using 2 Some told by (simp_all add: db'_def delete_connection_def repo_delete_def Let_def)
    have "pools_fresh db'"
    proof (rule pools_fresh_evict [of db])
      fix k tg assume k: "k \<noteq> (tc_tenant ctx, i)" and cur: "current_target db k = Some tg"
      show "current_target db' k = Some tg"
        by (rule current_target_other [OF wf conn 2(4) sold _ _ eq(3) k cur])
          (simp_all add: eq session_get_delete 2(3) rold)
    qed (use ok eq in \<open>simp_all add: conn_ok_def\<close>)
    moreover have "conn_wf g db'"
    proof -
      have "distinct (map cr_key (session_delete (db_credential_refs db) old))"
        using wf by (simp add: conn_wf_def session_delete_def distinct_map_filter)
      moreover have "cn_credential c \<in> row_id ` set (session_delete (db_credential_refs db) old)"
        if c: "c \<in> set (session_delete (db_connections db) conn)" for c
      proof -
        from c wf have "cn_credential c \<in> row_id ` set (db_credential_refs db)"
          by (auto simp: conn_wf_def session_delete_def)
        then obtain x where "x \<in> set (db_credential_refs db)" "cn_credential c = row_id x" by blast
        with other [OF c] rold show ?thesis by (auto simp: session_delete_def)
      qed
      ultimately show ?thesis using wf dist by (auto simp: conn_wf_def eq table_wf_delete)
    qed
    ultimately show ?thesis by (simp add: conn_ok_def db'_def)
  qed
qed

subsection \<open>Reachable states\<close>

text \<open>
  The operations as a step relation over the states of the component: any tenant, any
  arguments, any outcome of a probe. Registration and rotation draw identifiers for the
  tenant they act for and a reference key not used before.
\<close>

inductive conn_step :: "(uuid \<Rightarrow> uuid) \<Rightarrow> 'z conn_db_scheme \<Rightarrow> 'z conn_db_scheme \<Rightarrow> bool" for g where
  step_register: "fresh_key u db \<Longrightarrow> g ref = tc_tenant ctx \<Longrightarrow> g cid = tc_tenant ctx \<Longrightarrow>
    conn_step g db (snd (register_connection ctx sp u ref cid db))"
| step_engine: "conn_step g db (snd (get_or_create_engine i ctx db))"
| step_validate: "conn_step g db (snd (validate_connection probe i ctx now db))"
| step_enable: "conn_step g db (snd (enable_connection i ctx db))"
| step_disable: "conn_step g db (snd (disable_connection i ctx db))"
| step_rotate: "fresh_key u db \<Longrightarrow> g ref = tc_tenant ctx \<Longrightarrow>
    conn_step g db (snd (rotate_secret i ctx secret u ref now db))"
| step_delete: "conn_step g db (snd (delete_connection i ctx db))"

lemma conn_ok_step: "conn_step g db db' \<Longrightarrow> conn_ok g db \<Longrightarrow> conn_ok g db'"
  by (induction rule: conn_step.induct)
    (auto intro: conn_ok_register conn_ok_engine conn_ok_validate conn_ok_enable conn_ok_disable
      conn_ok_rotate conn_ok_delete)

lemma conn_ok_steps: "(conn_step g)\<^sup>*\<^sup>* db db' \<Longrightarrow> conn_ok g db \<Longrightarrow> conn_ok g db'"
  by (induction rule: rtranclp_induct) (auto intro: conn_ok_step)

definition empty_conn_db :: conn_db where
  "empty_conn_db = \<lparr>audit_log = [], db_connections = [], db_credential_refs = [],
     db_pools = \<lparr>po_engines = [], po_disposed = []\<rparr>, db_secrets = []\<rparr>"

lemma conn_ok_empty: "conn_ok g empty_conn_db"
  by (simp add: conn_ok_def conn_wf_def pools_fresh_def registry.fresh_for_def empty_conn_db_def
      pool_get_existing_def)

subsection \<open>Properties\<close>

definition sample_spec :: connection_spec where
  "sample_spec = \<lparr>sp_name = ''erp'', sp_engine = POSTGRESQL, sp_host = ''h'', sp_port = 5432,
     sp_database = ''d'', sp_username = ''u'', sp_secret = ''pw'', sp_tls_mode = ''require'',
     sp_schemas = Some [''public''], sp_tables = None\<rparr>"

definition sample_ctx :: tenant_context where
  "sample_ctx = \<lparr>tc_tenant = 1, tc_principal = 10, tc_roles = {}, tc_scopes = {},
     tc_correlation = None, tc_principal_type = ''human''\<rparr>"

definition sample_conn_db :: conn_db where
  "sample_conn_db = snd (register_connection sample_ctx sample_spec ''k1'' 50 60 empty_conn_db)"

lemma sample_conn_db_reachable: "(conn_step (\<lambda>_. 1))\<^sup>*\<^sup>* empty_conn_db sample_conn_db"
  unfolding sample_conn_db_def
  by (rule r_into_rtranclp, rule step_register) (simp_all add: fresh_key_def empty_conn_db_def sample_ctx_def)

lemmas sample_conn_defs =
  sample_conn_db_def sample_spec_def sample_ctx_def empty_conn_db_def register_connection_def
  local_store_eq repo_add_None repo_require_def repo_get_def session_get_def Let_def audit_record_def

text \<open>
  C18: an engine is always the current one. In every state that any history of lifecycle
  operations of any tenants can reach, the engine that is handed out for a connection was
  built from the connection's own row and the secret its credential reference resolves to
  now; a pool opened with a rotated secret, a deleted connection's address or another
  tenant's credential is never returned. Its session is read-only.
\<close>

theorem engine_handed_out_is_current:
  assumes "(conn_step g)\<^sup>*\<^sup>* empty_conn_db db" and "get_or_create_engine i ctx db = (Inr (conn, e), db')"
  shows "get_connection i ctx db = Inr conn \<and> cn_status conn \<noteq> CONN_DISABLED \<and>
    (\<exists>tg. resolve_target conn ctx db = Inr tg \<and> e = build_engine tg) \<and>
    map_of (en_server_settings e) ''default_transaction_read_only'' = Some ''on''"
proof -
  have ok: "conn_ok g db" using assms(1) conn_ok_empty by (rule conn_ok_steps)
  from assms(2) obtain tg p where conn: "repo_require (db_connections db) i ctx = Inr conn"
    and st: "cn_status conn \<noteq> CONN_DISABLED" and tg: "resolve_target conn ctx db = Inr tg"
    and ep: "pool_get_or_create (tc_tenant ctx, row_id conn) tg (db_pools db) = (e, p)"
    by (auto simp: get_or_create_engine_def attempt_def split: sum.splits if_splits prod.splits)
  from conn have sg: "session_get (db_connections db) i = Some conn" "row_id conn = i"
    and tn: "row_tenant conn = Some (tc_tenant ctx)"
    by (auto simp: repo_require_Inr_iff dest: session_get_Some)
  have "e = build_engine tg"
    using pool_create_fresh(1) [OF _ sg(1) tn tg] ok ep sg(2) by (simp add: conn_ok_def)
  with conn st tg show ?thesis by (simp add: get_connection_def build_engine_read_only)
qed

theorem engine_handed_out_is_current_witness:
  "\<exists>conn e db'. get_or_create_engine 60 sample_ctx sample_conn_db = (Inr (conn, e), db') \<and>
    (\<exists>tg. resolve_target conn sample_ctx sample_conn_db = Inr tg \<and> e = build_engine tg)"
proof -
  have "\<exists>conn e db'. get_or_create_engine 60 sample_ctx sample_conn_db = (Inr (conn, e), db')"
    by (simp add: get_or_create_engine_def sample_conn_defs resolve_target_def local_resolve_def
        pool_get_or_create_def dict_get_def)
  then obtain conn e db' where e: "get_or_create_engine 60 sample_ctx sample_conn_db = (Inr (conn, e), db')"
    by blast
  from engine_handed_out_is_current [OF sample_conn_db_reachable e] e show ?thesis by blast
qed

text \<open>
  A disabled connection is off. Right after it is disabled the connection has no pool, and
  asking for an engine raises without opening one.
\<close>

theorem disabled_connection_has_no_engine:
  assumes "disable_connection i ctx db = (Inr c, db')"
  shows "pool_get_existing (tc_tenant ctx, i) (db_pools db') = None \<and>
    get_or_create_engine i ctx db' = (Inl (ConnectionDisabledError i), db')"
proof (cases rule: repo_require_cases [of "db_connections db" i ctx])
  case 1
  with assms show ?thesis by (simp add: disable_connection_def)
next
  case (2 conn)
  from assms 2 have eq: "db_connections db' = row_set (db_connections db) i (\<lambda>c. c\<lparr>cn_status := CONN_DISABLED\<rparr>)"
    "db_pools db' = pool_evict (tc_tenant ctx, i) (db_pools db)"
    by (auto simp: disable_connection_def Let_def set_connection_def)
  have "repo_require (db_connections db') i ctx = Inr (conn\<lparr>cn_status := CONN_DISABLED\<rparr>)"
    using 2 by (simp add: repo_require_Inr_iff eq session_get_row_set)
  then show ?thesis
    by (simp add: eq registry.existing_evict get_or_create_engine_def)
qed

theorem disabled_connection_has_no_engine_witness:
  "\<exists>c db'. disable_connection 60 sample_ctx sample_conn_db = (Inr c, db') \<and>
    get_or_create_engine 60 sample_ctx db' = (Inl (ConnectionDisabledError 60), db')"
proof -
  have "\<exists>c db'. disable_connection 60 sample_ctx sample_conn_db = (Inr c, db')"
    by (simp add: disable_connection_def sample_conn_defs)
  then obtain c db' where d: "disable_connection 60 sample_ctx sample_conn_db = (Inr c, db')" by blast
  from disabled_connection_has_no_engine [OF d] d show ?thesis by blast
qed

text \<open>
  Rotation takes effect at once. After a successful rotation the connection waits for
  validation, the retired key no longer resolves, and the next engine for the connection
  authenticates with the new secret.
\<close>

theorem rotation_takes_effect:
  assumes ok: "conn_ok g db" and fresh: "fresh_key u db" and g: "g ref = tc_tenant ctx"
    and rot: "rotate_secret i ctx secret u ref now db = (Inr c, db')"
  shows "cn_status c = PENDING_VALIDATION \<and>
    (\<exists>old. repo_require (db_credential_refs db) (cn_credential (the (session_get (db_connections db) i))) ctx = Inr old \<and>
       local_resolve (cr_key old) (db_secrets db') = Inl (SecretNotFoundError (cr_key old))) \<and>
    (\<exists>e db''. get_or_create_engine i ctx db' = (Inr (c, e), db'') \<and> ct_password (en_target e) = secret)"
proof -
  from rot obtain conn old where conn: "repo_require (db_connections db) i ctx = Inr conn"
    and old: "repo_require (db_credential_refs db) (cn_credential conn) ctx = Inr old"
    by (auto simp: rotate_secret_def attempt_def split: sum.splits)
  from conn have cid: "session_get (db_connections db) i = Some conn" "row_id conn = i"
    and ct: "row_tenant conn = Some (tc_tenant ctx)"
    by (auto simp: repo_require_Inr_iff dest: session_get_Some)
  have new: "ref \<notin> row_id ` set (db_credential_refs db)"
    using rot conn old by (auto simp: rotate_secret_def local_store_eq repo_add_None Let_def split: if_splits)
  have keys: "cr_key old \<noteq> local_reference_key u"
    using fresh old by (metis fresh_key_def image_eqI repo_require_Inr_iff session_get_Some)
  define r where "r = \<lparr>row_id = ref, row_tenant = Some (tc_tenant ctx), cr_provider = cr_provider old,
      cr_key = local_reference_key u, cr_active = True, cr_rotated = None\<rparr>"
  have c: "c = conn\<lparr>cn_credential := ref, cn_status := PENDING_VALIDATION\<rparr>"
    and eq: "db_connections db' = row_set (db_connections db) i
        (\<lambda>c. c\<lparr>cn_credential := ref, cn_status := PENDING_VALIDATION\<rparr>)"
      "db_credential_refs db' = row_set (db_credential_refs db @ [r]) (row_id old)
        (\<lambda>x. x\<lparr>cr_active := False, cr_rotated := Some now\<rparr>)"
      "db_pools db' = pool_evict (tc_tenant ctx, i) (db_pools db)"
      "db_secrets db' = local_delete (cr_key old) (dict_put (local_reference_key u) secret (db_secrets db))"
    using rot conn old new cid(2)
    by (auto simp: rotate_secret_def local_store_eq repo_add_None Let_def set_connection_def r_def)
  have "session_get (db_credential_refs db') ref = Some r"
  proof -
    have "ref \<noteq> row_id old"
      using new old by (auto simp: repo_require_Inr_iff dest!: session_get_Some)
    then have "session_get (db_credential_refs db') ref = session_get (db_credential_refs db @ [r]) ref"
      unfolding eq by (intro session_get_row_set_other) simp_all
    also have "\<dots> = Some r"
      using new by (simp add: session_get_append r_def session_get_None [symmetric])
    finally show ?thesis .
  qed
  moreover have "local_resolve (cr_key r) (db_secrets db') = Inr secret"
    using local_dev.rotate_secret_store(1) [OF local_store_eq, of u "cr_key old"] keys
    by (simp add: eq r_def)
  ultimately have "resolve_target c ctx db' = Inr \<lparr>ct_host = cn_host conn, ct_port = cn_port conn,
      ct_database = cn_database conn, ct_username = cn_username conn, ct_password = secret,
      ct_tls_mode = cn_tls_mode conn\<rparr>"
    by (simp add: resolve_target_def repo_require_def repo_get_def c) (simp add: r_def)
  moreover have "repo_require (db_connections db') i ctx = Inr c"
    using conn by (simp add: repo_require_Inr_iff eq session_get_row_set c cid)
  moreover have "pool_get_existing (tc_tenant ctx, i) (db_pools db') = None"
    by (simp add: eq registry.existing_evict)
  ultimately have "\<exists>e db''. get_or_create_engine i ctx db' = (Inr (c, e), db'') \<and> ct_password (en_target e) = secret"
    by (simp add: get_or_create_engine_def pool_get_or_create_def pool_get_existing_def c cid Let_def
        build_engine_def)
  moreover have "local_resolve (cr_key old) (db_secrets db') = Inl (SecretNotFoundError (cr_key old))"
    by (simp add: eq local_dev.resolve_delete)
  ultimately show ?thesis using old cid by (simp add: c)
qed

theorem rotation_takes_effect_witness:
  "\<exists>c db' e db''. rotate_secret 60 sample_ctx ''new'' ''k2'' 51 9 sample_conn_db = (Inr c, db') \<and>
    get_or_create_engine 60 sample_ctx db' = (Inr (c, e), db'') \<and> ct_password (en_target e) = ''new''"
proof -
  have ok: "conn_ok (\<lambda>_. 1) sample_conn_db"
    using sample_conn_db_reachable conn_ok_empty by (rule conn_ok_steps)
  have fresh: "fresh_key ''k2'' sample_conn_db"
    by (simp add: fresh_key_def sample_conn_defs local_reference_key_def)
  have "\<exists>c db'. rotate_secret 60 sample_ctx ''new'' ''k2'' 51 9 sample_conn_db = (Inr c, db')"
    by (simp add: rotate_secret_def sample_conn_defs)
  then obtain c db' where r: "rotate_secret 60 sample_ctx ''new'' ''k2'' 51 9 sample_conn_db = (Inr c, db')"
    by blast
  have "(\<lambda>_. 1) 51 = tc_tenant sample_ctx" by (simp add: sample_ctx_def)
  from rotation_takes_effect [OF ok fresh this r] r show ?thesis by blast
qed

text \<open>
  Secrets stay in the store. Registering a connection and rotating its secret return the
  same row or error, write the same metadata and audit records and leave the same pools
  whatever the secret is; two runs differ in the contents of the secret store alone.
\<close>

theorem secrets_only_reach_the_store:
  "map_prod id (\<lambda>d. d\<lparr>db_secrets := []\<rparr>) (register_connection ctx sp u ref cid db) =
     map_prod id (\<lambda>d. d\<lparr>db_secrets := []\<rparr>) (register_connection ctx (sp\<lparr>sp_secret := v\<rparr>) u ref cid db) \<and>
   map_prod id (\<lambda>d. d\<lparr>db_secrets := []\<rparr>) (rotate_secret i ctx w u ref now db) =
     map_prod id (\<lambda>d. d\<lparr>db_secrets := []\<rparr>) (rotate_secret i ctx v u ref now db)"
  by (simp add: register_connection_def rotate_secret_def local_store_eq repo_add_None attempt_def
      set_connection_def audit_record_def Let_def split: sum.split)

text \<open>
  What \<open>enable_connection\<close> checks. A connection whose only validation failed is enabled,
  with the error of that validation still on its row: the guard reads the time of the last
  validation, and a failed one sets it too.
\<close>

theorem enable_accepts_failed_validation:
  assumes "validate_connection probe i ctx now db = (Inr c, db')" and "cn_status c = CONN_ERROR"
  shows "\<exists>c' db''. enable_connection i ctx db' = (Inr c', db'') \<and> cn_status c' = CONN_ACTIVE \<and>
    cn_last_error c' = cn_last_error c"
proof (cases rule: repo_require_cases [of "db_connections db" i ctx])
  case 1
  with assms show ?thesis by (simp add: validate_connection_def)
next
  case (2 conn)
  from assms 2 obtain r where c: "c = apply_health r conn" and
    "db_connections db' = row_set (db_connections db) i (apply_health r)"
    by (auto simp: validate_connection_def attempt_def Let_def split: sum.splits prod.splits)
  with 2 have "repo_require (db_connections db') i ctx = Inr c"
    by (simp add: repo_require_Inr_iff session_get_row_set)
  then show ?thesis
    by (simp add: enable_connection_def c) (simp add: apply_health_def)
qed

theorem enable_accepts_failed_validation_witness:
  "\<exists>c db' c' db''. validate_connection (\<lambda>_. Some ''timeout'') 60 sample_ctx 5 sample_conn_db = (Inr c, db') \<and>
    enable_connection 60 sample_ctx db' = (Inr c', db'') \<and> cn_status c' = CONN_ACTIVE \<and>
    cn_last_error c' = Some ''timeout''"
proof -
  have "\<exists>c db'. validate_connection (\<lambda>_. Some ''timeout'') 60 sample_ctx 5 sample_conn_db = (Inr c, db') \<and>
      cn_status c = CONN_ERROR \<and> cn_last_error c = Some ''timeout''"
    by (simp add: validate_connection_def sample_conn_defs resolve_target_def local_resolve_def
        pool_get_or_create_def health_check_def apply_health_def dict_get_def)
  then obtain c db' where v: "validate_connection (\<lambda>_. Some ''timeout'') 60 sample_ctx 5 sample_conn_db = (Inr c, db')"
    "cn_status c = CONN_ERROR" "cn_last_error c = Some ''timeout''" by blast
  from enable_accepts_failed_validation [OF v(1,2)] v show ?thesis by metis
qed

end
