(* ===== verification/Introspection.thy ===== *)
theory Introspection
  imports Errors
begin

section \<open>Schema metadata and introspection\<close>

text \<open>
  \<open>hermes_rpt/schemas/introspection.py\<close>: the metadata records and the assembly of the rows
  of the nine catalogue queries into tables. The rows are what the customer database answers
  for an allowlist of schemas, a parameter. A foreign key and a unique constraint are built up
  row by row by the code, on an object its table already refers to; here the rows of one
  constraint are grouped, in the order of their first row.
\<close>

record column_meta =
  cm_name :: string
  cm_sql_type :: string
  cm_nullable :: bool
  cm_position :: int
  cm_comment :: "string option"

record fk_meta =
  fk_constraint :: string
  fk_columns :: "string list"
  fk_ref_schema :: string
  fk_ref_table :: string
  fk_ref_columns :: "string list"

record uq_meta =
  uq_constraint :: string
  uq_columns :: "string list"

record index_meta =
  ix_name :: string
  ix_columns :: "string list"
  ix_unique :: bool

record table_meta =
  tm_schema :: string
  tm_name :: string
  tm_kind :: string
  tm_comment :: "string option"
  tm_columns :: "column_meta list"
  tm_primary_key :: "string list"
  tm_foreign_keys :: "fk_meta list"
  tm_uniques :: "uq_meta list"
  tm_indexes :: "index_meta list"
  tm_row_count :: "int option"

definition qualified_name :: "table_meta \<Rightarrow> string" where
  "qualified_name t = tm_schema t @ ''.'' @ tm_name t"

record introspection =
  in_schemas :: "string list"
  in_tables :: "table_meta list"

subsection \<open>The rows of the catalogue queries\<close>

type_synonym tkey = "string \<times> string"

record fk_row =
  fr_table :: tkey
  fr_constraint :: string
  fr_column :: string
  fr_ref_schema :: string
  fr_ref_table :: string
  fr_ref_column :: string

record catalog =
  ca_tables :: "(tkey \<times> string) list"
  ca_columns :: "(tkey \<times> string \<times> string \<times> string \<times> int) list"
  ca_primary_keys :: "(tkey \<times> string) list"
  ca_foreign_keys :: "fk_row list"
  ca_uniques :: "(tkey \<times> string \<times> string) list"
  ca_indexes :: "(tkey \<times> string \<times> string) list"
  ca_row_counts :: "(tkey \<times> int) list"
  ca_table_comments :: "(tkey \<times> string option) list"
  ca_column_comments :: "(tkey \<times> string \<times> string option) list"

text \<open>A comment that is missing or empty is dropped.\<close>

definition table_comment :: "catalog \<Rightarrow> tkey \<Rightarrow> string option" where
  "table_comment ca k =
     dict_get (dict_of [(k', c). (k', Some c) \<leftarrow> ca_table_comments ca, c \<noteq> []]) k"

definition column_comment :: "catalog \<Rightarrow> tkey \<Rightarrow> string \<Rightarrow> string option" where
  "column_comment ca k col =
     dict_get (dict_of [((k', n), c). (k', n, Some c) \<leftarrow> ca_column_comments ca, c \<noteq> []]) (k, col)"

definition columns_of :: "catalog \<Rightarrow> tkey \<Rightarrow> column_meta list" where
  "columns_of ca k =
     [\<lparr>cm_name = n, cm_sql_type = t, cm_nullable = (nullable = ''YES''), cm_position = pos,
       cm_comment = column_comment ca k n\<rparr>.
      (k', n, t, nullable, pos) \<leftarrow> ca_columns ca, k' = k]"

definition foreign_keys_of :: "catalog \<Rightarrow> tkey \<Rightarrow> fk_meta list" where
  "foreign_keys_of ca k =
     (let rows = filter (\<lambda>r. fr_table r = k) (ca_foreign_keys ca);
          names = rev (remdups (rev (map fr_constraint rows)))
      in map (\<lambda>c. let own = filter (\<lambda>r. fr_constraint r = c) rows
           in \<lparr>fk_constraint = c, fk_columns = map fr_column own, fk_ref_schema = fr_ref_schema (hd own),
               fk_ref_table = fr_ref_table (hd own), fk_ref_columns = map fr_ref_column own\<rparr>) names)"

definition uniques_of :: "catalog \<Rightarrow> tkey \<Rightarrow> uq_meta list" where
  "uniques_of ca k =
     (let rows = [(c, col). (k', c, col) \<leftarrow> ca_uniques ca, k' = k];
          names = rev (remdups (rev (map fst rows)))
      in map (\<lambda>c. \<lparr>uq_constraint = c, uq_columns = [col. (c', col) \<leftarrow> rows, c' = c]\<rparr>) names)"

text \<open>\<open>str.split\<close> on one character, and the column list of an index definition.\<close>

fun split_on :: "char \<Rightarrow> string \<Rightarrow> string list" where
  "split_on c [] = [[]]"
| "split_on c (x # xs) =
     (if x = c then [] # split_on c xs
      else case split_on c xs of p # ps \<Rightarrow> (x # p) # ps | [] \<Rightarrow> [[x]])"

definition before_first :: "char \<Rightarrow> string \<Rightarrow> string" where
  "before_first c s = takeWhile (\<lambda>x. x \<noteq> c) s"

definition extract_index_columns :: "string \<Rightarrow> string list" where
  "extract_index_columns d =
     (if CHR ''('' \<notin> set d \<or> CHR '')'' \<notin> set d then []
      else let start = length (before_first (CHR ''('') d) + 1;
               stop = length d - length (before_first (CHR '')'') (rev d)) - 1;
               inner = take (stop - start) (drop start d)
           in map (\<lambda>p. hd (split_on (CHR '' '') (str_strip p)))
                (filter (\<lambda>p. str_strip p \<noteq> []) (split_on (CHR '','') inner)))"

fun contains :: "string \<Rightarrow> string \<Rightarrow> bool" where
  "contains p [] \<longleftrightarrow> p = []"
| "contains p (c # s) \<longleftrightarrow> take (length p) (c # s) = p \<or> contains p s"

definition indexes_of :: "catalog \<Rightarrow> tkey \<Rightarrow> index_meta list" where
  "indexes_of ca k =
     [\<lparr>ix_name = n, ix_columns = extract_index_columns d,
       ix_unique = contains ''UNIQUE'' (str_upper (hd (split_on (CHR ''('') d)))\<rparr>.
      (k', n, d) \<leftarrow> ca_indexes ca, k' = k]"

definition table_of :: "catalog \<Rightarrow> tkey \<Rightarrow> string \<Rightarrow> table_meta" where
  "table_of ca k ttype =
     \<lparr>tm_schema = fst k, tm_name = snd k, tm_kind = (if ttype = ''VIEW'' then ''view'' else ''table''),
      tm_comment = table_comment ca k, tm_columns = columns_of ca k,
      tm_primary_key = [c. (k', c) \<leftarrow> ca_primary_keys ca, k' = k],
      tm_foreign_keys = foreign_keys_of ca k, tm_uniques = uniques_of ca k,
      tm_indexes = indexes_of ca k, tm_row_count = dict_get (dict_of (ca_row_counts ca)) k\<rparr>"

definition assemble :: "catalog \<Rightarrow> string list \<Rightarrow> introspection" where
  "assemble ca allowlist =
     \<lparr>in_schemas = allowlist,
      in_tables = sort_key qualified_name
        (map (\<lambda>(k, ttype). table_of ca k ttype) (dict_of (ca_tables ca)))\<rparr>"

definition introspect :: "('e \<Rightarrow> string list \<Rightarrow> exn + catalog) \<Rightarrow> 'e \<Rightarrow> string list \<Rightarrow> exn + introspection" where
  "introspect query e allowlist =
     (if allowlist = [] then Inr \<lparr>in_schemas = [], in_tables = []\<rparr>
      else rbind (query e allowlist) (\<lambda>ca. Inr (assemble ca allowlist)))"

lemma set_dict_of_keys: "k \<in> fst ` set (dict_of kvs) \<longleftrightarrow> k \<in> fst ` set kvs"
  by (simp add: keys_dict_of)

lemma introspect_tables:
  assumes "introspect query e allowlist = Inr r" and "allowlist \<noteq> []" and "t \<in> set (in_tables r)"
  obtains ca k where "query e allowlist = Inr ca" "k \<in> fst ` set (ca_tables ca)"
    "tm_schema t = fst k" "tm_name t = snd k" "tm_columns t = columns_of ca k"
proof -
  from assms(1,2) obtain ca where q: "query e allowlist = Inr ca" "r = assemble ca allowlist"
    by (auto simp: introspect_def)
  with assms(3) obtain k ttype where "(k, ttype) \<in> set (dict_of (ca_tables ca))" "t = table_of ca k ttype"
    by (auto simp: assemble_def)
  then show thesis
    using that [OF q(1), of k] set_dict_of_keys [of k "ca_tables ca"]
    by (auto simp: table_of_def intro: rev_image_eqI)
qed

text \<open>
  Introspection stays inside the allowlist. With an empty allowlist nothing is asked and
  nothing is found; otherwise, of a database that answers a query about some schemas with
  tables of those schemas, only tables of allowlisted schemas are reported, each with the
  columns the database reports for it.
\<close>

theorem introspection_fails_closed:
  assumes "\<And>s ca k. query e s = Inr ca \<Longrightarrow> k \<in> fst ` set (ca_tables ca) \<Longrightarrow> fst k \<in> set s"
    and "introspect query e allowlist = Inr r"
  shows "in_schemas r = allowlist \<and> (\<forall>t \<in> set (in_tables r). tm_schema t \<in> set allowlist)"
proof (cases "allowlist = []")
  case True
  with assms(2) show ?thesis by (auto simp: introspect_def)
next
  case False
  have "tm_schema t \<in> set allowlist" if "t \<in> set (in_tables r)" for t
    using introspect_tables [OF assms(2) False that] assms(1) by metis
  moreover have "in_schemas r = allowlist"
    using assms(2) False by (auto simp: introspect_def assemble_def)
  ultimately show ?thesis by simp
qed

definition sample_catalog :: catalog where
  "sample_catalog = \<lparr>ca_tables = [((''public'', ''orders''), ''BASE TABLE'')],
     ca_columns = [((''public'', ''orders''), ''id'', ''uuid'', ''NO'', 1)],
     ca_primary_keys = [((''public'', ''orders''), ''id'')], ca_foreign_keys = [], ca_uniques = [],
     ca_indexes = [], ca_row_counts = [], ca_table_comments = [], ca_column_comments = []\<rparr>"

theorem introspection_fails_closed_witness:
  "\<exists>r. introspect (\<lambda>_ s. if s = [''public''] then Inr sample_catalog else Inl (ExternalError ''db'')) () [''public''] = Inr r \<and>
    in_schemas r = [''public''] \<and> (\<forall>t \<in> set (in_tables r). tm_schema t \<in> set [''public''])"
proof -
  let ?q = "\<lambda>_ s. if s = [''public''] then Inr sample_catalog else Inl (ExternalError ''db'')"
  have r: "introspect ?q () [''public''] = Inr (assemble sample_catalog [''public''])"
    by (simp add: introspect_def)
  have "in_schemas (assemble sample_catalog [''public'']) = [''public''] \<and>
      (\<forall>t \<in> set (in_tables (assemble sample_catalog [''public''])). tm_schema t \<in> set [''public''])"
    by (rule introspection_fails_closed [where query = ?q and e = "()", OF _ r])
      (auto simp: sample_catalog_def split: if_splits)
  with r show ?thesis by blast
qed

lemma extract_index_example:
  "extract_index_columns ''CREATE INDEX i ON s.t USING btree (a, b DESC)'' = [''a'', ''b'']"
  by code_simp

end
