(* ===== verification/Drift.thy ===== *)
theory Drift
  imports Introspection
begin

section \<open>Fingerprints and schema drift\<close>

text \<open>
  \<open>hermes_rpt/schemas/fingerprint.py\<close> and \<open>drift.py\<close>. The digest \<open>sha\<close>
  (\<open>hashlib.sha256\<close>) is a parameter; \<open>json_dumps\<close> is the canonical rendering that is
  digested: sorted keys, no white space. A drift event carries the names its \<open>detail\<close> text
  interpolates. The order in which Python iterates over a set of names is a parameter too
  (\<open>iter\<close>), because the choice among equally similar tables depends on it.
\<close>

subsection \<open>Canonical JSON and fingerprints\<close>

definition hex_digit :: "nat \<Rightarrow> char" where
  "hex_digit n = (if n < 10 then char_of (48 + n) else char_of (87 + n))"

definition json_escape :: "char \<Rightarrow> string" where
  "json_escape c =
     (let n = (of_char c :: nat)
      in if n = 34 then [char_of (92::nat), c] else if n = 92 then [c, c]
         else if n = 8 then [char_of (92::nat), CHR ''b''] else if n = 12 then [char_of (92::nat), CHR ''f'']
         else if n = 10 then [char_of (92::nat), CHR ''n''] else if n = 13 then [char_of (92::nat), CHR ''r'']
         else if n = 9 then [char_of (92::nat), CHR ''t'']
         else if n < 32 \<or> 127 < n then char_of (92::nat) # ''u00'' @ [hex_digit (n div 16), hex_digit (n mod 16)]
         else [c])"

definition json_string :: "string \<Rightarrow> string" where
  "json_string s = [CHR 0x22] @ concat (map json_escape s) @ [CHR 0x22]"

fun nat_digits :: "nat \<Rightarrow> string" where
  "nat_digits n = (if n < 10 then [char_of (48 + n)] else nat_digits (n div 10) @ [char_of (48 + n mod 10)])"

declare nat_digits.simps [simp del]

definition int_text :: "int \<Rightarrow> string" where
  "int_text i = (if i < 0 then CHR ''-'' # nat_digits (nat (- i)) else nat_digits (nat i))"

fun json_dumps :: "json \<Rightarrow> string" where
  "json_dumps JNull = ''null''"
| "json_dumps (JBool b) = (if b then ''true'' else ''false'')"
| "json_dumps (JInt i) = int_text i"
| "json_dumps (JStr s) = json_string s"
| "json_dumps (JUuid u) = json_string (nat_digits u)"
| "json_dumps (JList xs) = ''['' @ join_with '','' (map json_dumps xs) @ '']''"
| "json_dumps (JObj kvs) = ''{'' @ join_with '',''
     (map (\<lambda>(k, v). json_string k @ '':'' @ v) (sort_key fst (map (\<lambda>(k, v). (k, json_dumps v)) kvs))) @ ''}''"

definition stable_hash :: "(string \<Rightarrow> string) \<Rightarrow> json \<Rightarrow> string" where
  "stable_hash sha v = sha (json_dumps v)"

definition str_list :: "string list \<Rightarrow> json" where
  "str_list xs = JList (map JStr xs)"

definition fingerprint_column :: "(string \<Rightarrow> string) \<Rightarrow> column_meta \<Rightarrow> string" where
  "fingerprint_column sha c =
     stable_hash sha (JObj [(''name'', JStr (cm_name c)), (''type'', JStr (cm_sql_type c)),
       (''nullable'', JBool (cm_nullable c))])"

definition fingerprint_relationship :: "(string \<Rightarrow> string) \<Rightarrow> fk_meta \<Rightarrow> string" where
  "fingerprint_relationship sha fk =
     stable_hash sha (JObj [(''columns'', str_list (sort (fk_columns fk))),
       (''referenced_table'', JStr (fk_ref_table fk)),
       (''referenced_columns'', str_list (sort (fk_ref_columns fk)))])"

definition fingerprint_table :: "(string \<Rightarrow> string) \<Rightarrow> table_meta \<Rightarrow> string" where
  "fingerprint_table sha t =
     stable_hash sha (JObj [(''schema'', JStr (tm_schema t)), (''name'', JStr (tm_name t)),
       (''kind'', JStr (tm_kind t)),
       (''columns'', str_list (sort (map (fingerprint_column sha) (tm_columns t)))),
       (''primary_key'', str_list (sort (tm_primary_key t))),
       (''relationships'', str_list (sort (map (fingerprint_relationship sha) (tm_foreign_keys t)))),
       (''unique_constraints'', str_list (sort
          (map (\<lambda>uq. stable_hash sha (str_list (sort (uq_columns uq)))) (tm_uniques t))))])"

definition compute_fingerprints :: "(string \<Rightarrow> string) \<Rightarrow> introspection \<Rightarrow> string \<times> (string, string) dict" where
  "compute_fingerprints sha r =
     (let fps = dict_of (map (\<lambda>t. (qualified_name t, fingerprint_table sha t)) (in_tables r))
      in (stable_hash sha (JObj [(''schemas'', str_list (sort (in_schemas r))),
            (''tables'', JObj (map (\<lambda>(k, v). (k, JStr v)) (sort_key fst fps)))]), fps))"

subsection \<open>Drift\<close>

datatype drift_event =
    TableAdded string
  | TableRemoved string
  | TableRenamedLikely string string
  | ColumnAdded string string
  | ColumnRemoved string string
  | ColumnTypeChanged string string string string
  | ColumnNullabilityChanged string string bool bool
  | RelationshipChanged string

fun event_table :: "drift_event \<Rightarrow> string" where
  "event_table (TableAdded t) = t"
| "event_table (TableRemoved t) = t"
| "event_table (TableRenamedLikely t t') = t"
| "event_table (ColumnAdded t c) = t"
| "event_table (ColumnRemoved t c) = t"
| "event_table (ColumnTypeChanged t c a b) = t"
| "event_table (ColumnNullabilityChanged t c a b) = t"
| "event_table (RelationshipChanged t) = t"

definition column_fingerprint_set :: "(string \<Rightarrow> string) \<Rightarrow> table_meta \<Rightarrow> string set" where
  "column_fingerprint_set sha t = fingerprint_column sha ` set (tm_columns t)"

definition relationship_signature :: "table_meta \<Rightarrow> (string \<times> string list \<times> string) set" where
  "relationship_signature t =
     (\<lambda>fk. (fk_constraint fk, sort (fk_columns fk), fk_ref_table fk)) ` set (tm_foreign_keys t)"

definition similarity :: "string set \<Rightarrow> string set \<Rightarrow> rat" where
  "similarity a b = of_nat (card (a \<inter> b)) / of_nat (max (card a) (card b))"

fun best_candidate ::
  "(string \<Rightarrow> string) \<Rightarrow> string set \<Rightarrow> (rat \<times> table_meta) option \<Rightarrow> table_meta list \<Rightarrow> (rat \<times> table_meta) option" where
  "best_candidate sha removed best [] = best"
| "best_candidate sha removed best (c # cs) =
     (let cols = column_fingerprint_set sha c; s = similarity removed cols
      in if cols = {} then best_candidate sha removed best cs
         else if s \<ge> 7 / 10 \<and> (case best of None \<Rightarrow> True | Some b \<Rightarrow> s > fst b)
         then best_candidate sha removed (Some (s, c)) cs
         else best_candidate sha removed best cs)"

definition likely_rename_target :: "(string \<Rightarrow> string) \<Rightarrow> table_meta \<Rightarrow> table_meta list \<Rightarrow> table_meta option" where
  "likely_rename_target sha removed added =
     (let cols = column_fingerprint_set sha removed
      in if cols = {} then None else map_option snd (best_candidate sha cols None added))"

definition by_name :: "introspection \<Rightarrow> (string, table_meta) dict" where
  "by_name r = dict_of (map (\<lambda>t. (qualified_name t, t)) (in_tables r))"

definition columns_by_name :: "table_meta \<Rightarrow> (string, column_meta) dict" where
  "columns_by_name t = dict_of (map (\<lambda>c. (cm_name c, c)) (tm_columns t))"

definition keys :: "('k, 'v) dict \<Rightarrow> 'k set" where
  "keys d = set (map fst d)"

text \<open>\<open>sorted\<close> of a set of strings.\<close>

definition sorted_set :: "string set \<Rightarrow> string list" where
  "sorted_set s = sorted_list_of_set s"

definition column_events :: "string \<Rightarrow> column_meta \<Rightarrow> column_meta \<Rightarrow> drift_event list" where
  "column_events name a b =
     (if cm_sql_type a \<noteq> cm_sql_type b
      then [ColumnTypeChanged name (cm_name a) (cm_sql_type a) (cm_sql_type b)] else []) @
     (if cm_nullable a \<noteq> cm_nullable b
      then [ColumnNullabilityChanged name (cm_name a) (cm_nullable a) (cm_nullable b)] else [])"

definition table_events :: "string \<Rightarrow> table_meta \<Rightarrow> table_meta \<Rightarrow> drift_event list" where
  "table_events name a b =
     (let oc = columns_by_name a; nc = columns_by_name b
      in map (ColumnAdded name) (sorted_set (keys nc - keys oc)) @
         map (ColumnRemoved name) (sorted_set (keys oc - keys nc)) @
         concat (map (\<lambda>c. column_events name (the (dict_get oc c)) (the (dict_get nc c)))
           (sorted_set (keys oc \<inter> keys nc))) @
         (if relationship_signature a \<noteq> relationship_signature b then [RelationshipChanged name] else []))"

definition renamed_pairs ::
  "(string \<Rightarrow> string) \<Rightarrow> (string set \<Rightarrow> string list) \<Rightarrow> (string, table_meta) dict \<Rightarrow>
   (string, table_meta) dict \<Rightarrow> (string \<times> string) list" where
  "renamed_pairs sha iter old new =
     (let added = map (\<lambda>n. the (dict_get new n)) (iter (keys new - keys old))
      in concat (map (\<lambda>n. case likely_rename_target sha (the (dict_get old n)) added of
            None \<Rightarrow> [] | Some t \<Rightarrow> [(n, qualified_name t)]) (sorted_set (keys old - keys new))))"

definition compare_snapshots ::
  "(string \<Rightarrow> string) \<Rightarrow> (string set \<Rightarrow> string list) \<Rightarrow> introspection \<Rightarrow> introspection \<Rightarrow> drift_event list" where
  "compare_snapshots sha iter old_r new_r =
     (let old = by_name old_r; new = by_name new_r; pairs = renamed_pairs sha iter old new
      in map (\<lambda>(a, b). TableRenamedLikely a b) pairs @
         map TableRemoved (sorted_set ((keys old - keys new) - fst ` set pairs)) @
         map TableAdded (sorted_set ((keys new - keys old) - snd ` set pairs)) @
         concat (map (\<lambda>n. table_events n (the (dict_get old n)) (the (dict_get new n)))
           (sorted_set (keys old \<inter> keys new))))"

subsection \<open>Fingerprints do not depend on row order\<close>

lemma sort_mset_cong: "mset xs = mset ys \<Longrightarrow> sort xs = sort ys"
  by (metis sorted_list_of_multiset_mset)

lemma sort_map_mset_cong: "mset xs = mset ys \<Longrightarrow> sort (map f xs) = sort (map f ys)"
  by (intro sort_mset_cong) (metis mset_map)

lemma fingerprint_table_mset:
  assumes "tm_schema t = tm_schema u" "tm_name t = tm_name u" "tm_kind t = tm_kind u"
    and "mset (tm_columns t) = mset (tm_columns u)" "mset (tm_primary_key t) = mset (tm_primary_key u)"
    and "mset (tm_foreign_keys t) = mset (tm_foreign_keys u)" "mset (tm_uniques t) = mset (tm_uniques u)"
  shows "fingerprint_table sha t = fingerprint_table sha u"
  using assms by (simp add: fingerprint_table_def sort_mset_cong [OF assms(5)]
      sort_map_mset_cong [OF assms(4)] sort_map_mset_cong [OF assms(6)] sort_map_mset_cong [OF assms(7)])

lemma dict_put_new: "k \<notin> fst ` set d \<Longrightarrow> dict_put k v d = d @ [(k, v)]"
  by (induction d) auto

lemma foldl_dict_put_distinct:
  "distinct (map fst (d @ kvs)) \<Longrightarrow> foldl (\<lambda>d kv. dict_put (fst kv) (snd kv) d) d kvs = d @ kvs"
proof (induction kvs arbitrary: d)
  case (Cons kv kvs)
  then have "dict_put (fst kv) (snd kv) d = d @ [kv]" by (auto simp: dict_put_new)
  with Cons show ?case by simp
qed simp

lemma dict_of_distinct: "distinct (map fst kvs) \<Longrightarrow> dict_of kvs = kvs"
  using foldl_dict_put_distinct [of "[]" kvs] by (simp add: dict_of_def)

lemma filter_single: "distinct zs \<Longrightarrow> k \<in> set zs \<Longrightarrow> filter (\<lambda>x. x = k) zs = [k]"
  by (induction zs) (auto simp: filter_empty_conv)

lemma sort_key_fst_cong:
  assumes "mset xs = mset ys" and "distinct (map fst xs)"
  shows "sort_key fst xs = sort_key fst ys"
proof (rule properties_for_sort_key)
  show "mset (sort_key fst ys) = mset xs" using assms(1) by simp
  fix k assume k': "k \<in> set (sort_key fst ys)"
  have inj: "inj_on fst (set xs)" using assms(2) by (simp add: distinct_map)
  have set: "set (sort_key fst ys) = set xs" using assms(1) by (metis mset_eq_setD set_sort)
  with k' have k: "k \<in> set xs" by simp
  have dx: "distinct xs" using assms(2) by (simp add: distinct_map)
  then have dy: "distinct (sort_key fst ys)"
    using assms(1) by (metis mset_eq_imp_distinct_iff distinct_sort)
  have one: "filter (\<lambda>x. fst k = fst x) zs = [k]" if "distinct zs" "set zs = set xs" for zs
  proof -
    have "filter (\<lambda>x. fst k = fst x) zs = filter (\<lambda>x. x = k) zs"
      using inj k that(2) by (intro filter_cong) (auto simp: inj_on_def)
    also have "\<dots> = [k]" using that k by (simp add: filter_single)
    finally show ?thesis .
  qed
  show "filter (\<lambda>x. fst k = fst x) (sort_key fst ys) = filter (\<lambda>x. fst k = fst x) xs"
    using one [OF dy set] one [OF dx refl] by simp
qed simp

definition same_tables :: "table_meta list \<Rightarrow> table_meta list \<Rightarrow> bool" where
  "same_tables ts us \<longleftrightarrow> length ts = length us \<and>
     list_all2 (\<lambda>t u. tm_schema t = tm_schema u \<and> tm_name t = tm_name u \<and> tm_kind t = tm_kind u \<and>
       mset (tm_columns t) = mset (tm_columns u) \<and> mset (tm_primary_key t) = mset (tm_primary_key u) \<and>
       mset (tm_foreign_keys t) = mset (tm_foreign_keys u) \<and> mset (tm_uniques t) = mset (tm_uniques u)) ts us"

text \<open>
  The fingerprint of a schema is a function of its shape. Two introspections with the same
  schemas and the same tables, up to the order in which the database returned tables, columns,
  keys and constraints, have the same schema fingerprint.
\<close>

theorem schema_fingerprint_order_independent:
  assumes "mset (in_schemas a) = mset (in_schemas b)" and "mset (in_tables b) = mset us"
    and "same_tables (in_tables a) us" and "distinct (map qualified_name (in_tables a))"
  shows "fst (compute_fingerprints sha a) = fst (compute_fingerprints sha b)"
proof -
  let ?fp = "\<lambda>t. (qualified_name t, fingerprint_table sha t)"
  have "list_all2 (\<lambda>t u. ?fp t = ?fp u) (in_tables a) us"
    using assms(3) unfolding same_tables_def
    by (rule list_all2_mono [OF conjunct2])
      (simp add: qualified_name_def, metis fingerprint_table_mset)
  then have "map ?fp (in_tables a) = map ?fp us"
    by (simp only: list_all2_eq list.rel_map)
  then have fps: "mset (map ?fp (in_tables a)) = mset (map ?fp (in_tables b))"
    using assms(2) by (simp only: mset_map)
  have da: "distinct (map fst (map ?fp (in_tables a)))" using assms(4) by (simp add: comp_def)
  have "mset (map fst (map ?fp (in_tables a))) = mset (map fst (map ?fp (in_tables b)))"
    using fps by (simp only: mset_map)
  from mset_eq_imp_distinct_iff [OF this] da
  have db: "distinct (map fst (map ?fp (in_tables b)))" by (rule iffD1)
  show ?thesis
    using sort_mset_cong [OF assms(1)] sort_key_fst_cong [OF fps da]
    by (simp add: compute_fingerprints_def Let_def dict_of_distinct [OF da] dict_of_distinct [OF db])
qed

definition sample_column :: "string \<Rightarrow> string \<Rightarrow> column_meta" where
  "sample_column n t = \<lparr>cm_name = n, cm_sql_type = t, cm_nullable = False, cm_position = 1, cm_comment = None\<rparr>"

definition sample_table :: "string \<Rightarrow> column_meta list \<Rightarrow> string list \<Rightarrow> table_meta" where
  "sample_table n cols pk = \<lparr>tm_schema = ''s'', tm_name = n, tm_kind = ''table'', tm_comment = None,
     tm_columns = cols, tm_primary_key = pk, tm_foreign_keys = [], tm_uniques = [], tm_indexes = [],
     tm_row_count = None\<rparr>"

definition sample_result :: "table_meta list \<Rightarrow> introspection" where
  "sample_result ts = \<lparr>in_schemas = [''s''], in_tables = ts\<rparr>"

theorem schema_fingerprint_order_independent_witness:
  "fst (compute_fingerprints id (sample_result [sample_table ''a'' [sample_column ''x'' ''int'', sample_column ''y'' ''text''] [],
      sample_table ''b'' [] []])) =
   fst (compute_fingerprints id (sample_result [sample_table ''b'' [] [],
      sample_table ''a'' [sample_column ''y'' ''text'', sample_column ''x'' ''int''] []]))"
  by (rule schema_fingerprint_order_independent
        [where us = "[sample_table ''a'' [sample_column ''y'' ''text'', sample_column ''x'' ''int''] [],
           sample_table ''b'' [] []]"])
    (simp_all add: sample_result_def sample_table_def same_tables_def qualified_name_def)

subsection \<open>What a comparison reports\<close>

definition same_columns :: "table_meta \<Rightarrow> table_meta \<Rightarrow> bool" where
  "same_columns a b \<longleftrightarrow>
     (let oc = columns_by_name a; nc = columns_by_name b
      in keys oc = keys nc \<and>
         (\<forall>c \<in> keys oc. cm_sql_type (the (dict_get oc c)) = cm_sql_type (the (dict_get nc c)) \<and>
            cm_nullable (the (dict_get oc c)) = cm_nullable (the (dict_get nc c))))"

definition same_shape :: "introspection \<Rightarrow> introspection \<Rightarrow> bool" where
  "same_shape a b \<longleftrightarrow>
     keys (by_name a) = keys (by_name b) \<and>
     (\<forall>n \<in> keys (by_name a).
        same_columns (the (dict_get (by_name a) n)) (the (dict_get (by_name b) n)) \<and>
        relationship_signature (the (dict_get (by_name a) n)) =
          relationship_signature (the (dict_get (by_name b) n)))"

lemma finite_keys [simp]: "finite (keys d)"
  by (simp add: keys_def)

lemma set_sorted_set [simp]: "finite s \<Longrightarrow> set (sorted_set s) = s"
  by (simp add: sorted_set_def)

lemma sorted_set_Nil [simp]: "finite s \<Longrightarrow> sorted_set s = [] \<longleftrightarrow> s = {}"
  by (simp add: sorted_set_def)

lemma table_events_Nil:
  "table_events n a b = [] \<longleftrightarrow> same_columns a b \<and> relationship_signature a = relationship_signature b"
  by (auto simp: table_events_def same_columns_def column_events_def Let_def split: if_splits)

lemma renamed_pairs_keys:
  "(x, y) \<in> set (renamed_pairs sha iter old new) \<Longrightarrow> x \<in> keys old - keys new"
  by (auto simp: renamed_pairs_def Let_def split: option.splits)

lemma compare_Nil:
  "compare_snapshots sha iter a b = [] \<longleftrightarrow>
    keys (by_name a) = keys (by_name b) \<and>
    (\<forall>n \<in> keys (by_name a). table_events n (the (dict_get (by_name a) n)) (the (dict_get (by_name b) n)) = [])"
proof
  assume e: "compare_snapshots sha iter a b = []"
  then have p: "renamed_pairs sha iter (by_name a) (by_name b) = []"
    by (simp add: compare_snapshots_def Let_def)
  with e have "keys (by_name a) - keys (by_name b) = {}" "keys (by_name b) - keys (by_name a) = {}"
    and t: "\<forall>n \<in> keys (by_name a) \<inter> keys (by_name b).
      table_events n (the (dict_get (by_name a) n)) (the (dict_get (by_name b) n)) = []"
    by (simp_all add: compare_snapshots_def Let_def)
  then show "keys (by_name a) = keys (by_name b) \<and>
    (\<forall>n \<in> keys (by_name a). table_events n (the (dict_get (by_name a) n)) (the (dict_get (by_name b) n)) = [])"
    by blast
next
  assume k: "keys (by_name a) = keys (by_name b) \<and>
    (\<forall>n \<in> keys (by_name a). table_events n (the (dict_get (by_name a) n)) (the (dict_get (by_name b) n)) = [])"
  then have "renamed_pairs sha iter (by_name a) (by_name b) = []"
    by (simp add: renamed_pairs_def Let_def sorted_set_def)
  with k show "compare_snapshots sha iter a b = []"
    by (simp add: compare_snapshots_def Let_def)
qed

text \<open>
  Silence means the same shape. A comparison reports nothing exactly when the two
  introspections have the same table names and, table by table, the same column names, types
  and nullability and the same relationship signature, whatever the digest is and in whatever
  order the added tables are tried.
\<close>

theorem no_drift_iff_same_shape:
  "compare_snapshots sha iter a b = [] \<longleftrightarrow> same_shape a b"
  unfolding compare_Nil table_events_Nil same_shape_def by blast

text \<open>A primary key is part of the fingerprint of a table, and not of the comparison.\<close>

lemma primary_key_change_unreported:
  "same_shape (sample_result [sample_table n cols pk]) (sample_result [sample_table n cols pk'])"
  by (simp add: same_shape_def same_columns_def sample_result_def sample_table_def by_name_def
      dict_of_def qualified_name_def relationship_signature_def columns_by_name_def Let_def keys_def
      dict_get_def)

definition table_lost :: "introspection \<Rightarrow> introspection \<Rightarrow> string \<Rightarrow> bool" where
  "table_lost a b n \<longleftrightarrow> n \<in> keys (by_name a) \<and> n \<notin> keys (by_name b)"

definition column_lost :: "introspection \<Rightarrow> introspection \<Rightarrow> string \<Rightarrow> string \<Rightarrow> bool" where
  "column_lost a b n c \<longleftrightarrow> n \<in> keys (by_name a) \<inter> keys (by_name b) \<and>
     c \<in> keys (columns_by_name (the (dict_get (by_name a) n))) \<and>
     c \<notin> keys (columns_by_name (the (dict_get (by_name b) n)))"

text \<open>
  Nothing a mapping may depend on is lost in silence. For every table of the older
  introspection that the newer one does not have, and for every table that lost a column, the
  comparison has an event that names the table.
\<close>

theorem lost_table_or_column_is_reported:
  assumes "table_lost a b n \<or> column_lost a b n c"
  shows "\<exists>e \<in> set (compare_snapshots sha iter a b). event_table e = n"
  using assms
proof
  assume t: "table_lost a b n"
  let ?pairs = "renamed_pairs sha iter (by_name a) (by_name b)"
  show ?thesis
  proof (cases "n \<in> fst ` set ?pairs")
    case True
    then obtain m where "(n, m) \<in> set ?pairs" by auto
    then have "TableRenamedLikely n m \<in> set (compare_snapshots sha iter a b)"
      by (auto simp: compare_snapshots_def Let_def)
    then show ?thesis by force
  next
    case False
    with t have "TableRemoved n \<in> set (compare_snapshots sha iter a b)"
      by (simp add: compare_snapshots_def Let_def table_lost_def)
    then show ?thesis by force
  qed
next
  assume "column_lost a b n c"
  then have n: "n \<in> keys (by_name a) \<inter> keys (by_name b)"
    and c: "ColumnRemoved n c \<in> set (table_events n (the (dict_get (by_name a) n)) (the (dict_get (by_name b) n)))"
    by (simp_all add: column_lost_def table_events_def Let_def)
  then have "ColumnRemoved n c \<in> set (compare_snapshots sha iter a b)"
    by (auto simp: compare_snapshots_def Let_def)
  then show ?thesis by force
qed

theorem lost_table_or_column_is_reported_witness:
  "\<exists>e \<in> set (compare_snapshots id sorted_list_of_set (sample_result [sample_table ''a'' [] []]) (sample_result [])).
     event_table e = ''s.a''"
  by (rule lost_table_or_column_is_reported [where c = "[]"])
    (simp add: table_lost_def by_name_def sample_result_def sample_table_def qualified_name_def keys_def dict_of_def)

end
