(* ===== verification/Profiling.thy ===== *)
theory Profiling
  imports Introspection
begin

section \<open>Data profiling\<close>

text \<open>
  \<open>hermes_rpt/schemas/profiling.py\<close>. A sampled row maps its columns to the text of their
  values, \<open>None\<close> for SQL null (two values are the same for the distinct count when their
  texts are). The built-in patterns are alternations of literals with an optional separator,
  searched for without case; the extra patterns of a configuration are arbitrary regular
  expressions, so the search for those is a parameter.
\<close>

definition contains_ci :: "string \<Rightarrow> string \<Rightarrow> bool" where
  "contains_ci p s \<longleftrightarrow> contains (str_lower p) (str_lower s)"

text \<open>\<open>a[_-]?b\<close>\<close>

definition opt_sep :: "string \<Rightarrow> string \<Rightarrow> string list" where
  "opt_sep a b = [a @ b, a @ ''_'' @ b, a @ ''-'' @ b]"

definition credential_words :: "string list" where
  "credential_words = [''password'', ''secret'', ''token'', ''credential''] @ opt_sep ''api'' ''key'' @
     opt_sep ''private'' ''key'' @ opt_sep ''access'' ''key''"

definition personal_words :: "string list" where
  "personal_words = [''email''] @ opt_sep ''e'' ''mail'' @ [''phone'', ''mobile'', ''telephone'', ''ssn''] @
     opt_sep ''social'' ''security'' @ opt_sep ''national'' ''id'' @ [''passport'', ''address'', ''street'', ''zip'', ''postal''] @
     opt_sep ''first'' ''name'' @ opt_sep ''last'' ''name'' @ opt_sep ''full'' ''name'' @ [''surname''] @
     concat (map (\<lambda>d. opt_sep d ''birth'') (opt_sep ''date'' ''of'')) @ [''dob'', ''birthdate'']"

definition is_credential_column :: "(string \<Rightarrow> string \<Rightarrow> bool) \<Rightarrow> string \<Rightarrow> string list \<Rightarrow> bool" where
  "is_credential_column search name extra \<longleftrightarrow>
     list_ex (\<lambda>w. contains_ci w name) credential_words \<or> list_ex (\<lambda>p. search p name) extra"

definition is_likely_personal_field :: "string \<Rightarrow> bool" where
  "is_likely_personal_field name \<longleftrightarrow> list_ex (\<lambda>w. contains_ci w name) personal_words"

definition assert_safe_identifier :: "string \<Rightarrow> exn + unit" where
  "assert_safe_identifier i =
     ensure (CHR 0x22 \<notin> set i \<and> CHR 0x00 \<notin> set i) (ValueError ''Unsafe identifier'')"

record profiling_config =
  pc_enabled :: bool
  pc_sample_rows :: nat
  pc_max_tables :: nat
  pc_denylist :: "string list"

definition make_profiling_config :: "bool \<Rightarrow> int \<Rightarrow> int \<Rightarrow> string list \<Rightarrow> exn + profiling_config" where
  "make_profiling_config enabled rows tables denylist =
     (if 0 < rows \<and> rows \<le> 200 \<and> 0 < tables \<and> tables \<le> 20
      then Inr \<lparr>pc_enabled = enabled, pc_sample_rows = nat rows, pc_max_tables = nat tables, pc_denylist = denylist\<rparr>
      else Inl (ValidationError ''profiling''))"

record column_profile =
  cp_name :: string
  cp_excluded :: bool
  cp_masked :: bool
  cp_null_fraction :: "rat option"
  cp_distinct :: "nat option"
  cp_samples :: "string list option"

record table_profile =
  tp_table :: string
  tp_rows :: nat
  tp_columns :: "column_profile list"

type_synonym sample_row = "(string, string option) dict"

text \<open>The statement sent for a table: its quoted name, with the limit as a bound parameter.\<close>

definition sample_statement :: "table_meta \<Rightarrow> string" where
  "sample_statement t =
     ''SELECT * FROM '' @ [CHR 0x22] @ tm_schema t @ [CHR 0x22] @ ''.'' @ [CHR 0x22] @ tm_name t @ [CHR 0x22] @
     '' LIMIT :limit''"

definition row_value :: "string \<Rightarrow> sample_row \<Rightarrow> exn + string option" where
  "row_value c r = (case dict_get r c of None \<Rightarrow> Inl (KeyError c) | Some v \<Rightarrow> Inr v)"

definition profile_column ::
  "(string \<Rightarrow> string \<Rightarrow> bool) \<Rightarrow> profiling_config \<Rightarrow> sample_row list \<Rightarrow> string \<Rightarrow> exn + column_profile" where
  "profile_column search cfg rows c =
     (if is_credential_column search c (pc_denylist cfg)
      then Inr \<lparr>cp_name = c, cp_excluded = True, cp_masked = False, cp_null_fraction = None,
                cp_distinct = None, cp_samples = None\<rparr>
      else rbind (mapM_r (row_value c) rows) (\<lambda>vals.
        (let non_null = concat (map (\<lambda>v. case v of None \<Rightarrow> [] | Some x \<Rightarrow> [x]) vals);
             masked = is_likely_personal_field c
         in Inr \<lparr>cp_name = c, cp_excluded = False, cp_masked = masked,
                 cp_null_fraction = (if vals = [] then None
                    else Some (1 - of_nat (length non_null) / of_nat (length vals))),
                 cp_distinct = Some (length (remdups non_null)),
                 cp_samples = (if masked then None else Some (take 5 non_null))\<rparr>)))"

text \<open>\<open>run\<close> executes a statement with a limit on the engine.\<close>

definition profile_table ::
  "(string \<Rightarrow> string \<Rightarrow> bool) \<Rightarrow> (string \<Rightarrow> nat \<Rightarrow> exn + sample_row list) \<Rightarrow> table_meta \<Rightarrow>
   profiling_config \<Rightarrow> exn + table_profile" where
  "profile_table search run t cfg =
     rbind (assert_safe_identifier (tm_schema t)) (\<lambda>_.
     rbind (assert_safe_identifier (tm_name t)) (\<lambda>_.
     rbind (run (sample_statement t) (pc_sample_rows cfg)) (\<lambda>rows.
     rbind (mapM_r (profile_column search cfg rows) (map cm_name (tm_columns t))) (\<lambda>cols.
       Inr \<lparr>tp_table = qualified_name t, tp_rows = length rows, tp_columns = cols\<rparr>))))"

text \<open>Two samples that agree outside the columns that must not be read.\<close>

definition agree_outside :: "(string \<Rightarrow> bool) \<Rightarrow> sample_row list \<Rightarrow> sample_row list \<Rightarrow> bool" where
  "agree_outside hidden rows rows' \<longleftrightarrow>
     list_all2 (\<lambda>r r'. \<forall>c. \<not> hidden c \<longrightarrow> dict_get r c = dict_get r' c) rows rows'"

lemma profile_column_agree:
  assumes "agree_outside (\<lambda>c. is_credential_column search c (pc_denylist cfg)) rows rows'"
  shows "profile_column search cfg rows c = profile_column search cfg rows' c"
proof (cases "is_credential_column search c (pc_denylist cfg)")
  case False
  with assms have "list_all2 (\<lambda>r r'. row_value c r = row_value c r') rows rows'"
    unfolding agree_outside_def by (elim list_all2_mono) (simp add: row_value_def)
  then have "mapM_r (row_value c) rows = mapM_r (row_value c) rows'"
    by (induction rule: list_all2_induct) simp_all
  then show ?thesis by (simp add: profile_column_def)
qed (simp add: profile_column_def)

text \<open>
  Credentials are never profiled. The profile of a table does not depend on the contents of
  its credential-like columns: two databases whose samples differ in those columns only give
  the same result.
\<close>

theorem profile_ignores_credential_columns:
  assumes "run (sample_statement t) (pc_sample_rows cfg) = Inr rows"
    and "run' (sample_statement t) (pc_sample_rows cfg) = Inr rows'"
    and "agree_outside (\<lambda>c. is_credential_column search c (pc_denylist cfg)) rows rows'"
  shows "profile_table search run t cfg = profile_table search run' t cfg"
proof -
  have "profile_column search cfg rows = profile_column search cfg rows'"
    using profile_column_agree [OF assms(3)] by blast
  moreover have "length rows = length rows'"
    using assms(3) by (auto simp: agree_outside_def dest: list_all2_lengthD)
  ultimately show ?thesis by (simp add: profile_table_def assms(1,2))
qed

definition credential_table :: table_meta where
  "credential_table = \<lparr>tm_schema = ''s'', tm_name = ''t'', tm_kind = ''table'', tm_comment = None,
     tm_columns = [\<lparr>cm_name = ''API_Key'', cm_sql_type = ''text'', cm_nullable = True, cm_position = 1, cm_comment = None\<rparr>],
     tm_primary_key = [], tm_foreign_keys = [], tm_uniques = [], tm_indexes = [], tm_row_count = None\<rparr>"

lemma api_key_credential: "is_credential_column search ''API_Key'' extra"
proof -
  have "list_ex (\<lambda>w. contains_ci w ''API_Key'') credential_words" by code_simp
  then show ?thesis by (simp add: is_credential_column_def)
qed

theorem profile_ignores_credential_columns_witness:
  "profile_table (\<lambda>_ _. False) (\<lambda>_ _. Inr [[(''API_Key'', Some ''a'')]]) credential_table
     \<lparr>pc_enabled = True, pc_sample_rows = 10, pc_max_tables = 1, pc_denylist = []\<rparr> =
   profile_table (\<lambda>_ _. False) (\<lambda>_ _. Inr [[(''API_Key'', Some ''b'')]]) credential_table
     \<lparr>pc_enabled = True, pc_sample_rows = 10, pc_max_tables = 1, pc_denylist = []\<rparr>"
  by (rule profile_ignores_credential_columns
        [where rows = "[[(''API_Key'', Some ''a'')]]" and rows' = "[[(''API_Key'', Some ''b'')]]"])
    (auto simp: agree_outside_def dict_get_def api_key_credential)

text \<open>A masked column shows aggregates only, and at most five values of any other are kept.\<close>

lemma profile_column_samples:
  assumes "profile_column search cfg rows c = Inr p"
  shows "is_likely_personal_field c \<Longrightarrow> cp_samples p = None"
    and "cp_samples p = Some vs \<Longrightarrow> length vs \<le> 5"
  using assms by (auto simp: profile_column_def Let_def split: if_splits)

end
