(* ===== verification/Discovery.thy ===== *)
theory Discovery
  imports Connections Drift Profiling
begin

section \<open>Schema discovery\<close>

text \<open>
  \<open>hermes_rpt/schemas/service.py\<close>, \<open>repository.py\<close>, \<open>models.py\<close> and \<open>jobs.py\<close>. The state
  adds the snapshot table. The metadata document of a snapshot is the introspection result,
  with the profiles when profiling ran. What the customer database answers (\<open>query\<close>, \<open>run\<close>),
  the digest, the iteration order of a set of names, the search of a regular expression and
  the class name of an exception (\<open>cls\<close>) are parameters, gathered in a record. The job runs
  the service in a session of its own and rolls it back on an exception; the pool registry is
  process memory and is not rolled back.
\<close>

datatype discovery_status = PENDING | RUNNING | COMPLETED | FAILED

record snapshot = tenant_row +
  ss_connection :: uuid
  ss_sequence :: int
  ss_status :: discovery_status
  ss_fingerprint :: "string option"
  ss_metadata :: "introspection option"
  ss_profiles :: "table_profile list option"
  ss_table_fingerprints :: "(string, string) dict"
  ss_error :: "string option"
  ss_drift :: "drift_event list option"
  ss_ack_at :: "instant option"
  ss_ack_by :: "uuid option"

record snap_db = conn_db +
  db_snapshots :: "snapshot list"

record discovery_env =
  env_query :: "engine \<Rightarrow> string list \<Rightarrow> exn + catalog"
  env_run :: "engine \<Rightarrow> string \<Rightarrow> nat \<Rightarrow> exn + sample_row list"
  env_sha :: "string \<Rightarrow> string"
  env_iter :: "string set \<Rightarrow> string list"
  env_search :: "string \<Rightarrow> string \<Rightarrow> bool"
  env_cls :: "exn \<Rightarrow> string"

subsection \<open>The repository\<close>

definition snapshots_of_connection :: "uuid \<Rightarrow> tenant_context \<Rightarrow> 'z snap_db_scheme \<Rightarrow> snapshot list" where
  "snapshots_of_connection cid ctx db =
     filter (\<lambda>s. row_tenant s = Some (tc_tenant ctx) \<and> ss_connection s = cid) (db_snapshots db)"

definition next_sequence_number :: "uuid \<Rightarrow> tenant_context \<Rightarrow> 'z snap_db_scheme \<Rightarrow> int" where
  "next_sequence_number cid ctx db =
     (case map ss_sequence (snapshots_of_connection cid ctx db) of
        [] \<Rightarrow> 0 + 1
      | x # xs \<Rightarrow> fold max xs x + 1)"

definition list_for_connection :: "uuid \<Rightarrow> tenant_context \<Rightarrow> 'z snap_db_scheme \<Rightarrow> snapshot list" where
  "list_for_connection cid ctx db = sort_key (\<lambda>s. - ss_sequence s) (snapshots_of_connection cid ctx db)"

definition latest_completed :: "uuid \<Rightarrow> tenant_context \<Rightarrow> int \<Rightarrow> 'z snap_db_scheme \<Rightarrow> snapshot option" where
  "latest_completed cid ctx before db =
     (case sort_key (\<lambda>s. - ss_sequence s)
         (filter (\<lambda>s. ss_status s = COMPLETED \<and> ss_sequence s < before) (snapshots_of_connection cid ctx db)) of
        [] \<Rightarrow> None | s # _ \<Rightarrow> Some s)"

text \<open>Insertion under the unique constraint on tenant, connection and sequence number.\<close>

definition add_snapshot ::
  "'z snap_db_scheme \<Rightarrow> snapshot \<Rightarrow> tenant_context \<Rightarrow> exn + (snapshot \<times> 'z snap_db_scheme)" where
  "add_snapshot db s ctx =
     (if list_ex (\<lambda>x. row_tenant x = Some (tc_tenant ctx) \<and> ss_connection x = ss_connection s \<and>
           ss_sequence x = ss_sequence s) (db_snapshots db)
      then Inl IntegrityError
      else rbind (repo_add (db_snapshots db) s ctx) (\<lambda>(s', t). Inr (s', db\<lparr>db_snapshots := t\<rparr>)))"

definition set_snapshot :: "uuid \<Rightarrow> (snapshot \<Rightarrow> snapshot) \<Rightarrow> 'z snap_db_scheme \<Rightarrow> 'z snap_db_scheme" where
  "set_snapshot i f db = db\<lparr>db_snapshots := row_set (db_snapshots db) i f\<rparr>"

subsection \<open>The service\<close>

definition start_discovery ::
  "uuid \<Rightarrow> tenant_context \<Rightarrow> uuid \<Rightarrow> 'z snap_db_scheme \<Rightarrow> (exn + snapshot) \<times> 'z snap_db_scheme" where
  "start_discovery cid ctx fresh db =
     attempt (add_snapshot db
         \<lparr>row_id = fresh, row_tenant = None, ss_connection = cid,
          ss_sequence = next_sequence_number cid ctx db, ss_status = PENDING, ss_fingerprint = None,
          ss_metadata = None, ss_profiles = None, ss_table_fingerprints = [], ss_error = None,
          ss_drift = None, ss_ack_at = None, ss_ack_by = None\<rparr> ctx) db
       (\<lambda>(s, db'). (Inr s, audit_record (audit_for ctx ''schema_discovery.start'' SUCCESS
          ''SchemaSnapshot'' (row_id s) []) db'))"

record discovery_outcome =
  do_result :: introspection
  do_profiles :: "table_profile list option"
  do_fingerprint :: string
  do_tables :: "(string, string) dict"
  do_drift :: "drift_event list"
  do_previous :: bool

text \<open>The body of the \<open>try\<close> block: everything up to the writes to the snapshot.\<close>

definition discovery_body ::
  "discovery_env \<Rightarrow> snapshot \<Rightarrow> tenant_context \<Rightarrow> profiling_config option \<Rightarrow> 'z snap_db_scheme \<Rightarrow>
   (exn + discovery_outcome) \<times> 'z snap_db_scheme" where
  "discovery_body env snap ctx prof db =
     (case get_or_create_engine (ss_connection snap) ctx db of
        (Inl e, db') \<Rightarrow> (Inl e, db')
      | (Inr (conn, eng), db') \<Rightarrow>
          attempt (introspect (env_query env) eng (cn_schemas conn)) db' (\<lambda>result.
          (let (sfp, tfps) = compute_fingerprints (env_sha env) result;
               previous = latest_completed (ss_connection snap) ctx (ss_sequence snap) db';
               drift = (case previous of None \<Rightarrow> [] | Some p \<Rightarrow>
                 (case ss_metadata p of None \<Rightarrow> []
                  | Some old \<Rightarrow> compare_snapshots (env_sha env) (env_iter env) old result));
               out = \<lparr>do_result = result, do_profiles = None, do_fingerprint = sfp, do_tables = tfps,
                      do_drift = drift, do_previous = (previous \<noteq> None)\<rparr>
           in case prof of
                None \<Rightarrow> (Inr out, db')
              | Some cfg \<Rightarrow>
                  if \<not> pc_enabled cfg then (Inr out, db')
                  else attempt (mapM_r (\<lambda>t. profile_table (env_search env) (env_run env eng) t cfg)
                         (take (pc_max_tables cfg) (in_tables result))) db' (\<lambda>profiles.
                    (Inr (out\<lparr>do_profiles := Some profiles\<rparr>),
                     audit_record (audit_for ctx ''schema_discovery.profiling'' SUCCESS ''SchemaSnapshot''
                       (row_id snap) [(''tables_profiled'', JInt (int (length profiles)))]) db')))))"

definition complete_snapshot :: "discovery_outcome \<Rightarrow> snapshot \<Rightarrow> snapshot" where
  "complete_snapshot out s =
     s\<lparr>ss_metadata := Some (do_result out), ss_profiles := do_profiles out,
       ss_table_fingerprints := do_tables out, ss_fingerprint := Some (do_fingerprint out),
       ss_drift := (if do_previous out then Some (do_drift out) else None),
       ss_status := COMPLETED, ss_error := None\<rparr>"

definition run_discovery ::
  "discovery_env \<Rightarrow> uuid \<Rightarrow> tenant_context \<Rightarrow> profiling_config option \<Rightarrow> 'z snap_db_scheme \<Rightarrow>
   (exn + snapshot) \<times> 'z snap_db_scheme" where
  "run_discovery env i ctx prof db =
     attempt (repo_require (db_snapshots db) i ctx) db (\<lambda>snap.
     (let db1 = set_snapshot i (\<lambda>s. s\<lparr>ss_status := RUNNING\<rparr>) db;
          running = snap\<lparr>ss_status := RUNNING\<rparr>
      in case discovery_body env running ctx prof db1 of
           (Inl e, db2) \<Rightarrow>
             (Inl e, audit_record (audit_for ctx ''schema_discovery.run'' ERROR_OUTCOME ''SchemaSnapshot''
                 (row_id snap) [(''error'', JStr (env_cls env e))])
               (set_snapshot i (\<lambda>s. s\<lparr>ss_status := FAILED, ss_error := Some (env_cls env e)\<rparr>) db2))
         | (Inr out, db2) \<Rightarrow>
             (Inr (complete_snapshot out running),
              audit_record (audit_for ctx ''schema_discovery.run'' SUCCESS ''SchemaSnapshot'' (row_id snap)
                  [(''tables_found'', JInt (int (length (in_tables (do_result out))))),
                   (''drift_event_count'', JInt (int (length (do_drift out))))])
                (set_snapshot i (complete_snapshot out) db2))))"

definition acknowledge_drift ::
  "uuid \<Rightarrow> tenant_context \<Rightarrow> instant \<Rightarrow> 'z snap_db_scheme \<Rightarrow> (exn + snapshot) \<times> 'z snap_db_scheme" where
  "acknowledge_drift i ctx now db =
     attempt (repo_require (db_snapshots db) i ctx) db (\<lambda>snap.
       (let upd = (\<lambda>s. s\<lparr>ss_ack_at := Some now, ss_ack_by := Some (tc_principal ctx)\<rparr>)
        in (Inr (upd snap), audit_record (audit_for ctx ''schema_discovery.acknowledge_drift'' SUCCESS
              ''SchemaSnapshot'' (row_id snap) []) (set_snapshot i upd db))))"

text \<open>A snapshot without a metadata document does not validate as an introspection result.\<close>

definition compare_stored ::
  "discovery_env \<Rightarrow> uuid \<Rightarrow> uuid \<Rightarrow> tenant_context \<Rightarrow> 'z snap_db_scheme \<Rightarrow> exn + drift_event list" where
  "compare_stored env a b ctx db =
     (let doc = (\<lambda>s. case ss_metadata s of None \<Rightarrow> Inl (ValidationError ''schemas'') | Some r \<Rightarrow> Inr r)
      in rbind (repo_require (db_snapshots db) a ctx) (\<lambda>sa.
         rbind (repo_require (db_snapshots db) b ctx) (\<lambda>sb.
         rbind (doc sa) (\<lambda>ra. rbind (doc sb) (\<lambda>rb.
           Inr (compare_snapshots (env_sha env) (env_iter env) ra rb))))))"

definition get_snapshot :: "uuid \<Rightarrow> tenant_context \<Rightarrow> 'z snap_db_scheme \<Rightarrow> exn + snapshot" where
  "get_snapshot i ctx db = repo_require (db_snapshots db) i ctx"

text \<open>\<open>run_discovery_job\<close>: commit, or roll back and log.\<close>

definition run_discovery_job ::
  "discovery_env \<Rightarrow> uuid \<Rightarrow> tenant_context \<Rightarrow> profiling_config option \<Rightarrow> 'z snap_db_scheme \<Rightarrow> 'z snap_db_scheme" where
  "run_discovery_job env i ctx prof db =
     (case run_discovery env i ctx prof db of
        (Inr _, db') \<Rightarrow> db'
      | (Inl _, db') \<Rightarrow> db\<lparr>db_pools := db_pools db'\<rparr>)"

subsection \<open>Sequence numbers\<close>

lemma fold_max_ge: "x \<le> fold max xs (x :: int)"
proof (induction xs arbitrary: x)
  case (Cons a xs)
  then have "max a x \<le> fold max xs (max a x)" .
  then show ?case by simp
qed simp

lemma fold_max_ge_mem: "y \<in> set xs \<Longrightarrow> y \<le> fold max xs (x :: int)"
proof (induction xs arbitrary: x)
  case (Cons a xs)
  then show ?case using fold_max_ge [of "max a x" xs] by auto
qed simp

lemma next_sequence_number_greater:
  "s \<in> set (snapshots_of_connection cid ctx db) \<Longrightarrow> ss_sequence s < next_sequence_number cid ctx db"
proof (cases "snapshots_of_connection cid ctx db")
  case (Cons x xs)
  assume "s \<in> set (snapshots_of_connection cid ctx db)"
  with Cons have "ss_sequence s = ss_sequence x \<or> ss_sequence s \<in> set (map ss_sequence xs)" by auto
  then have "ss_sequence s \<le> fold max (map ss_sequence xs) (ss_sequence x)"
    using fold_max_ge [of "ss_sequence x" "map ss_sequence xs"]
      fold_max_ge_mem [of "ss_sequence s" "map ss_sequence xs" "ss_sequence x"] by auto
  with Cons show ?thesis by (simp add: next_sequence_number_def)
qed simp

text \<open>
  Starting a discovery always works. With an unused identifier the snapshot is created,
  whatever the table holds: it is pending, belongs to the caller's tenant, and its sequence
  number exceeds those of all snapshots the tenant has of the connection, so the unique
  constraint on sequence numbers cannot fail.
\<close>

theorem start_discovery_succeeds:
  assumes "fresh \<notin> row_id ` set (db_snapshots db)"
  shows "\<exists>s db'. start_discovery cid ctx fresh db = (Inr s, db') \<and>
    row_id s = fresh \<and> row_tenant s = Some (tc_tenant ctx) \<and> ss_status s = PENDING \<and>
    db_snapshots db' = db_snapshots db @ [s] \<and>
    (\<forall>x \<in> set (snapshots_of_connection cid ctx db). ss_sequence x < ss_sequence s)"
proof -
  have free: "\<not> list_ex (\<lambda>x. row_tenant x = Some (tc_tenant ctx) \<and> ss_connection x = cid \<and>
      ss_sequence x = next_sequence_number cid ctx db) (db_snapshots db)"
    using next_sequence_number_greater [of _ cid ctx db]
    by (force simp: list_ex_iff snapshots_of_connection_def)
  then show ?thesis
    using assms next_sequence_number_greater [of _ cid ctx db]
    by (simp add: start_discovery_def add_snapshot_def repo_add_None attempt_def audit_record_def)
qed

definition empty_snap_db :: snap_db where
  "empty_snap_db = conn_db.extend empty_conn_db \<lparr>db_snapshots = []\<rparr>"

theorem start_discovery_succeeds_witness:
  "\<exists>s db'. start_discovery 60 sample_ctx 70 (empty_snap_db :: snap_db) = (Inr s, db') \<and> ss_status s = PENDING"
proof -
  have "70 \<notin> row_id ` set (db_snapshots empty_snap_db)"
    by (simp add: empty_snap_db_def conn_db.defs)
  from start_discovery_succeeds [OF this, of 60 sample_ctx] show ?thesis by blast
qed

subsection \<open>Completed and failed discoveries\<close>

lemma latest_completed_Some:
  assumes "latest_completed cid ctx before db = Some p"
  shows "p \<in> set (snapshots_of_connection cid ctx db) \<and> ss_status p = COMPLETED \<and> ss_sequence p < before \<and>
    (\<forall>q \<in> set (snapshots_of_connection cid ctx db).
       ss_status q = COMPLETED \<and> ss_sequence q < before \<longrightarrow> ss_sequence q \<le> ss_sequence p)"
proof -
  let ?c = "filter (\<lambda>s. ss_status s = COMPLETED \<and> ss_sequence s < before) (snapshots_of_connection cid ctx db)"
  from assms obtain xs where xs: "sort_key (\<lambda>s. - ss_sequence s) ?c = p # xs"
    by (auto simp: latest_completed_def split: list.splits)
  have "sorted (map (\<lambda>s. - ss_sequence s) (p # xs))" unfolding xs [symmetric] by simp
  moreover have set: "set (p # xs) = set ?c" unfolding xs [symmetric] by simp
  ultimately show ?thesis by (auto simp: set_eq_iff)
qed

lemma set_snapshot_frame [simp]:
  "db_snapshots (set_snapshot i f db) = row_set (db_snapshots db) i f"
  "db_connections (set_snapshot i f db) = db_connections db"
  "db_pools (set_snapshot i f db) = db_pools db"
  by (simp_all add: set_snapshot_def)

lemma get_or_create_engine_snapshots [simp]:
  "db_snapshots (snd (get_or_create_engine i ctx db)) = db_snapshots db"
  by (simp add: get_or_create_engine_def attempt_def split: sum.split prod.split)

lemma latest_completed_cong:
  "db_snapshots db' = db_snapshots db \<Longrightarrow> latest_completed cid ctx before db' = latest_completed cid ctx before db"
  by (simp add: latest_completed_def snapshots_of_connection_def)

lemma discovery_body_Inr:
  assumes "discovery_body env snap ctx prof db = (Inr out, db')"
  shows "\<exists>conn eng db1. get_or_create_engine (ss_connection snap) ctx db = (Inr (conn, eng), db1) \<and>
    introspect (env_query env) eng (cn_schemas conn) = Inr (do_result out) \<and>
    (do_previous out \<longleftrightarrow> latest_completed (ss_connection snap) ctx (ss_sequence snap) db \<noteq> None) \<and>
    do_drift out = (case latest_completed (ss_connection snap) ctx (ss_sequence snap) db of None \<Rightarrow> []
      | Some p \<Rightarrow> (case ss_metadata p of None \<Rightarrow> []
          | Some old \<Rightarrow> compare_snapshots (env_sha env) (env_iter env) old (do_result out))) \<and>
    db_snapshots db' = db_snapshots db"
proof -
  from assms obtain conn eng db1 where e: "get_or_create_engine (ss_connection snap) ctx db = (Inr (conn, eng), db1)"
    by (auto simp: discovery_body_def split: prod.splits sum.splits)
  have snaps: "db_snapshots db1 = db_snapshots db"
    using get_or_create_engine_snapshots [of "ss_connection snap" ctx db] e by simp
  show ?thesis
    using assms e snaps
    by (cases prof)
      (auto simp: discovery_body_def Let_def latest_completed_cong [OF snaps] audit_record_def
        case_prod_beta split: if_splits option.split)
qed

lemma latest_completed_running:
  assumes "distinct (map row_id (db_snapshots db))" and "session_get (db_snapshots db) i = Some snap"
  shows "latest_completed cid ctx (ss_sequence snap) (set_snapshot i (\<lambda>s. s\<lparr>ss_status := RUNNING\<rparr>) db) =
    latest_completed cid ctx (ss_sequence snap) db"
proof -
  let ?P = "\<lambda>s. (row_tenant s = Some (tc_tenant ctx) \<and> ss_connection s = cid) \<and>
    ss_status s = COMPLETED \<and> ss_sequence s < ss_sequence snap"
  have only: "s = snap" if "s \<in> set (db_snapshots db)" "row_id s = i" for s
    using session_get_distinct [OF assms(1) that(1)] assms(2) that(2) by simp
  have "filter ?P (map (\<lambda>s. if row_id s = i then s\<lparr>ss_status := RUNNING\<rparr> else s) xs) = filter ?P xs"
    if "set xs \<subseteq> set (db_snapshots db)" for xs
    using that only by (induction xs) auto
  from this [of "db_snapshots db"] show ?thesis
    by (simp add: latest_completed_def snapshots_of_connection_def row_set_def)
qed

text \<open>
  What a completed discovery records. The snapshot is completed with the introspection of
  the connection's allowlisted schemas; its drift is the comparison with the tenant's completed
  snapshot of the connection that has the greatest smaller sequence number, and is absent
  exactly when there is none.
\<close>

theorem completed_discovery_records_drift:
  assumes ids: "distinct (map row_id (db_snapshots db))"
    and run: "run_discovery env i ctx prof db = (Inr s, db')"
  shows "\<exists>conn eng db1. get_or_create_engine (ss_connection s) ctx
      (set_snapshot i (\<lambda>s. s\<lparr>ss_status := RUNNING\<rparr>) db) = (Inr (conn, eng), db1) \<and>
    introspect (env_query env) eng (cn_schemas conn) = Inr (the (ss_metadata s)) \<and>
    ss_status s = COMPLETED \<and>
    (case latest_completed (ss_connection s) ctx (ss_sequence s) db of
       None \<Rightarrow> ss_drift s = None
     | Some p \<Rightarrow> ss_drift s = Some (case ss_metadata p of None \<Rightarrow> []
         | Some old \<Rightarrow> compare_snapshots (env_sha env) (env_iter env) old (the (ss_metadata s))))"
proof -
  let ?db1 = "set_snapshot i (\<lambda>s. s\<lparr>ss_status := RUNNING\<rparr>) db"
  from run obtain snap out db2 where snap: "repo_require (db_snapshots db) i ctx = Inr snap"
    and body: "discovery_body env (snap\<lparr>ss_status := RUNNING\<rparr>) ctx prof ?db1 = (Inr out, db2)"
    and s: "s = complete_snapshot out (snap\<lparr>ss_status := RUNNING\<rparr>)"
    by (auto simp: run_discovery_def attempt_def Let_def split: sum.splits prod.splits)
  from snap have "session_get (db_snapshots db) i = Some snap" by (simp add: repo_require_Inr_iff)
  from latest_completed_running [OF ids this] discovery_body_Inr [OF body] s show ?thesis
    by (auto simp: complete_snapshot_def split: option.split)
qed

definition sample_env :: discovery_env where
  "sample_env = \<lparr>env_query = (\<lambda>_ _. Inr sample_catalog), env_run = (\<lambda>_ _ _. Inr []), env_sha = (\<lambda>s. s),
     env_iter = (\<lambda>_. []), env_search = (\<lambda>_ _. False), env_cls = (\<lambda>_. ''X'')\<rparr>"

definition pending_snapshot :: snapshot where
  "pending_snapshot = \<lparr>row_id = 70, row_tenant = Some 1, ss_connection = 60, ss_sequence = 1,
     ss_status = PENDING, ss_fingerprint = None, ss_metadata = None, ss_profiles = None,
     ss_table_fingerprints = [], ss_error = None, ss_drift = None, ss_ack_at = None, ss_ack_by = None\<rparr>"

definition pending_snap_db :: snap_db where
  "pending_snap_db = conn_db.extend sample_conn_db \<lparr>db_snapshots = [pending_snapshot]\<rparr>"

lemma pending_snap_db_fields:
  "db_snapshots pending_snap_db = [pending_snapshot]"
  "db_connections pending_snap_db = db_connections sample_conn_db"
  "db_credential_refs pending_snap_db = db_credential_refs sample_conn_db"
  "db_secrets pending_snap_db = db_secrets sample_conn_db"
  "db_pools pending_snap_db = db_pools sample_conn_db"
  by (simp_all add: pending_snap_db_def conn_db.defs)

lemma pending_engine:
  "\<exists>conn eng db1. get_or_create_engine 60 sample_ctx (set_snapshot 70 f pending_snap_db) = (Inr (conn, eng), db1)"
  by (simp add: get_or_create_engine_def resolve_target_def set_snapshot_def pending_snap_db_fields
      sample_conn_defs local_resolve_def pool_get_or_create_def dict_get_def)

theorem completed_discovery_records_drift_witness:
  "\<exists>s db'. run_discovery sample_env 70 sample_ctx None pending_snap_db = (Inr s, db') \<and>
    ss_status s = COMPLETED \<and> ss_drift s = None"
proof -
  have r: "repo_require (db_snapshots pending_snap_db) 70 sample_ctx = Inr pending_snapshot"
    by (simp add: repo_require_Inr_iff pending_snap_db_fields pending_snapshot_def session_get_def sample_ctx_def)
  obtain conn eng db1 where e: "get_or_create_engine 60 sample_ctx
      (set_snapshot 70 (\<lambda>s. s\<lparr>ss_status := RUNNING\<rparr>) pending_snap_db) = (Inr (conn, eng), db1)"
    using pending_engine by blast
  have "\<exists>res. introspect (env_query sample_env) eng (cn_schemas conn) = Inr res"
    by (simp add: introspect_def sample_env_def)
  then have "\<exists>s db'. run_discovery sample_env 70 sample_ctx None pending_snap_db = (Inr s, db')"
    using e by (auto simp: run_discovery_def r Let_def discovery_body_def case_prod_beta pending_snapshot_def)
  then obtain s db' where run: "run_discovery sample_env 70 sample_ctx None pending_snap_db = (Inr s, db')" by blast
  have "distinct (map row_id (db_snapshots pending_snap_db))" by (simp add: pending_snap_db_fields)
  from completed_discovery_records_drift [OF this run] have "ss_status s = COMPLETED"
    and d: "case latest_completed (ss_connection s) sample_ctx (ss_sequence s) pending_snap_db of
       None \<Rightarrow> ss_drift s = None | Some p \<Rightarrow> ss_drift s = Some (case ss_metadata p of None \<Rightarrow> []
         | Some old \<Rightarrow> compare_snapshots (env_sha sample_env) (env_iter sample_env) old (the (ss_metadata s)))"
    by blast+
  moreover have "latest_completed c sample_ctx b pending_snap_db = None" for c b
    by (simp add: latest_completed_def snapshots_of_connection_def pending_snap_db_fields pending_snapshot_def)
  ultimately show ?thesis using run by (intro exI [of _ s] exI [of _ db']) simp
qed

text \<open>
  A failed background discovery leaves no trace. The service marks the snapshot failed,
  with the class of the exception, and records an error event before it raises; the job then
  rolls both back, so that the snapshot table and the audit log are what they were before it
  ran and the snapshot stays as it was created.
\<close>

theorem failed_job_forgets_failure:
  assumes "run_discovery env i ctx prof db = (Inl e, db')"
    and "repo_require (db_snapshots db) i ctx = Inr snap" and "distinct (map row_id (db_snapshots db))"
  shows "(\<exists>s. session_get (db_snapshots db') i = Some s \<and> ss_status s = FAILED \<and> ss_error s = Some (env_cls env e)) \<and>
    db_snapshots (run_discovery_job env i ctx prof db) = db_snapshots db \<and>
    audit_log (run_discovery_job env i ctx prof db) = audit_log db"
proof -
  from assms(1,2) obtain db2 ev where
    body: "discovery_body env (snap\<lparr>ss_status := RUNNING\<rparr>) ctx prof (set_snapshot i (\<lambda>s. s\<lparr>ss_status := RUNNING\<rparr>) db) = (Inl e, db2)"
    and db': "db' = audit_record ev (set_snapshot i (\<lambda>s. s\<lparr>ss_status := FAILED, ss_error := Some (env_cls env e)\<rparr>) db2)"
    by (auto simp: run_discovery_def Let_def split: sum.splits prod.splits)
  have "db_snapshots db2 = db_snapshots (set_snapshot i (\<lambda>s. s\<lparr>ss_status := RUNNING\<rparr>) db)"
    using body get_or_create_engine_snapshots [of "ss_connection snap" ctx "set_snapshot i (\<lambda>s. s\<lparr>ss_status := RUNNING\<rparr>) db"]
    by (cases prof)
      (auto simp: discovery_body_def attempt_Inl_iff Let_def case_prod_beta split: prod.splits sum.splits if_splits)
  moreover have "db_snapshots (audit_record ev x) = db_snapshots x" for x :: "'a snap_db_scheme"
    by (simp add: audit_record_def)
  ultimately have "\<exists>s. session_get (db_snapshots db') i = Some s \<and> ss_status s = FAILED \<and> ss_error s = Some (env_cls env e)"
    using assms(2) by (simp add: db' repo_require_Inr_iff session_get_row_set) (auto dest: session_get_Some)
  then show ?thesis using assms(1) by (simp add: run_discovery_job_def)
qed

theorem failed_job_forgets_failure_witness:
  "ss_status (hd (db_snapshots (run_discovery_job
      (sample_env\<lparr>env_query := (\<lambda>_ _. Inl (ExternalError ''down''))\<rparr>) 70 sample_ctx None pending_snap_db))) = PENDING"
proof -
  let ?env = "sample_env\<lparr>env_query := (\<lambda>_ _. Inl (ExternalError ''down''))\<rparr>"
  have r: "repo_require (db_snapshots pending_snap_db) 70 sample_ctx = Inr pending_snapshot"
    by (simp add: repo_require_Inr_iff pending_snap_db_fields pending_snapshot_def session_get_def sample_ctx_def)
  obtain conn eng db1 where e: "get_or_create_engine 60 sample_ctx
      (set_snapshot 70 (\<lambda>s. s\<lparr>ss_status := RUNNING\<rparr>) pending_snap_db) = (Inr (conn, eng), db1)"
    using pending_engine by blast
  have "cn_schemas conn \<noteq> []"
    using e by (auto simp: get_or_create_engine_def attempt_Inr_iff case_prod_beta pending_snap_db_fields
        repo_require_Inr_iff sample_conn_defs split: if_splits)
  then have "\<exists>db'. run_discovery ?env 70 sample_ctx None pending_snap_db = (Inl (ExternalError ''down''), db')"
    using e by (simp add: run_discovery_def r Let_def discovery_body_def introspect_def pending_snapshot_def)
  then obtain db' where run: "run_discovery ?env 70 sample_ctx None pending_snap_db = (Inl (ExternalError ''down''), db')"
    by blast
  have "distinct (map row_id (db_snapshots pending_snap_db))" by (simp add: pending_snap_db_fields)
  from failed_job_forgets_failure [OF run r this] show ?thesis
    by (simp add: pending_snap_db_fields pending_snapshot_def)
qed

end
