(* ===== verification/Expressions.thy ===== *)
theory Expressions
  imports Drift
begin

section \<open>The expression language of derived fields\<close>

text \<open>
  \<open>hermes_rpt/mappings/expressions.py\<close>: the closed set of nodes, the depth check that runs
  before anything recurses over a document's expression, the evaluator and the column
  collector. A row is a dictionary of scalar values; how Python prints a float is a parameter
  (\<open>fstr\<close>).
\<close>

datatype scalar = VNull | VStr string | VInt int | VFloat rat | VBool bool

datatype expr =
    ColumnRef string
  | Literal scalar
  | Concat "expr list" string
  | Coalesce "expr list"
  | UpperCase expr
  | LowerCase expr
  | Trim expr
  | IfNull expr expr

type_synonym row = "(string, scalar) dict"

definition max_expression_depth :: nat where
  "max_expression_depth = 20"

fun check_depth :: "nat \<Rightarrow> expr \<Rightarrow> exn + unit" and check_depths :: "nat \<Rightarrow> expr list \<Rightarrow> exn + unit" where
  "check_depth d e =
     (if d > max_expression_depth then Inl ExpressionTooDeepError
      else case e of
          Concat parts sep \<Rightarrow> check_depths (d + 1) parts
        | Coalesce options \<Rightarrow> check_depths (d + 1) options
        | UpperCase v \<Rightarrow> check_depth (d + 1) v
        | LowerCase v \<Rightarrow> check_depth (d + 1) v
        | Trim v \<Rightarrow> check_depth (d + 1) v
        | IfNull v i \<Rightarrow> rbind (check_depth (d + 1) v) (\<lambda>_. check_depth (d + 1) i)
        | _ \<Rightarrow> Inr ())"
| "check_depths d [] = Inr ()"
| "check_depths d (e # es) = rbind (check_depth d e) (\<lambda>_. check_depths d es)"

definition check_expression_depth :: "expr \<Rightarrow> exn + unit" where
  "check_expression_depth e = check_depth 1 e"

text \<open>\<open>str(p)\<close> of a piece that is not null.\<close>

fun scalar_str :: "(rat \<Rightarrow> string) \<Rightarrow> scalar \<Rightarrow> string" where
  "scalar_str fstr VNull = []"
| "scalar_str fstr (VStr s) = s"
| "scalar_str fstr (VInt i) = int_text i"
| "scalar_str fstr (VFloat r) = fstr r"
| "scalar_str fstr (VBool b) = (if b then ''True'' else ''False'')"

fun on_str :: "(string \<Rightarrow> string) \<Rightarrow> scalar \<Rightarrow> scalar" where
  "on_str f (VStr s) = VStr (f s)"
| "on_str f v = v"

fun evaluate :: "(rat \<Rightarrow> string) \<Rightarrow> row \<Rightarrow> expr \<Rightarrow> exn + scalar"
  and evaluate_all :: "(rat \<Rightarrow> string) \<Rightarrow> row \<Rightarrow> expr list \<Rightarrow> exn + scalar list"
  and evaluate_first :: "(rat \<Rightarrow> string) \<Rightarrow> row \<Rightarrow> expr list \<Rightarrow> exn + scalar" where
  "evaluate fstr row (ColumnRef c) =
     (case dict_get row c of
        None \<Rightarrow> Inl (ExpressionEvaluationError c) | Some v \<Rightarrow> Inr v)"
| "evaluate fstr row (Literal v) = Inr v"
| "evaluate fstr row (Concat parts sep) =
     rbind (evaluate_all fstr row parts) (\<lambda>ps. Inr (VStr (join_with sep (map (scalar_str fstr) ps))))"
| "evaluate fstr row (Coalesce options) = evaluate_first fstr row options"
| "evaluate fstr row (UpperCase e) = rbind (evaluate fstr row e) (\<lambda>v. Inr (on_str str_upper v))"
| "evaluate fstr row (LowerCase e) = rbind (evaluate fstr row e) (\<lambda>v. Inr (on_str str_lower v))"
| "evaluate fstr row (Trim e) = rbind (evaluate fstr row e) (\<lambda>v. Inr (on_str str_strip v))"
| "evaluate fstr row (IfNull e i) =
     rbind (evaluate fstr row e) (\<lambda>v. if v \<noteq> VNull then Inr v else evaluate fstr row i)"
| "evaluate_all fstr row [] = Inr []"
| "evaluate_all fstr row (e # es) =
     rbind (evaluate fstr row e) (\<lambda>v. rbind (evaluate_all fstr row es) (\<lambda>vs. Inr (v # vs)))"
| "evaluate_first fstr row [] = Inr VNull"
| "evaluate_first fstr row (e # es) =
     rbind (evaluate fstr row e) (\<lambda>v. if v \<noteq> VNull then Inr v else evaluate_first fstr row es)"

fun referenced_columns :: "expr \<Rightarrow> string set" where
  "referenced_columns (ColumnRef c) = {c}"
| "referenced_columns (Literal v) = {}"
| "referenced_columns (Concat parts sep) = \<Union> (set (map referenced_columns parts))"
| "referenced_columns (Coalesce options) = \<Union> (set (map referenced_columns options))"
| "referenced_columns (UpperCase e) = referenced_columns e"
| "referenced_columns (LowerCase e) = referenced_columns e"
| "referenced_columns (Trim e) = referenced_columns e"
| "referenced_columns (IfNull e i) = referenced_columns e \<union> referenced_columns i"

subsection \<open>Depth\<close>

fun expr_depth :: "expr \<Rightarrow> nat" where
  "expr_depth (Concat parts sep) = 1 + fold max (map expr_depth parts) 0"
| "expr_depth (Coalesce options) = 1 + fold max (map expr_depth options) 0"
| "expr_depth (UpperCase e) = 1 + expr_depth e"
| "expr_depth (LowerCase e) = 1 + expr_depth e"
| "expr_depth (Trim e) = 1 + expr_depth e"
| "expr_depth (IfNull e i) = 1 + max (expr_depth e) (expr_depth i)"
| "expr_depth _ = 1"

lemma fold_max_le: "fold max xs (a :: nat) \<le> b \<longleftrightarrow> a \<le> b \<and> (\<forall>x \<in> set xs. x \<le> b)"
  by (induction xs arbitrary: a) auto

lemma expr_depth_pos: "1 \<le> expr_depth e"
  by (cases e) simp_all

lemma depth_children:
  "d + (1 + fold max (map f xs) 0) \<le> m + 1 \<longleftrightarrow> d \<le> m \<and> (\<forall>p \<in> set xs. d + 1 + f p \<le> m + (1 :: nat))"
proof -
  have "d + (1 + fold max (map f xs) 0) \<le> m + 1 \<longleftrightarrow> d \<le> m \<and> fold max (map f xs) 0 \<le> m - d"
    by linarith
  also have "\<dots> \<longleftrightarrow> d \<le> m \<and> (\<forall>p \<in> set xs. f p \<le> m - d)" by (simp add: fold_max_le)
  also have "\<dots> \<longleftrightarrow> d \<le> m \<and> (\<forall>p \<in> set xs. d + 1 + f p \<le> m + 1)"
  proof (cases "d \<le> m")
    case True
    then have "x \<le> m - d \<longleftrightarrow> d + 1 + x \<le> m + 1" for x by linarith
    then show ?thesis by simp
  qed simp
  finally show ?thesis .
qed

lemma check_depths_iff: "check_depths d es = Inr () \<longleftrightarrow> (\<forall>e \<in> set es. check_depth d e = Inr ())"
  by (induction es) auto

declare check_depth.simps [simp del]

lemma check_depth_iff:
  "1 \<le> d \<Longrightarrow> check_depth d e = Inr () \<longleftrightarrow> d + expr_depth e \<le> max_expression_depth + 1"
proof (induction e arbitrary: d rule: expr_depth.induct)
  case (1 parts sep)
  have "check_depth d (Concat parts sep) = Inr () \<longleftrightarrow>
      d \<le> max_expression_depth \<and> (\<forall>p \<in> set parts. check_depth (d + 1) p = Inr ())"
    by (simp add: check_depth.simps [of d "Concat parts sep"] check_depths_iff)
  also have "\<dots> \<longleftrightarrow> d \<le> max_expression_depth \<and> (\<forall>p \<in> set parts. d + 1 + expr_depth p \<le> max_expression_depth + 1)"
    using 1 by auto
  also have "\<dots> \<longleftrightarrow> d + expr_depth (Concat parts sep) \<le> max_expression_depth + 1"
    by (simp only: expr_depth.simps depth_children)
  finally show ?case .
next
  case (2 options)
  have "check_depth d (Coalesce options) = Inr () \<longleftrightarrow>
      d \<le> max_expression_depth \<and> (\<forall>p \<in> set options. check_depth (d + 1) p = Inr ())"
    by (simp add: check_depth.simps [of d "Coalesce options"] check_depths_iff)
  also have "\<dots> \<longleftrightarrow> d \<le> max_expression_depth \<and> (\<forall>p \<in> set options. d + 1 + expr_depth p \<le> max_expression_depth + 1)"
    using 2 by auto
  also have "\<dots> \<longleftrightarrow> d + expr_depth (Coalesce options) \<le> max_expression_depth + 1"
    by (simp only: expr_depth.simps depth_children)
  finally show ?case .
next
  case (6 e i)
  then show ?case
    using expr_depth_pos [of e] by (auto simp: check_depth.simps [of d "IfNull e i"])
qed (use expr_depth_pos in \<open>force simp: check_depth.simps\<close>)+

text \<open>
  The depth guard is exact. It accepts an expression exactly when the expression nests at
  most twenty levels deep, so the recursion of the evaluator and of the column collector over
  an accepted expression is at most twenty frames of nodes deep.
\<close>

theorem depth_guard_exact:
  "check_expression_depth e = Inr () \<longleftrightarrow> expr_depth e \<le> 20"
  using check_depth_iff [of 1 e] by (simp add: check_expression_depth_def max_expression_depth_def)

subsection \<open>Evaluation\<close>

lemma evaluate_total:
  "referenced_columns e \<subseteq> fst ` set row \<Longrightarrow> \<exists>v. evaluate fstr row e = Inr v"
  "(\<forall>e \<in> set es. referenced_columns e \<subseteq> fst ` set row) \<Longrightarrow> \<exists>vs. evaluate_all fstr row es = Inr vs"
  "(\<forall>e \<in> set es. referenced_columns e \<subseteq> fst ` set row) \<Longrightarrow> \<exists>v. evaluate_first fstr row es = Inr v"
proof (induction fstr row e and fstr row es and fstr row es rule: evaluate_evaluate_all_evaluate_first.induct)
  case (1 fstr row c)
  then have "dict_get row c \<noteq> None" by (simp add: dict_get_def map_of_eq_None_iff)
  then show ?case by auto
next
  case (8 fstr row e i)
  then obtain v where "evaluate fstr row e = Inr v" by auto
  with 8 show ?case by (cases "v = VNull") auto
next
  case (12 fstr row e es)
  then obtain v where "evaluate fstr row e = Inr v" by auto
  with 12 show ?case by (cases "v = VNull") auto
qed auto

lemma evaluate_cong:
  "(\<And>c. c \<in> referenced_columns e \<Longrightarrow> dict_get row c = dict_get row' c) \<Longrightarrow> evaluate fstr row e = evaluate fstr row' e"
  "(\<And>e c. e \<in> set es \<Longrightarrow> c \<in> referenced_columns e \<Longrightarrow> dict_get row c = dict_get row' c) \<Longrightarrow>
    evaluate_all fstr row es = evaluate_all fstr row' es"
  "(\<And>e c. e \<in> set es \<Longrightarrow> c \<in> referenced_columns e \<Longrightarrow> dict_get row c = dict_get row' c) \<Longrightarrow>
    evaluate_first fstr row es = evaluate_first fstr row' es"
proof (induction fstr row e and fstr row es and fstr row es rule: evaluate_evaluate_all_evaluate_first.induct)
  case (3 fstr row parts sep)
  have "evaluate_all fstr row parts = evaluate_all fstr row' parts"
    by (rule 3(1)) (rule 3(2), auto)
  then show ?case by simp
next
  case (8 fstr row e i)
  then have "evaluate fstr row e = evaluate fstr row' e" "evaluate fstr row' e = Inr VNull \<Longrightarrow> evaluate fstr row i = evaluate fstr row' i"
    by auto
  then show ?case by (cases "evaluate fstr row' e") auto
next
  case (10 fstr row e es)
  have "evaluate fstr row e = evaluate fstr row' e" by (rule 10(1)) (rule 10(3) [of e], simp_all)
  moreover have "evaluate_all fstr row es = evaluate_all fstr row' es"
    using 10(2,3) by (meson list.set_intros(2))
  ultimately show ?case by simp
next
  case (12 fstr row e es)
  then have "evaluate fstr row e = evaluate fstr row' e" "evaluate fstr row' e = Inr VNull \<Longrightarrow> evaluate_first fstr row es = evaluate_first fstr row' es"
    by auto
  then show ?case by (cases "evaluate fstr row' e") auto
qed auto

text \<open>
  Derived fields see what validation checked. An expression whose referenced columns all
  occur in the row evaluates without an exception, and its value depends on no other column
  of the row.
\<close>

theorem evaluation_uses_referenced_columns_only:
  assumes "referenced_columns e \<subseteq> fst ` set row"
    and "\<forall>c \<in> referenced_columns e. dict_get row' c = dict_get row c"
  shows "\<exists>v. evaluate fstr row e = Inr v \<and> evaluate fstr row' e = Inr v"
  using evaluate_total(1) [OF assms(1), of fstr] evaluate_cong(1) [of e row row' fstr] assms(2) by auto

theorem evaluation_uses_referenced_columns_only_witness:
  "\<exists>v. evaluate (\<lambda>_. []) [(''a'', VStr ''x''), (''b'', VInt 1)] (Concat [ColumnRef ''a'', Literal (VStr ''!'')] []) = Inr v \<and>
     evaluate (\<lambda>_. []) [(''b'', VInt 2), (''a'', VStr ''x'')] (Concat [ColumnRef ''a'', Literal (VStr ''!'')] []) = Inr v"
  by (rule evaluation_uses_referenced_columns_only) (simp_all add: dict_get_def)

lemma evaluate_example:
  "evaluate (\<lambda>_. []) [(''a'', VNull), (''b'', VStr '' Kia '')]
     (Concat [Coalesce [ColumnRef ''a'', UpperCase (Trim (ColumnRef ''b''))], ColumnRef ''a'', Literal (VInt 7)] ''-'') =
   Inr (VStr ''KIA--7'')"
  by code_simp

end
