(* ===== verification/Ontology.thy ===== *)
theory Ontology
  imports Errors
begin

section \<open>The canonical ontology\<close>

text \<open>
  \<open>hermes_rpt/ontology\<close>: the value vocabularies and validators, the unit conversions and the
  checks a definition passes when it is loaded. Python floats are modelled by exact rationals
  and the conversion factors by their decimal values; reading YAML is the library's.
\<close>

datatype logical_type =
    T_STRING | T_INTEGER | T_FLOAT | T_BOOLEAN | T_DATE | T_DATETIME | T_ENUM | T_MONEY

datatype data_classification = PUBLIC | INTERNAL | PII | SENSITIVE_PII

datatype cardinality = ONE_TO_ONE | ONE_TO_MANY | MANY_TO_ONE | MANY_TO_MANY

subsection \<open>Values\<close>

record money =
  mo_amount :: rat
  mo_currency :: string

definition is_alpha_ascii :: "char \<Rightarrow> bool" where
  "is_alpha_ascii c \<longleftrightarrow> is_upper_ascii c \<or> is_lower_ascii c"

definition make_money :: "rat \<Rightarrow> string \<Rightarrow> exn + money" where
  "make_money amount code =
     (if length code \<noteq> 3 \<or> \<not> list_all is_alpha_ascii code then Inl (ValueError ''currency_code'')
      else Inr \<lparr>mo_amount = amount, mo_currency = str_upper code\<rparr>)"

text \<open>
  A Python datetime is a wall clock with the offset of its zone from UTC, if it has a zone. The
  validator asks for a zone and does not convert: the wall clock stays that of the zone.
\<close>

type_synonym py_datetime = "instant \<times> int option"

record canonical_datetime =
  cd_utc :: py_datetime
  cd_zone :: "string option"

definition make_canonical_datetime :: "py_datetime \<Rightarrow> string option \<Rightarrow> exn + canonical_datetime" where
  "make_canonical_datetime d zone =
     (if snd d = None then Inl (ValueError ''utc'') else Inr \<lparr>cd_utc = d, cd_zone = zone\<rparr>)"

lemma canonical_datetime_not_normalised:
  "make_canonical_datetime (w, Some 7200000000) z = Inr \<lparr>cd_utc = (w, Some 7200000000), cd_zone = z\<rparr>"
  by (simp add: make_canonical_datetime_def)

subsection \<open>Units\<close>

datatype distance_unit = KILOMETRES | MILES

datatype volume_unit = LITRES | US_GALLONS | UK_GALLONS

datatype mass_unit = KILOGRAMS | POUNDS

datatype canonical_unit = CU_KILOMETRES | CU_LITRES | CU_KILOGRAMS

fun to_canonical_distance :: "distance_unit \<Rightarrow> rat" where
  "to_canonical_distance KILOMETRES = 1"
| "to_canonical_distance MILES = 1609344 / 1000000"

fun to_canonical_volume :: "volume_unit \<Rightarrow> rat" where
  "to_canonical_volume LITRES = 1"
| "to_canonical_volume US_GALLONS = 3785411784 / 1000000000"
| "to_canonical_volume UK_GALLONS = 454609 / 100000"

fun to_canonical_mass :: "mass_unit \<Rightarrow> rat" where
  "to_canonical_mass KILOGRAMS = 1"
| "to_canonical_mass POUNDS = 45359237 / 100000000"

definition convert_distance :: "rat \<Rightarrow> distance_unit \<Rightarrow> distance_unit \<Rightarrow> rat" where
  "convert_distance v a b = (v * to_canonical_distance a) / to_canonical_distance b"

definition convert_volume :: "rat \<Rightarrow> volume_unit \<Rightarrow> volume_unit \<Rightarrow> rat" where
  "convert_volume v a b = (v * to_canonical_volume a) / to_canonical_volume b"

definition convert_mass :: "rat \<Rightarrow> mass_unit \<Rightarrow> mass_unit \<Rightarrow> rat" where
  "convert_mass v a b = (v * to_canonical_mass a) / to_canonical_mass b"

definition parse_distance_unit :: "string \<Rightarrow> distance_unit option" where
  "parse_distance_unit s =
     (if s = ''kilometres'' then Some KILOMETRES else if s = ''miles'' then Some MILES else None)"

definition parse_volume_unit :: "string \<Rightarrow> volume_unit option" where
  "parse_volume_unit s =
     (if s = ''litres'' then Some LITRES else if s = ''us_gallons'' then Some US_GALLONS
      else if s = ''uk_gallons'' then Some UK_GALLONS else None)"

definition parse_mass_unit :: "string \<Rightarrow> mass_unit option" where
  "parse_mass_unit s =
     (if s = ''kilograms'' then Some KILOGRAMS else if s = ''pounds'' then Some POUNDS else None)"

definition convert_to_canonical :: "rat \<Rightarrow> string \<Rightarrow> canonical_unit \<Rightarrow> exn + rat" where
  "convert_to_canonical v unit cu =
     (case cu of
        CU_KILOMETRES \<Rightarrow>
          (case parse_distance_unit unit of
             None \<Rightarrow> Inl (ValueError unit) | Some u \<Rightarrow> Inr (convert_distance v u KILOMETRES))
      | CU_LITRES \<Rightarrow>
          (case parse_volume_unit unit of
             None \<Rightarrow> Inl (ValueError unit) | Some u \<Rightarrow> Inr (convert_volume v u LITRES))
      | CU_KILOGRAMS \<Rightarrow>
          (case parse_mass_unit unit of
             None \<Rightarrow> Inl (ValueError unit) | Some u \<Rightarrow> Inr (convert_mass v u KILOGRAMS)))"

subsection \<open>Definitions\<close>

record ontology_field =
  of_name :: string
  of_type :: logical_type
  of_unit :: "canonical_unit option"
  of_enum :: "string list option"
  of_classification :: data_classification
  of_required :: bool
  of_identifier :: bool

record ontology_relationship =
  or_name :: string
  or_target :: string
  or_cardinality :: cardinality
  or_required :: bool

record ontology_entity =
  oe_name :: string
  oe_domain :: string
  oe_fields :: "ontology_field list"
  oe_relationships :: "ontology_relationship list"

record ontology =
  on_version :: string
  on_entities :: "ontology_entity list"

definition truthy_list :: "'a list option \<Rightarrow> bool" where
  "truthy_list x \<longleftrightarrow> (case x of None \<Rightarrow> False | Some l \<Rightarrow> l \<noteq> [])"

definition validate_field :: "ontology_field \<Rightarrow> exn + ontology_field" where
  "validate_field f =
     (if of_type f = T_ENUM \<and> \<not> truthy_list (of_enum f) then Inl (ValueError ''ENUM fields must set enum_values'')
      else if of_type f \<noteq> T_ENUM \<and> truthy_list (of_enum f) then Inl (ValueError ''enum_values'')
      else if of_unit f \<noteq> None \<and> of_type f \<noteq> T_FLOAT then Inl (ValueError ''unit'')
      else if of_identifier f \<and> of_type f \<noteq> T_STRING then Inl (ValueError ''business identifiers'')
      else Inr f)"

definition validate_entity :: "ontology_entity \<Rightarrow> exn + ontology_entity" where
  "validate_entity e =
     rbind (mapM_r validate_field (oe_fields e)) (\<lambda>_.
       let names = map of_name (oe_fields e)
       in if list_ex (\<lambda>n. count_list names n > 1) names then Inl (ValueError ''duplicate field names'')
          else Inr e)"

definition validate_ontology :: "ontology \<Rightarrow> exn + ontology" where
  "validate_ontology o1 =
     rbind (mapM_r validate_entity (on_entities o1)) (\<lambda>_.
       let names = set (map oe_name (on_entities o1))
       in if card names \<noteq> length (on_entities o1) then Inl (ValueError ''duplicate entity names'')
          else if list_ex (\<lambda>e. list_ex (\<lambda>r. or_target r \<notin> names) (oe_relationships e)) (on_entities o1)
          then Inl (ValueError ''unknown entity'')
          else Inr o1)"

definition get_entity :: "ontology \<Rightarrow> string \<Rightarrow> exn + ontology_entity" where
  "get_entity o1 name =
     (case List.find (\<lambda>e. oe_name e = name) (on_entities o1) of
        None \<Rightarrow> Inl (KeyError name) | Some e \<Rightarrow> Inr e)"

text \<open>What an accepted definition guarantees to the mapping layer.\<close>

definition field_ok :: "ontology_field \<Rightarrow> bool" where
  "field_ok f \<longleftrightarrow> (of_type f = T_ENUM \<longleftrightarrow> truthy_list (of_enum f)) \<and>
     (of_unit f \<noteq> None \<longrightarrow> of_type f = T_FLOAT) \<and> (of_identifier f \<longrightarrow> of_type f = T_STRING)"

definition ontology_ok :: "ontology \<Rightarrow> bool" where
  "ontology_ok o1 \<longleftrightarrow>
     distinct (map oe_name (on_entities o1)) \<and>
     (\<forall>e \<in> set (on_entities o1). distinct (map of_name (oe_fields e)) \<and> (\<forall>f \<in> set (oe_fields e). field_ok f) \<and>
        (\<forall>r \<in> set (oe_relationships e). or_target r \<in> oe_name ` set (on_entities o1)))"

lemma validate_field_Inr: "validate_field f = Inr f' \<longleftrightarrow> f' = f \<and> field_ok f"
  by (auto simp: validate_field_def field_ok_def)

lemma mapM_r_validate:
  "(\<And>x y. f x = Inr y \<longleftrightarrow> y = x \<and> P x) \<Longrightarrow> (\<exists>ys. mapM_r f xs = Inr ys) \<longleftrightarrow> (\<forall>x \<in> set xs. P x)"
  by (induction xs) auto

lemma count_list_distinct: "list_ex (\<lambda>n. count_list xs n > 1) xs \<longleftrightarrow> \<not> distinct xs"
proof -
  have "distinct xs \<longleftrightarrow> (\<forall>x \<in> set xs. count_list xs x = 1)"
    by (metis count_list_0_iff count_mset distinct_count_atmost_1)
  moreover have "x \<in> set xs \<Longrightarrow> count_list xs x = 1 \<longleftrightarrow> \<not> count_list xs x > 1" for x
    using count_list_0_iff [of xs x] by linarith
  ultimately show ?thesis by (auto simp: list_ex_iff)
qed

lemma validate_entity_Inr:
  "validate_entity e = Inr e' \<longleftrightarrow>
    e' = e \<and> (\<forall>f \<in> set (oe_fields e). field_ok f) \<and> distinct (map of_name (oe_fields e))"
  using mapM_r_validate [of validate_field field_ok "oe_fields e"] validate_field_Inr
  by (auto simp: validate_entity_def count_list_distinct [unfolded One_nat_def] Let_def)

text \<open>
  What loading accepts. A definition is accepted, and returned unchanged, exactly when its
  entity names are distinct, every entity's field names are distinct, every field obeys the
  rules on enumerations, units and business identifiers, and every relationship targets an
  entity of the definition.
\<close>

theorem ontology_accepted_iff_ok:
  "validate_ontology o1 = Inr o2 \<longleftrightarrow> o2 = o1 \<and> ontology_ok o1"
proof -
  have "card (oe_name ` set (on_entities o1)) = length (on_entities o1) \<longleftrightarrow> distinct (map oe_name (on_entities o1))"
    by (metis card_distinct distinct_card length_map list.set_map)
  then show ?thesis
    using mapM_r_validate [of validate_entity _ "on_entities o1", OF validate_entity_Inr]
    by (auto simp: validate_ontology_def ontology_ok_def Let_def list_ex_iff)
qed

text \<open>
  Unit conversions are consistent. Converting there and back gives the value one started
  from, and a conversion through an intermediate unit is the direct one, for distances,
  volumes and masses.
\<close>

theorem unit_conversion_roundtrip:
  "convert_distance (convert_distance v a b) b a' = convert_distance v a a' \<and>
   convert_volume (convert_volume v c d) d c' = convert_volume v c c' \<and>
   convert_mass (convert_mass v e f) f e' = convert_mass v e e' \<and>
   convert_distance v a a = v \<and> convert_volume v c c = v \<and> convert_mass v e e = v"
proof -
  have "to_canonical_distance b \<noteq> 0" "to_canonical_distance a \<noteq> 0" by (cases b; simp) (cases a; simp)
  moreover have "to_canonical_volume d \<noteq> 0" "to_canonical_volume c \<noteq> 0" by (cases d; simp) (cases c; simp)
  moreover have "to_canonical_mass f \<noteq> 0" "to_canonical_mass e \<noteq> 0" by (cases f; simp) (cases e; simp)
  ultimately show ?thesis
    by (simp add: convert_distance_def convert_volume_def convert_mass_def)
qed

lemma convert_to_canonical_error:
  "(\<exists>e. convert_to_canonical v u cu = Inl e) \<longleftrightarrow>
    u \<notin> (case cu of CU_KILOMETRES \<Rightarrow> {''kilometres'', ''miles''}
      | CU_LITRES \<Rightarrow> {''litres'', ''us_gallons'', ''uk_gallons''} | CU_KILOGRAMS \<Rightarrow> {''kilograms'', ''pounds''})"
  by (auto simp: convert_to_canonical_def parse_distance_unit_def parse_volume_unit_def
      parse_mass_unit_def split: canonical_unit.split)

end
