(* ===== verification/MappingDocument.thy ===== *)
theory MappingDocument
  imports Expressions Ontology
begin

section \<open>Mapping documents and their validation\<close>

text \<open>
  \<open>hermes_rpt/mappings/document.py\<close> and \<open>validation.py\<close>. A document that went through its
  model validators is a value accepted by \<open>make_document\<close>; a document that is stored and read
  back is the same value. The semantic validation collects issues in the order of the code; the
  iteration over the set of columns of a derived expression takes its order from the parameter
  \<open>iter\<close>.
\<close>

subsection \<open>Documents\<close>

text \<open>
  \<open>_IDENTIFIER_PATTERN\<close> is anchored by a dollar sign, which in Python also matches before a
  newline that ends the string.
\<close>

definition identifier_start :: "char \<Rightarrow> bool" where
  "identifier_start c \<longleftrightarrow> is_upper_ascii c \<or> is_lower_ascii c \<or> c = CHR ''_''"

definition plain_identifier :: "string \<Rightarrow> bool" where
  "plain_identifier s \<longleftrightarrow> (case s of [] \<Rightarrow> False | c # cs \<Rightarrow> identifier_start c \<and> list_all is_word_char cs)"

definition identifier_match :: "string \<Rightarrow> bool" where
  "identifier_match s \<longleftrightarrow> plain_identifier s \<or>
     (s \<noteq> [] \<and> last s = CHR 0x0A \<and> plain_identifier (butlast s))"

definition validate_identifier :: "string \<Rightarrow> exn + string" where
  "validate_identifier s = (if \<not> identifier_match s then Inl (ValueError s) else Inr s)"

record source_table =
  st_schema :: string
  st_table :: string

definition make_source_table :: "source_table \<Rightarrow> exn + source_table" where
  "make_source_table s =
     rbind (validate_identifier (st_schema s)) (\<lambda>_. rbind (validate_identifier (st_table s)) (\<lambda>_. Inr s))"

record value_source =
  vs_column :: "string option"
  vs_static :: "json option"
  vs_derived :: "expr option"
  vs_unit :: "string option"
  vs_timezone :: "string option"
  vs_value_map :: "(string, string) dict option"
  vs_null_values :: "string list"

definition make_value_source :: "value_source \<Rightarrow> exn + value_source" where
  "make_value_source v =
     (let kinds = length (filter id [vs_column v \<noteq> None, vs_static v \<noteq> None, vs_derived v \<noteq> None])
      in if kinds \<noteq> 1 then Inl (ValueError ''Exactly one of column, static, or derived must be set'')
         else rbind (case vs_column v of None \<Rightarrow> Inr [] | Some c \<Rightarrow> validate_identifier c) (\<lambda>_.
           if (truthy_list (vs_unit v) \<or> truthy_list (vs_timezone v) \<or> truthy_list (vs_value_map v)) \<and> vs_column v = None
           then Inl (ValueError ''only apply to a column source'') else Inr v))"

record field_mapping =
  fm_sources :: "value_source list"
  fm_default :: "json option"

definition make_field_mapping :: "field_mapping \<Rightarrow> exn + field_mapping" where
  "make_field_mapping f =
     rbind (mapM_r make_value_source (fm_sources f)) (\<lambda>_.
       if fm_sources f = [] then Inl (ValidationError ''sources'') else Inr f)"

record filter_condition =
  fc_column :: string
  fc_equals :: "json option"
  fc_not_equals :: "json option"
  fc_is_null :: "bool option"

definition make_filter :: "filter_condition \<Rightarrow> exn + filter_condition" where
  "make_filter f =
     rbind (validate_identifier (fc_column f)) (\<lambda>_.
       if length (filter id [fc_equals f \<noteq> None, fc_not_equals f \<noteq> None, fc_is_null f \<noteq> None]) \<noteq> 1
       then Inl (ValueError ''Exactly one of equals, not_equals, or is_null must be set'') else Inr f)"

record join_definition =
  jd_relationship :: string
  jd_schema :: string
  jd_table :: string
  jd_local :: string
  jd_foreign :: string

definition make_join :: "join_definition \<Rightarrow> exn + join_definition" where
  "make_join j =
     rbind (validate_identifier (jd_schema j)) (\<lambda>_. rbind (validate_identifier (jd_table j)) (\<lambda>_.
     rbind (validate_identifier (jd_local j)) (\<lambda>_. rbind (validate_identifier (jd_foreign j)) (\<lambda>_. Inr j))))"

record mapping_document =
  md_entity :: string
  md_source :: source_table
  md_identity :: "(string, field_mapping) dict"
  md_fields :: "(string, field_mapping) dict"
  md_filters :: "filter_condition list"
  md_joins :: "join_definition list"

definition make_document :: "mapping_document \<Rightarrow> exn + mapping_document" where
  "make_document d =
     rbind (make_source_table (md_source d)) (\<lambda>_.
     rbind (mapM_r make_field_mapping (map snd (md_identity d))) (\<lambda>_.
     rbind (mapM_r make_field_mapping (map snd (md_fields d))) (\<lambda>_.
     rbind (mapM_r make_filter (md_filters d)) (\<lambda>_.
     rbind (mapM_r make_join (md_joins d)) (\<lambda>_.
       if md_identity d = [] then Inl (ValidationError ''identity'') else Inr d)))))"

definition qualified_source :: "mapping_document \<Rightarrow> string" where
  "qualified_source d = st_schema (md_source d) @ ''.'' @ st_table (md_source d)"

subsection \<open>Semantic validation\<close>

definition source_column_issues ::
  "(string set \<Rightarrow> string list) \<Rightarrow> value_source \<Rightarrow> string set option \<Rightarrow> string \<Rightarrow> mapping_issue list" where
  "source_column_issues iter v available name =
     (case (case vs_derived v of None \<Rightarrow> Inr () | Some e \<Rightarrow> check_expression_depth e) of
        Inl _ \<Rightarrow> [ExpressionTooDeepIn name]
      | Inr _ \<Rightarrow>
          (case available of
             None \<Rightarrow> []
           | Some cols \<Rightarrow>
               (case vs_column v of None \<Rightarrow> [] | Some c \<Rightarrow> if c \<notin> cols then [UnknownColumn name c] else []) @
               (case vs_derived v of None \<Rightarrow> []
                | Some e \<Rightarrow> map (DerivedUnknownColumn name)
                    (filter (\<lambda>c. c \<notin> cols) (iter (referenced_columns e))))))"

definition source_unit_issues :: "value_source \<Rightarrow> ontology_field \<Rightarrow> string \<Rightarrow> mapping_issue list" where
  "source_unit_issues v f name =
     (case vs_unit v of
        None \<Rightarrow> []
      | Some u \<Rightarrow>
          (case of_unit f of
             None \<Rightarrow> [UnitWithoutCanonicalUnit name]
           | Some cu \<Rightarrow> (case convert_to_canonical 1 u cu of Inl _ \<Rightarrow> [UnsupportedUnit name u] | Inr _ \<Rightarrow> [])))"

definition value_map_issues :: "value_source \<Rightarrow> ontology_field \<Rightarrow> string \<Rightarrow> mapping_issue list" where
  "value_map_issues v f name =
     (case vs_value_map v of
        None \<Rightarrow> []
      | Some m \<Rightarrow>
          if of_type f \<noteq> T_ENUM then [ValueMapNotEnum name]
          else (let allowed = (case of_enum f of None \<Rightarrow> {} | Some l \<Rightarrow> set l);
                    invalid = set (map snd m) - allowed
                in if invalid \<noteq> {} then [ValueMapInvalidTargets name (sorted_list_of_set invalid)] else []))"

definition field_issues ::
  "(string set \<Rightarrow> string list) \<Rightarrow> ontology_entity \<Rightarrow> string set option \<Rightarrow> string \<times> field_mapping \<Rightarrow> mapping_issue list" where
  "field_issues iter ent available nf =
     (case dict_get (dict_of (map (\<lambda>f. (of_name f, f)) (oe_fields ent))) (fst nf) of
        None \<Rightarrow> [UnknownOntologyField (fst nf)]
      | Some f \<Rightarrow> concat (map (\<lambda>v. source_column_issues iter v available (fst nf) @
            source_unit_issues v f (fst nf) @ value_map_issues v f (fst nf)) (fm_sources (snd nf))))"

definition required_issues :: "ontology_entity \<Rightarrow> (string, field_mapping) dict \<Rightarrow> mapping_issue list" where
  "required_issues ent all =
     concat (map (\<lambda>f.
       (let covered = dict_get all (of_name f) \<noteq> None;
            fallback = (case dict_get all (of_name f) of None \<Rightarrow> False | Some m \<Rightarrow> fm_default m \<noteq> None)
        in if of_required f \<and> \<not> covered \<and> \<not> fallback then [RequiredFieldNotMapped (of_name f)] else []))
       (oe_fields ent))"

definition join_issues ::
  "ontology_entity \<Rightarrow> string list option \<Rightarrow> string list option \<Rightarrow> join_definition \<Rightarrow> mapping_issue list" where
  "join_issues ent schemas tables j =
     (if jd_relationship j \<notin> or_name ` set (oe_relationships ent) then [JoinNotApproved (jd_relationship j)] else []) @
     (case schemas of None \<Rightarrow> [] | Some l \<Rightarrow> if jd_schema j \<notin> set l then [JoinSchemaNotAllowed (jd_schema j)] else []) @
     (case tables of None \<Rightarrow> [] | Some l \<Rightarrow> if jd_table j \<notin> set l then [JoinTableNotAllowed (jd_table j)] else [])"

definition validate_mapping_document ::
  "(string set \<Rightarrow> string list) \<Rightarrow> mapping_document \<Rightarrow> ontology_entity \<Rightarrow> string set option \<Rightarrow>
   string list option \<Rightarrow> string list option \<Rightarrow> exn + unit" where
  "validate_mapping_document iter d ent available schemas tables =
     (let all = dict_merge (md_identity d) (md_fields d);
          issues =
            (if md_entity d \<noteq> oe_name ent then [WrongEntity (md_entity d) (oe_name ent)] else []) @
            concat (map (field_issues iter ent available) all) @
            required_issues ent all @
            concat (map (join_issues ent schemas tables) (md_joins d))
      in if issues \<noteq> [] then Inl (MappingValidationError issues) else Inr ())"

subsection \<open>What passes validation\<close>

lemma identifier_match_chars:
  "identifier_match s \<Longrightarrow> \<forall>c \<in> set s. is_word_char c \<or> c = CHR 0x0A"
proof -
  have plain: "plain_identifier t \<Longrightarrow> \<forall>c \<in> set t. is_word_char c" for t
    by (auto simp: plain_identifier_def identifier_start_def is_word_char_def list_all_iff split: list.splits)
  assume "identifier_match s"
  then show ?thesis
    unfolding identifier_match_def
  proof
    assume "s \<noteq> [] \<and> last s = CHR 0x0A \<and> plain_identifier (butlast s)"
    moreover from this have "set s = set (butlast s) \<union> {CHR 0x0A}"
      by (metis append_butlast_last_id list.set(1) list.simps(15) set_append)
    ultimately show ?thesis using plain by blast
  qed (use plain in blast)
qed

definition document_identifiers :: "mapping_document \<Rightarrow> string set" where
  "document_identifiers d =
     {st_schema (md_source d), st_table (md_source d)} \<union>
     {c. \<exists>m \<in> set (map snd (md_identity d @ md_fields d)). \<exists>v \<in> set (fm_sources m). vs_column v = Some c} \<union>
     fc_column ` set (md_filters d) \<union>
     (\<Union>j \<in> set (md_joins d). {jd_schema j, jd_table j, jd_local j, jd_foreign j})"

lemma mapM_r_all: "mapM_r f xs = Inr ys \<Longrightarrow> x \<in> set xs \<Longrightarrow> \<exists>y. f x = Inr y"
  by (induction xs arbitrary: ys) auto

lemma validate_identifier_Inr [simp]: "validate_identifier s = Inr t \<longleftrightarrow> t = s \<and> identifier_match s"
  by (auto simp: validate_identifier_def)

lemma make_value_source_column:
  "make_value_source v = Inr w \<Longrightarrow> vs_column v = Some c \<Longrightarrow> identifier_match c"
  by (auto simp: make_value_source_def Let_def split: if_splits)

lemma make_field_mapping_column:
  "make_field_mapping m = Inr m' \<Longrightarrow> v \<in> set (fm_sources m) \<Longrightarrow> vs_column v = Some c \<Longrightarrow> identifier_match c"
  by (auto simp: make_field_mapping_def split: if_splits dest!: mapM_r_all make_value_source_column)

text \<open>
  Identifiers cannot carry SQL. Every table, column and join identifier of a document that
  passes its validators consists of letters, digits and underscores, with at most a newline at
  the end; it has no quote, semicolon, space, dot or parenthesis to break out of the place it
  is put in.
\<close>

theorem document_identifiers_are_plain:
  assumes "make_document d = Inr d'" and "s \<in> document_identifiers d" and "c \<in> set s"
  shows "is_word_char c \<or> c = CHR 0x0A"
proof -
  from assms(1) obtain xs ys zs us where v: "make_source_table (md_source d) = Inr (md_source d)"
      "mapM_r make_field_mapping (map snd (md_identity d)) = Inr xs"
      "mapM_r make_field_mapping (map snd (md_fields d)) = Inr ys"
      "mapM_r make_filter (md_filters d) = Inr zs" "mapM_r make_join (md_joins d) = Inr us"
    by (auto simp: make_document_def make_source_table_def)
  have field: "identifier_match col"
    if "m \<in> set (map snd (md_identity d @ md_fields d))" "w \<in> set (fm_sources m)" "vs_column w = Some col" for m w col
  proof -
    from that(1) have "m \<in> set (map snd (md_identity d)) \<or> m \<in> set (map snd (md_fields d))" by auto
    then have "\<exists>m'. make_field_mapping m = Inr m'"
      using mapM_r_all [OF v(2)] mapM_r_all [OF v(3)] by blast
    with that show ?thesis using make_field_mapping_column by blast
  qed
  have filt: "identifier_match (fc_column f)" if "f \<in> set (md_filters d)" for f
    using mapM_r_all [OF v(4) that] by (auto simp: make_filter_def split: if_splits)
  have join: "identifier_match (jd_schema j) \<and> identifier_match (jd_table j) \<and>
      identifier_match (jd_local j) \<and> identifier_match (jd_foreign j)" if "j \<in> set (md_joins d)" for j
    using mapM_r_all [OF v(5) that] by (auto simp: make_join_def)
  have src: "identifier_match (st_schema (md_source d)) \<and> identifier_match (st_table (md_source d))"
    using v(1) by (auto simp: make_source_table_def)
  have "identifier_match s"
    using assms(2) field filt join src unfolding document_identifiers_def by blast
  then show ?thesis using identifier_match_chars assms(3) by blast
qed

definition column_source :: "string \<Rightarrow> value_source" where
  "column_source c = \<lparr>vs_column = Some c, vs_static = None, vs_derived = None, vs_unit = None,
     vs_timezone = None, vs_value_map = None, vs_null_values = []\<rparr>"

definition sample_document :: mapping_document where
  "sample_document = \<lparr>md_entity = ''Vehicle'', md_source = \<lparr>st_schema = ''public'', st_table = ''vehicles''\<rparr>,
     md_identity = [(''vehicle_id'', \<lparr>fm_sources = [column_source ''id''], fm_default = None\<rparr>)],
     md_fields = [], md_filters = [], md_joins = []\<rparr>"

lemma sample_document_made: "make_document sample_document = Inr sample_document"
  by code_simp

theorem document_identifiers_are_plain_witness:
  "make_document sample_document = Inr sample_document \<and> ''id'' \<in> document_identifiers sample_document \<and>
   (is_word_char (CHR ''i'') \<or> CHR ''i'' = CHR 0x0A)"
proof -
  have id: "''id'' \<in> document_identifiers sample_document"
    by (simp add: document_identifiers_def sample_document_def column_source_def)
  with document_identifiers_are_plain [OF sample_document_made this, of "CHR ''i''"] sample_document_made
  show ?thesis by simp
qed

text \<open>The newline is really let through.\<close>

lemma identifier_newline_accepted: "validate_identifier ''id\<newline>'' = Inr ''id\<newline>''"
  by code_simp

text \<open>The meaning of a validated document, for a source with known columns.\<close>

definition source_valid :: "value_source \<Rightarrow> ontology_field \<Rightarrow> string set option \<Rightarrow> bool" where
  "source_valid v f available \<longleftrightarrow>
     (\<forall>e. vs_derived v = Some e \<longrightarrow> expr_depth e \<le> 20) \<and>
     (\<forall>cols. available = Some cols \<longrightarrow>
        (\<forall>c. vs_column v = Some c \<longrightarrow> c \<in> cols) \<and> (\<forall>e. vs_derived v = Some e \<longrightarrow> referenced_columns e \<subseteq> cols)) \<and>
     (\<forall>u. vs_unit v = Some u \<longrightarrow> (\<exists>cu r. of_unit f = Some cu \<and> convert_to_canonical 1 u cu = Inr r)) \<and>
     (\<forall>m. vs_value_map v = Some m \<longrightarrow> of_type f = T_ENUM \<and>
        snd ` set m \<subseteq> (case of_enum f of None \<Rightarrow> {} | Some l \<Rightarrow> set l))"

definition document_valid ::
  "mapping_document \<Rightarrow> ontology_entity \<Rightarrow> string set option \<Rightarrow> string list option \<Rightarrow> string list option \<Rightarrow> bool" where
  "document_valid d ent available schemas tables \<longleftrightarrow>
     md_entity d = oe_name ent \<and>
     (\<forall>(n, m) \<in> set (dict_merge (md_identity d) (md_fields d)).
        \<exists>f. dict_get (dict_of (map (\<lambda>f. (of_name f, f)) (oe_fields ent))) n = Some f \<and>
            (\<forall>v \<in> set (fm_sources m). source_valid v f available)) \<and>
     (\<forall>f \<in> set (oe_fields ent). of_required f \<longrightarrow>
        of_name f \<in> fst ` set (md_identity d) \<union> fst ` set (md_fields d)) \<and>
     (\<forall>j \<in> set (md_joins d). jd_relationship j \<in> or_name ` set (oe_relationships ent) \<and>
        (\<forall>l. schemas = Some l \<longrightarrow> jd_schema j \<in> set l) \<and> (\<forall>l. tables = Some l \<longrightarrow> jd_table j \<in> set l))"

lemma finite_referenced_columns [simp]: "finite (referenced_columns e)"
  by (induction e rule: referenced_columns.induct) auto

lemma depth_guard_iff_local: "(\<exists>u. check_expression_depth e = Inr u) \<longleftrightarrow> expr_depth e \<le> 20"
  using check_depth_iff [of 1 e] by (auto simp: check_expression_depth_def max_expression_depth_def)

lemma source_column_issues_Nil:
  assumes "\<And>s. finite s \<Longrightarrow> set (iter s) = s"
  shows "source_column_issues iter v available n = [] \<longleftrightarrow>
    (\<forall>e. vs_derived v = Some e \<longrightarrow> expr_depth e \<le> 20) \<and>
    (\<forall>cols. available = Some cols \<longrightarrow>
        (\<forall>c. vs_column v = Some c \<longrightarrow> c \<in> cols) \<and> (\<forall>e. vs_derived v = Some e \<longrightarrow> referenced_columns e \<subseteq> cols))"
proof (cases "vs_derived v")
  case None
  then show ?thesis by (auto simp: source_column_issues_def split: option.split)
next
  case (Some e)
  have iter: "set (iter (referenced_columns e)) = referenced_columns e" by (rule assms) simp
  show ?thesis
  proof (cases "check_expression_depth e")
    case (Inl x)
    then have "\<not> expr_depth e \<le> 20" using depth_guard_iff_local [of e] by simp
    with Some Inl show ?thesis by (simp add: source_column_issues_def)
  next
    case (Inr u)
    then have "expr_depth e \<le> 20" using depth_guard_iff_local [of e] by simp
    with Some Inr iter show ?thesis
      by (auto simp: source_column_issues_def filter_empty_conv split: option.split)
  qed
qed

lemma unit_value_issues_Nil:
  "source_unit_issues v f n = [] \<longleftrightarrow>
    (\<forall>u. vs_unit v = Some u \<longrightarrow> (\<exists>cu r. of_unit f = Some cu \<and> convert_to_canonical 1 u cu = Inr r))"
  "value_map_issues v f n = [] \<longleftrightarrow>
    (\<forall>m. vs_value_map v = Some m \<longrightarrow> of_type f = T_ENUM \<and>
        snd ` set m \<subseteq> (case of_enum f of None \<Rightarrow> {} | Some l \<Rightarrow> set l))"
  by (auto simp: source_unit_issues_def value_map_issues_def Let_def split: option.split sum.split)

lemma concat_map_Nil: "concat (map f xs) = [] \<longleftrightarrow> (\<forall>x \<in> set xs. f x = [])"
  by auto

lemma required_issues_Nil:
  "required_issues ent all = [] \<longleftrightarrow> (\<forall>f \<in> set (oe_fields ent). of_required f \<longrightarrow> of_name f \<in> fst ` set all)"
proof -
  have "dict_get all n = None \<longleftrightarrow> n \<notin> fst ` set all" for n
    by (simp add: dict_get_def map_of_eq_None_iff)
  then show ?thesis
    unfolding required_issues_def concat_map_Nil by (auto simp: Let_def split: option.split)
qed

lemma field_issues_Nil:
  assumes "\<And>s. finite s \<Longrightarrow> set (iter s) = s"
  shows "field_issues iter ent available (n, m) = [] \<longleftrightarrow>
    (\<exists>f. dict_get (dict_of (map (\<lambda>f. (of_name f, f)) (oe_fields ent))) n = Some f \<and>
       (\<forall>v \<in> set (fm_sources m). source_valid v f available))"
  by (auto simp: field_issues_def source_valid_def source_column_issues_Nil [OF assms] unit_value_issues_Nil
      split: option.split)

lemma validate_mapping_document_iff:
  assumes "\<And>s. finite s \<Longrightarrow> set (iter s) = s"
  shows "validate_mapping_document iter d ent available schemas tables = Inr () \<longleftrightarrow>
    document_valid d ent available schemas tables"
proof -
  have join: "join_issues ent schemas tables j = [] \<longleftrightarrow> jd_relationship j \<in> or_name ` set (oe_relationships ent) \<and>
      (\<forall>l. schemas = Some l \<longrightarrow> jd_schema j \<in> set l) \<and> (\<forall>l. tables = Some l \<longrightarrow> jd_table j \<in> set l)" for j
    by (simp add: join_issues_def split: option.split)
  have fields: "(\<forall>x \<in> set all. field_issues iter ent available x = []) \<longleftrightarrow>
      (\<forall>(n, m) \<in> set all. \<exists>f. dict_get (dict_of (map (\<lambda>f. (of_name f, f)) (oe_fields ent))) n = Some f \<and>
         (\<forall>v \<in> set (fm_sources m). source_valid v f available))" for all
  proof -
    have "field_issues iter ent available x = [] \<longleftrightarrow>
        (\<exists>f. dict_get (dict_of (map (\<lambda>f. (of_name f, f)) (oe_fields ent))) (fst x) = Some f \<and>
         (\<forall>v \<in> set (fm_sources (snd x)). source_valid v f available))" for x
      using field_issues_Nil [OF assms, of ent available "fst x" "snd x"] by simp
    then show ?thesis by (simp add: case_prod_beta)
  qed
  show ?thesis
    unfolding validate_mapping_document_def document_valid_def Let_def
    by (simp add: fields join required_issues_Nil keys_dict_merge case_prod_beta conj_assoc)
qed

text \<open>A document valid against known columns is valid against none.\<close>

lemma document_valid_weaken:
  "document_valid d ent available schemas tables \<Longrightarrow> document_valid d ent None None None"
  unfolding document_valid_def source_valid_def by fastforce

text \<open>
  C20: validation decides validity. A document passes the semantic validation exactly when it
  is meant for the entity, every mapped field is a field of the ontology, all columns that its
  sources and derived expressions name exist, expressions are at most twenty levels deep,
  units convert, value maps stay inside the enumeration, every required field is mapped, and
  every join fulfils a declared relationship and stays on the allowlists it is given.
\<close>

theorem mapping_validation_decides_validity:
  assumes "\<And>s. finite s \<Longrightarrow> set (iter s) = s"
  shows "validate_mapping_document iter d ent available schemas tables = Inr () \<longleftrightarrow>
    document_valid d ent available schemas tables"
  by (rule validate_mapping_document_iff [OF assms])

definition vehicle_entity :: ontology_entity where
  "vehicle_entity = \<lparr>oe_name = ''Vehicle'', oe_domain = ''fleet'',
     oe_fields = [\<lparr>of_name = ''vehicle_id'', of_type = T_STRING, of_unit = None, of_enum = None,
        of_classification = INTERNAL, of_required = True, of_identifier = True\<rparr>], oe_relationships = []\<rparr>"

theorem mapping_validation_decides_validity_witness:
  "validate_mapping_document sorted_list_of_set sample_document vehicle_entity (Some {''id''}) None None = Inr () \<longleftrightarrow>
   document_valid sample_document vehicle_entity (Some {''id''}) None None"
  by (rule mapping_validation_decides_validity) simp

end
