(* ===== verification/Mappings.thy ===== *)
theory Mappings
  imports Discovery MappingDocument
begin

section \<open>The mapping lifecycle\<close>

text \<open>
  \<open>hermes_rpt/mappings/service.py\<close>, \<open>models.py\<close> and \<open>repository.py\<close>. The state adds the
  mappings and their versions. \<open>onto\<close> loads the ontology of a version and \<open>iter\<close> is the
  iteration order of a set of names. An operation on a loaded mapping assigns to its row.
\<close>

datatype mapping_state = M_DRAFT | M_PENDING_VALIDATION | M_APPROVED | M_ACTIVE | M_DEPRECATED | M_REJECTED

fun mapping_state_value :: "mapping_state \<Rightarrow> string" where
  "mapping_state_value M_DRAFT = ''draft''"
| "mapping_state_value M_PENDING_VALIDATION = ''pending_validation''"
| "mapping_state_value M_APPROVED = ''approved''"
| "mapping_state_value M_ACTIVE = ''active''"
| "mapping_state_value M_DEPRECATED = ''deprecated''"
| "mapping_state_value M_REJECTED = ''rejected''"

record schema_mapping = tenant_row +
  sm_entity :: string
  sm_snapshot :: uuid
  sm_ontology :: string
  sm_state :: mapping_state
  sm_active :: "uuid option"
  sm_suspended :: bool

record mapping_version = tenant_row +
  mv_mapping :: uuid
  mv_number :: int
  mv_document :: mapping_document
  mv_ai_suggested :: bool
  mv_confidence :: "rat option"
  mv_explanation :: "string option"
  mv_created_by :: "uuid option"
  mv_approved_by :: "uuid option"

record map_db = snap_db +
  db_mappings :: "schema_mapping list"
  db_versions :: "mapping_version list"

record draft_info =
  di_ai_suggested :: bool
  di_confidence :: "rat option"
  di_explanation :: "string option"

type_synonym ontology_loader = "string \<Rightarrow> exn + ontology"

definition mapping_event :: "tenant_context \<Rightarrow> string \<Rightarrow> uuid \<Rightarrow> (string \<times> json) list \<Rightarrow> audit_event" where
  "mapping_event ctx action i details = audit_for ctx action SUCCESS ''SchemaMapping'' i details"

definition set_mapping :: "uuid \<Rightarrow> (schema_mapping \<Rightarrow> schema_mapping) \<Rightarrow> 'z map_db_scheme \<Rightarrow> 'z map_db_scheme" where
  "set_mapping i f db = db\<lparr>db_mappings := row_set (db_mappings db) i f\<rparr>"

definition set_version :: "uuid \<Rightarrow> (mapping_version \<Rightarrow> mapping_version) \<Rightarrow> 'z map_db_scheme \<Rightarrow> 'z map_db_scheme" where
  "set_version i f db = db\<lparr>db_versions := row_set (db_versions db) i f\<rparr>"

subsection \<open>Creating drafts and versions\<close>

text \<open>Insertion under the unique constraint on tenant, mapping and version number.\<close>

definition add_version ::
  "uuid \<Rightarrow> uuid \<Rightarrow> int \<Rightarrow> mapping_document \<Rightarrow> draft_info \<Rightarrow> tenant_context \<Rightarrow> 'z map_db_scheme \<Rightarrow>
   exn + (mapping_version \<times> 'z map_db_scheme)" where
  "add_version fresh mid number doc info ctx db =
     (if list_ex (\<lambda>v. row_tenant v = Some (tc_tenant ctx) \<and> mv_mapping v = mid \<and> mv_number v = number) (db_versions db)
      then Inl IntegrityError
      else rbind (repo_add (db_versions db)
          \<lparr>row_id = fresh, row_tenant = None, mv_mapping = mid, mv_number = number, mv_document = doc,
           mv_ai_suggested = di_ai_suggested info, mv_confidence = di_confidence info,
           mv_explanation = di_explanation info, mv_created_by = Some (tc_principal ctx),
           mv_approved_by = None\<rparr> ctx)
        (\<lambda>(v, t). Inr (v, db\<lparr>db_versions := t\<rparr>)))"

definition create_draft ::
  "tenant_context \<Rightarrow> uuid \<Rightarrow> mapping_document \<Rightarrow> string \<Rightarrow> draft_info \<Rightarrow> uuid \<Rightarrow> uuid \<Rightarrow> 'z map_db_scheme \<Rightarrow>
   (exn + schema_mapping \<times> mapping_version) \<times> 'z map_db_scheme" where
  "create_draft ctx snap doc onto_version info fresh_m fresh_v db =
     attempt (repo_add (db_mappings db)
         \<lparr>row_id = fresh_m, row_tenant = None, sm_entity = md_entity doc, sm_snapshot = snap,
          sm_ontology = onto_version, sm_state = M_DRAFT, sm_active = None, sm_suspended = False\<rparr> ctx) db
       (\<lambda>(m, ms).
         (let db1 = db\<lparr>db_mappings := ms\<rparr>
          in attempt (add_version fresh_v (row_id m) 1 doc info ctx db1) db1 (\<lambda>(v, db2).
             (Inr (m, v), audit_record (mapping_event ctx ''mapping.create_draft'' (row_id m)
                [(''entity'', JStr (md_entity doc)), (''is_ai_suggested'', JBool (di_ai_suggested info))]) db2))))"

definition versions_of :: "uuid \<Rightarrow> tenant_context \<Rightarrow> 'z map_db_scheme \<Rightarrow> mapping_version list" where
  "versions_of mid ctx db = filter (\<lambda>v. mv_mapping v = mid) (list_for_tenant (db_versions db) ctx)"

definition next_version_number :: "uuid \<Rightarrow> tenant_context \<Rightarrow> 'z map_db_scheme \<Rightarrow> int" where
  "next_version_number mid ctx db =
     (case map mv_number (versions_of mid ctx db) of [] \<Rightarrow> 0 | x # xs \<Rightarrow> fold max xs x) + 1"

definition create_new_version ::
  "uuid \<Rightarrow> tenant_context \<Rightarrow> mapping_document \<Rightarrow> draft_info \<Rightarrow> uuid \<Rightarrow> 'z map_db_scheme \<Rightarrow>
   (exn + mapping_version) \<times> 'z map_db_scheme" where
  "create_new_version mid ctx doc info fresh db =
     attempt (repo_require (db_mappings db) mid ctx) db (\<lambda>m.
     (let number = next_version_number (row_id m) ctx db
      in attempt (add_version fresh (row_id m) number doc info ctx db) db (\<lambda>(v, db1).
         (Inr v, audit_record (mapping_event ctx ''mapping.create_new_version'' (row_id m)
              [(''version_number'', JInt number)])
            (set_mapping (row_id m) (\<lambda>x. x\<lparr>sm_state := M_DRAFT\<rparr>) db1)))))"

text \<open>\<open>max(versions, key=...)\<close>: the first version with the greatest number.\<close>

fun first_max :: "('a \<Rightarrow> int) \<Rightarrow> 'a list \<Rightarrow> 'a option" where
  "first_max f [] = None"
| "first_max f (x # xs) = (case first_max f xs of None \<Rightarrow> Some x | Some y \<Rightarrow> if f y > f x then Some y else Some x)"

definition latest_version_for :: "schema_mapping \<Rightarrow> tenant_context \<Rightarrow> 'z map_db_scheme \<Rightarrow> exn + mapping_version" where
  "latest_version_for m ctx db =
     (case first_max mv_number (versions_of (row_id m) ctx db) of
        None \<Rightarrow> Inl (ValueError ''max() arg is an empty sequence'') | Some v \<Rightarrow> Inr v)"

subsection \<open>Transitions\<close>

text \<open>What \<open>submit_for_validation\<close> checks of the latest version.\<close>

definition submit_check ::
  "(string set \<Rightarrow> string list) \<Rightarrow> ontology_loader \<Rightarrow> snapshot \<Rightarrow> schema_mapping \<Rightarrow> mapping_document \<Rightarrow> exn + unit" where
  "submit_check iter onto snap m doc =
     rbind (onto (sm_ontology m)) (\<lambda>o1.
     rbind (get_entity o1 (sm_entity m)) (\<lambda>ent.
     rbind (case ss_metadata snap of None \<Rightarrow> Inl (ValidationError ''schemas'') | Some r \<Rightarrow> Inr r) (\<lambda>r.
       (let table = List.find (\<lambda>t. qualified_name t = qualified_source doc) (in_tables r);
            available = map_option (\<lambda>t. set (map cm_name (tm_columns t))) table
        in validate_mapping_document iter doc ent available None None))))"

definition submit_for_validation ::
  "(string set \<Rightarrow> string list) \<Rightarrow> ontology_loader \<Rightarrow> uuid \<Rightarrow> tenant_context \<Rightarrow> 'z map_db_scheme \<Rightarrow>
   (exn + schema_mapping) \<times> 'z map_db_scheme" where
  "submit_for_validation iter onto mid ctx db =
     attempt (repo_require (db_mappings db) mid ctx) db (\<lambda>m.
       if sm_state m \<noteq> M_DRAFT
       then (Inl (InvalidMappingStateTransitionError (mapping_state_value (sm_state m)) ''submit for validation''), db)
       else attempt (latest_version_for m ctx db) db (\<lambda>v.
            attempt (repo_require (db_snapshots db) (sm_snapshot m) ctx) db (\<lambda>snap.
            attempt (submit_check iter onto snap m (mv_document v)) db (\<lambda>_.
              (Inr (m\<lparr>sm_state := M_PENDING_VALIDATION\<rparr>),
               audit_record (mapping_event ctx ''mapping.submit_for_validation'' (row_id m) [])
                 (set_mapping (row_id m) (\<lambda>x. x\<lparr>sm_state := M_PENDING_VALIDATION\<rparr>) db))))))"

definition approve ::
  "uuid \<Rightarrow> tenant_context \<Rightarrow> 'z map_db_scheme \<Rightarrow> (exn + schema_mapping) \<times> 'z map_db_scheme" where
  "approve mid ctx db =
     attempt (repo_require (db_mappings db) mid ctx) db (\<lambda>m.
       if sm_state m \<noteq> M_PENDING_VALIDATION
       then (Inl (InvalidMappingStateTransitionError (mapping_state_value (sm_state m)) ''approve''), db)
       else attempt (latest_version_for m ctx db) db (\<lambda>v.
         (Inr (m\<lparr>sm_state := M_APPROVED\<rparr>),
          audit_record (mapping_event ctx ''mapping.approve'' (row_id m) [])
            (set_mapping (row_id m) (\<lambda>x. x\<lparr>sm_state := M_APPROVED\<rparr>)
              (set_version (row_id v) (\<lambda>x. x\<lparr>mv_approved_by := Some (tc_principal ctx)\<rparr>) db)))))"

definition activate ::
  "uuid \<Rightarrow> tenant_context \<Rightarrow> 'z map_db_scheme \<Rightarrow> (exn + schema_mapping) \<times> 'z map_db_scheme" where
  "activate mid ctx db =
     attempt (repo_require (db_mappings db) mid ctx) db (\<lambda>m.
       if sm_state m \<noteq> M_APPROVED
       then (Inl (InvalidMappingStateTransitionError (mapping_state_value (sm_state m)) ''activate''), db)
       else attempt (latest_version_for m ctx db) db (\<lambda>v.
         (let upd = (\<lambda>x. x\<lparr>sm_active := Some (row_id v), sm_state := M_ACTIVE, sm_suspended := False\<rparr>)
          in (Inr (upd m),
              audit_record (mapping_event ctx ''mapping.activate'' (row_id m) [(''active_version_id'', JUuid (row_id v))])
                (set_mapping (row_id m) upd db)))))"

definition deprecate ::
  "uuid \<Rightarrow> tenant_context \<Rightarrow> 'z map_db_scheme \<Rightarrow> (exn + schema_mapping) \<times> 'z map_db_scheme" where
  "deprecate mid ctx db =
     attempt (repo_require (db_mappings db) mid ctx) db (\<lambda>m.
       if sm_state m \<noteq> M_ACTIVE
       then (Inl (InvalidMappingStateTransitionError (mapping_state_value (sm_state m)) ''deprecate''), db)
       else (Inr (m\<lparr>sm_state := M_DEPRECATED\<rparr>),
             audit_record (mapping_event ctx ''mapping.deprecate'' (row_id m) [])
               (set_mapping (row_id m) (\<lambda>x. x\<lparr>sm_state := M_DEPRECATED\<rparr>) db)))"

definition reject ::
  "uuid \<Rightarrow> tenant_context \<Rightarrow> 'z map_db_scheme \<Rightarrow> (exn + schema_mapping) \<times> 'z map_db_scheme" where
  "reject mid ctx db =
     attempt (repo_require (db_mappings db) mid ctx) db (\<lambda>m.
       if sm_state m \<notin> {M_DRAFT, M_PENDING_VALIDATION}
       then (Inl (InvalidMappingStateTransitionError (mapping_state_value (sm_state m)) ''reject''), db)
       else (Inr (m\<lparr>sm_state := M_REJECTED\<rparr>),
             audit_record (mapping_event ctx ''mapping.reject'' (row_id m) [])
               (set_mapping (row_id m) (\<lambda>x. x\<lparr>sm_state := M_REJECTED\<rparr>) db)))"

subsection \<open>Production use and drift\<close>

definition get_production_version :: "uuid \<Rightarrow> tenant_context \<Rightarrow> 'z map_db_scheme \<Rightarrow> exn + mapping_version" where
  "get_production_version mid ctx db =
     rbind (repo_require (db_mappings db) mid ctx) (\<lambda>m.
       case sm_active m of
         None \<Rightarrow> Inl (MappingNotProductionReadyError mid)
       | Some vid \<Rightarrow>
           if sm_state m \<noteq> M_ACTIVE \<or> sm_suspended m then Inl (MappingNotProductionReadyError mid)
           else repo_require (db_versions db) vid ctx)"

definition get_active_by_entity_name :: "string \<Rightarrow> tenant_context \<Rightarrow> 'z map_db_scheme \<Rightarrow> exn + schema_mapping option" where
  "get_active_by_entity_name name ctx db =
     (case filter (\<lambda>m. row_tenant m = Some (tc_tenant ctx) \<and> sm_entity m = name \<and> sm_state m = M_ACTIVE)
         (db_mappings db) of
        [] \<Rightarrow> Inr None | [m] \<Rightarrow> Inr (Some m) | _ \<Rightarrow> Inl MultipleResultsFound)"

fun suspend_each ::
  "uuid \<Rightarrow> string set \<Rightarrow> tenant_context \<Rightarrow> schema_mapping list \<Rightarrow> 'z map_db_scheme \<Rightarrow>
   (exn + schema_mapping list) \<times> 'z map_db_scheme" where
  "suspend_each snap_id affected ctx [] db = (Inr [], db)"
| "suspend_each snap_id affected ctx (m # ms) db =
     (case sm_active m of
        None \<Rightarrow> suspend_each snap_id affected ctx ms db
      | Some vid \<Rightarrow>
          if sm_state m \<noteq> M_ACTIVE then suspend_each snap_id affected ctx ms db
          else attempt (repo_require (db_versions db) vid ctx) db (\<lambda>v.
            (let source = qualified_source (mv_document v)
             in if source \<notin> affected then suspend_each snap_id affected ctx ms db
                else (let upd = (\<lambda>x. x\<lparr>sm_suspended := True\<rparr>);
                          db1 = audit_record ((mapping_event ctx ''mapping.suspend_due_to_drift'' (row_id m)
                                [(''snapshot_id'', JUuid snap_id), (''source_table'', JStr source)])\<lparr>ae_principal := None\<rparr>)
                              (set_mapping (row_id m) upd db)
                      in case suspend_each snap_id affected ctx ms db1 of
                           (res, db2) \<Rightarrow> (map_sum id (\<lambda>l. upd m # l) res, db2)))))"

definition suspend_affected_by_drift ::
  "snapshot \<Rightarrow> tenant_context \<Rightarrow> 'z map_db_scheme \<Rightarrow> (exn + schema_mapping list) \<times> 'z map_db_scheme" where
  "suspend_affected_by_drift snap ctx db =
     (case ss_drift snap of
        None \<Rightarrow> (Inr [], db)
      | Some events \<Rightarrow>
          (let affected = set (map event_table events)
           in if affected = {} then (Inr [], db)
              else suspend_each (row_id snap) affected ctx (list_for_tenant (db_mappings db) ctx) db))"

subsection \<open>The latest version of a mapping\<close>

lemma first_max_None [simp]: "first_max f xs = None \<longleftrightarrow> xs = []"
  by (cases xs) (simp_all split: option.split)

lemma first_max_Some: "first_max f xs = Some x \<Longrightarrow> x \<in> set xs \<and> (\<forall>y \<in> set xs. f y \<le> f x)"
  by (induction xs arbitrary: x) (force split: option.splits if_splits)+

lemma first_max_map: "(\<And>x. f (h x) = f x) \<Longrightarrow> first_max f (map h xs) = map_option h (first_max f xs)"
  by (induction xs) (simp_all split: option.split)

definition own_versions :: "schema_mapping \<Rightarrow> 'z map_db_scheme \<Rightarrow> mapping_version list" where
  "own_versions m db = filter (\<lambda>v. mv_mapping v = row_id m \<and> row_tenant v = row_tenant m) (db_versions db)"

lemma versions_of_own:
  "row_tenant m = Some (tc_tenant ctx) \<Longrightarrow> versions_of (row_id m) ctx db = own_versions m db"
  by (simp add: versions_of_def own_versions_def list_for_tenant_def conj_commute)

lemma latest_version_Inr:
  "row_tenant m = Some (tc_tenant ctx) \<Longrightarrow>
    latest_version_for m ctx db = Inr v \<longleftrightarrow> first_max mv_number (own_versions m db) = Some v"
  by (simp add: latest_version_for_def versions_of_own split: option.split)

lemma row_set_hit:
  assumes "x \<in> set (row_set t i f)" and "row_id x = i" and "\<And>r. row_id (f r) = row_id r"
  shows "\<exists>r \<in> set t. x = f r \<and> row_id r = i"
proof -
  from assms(1) obtain r where r: "r \<in> set t" "x = (if row_id r = i then f r else r)"
    by (auto simp: row_set_def)
  then show ?thesis using assms(2,3) by (cases "row_id r = i") auto
qed

lemma set_mapping_frame [simp]:
  "db_mappings (set_mapping i f db) = row_set (db_mappings db) i f"
  "db_versions (set_mapping i f db) = db_versions db"
  "db_snapshots (set_mapping i f db) = db_snapshots db"
  by (simp_all add: set_mapping_def)

lemma set_version_frame [simp]:
  "db_versions (set_version i g db) = row_set (db_versions db) i g"
  "db_mappings (set_version i g db) = db_mappings db"
  "db_snapshots (set_version i g db) = db_snapshots db"
  by (simp_all add: set_version_def)

lemma audit_record_maps [simp]:
  "db_mappings (audit_record e db) = db_mappings db"
  "db_versions (audit_record e db) = db_versions db"
  "db_snapshots (audit_record e db) = db_snapshots db"
  by (simp_all add: audit_record_def)

subsection \<open>The invariant\<close>

text \<open>
  A mapping past the draft stage has a latest version that suits the ontology entity; past
  approval, that version carries its approver; an active mapping points to it.
\<close>

definition suits_ontology :: "ontology_loader \<Rightarrow> schema_mapping \<Rightarrow> mapping_document \<Rightarrow> bool" where
  "suits_ontology onto m doc \<longleftrightarrow>
     (\<exists>o1 ent. onto (sm_ontology m) = Inr o1 \<and> get_entity o1 (sm_entity m) = Inr ent \<and>
        document_valid doc ent None None None)"

definition mapping_ok :: "ontology_loader \<Rightarrow> 'z map_db_scheme \<Rightarrow> schema_mapping \<Rightarrow> bool" where
  "mapping_ok onto db m \<longleftrightarrow>
     (sm_state m \<in> {M_PENDING_VALIDATION, M_APPROVED, M_ACTIVE} \<longrightarrow>
       (\<exists>v. first_max mv_number (own_versions m db) = Some v \<and> suits_ontology onto m (mv_document v) \<and>
          (sm_state m \<noteq> M_PENDING_VALIDATION \<longrightarrow> mv_approved_by v \<noteq> None) \<and>
          (sm_state m = M_ACTIVE \<longrightarrow> sm_active m = Some (row_id v))))"

definition map_ok :: "ontology_loader \<Rightarrow> 'z map_db_scheme \<Rightarrow> bool" where
  "map_ok onto db \<longleftrightarrow> distinct (map row_id (db_mappings db)) \<and> distinct (map row_id (db_versions db)) \<and>
     (\<forall>m \<in> set (db_mappings db). mapping_ok onto db m)"

lemma mapping_ok_cong: "db_versions db' = db_versions db \<Longrightarrow> mapping_ok onto db' m = mapping_ok onto db m"
  by (simp add: mapping_ok_def own_versions_def)

lemma map_ok_cong:
  assumes "db_mappings db' = db_mappings db" and "db_versions db' = db_versions db"
  shows "map_ok onto db' = map_ok onto db"
  using assms mapping_ok_cong [OF assms(2)] by (simp add: map_ok_def)

lemma map_ok_record [simp]: "map_ok onto (audit_record e db) = map_ok onto db"
  by (rule map_ok_cong) simp_all

lemma map_ok_set_mapping:
  assumes ok: "map_ok onto db" and id: "\<And>m. row_id (f m) = row_id m"
    and f: "\<And>m. m \<in> set (db_mappings db) \<Longrightarrow> row_id m = i \<Longrightarrow> mapping_ok onto db (f m)"
  shows "map_ok onto (set_mapping i f db)"
proof -
  have "map row_id (db_mappings (set_mapping i f db)) = map row_id (db_mappings db)"
    using id by simp
  moreover have "mapping_ok onto (set_mapping i f db) m" if "m \<in> set (row_set (db_mappings db) i f)" for m
    using that ok f mapping_ok_cong [of "set_mapping i f db" db] by (auto simp: map_ok_def row_set_def)
  ultimately show ?thesis using ok by (simp add: map_ok_def)
qed

text \<open>The loaded mapping is the only row with its identifier.\<close>

lemma map_ok_only:
  assumes "map_ok onto db" and "repo_require (db_mappings db) i ctx = Inr m"
  shows "m \<in> set (db_mappings db)" and "row_id m = i" and "row_tenant m = Some (tc_tenant ctx)"
    and "mapping_ok onto db m" and "\<And>x. x \<in> set (db_mappings db) \<Longrightarrow> row_id x = i \<Longrightarrow> x = m"
proof -
  from assms(2) have m: "session_get (db_mappings db) i = Some m" "row_tenant m = Some (tc_tenant ctx)"
    by (simp_all add: repo_require_Inr_iff)
  from m show "m \<in> set (db_mappings db)" "row_id m = i" "row_tenant m = Some (tc_tenant ctx)"
    by (auto dest: session_get_Some)
  with assms(1) show "mapping_ok onto db m" by (simp add: map_ok_def)
  fix x assume "x \<in> set (db_mappings db)" "row_id x = i"
  then show "x = m" using session_get_distinct [of "db_mappings db" x] assms(1) m by (simp add: map_ok_def)
qed

text \<open>Recording an approver keeps the latest versions and all they contain.\<close>

lemma own_versions_set_version:
  assumes "\<And>v. row_tenant (g v) = row_tenant v" and "\<And>v. mv_mapping (g v) = mv_mapping v"
  shows "own_versions m (set_version i g db) = map (\<lambda>v. if row_id v = i then g v else v) (own_versions m db)"
proof -
  have "filter (\<lambda>v. mv_mapping v = row_id m \<and> row_tenant v = row_tenant m) (map (\<lambda>v. if row_id v = i then g v else v) xs) =
      map (\<lambda>v. if row_id v = i then g v else v) (filter (\<lambda>v. mv_mapping v = row_id m \<and> row_tenant v = row_tenant m) xs)" for xs
    using assms by (induction xs) simp_all
  then show ?thesis by (simp add: own_versions_def row_set_def)
qed

lemma latest_after_approval:
  assumes "first_max mv_number (own_versions m db) = Some v"
  shows "\<exists>v'. first_max mv_number (own_versions m (set_version i (\<lambda>x. x\<lparr>mv_approved_by := Some p\<rparr>) db)) = Some v' \<and>
    mv_document v' = mv_document v \<and> row_id v' = row_id v \<and>
    mv_approved_by v' = (if row_id v = i then Some p else mv_approved_by v)"
  using assms by (simp add: own_versions_set_version first_max_map)

lemma mapping_ok_set_approver:
  assumes "mapping_ok onto db m"
  shows "mapping_ok onto (set_version i (\<lambda>x. x\<lparr>mv_approved_by := Some p\<rparr>) db) m"
  unfolding mapping_ok_def
proof
  assume "sm_state m \<in> {M_PENDING_VALIDATION, M_APPROVED, M_ACTIVE}"
  with assms obtain v where v: "first_max mv_number (own_versions m db) = Some v"
      "suits_ontology onto m (mv_document v)" "sm_state m \<noteq> M_PENDING_VALIDATION \<longrightarrow> mv_approved_by v \<noteq> None"
      "sm_state m = M_ACTIVE \<longrightarrow> sm_active m = Some (row_id v)"
    unfolding mapping_ok_def by blast
  from latest_after_approval [OF v(1), of i p] v(2-4)
  show "\<exists>v. first_max mv_number (own_versions m (set_version i (\<lambda>x. x\<lparr>mv_approved_by := Some p\<rparr>) db)) = Some v \<and>
      suits_ontology onto m (mv_document v) \<and> (sm_state m \<noteq> M_PENDING_VALIDATION \<longrightarrow> mv_approved_by v \<noteq> None) \<and>
      (sm_state m = M_ACTIVE \<longrightarrow> sm_active m = Some (row_id v))"
    by (metis option.distinct(1))
qed

lemma map_ok_set_approver:
  assumes "map_ok onto db"
  shows "map_ok onto (set_version i (\<lambda>v. v\<lparr>mv_approved_by := Some p\<rparr>) db)"
proof -
  have "map row_id (db_versions (set_version i (\<lambda>v. v\<lparr>mv_approved_by := Some p\<rparr>) db)) = map row_id (db_versions db)"
    by simp
  with assms show ?thesis by (simp add: map_ok_def mapping_ok_set_approver)
qed


subsection \<open>Every operation keeps the invariant\<close>

lemma add_version_Inr:
  assumes "add_version fresh mid number doc info ctx db = Inr (v, db1)"
  shows "row_id v = fresh \<and> mv_mapping v = mid \<and> mv_document v = doc \<and> mv_number v = number \<and>
    mv_approved_by v = None \<and> row_tenant v = Some (tc_tenant ctx) \<and>
    fresh \<notin> row_id ` set (db_versions db) \<and> db1 = db\<lparr>db_versions := db_versions db @ [v]\<rparr>"
  using assms by (auto simp: add_version_def split: if_splits dest!: repo_add_Inr)

lemma add_version_set_mapping:
  assumes "add_version fresh mid n doc info ctx db = Inr (v, db1)"
  shows "add_version fresh mid n doc info ctx (set_mapping i f db) = Inr (v, set_mapping i f db1)"
proof -
  let ?e = "\<lparr>row_id = fresh, row_tenant = None, mv_mapping = mid, mv_number = n, mv_document = doc,
           mv_ai_suggested = di_ai_suggested info, mv_confidence = di_confidence info,
           mv_explanation = di_explanation info, mv_created_by = Some (tc_principal ctx),
           mv_approved_by = None\<rparr>"
  let ?taken = "list_ex (\<lambda>v. row_tenant v = Some (tc_tenant ctx) \<and> mv_mapping v = mid \<and> mv_number v = n) (db_versions db)"
  have free: "\<not> ?taken" using assms unfolding add_version_def by (simp split: if_splits)
  obtain t where t: "repo_add (db_versions db) ?e ctx = Inr (v, t)" "db1 = db\<lparr>db_versions := t\<rparr>"
    using assms free unfolding add_version_def by auto
  show ?thesis
    using free t unfolding add_version_def by (simp add: set_mapping_def)
qed

lemma map_ok_add_version:
  assumes add: "add_version fresh mid number doc info ctx db = Inr (v, db1)"
    and ids: "distinct (map row_id (db_mappings db))" "distinct (map row_id (db_versions db))"
    and others: "\<And>m. m \<in> set (db_mappings db) \<Longrightarrow> row_id m \<noteq> mid \<Longrightarrow> mapping_ok onto db m"
    and own: "\<And>m. m \<in> set (db_mappings db) \<Longrightarrow> row_id m = mid \<Longrightarrow> sm_state m = M_DRAFT"
  shows "map_ok onto db1"
proof -
  note v = add_version_Inr [OF add]
  then have vs: "db_versions db1 = db_versions db @ [v]" and ms: "db_mappings db1 = db_mappings db" by simp_all
  have "own_versions m db1 = own_versions m db" if "row_id m \<noteq> mid" for m
    using that v by (simp add: own_versions_def vs)
  then have "mapping_ok onto db1 m" if "m \<in> set (db_mappings db)" for m
    using that others [of m] own [of m] by (cases "row_id m = mid") (simp_all add: mapping_ok_def)
  then show ?thesis using ids v by (auto simp: map_ok_def vs ms)
qed

lemma map_ok_create_draft:
  assumes "map_ok onto db"
  shows "map_ok onto (snd (create_draft ctx snap doc ver info fm fv db))"
proof -
  let ?e = "\<lparr>row_id = fm, row_tenant = None, sm_entity = md_entity doc, sm_snapshot = snap,
          sm_ontology = ver, sm_state = M_DRAFT, sm_active = None, sm_suspended = False\<rparr>"
  show ?thesis
  proof (cases "repo_add (db_mappings db) ?e ctx")
    case Inl
    then show ?thesis using assms by (simp add: create_draft_def)
  next
    case (Inr r)
    obtain m ms where r: "r = (m, ms)" by (cases r)
    from Inr r have m: "ms = db_mappings db @ [m]" "row_id m = fm" "fm \<notin> row_id ` set (db_mappings db)"
        "sm_state m = M_DRAFT"
      by (auto dest!: repo_add_Inr)
    let ?db = "db\<lparr>db_mappings := ms\<rparr>"
    have keep: "mapping_ok onto ?db x" if "x \<in> set ms" for x
      using that assms m mapping_ok_cong [of ?db db onto x] by (auto simp: map_ok_def mapping_ok_def)
    have ids: "distinct (map row_id ms)" "distinct (map row_id (db_versions ?db))"
      using assms m by (auto simp: map_ok_def)
    have own: "sm_state x = M_DRAFT" if "x \<in> set (db_mappings ?db)" "row_id x = row_id m" for x
      using that m by auto
    show ?thesis
    proof (cases "add_version fv fm 1 doc info ctx ?db")
      case (Inl e)
      moreover have "map_ok onto ?db" using keep ids by (simp add: map_ok_def)
      ultimately show ?thesis using Inr r m by (simp add: create_draft_def Let_def)
    next
      case (Inr u)
      then obtain v db1 where u: "add_version fv fm 1 doc info ctx ?db = Inr (v, db1)" by (cases u) auto
      have "map_ok onto db1" by (rule map_ok_add_version [OF u]) (use ids keep own m in auto)
      then show ?thesis using \<open>repo_add _ _ _ = Inr r\<close> r m u by (simp add: create_draft_def Let_def)
    qed
  qed
qed

lemma map_ok_draft:
  assumes "map_ok onto db"
  shows "map_ok onto (set_mapping i (\<lambda>x. x\<lparr>sm_state := M_DRAFT\<rparr>) db)"
  by (rule map_ok_set_mapping [OF assms]) (simp_all add: mapping_ok_def)

lemma map_ok_create_new_version:
  assumes ok: "map_ok onto db"
  shows "map_ok onto (snd (create_new_version i ctx doc info fresh db))"
proof (cases "repo_require (db_mappings db) i ctx")
  case (Inr m)
  note m = map_ok_only [OF ok Inr]
  let ?d = "\<lambda>x :: schema_mapping. x\<lparr>sm_state := M_DRAFT\<rparr>"
  let ?n = "next_version_number i ctx db"
  show ?thesis
  proof (cases "add_version fresh i ?n doc info ctx db")
    case (Inl e)
    then show ?thesis using Inr m(2) ok by (simp add: create_new_version_def Let_def)
  next
    case (Inr u)
    then obtain v db1 where u: "add_version fresh i ?n doc info ctx db = Inr (v, db1)" by (cases u) auto
    let ?db = "set_mapping i ?d db"
    have okd: "map_ok onto ?db" by (rule map_ok_draft [OF ok])
    have swap: "add_version fresh i ?n doc info ctx ?db = Inr (v, set_mapping i ?d db1)"
      by (rule add_version_set_mapping [OF u])
    have "map_ok onto (set_mapping i ?d db1)"
    proof (rule map_ok_add_version [OF swap])
      show "distinct (map row_id (db_mappings ?db))" "distinct (map row_id (db_versions ?db))"
        using okd unfolding map_ok_def by blast+
      show "mapping_ok onto ?db x" if "x \<in> set (db_mappings ?db)" for x
        using okd that unfolding map_ok_def by blast
      fix x :: schema_mapping
      assume x: "x \<in> set (db_mappings ?db)" "row_id x = i"
      then have "x \<in> set (row_set (db_mappings db) i ?d)" by (simp only: set_mapping_frame)
      from row_set_hit [OF this x(2)] obtain r where "x = ?d r" by auto
      then show "sm_state x = M_DRAFT" by simp
    qed
    with u m(2) \<open>repo_require _ _ _ = Inr m\<close> show ?thesis by (simp add: create_new_version_def Let_def)
  qed
qed (use ok in \<open>simp add: create_new_version_def\<close>)


lemma submit_check_Inr:
  assumes "submit_check iter onto snap m doc = Inr ()"
  shows "\<exists>o1 ent available. onto (sm_ontology m) = Inr o1 \<and> get_entity o1 (sm_entity m) = Inr ent \<and>
    validate_mapping_document iter doc ent available None None = Inr ()"
proof -
  from assms obtain o1 ent where "onto (sm_ontology m) = Inr o1" "get_entity o1 (sm_entity m) = Inr ent"
    unfolding submit_check_def rbind_Inr_iff by blast
  with assms show ?thesis
    unfolding submit_check_def by (simp only: rbind_simps rbind_Inr_iff Let_def) blast
qed

lemma submit_check_suits:
  assumes "\<And>s. finite s \<Longrightarrow> set (iter s) = s" and "submit_check iter onto snap m doc = Inr ()"
  shows "suits_ontology onto m doc"
  using submit_check_Inr [OF assms(2)] validate_mapping_document_iff [of iter, OF assms(1)] document_valid_weaken
  unfolding suits_ontology_def by blast

lemma map_ok_submit:
  assumes iter: "\<And>s. finite s \<Longrightarrow> set (iter s) = s" and ok: "map_ok onto db"
  shows "map_ok onto (snd (submit_for_validation iter onto i ctx db))"
proof (cases "submit_for_validation iter onto i ctx db")
  case (Pair r db')
  show ?thesis
  proof (cases r)
    case Inl
    then have "db' = db" using Pair
      by (auto simp: submit_for_validation_def attempt_Inl_iff split: if_splits)
    then show ?thesis using Pair ok by simp
  next
    case (Inr x)
    with Pair obtain m v snap where m: "repo_require (db_mappings db) i ctx = Inr m"
        "latest_version_for m ctx db = Inr v" "submit_check iter onto snap m (mv_document v) = Inr ()"
      and db': "db' = audit_record (mapping_event ctx ''mapping.submit_for_validation'' (row_id m) [])
                 (set_mapping (row_id m) (\<lambda>x. x\<lparr>sm_state := M_PENDING_VALIDATION\<rparr>) db)"
      by (auto simp: submit_for_validation_def split: if_splits)
    note only = map_ok_only [OF ok m(1)]
    have v: "first_max mv_number (own_versions m db) = Some v"
      using m(2) latest_version_Inr [OF only(3)] by blast
    have "mapping_ok onto db (m\<lparr>sm_state := M_PENDING_VALIDATION\<rparr>)"
      using v submit_check_suits [OF iter m(3)]
      by (simp add: mapping_ok_def own_versions_def suits_ontology_def)
    then have "map_ok onto (set_mapping i (\<lambda>x. x\<lparr>sm_state := M_PENDING_VALIDATION\<rparr>) db)"
      using only(5) by (intro map_ok_set_mapping [OF ok]) auto
    then show ?thesis using Pair db' only(2) by simp
  qed
qed

lemma map_ok_approve:
  assumes ok: "map_ok onto db"
  shows "map_ok onto (snd (approve i ctx db))"
proof (cases "approve i ctx db")
  case (Pair r db')
  show ?thesis
  proof (cases r)
    case Inl
    then have "db' = db" using Pair by (auto simp: approve_def attempt_Inl_iff split: if_splits)
    then show ?thesis using Pair ok by simp
  next
    case (Inr x)
    with Pair obtain m v where m: "repo_require (db_mappings db) i ctx = Inr m"
        "latest_version_for m ctx db = Inr v" "sm_state m = M_PENDING_VALIDATION"
      and db': "db' = audit_record (mapping_event ctx ''mapping.approve'' (row_id m) [])
            (set_mapping (row_id m) (\<lambda>x. x\<lparr>sm_state := M_APPROVED\<rparr>)
              (set_version (row_id v) (\<lambda>x. x\<lparr>mv_approved_by := Some (tc_principal ctx)\<rparr>) db))"
      by (auto simp: approve_def split: if_splits)
    let ?db = "set_version (row_id v) (\<lambda>x. x\<lparr>mv_approved_by := Some (tc_principal ctx)\<rparr>) db"
    note only = map_ok_only [OF ok m(1)]
    have v: "first_max mv_number (own_versions m db) = Some v"
      using m(2) latest_version_Inr [OF only(3)] by blast
    moreover have "suits_ontology onto m (mv_document v)" using only(4) v m(3) by (simp add: mapping_ok_def)
    ultimately have "mapping_ok onto ?db (m\<lparr>sm_state := M_APPROVED\<rparr>)"
      using latest_after_approval [OF v, of "row_id v" "tc_principal ctx"]
      by (auto simp: mapping_ok_def own_versions_def suits_ontology_def)
    then have "map_ok onto (set_mapping i (\<lambda>x. x\<lparr>sm_state := M_APPROVED\<rparr>) ?db)"
      using only(5) by (intro map_ok_set_mapping map_ok_set_approver ok) auto
    then show ?thesis using Pair db' only(2) by simp
  qed
qed

lemma map_ok_activate:
  assumes ok: "map_ok onto db"
  shows "map_ok onto (snd (activate i ctx db))"
proof (cases "activate i ctx db")
  case (Pair r db')
  show ?thesis
  proof (cases r)
    case Inl
    then have "db' = db" using Pair by (auto simp: activate_def Let_def attempt_Inl_iff split: if_splits)
    then show ?thesis using Pair ok by simp
  next
    case (Inr x)
    let ?f = "\<lambda>v x. x\<lparr>sm_active := Some (row_id v), sm_state := M_ACTIVE, sm_suspended := False\<rparr>"
    from Inr Pair obtain m v where m: "repo_require (db_mappings db) i ctx = Inr m"
        "latest_version_for m ctx db = Inr v" "sm_state m = M_APPROVED"
      and db': "db' = audit_record (mapping_event ctx ''mapping.activate'' (row_id m) [(''active_version_id'', JUuid (row_id v))])
                (set_mapping (row_id m) (?f v) db)"
      by (auto simp: activate_def Let_def split: if_splits)
    note only = map_ok_only [OF ok m(1)]
    have v: "first_max mv_number (own_versions m db) = Some v"
      using m(2) latest_version_Inr [OF only(3)] by blast
    with only(4) m(3) have "mapping_ok onto db (?f v m)"
      by (auto simp: mapping_ok_def own_versions_def suits_ontology_def)
    then have "map_ok onto (set_mapping i (?f v) db)"
      using only(5) by (intro map_ok_set_mapping [OF ok]) auto
    then show ?thesis using Pair db' only(2) by simp
  qed
qed

lemma map_ok_deprecate: "map_ok onto db \<Longrightarrow> map_ok onto (snd (deprecate i ctx db))"
  by (cases "repo_require (db_mappings db) i ctx")
    (auto simp: deprecate_def mapping_ok_def intro!: map_ok_set_mapping)

lemma map_ok_reject: "map_ok onto db \<Longrightarrow> map_ok onto (snd (reject i ctx db))"
  by (cases "repo_require (db_mappings db) i ctx")
    (auto simp: reject_def mapping_ok_def intro!: map_ok_set_mapping)


lemma map_ok_suspend_each: "map_ok onto db \<Longrightarrow> map_ok onto (snd (suspend_each sid affected ctx ms db))"
proof (induction ms arbitrary: db)
  case (Cons m ms)
  let ?upd = "\<lambda>x :: schema_mapping. x\<lparr>sm_suspended := True\<rparr>"
  have "map_ok onto (set_mapping (row_id m) ?upd db)"
    using Cons.prems
    by (intro map_ok_set_mapping) (auto simp: map_ok_def mapping_ok_def own_versions_def suits_ontology_def)
  then show ?case
    using Cons by (simp add: attempt_def Let_def case_prod_beta split: option.split sum.split)
qed simp

lemma map_ok_suspend: "map_ok onto db \<Longrightarrow> map_ok onto (snd (suspend_affected_by_drift snap ctx db))"
  by (simp add: suspend_affected_by_drift_def Let_def map_ok_suspend_each split: option.split)

text \<open>The discovery operations leave mappings and versions alone.\<close>

lemma set_snapshot_maps [simp]:
  "db_mappings (set_snapshot i f db) = db_mappings db"
  "db_versions (set_snapshot i f db) = db_versions db"
  by (simp_all add: set_snapshot_def)

lemma start_discovery_maps [simp]:
  "db_mappings (snd (start_discovery cid ctx fresh db)) = db_mappings db"
  "db_versions (snd (start_discovery cid ctx fresh db)) = db_versions db"
  by (auto simp: start_discovery_def add_snapshot_def rbind_def attempt_def split: sum.split prod.split)

lemma get_or_create_engine_maps [simp]:
  "db_mappings (snd (get_or_create_engine i ctx db)) = db_mappings db"
  "db_versions (snd (get_or_create_engine i ctx db)) = db_versions db"
  by (simp_all add: get_or_create_engine_def attempt_def split: sum.split prod.split)

lemma discovery_body_maps:
  "db_mappings (snd (discovery_body env snap ctx prof db)) = db_mappings db \<and>
   db_versions (snd (discovery_body env snap ctx prof db)) = db_versions db"
proof (cases "get_or_create_engine (ss_connection snap) ctx db")
  case (Pair r db')
  then have "db_mappings db' = db_mappings db" "db_versions db' = db_versions db"
    using get_or_create_engine_maps [of "ss_connection snap" ctx db] by simp_all
  then show ?thesis
    by (simp add: discovery_body_def Pair attempt_def Let_def case_prod_beta split: sum.split prod.split option.split)
qed

lemma run_discovery_maps:
  "db_mappings (snd (run_discovery env i ctx prof db)) = db_mappings db \<and>
   db_versions (snd (run_discovery env i ctx prof db)) = db_versions db"
proof -
  have "db_mappings db2 = db_mappings db \<and> db_versions db2 = db_versions db"
    if "discovery_body env snap ctx prof (set_snapshot i f db) = (r, db2)" for snap f r db2
    using discovery_body_maps [of env snap ctx prof "set_snapshot i f db"] that by simp
  then show ?thesis
    by (auto simp: run_discovery_def attempt_def Let_def split: sum.split prod.split)
qed

lemma run_discovery_job_maps [simp]:
  "db_mappings (run_discovery_job env i ctx prof db) = db_mappings db"
  "db_versions (run_discovery_job env i ctx prof db) = db_versions db"
  using run_discovery_maps [of env i ctx prof db]
  by (auto simp: run_discovery_job_def split: prod.split sum.split)

lemma acknowledge_drift_maps [simp]:
  "db_mappings (snd (acknowledge_drift i ctx now db)) = db_mappings db"
  "db_versions (snd (acknowledge_drift i ctx now db)) = db_versions db"
  by (simp_all add: acknowledge_drift_def attempt_def Let_def split: sum.split)

subsection \<open>Runs of the lifecycle\<close>

text \<open>
  The steps of any tenants in any order, those of schema discovery among them. A step that
  raises leaves the state its operation had reached.
\<close>

inductive mapping_step ::
  "(string set \<Rightarrow> string list) \<Rightarrow> ontology_loader \<Rightarrow> 'z map_db_scheme \<Rightarrow> 'z map_db_scheme \<Rightarrow> bool" for iter onto where
  ms_create: "mapping_step iter onto db (snd (create_draft ctx snap doc ver info fm fv db))"
| ms_version: "mapping_step iter onto db (snd (create_new_version i ctx doc info fresh db))"
| ms_submit: "mapping_step iter onto db (snd (submit_for_validation iter onto i ctx db))"
| ms_approve: "mapping_step iter onto db (snd (approve i ctx db))"
| ms_activate: "mapping_step iter onto db (snd (activate i ctx db))"
| ms_deprecate: "mapping_step iter onto db (snd (deprecate i ctx db))"
| ms_reject: "mapping_step iter onto db (snd (reject i ctx db))"
| ms_suspend: "mapping_step iter onto db (snd (suspend_affected_by_drift s ctx db))"
| ms_start: "mapping_step iter onto db (snd (start_discovery cid ctx fresh db))"
| ms_discover: "mapping_step iter onto db (run_discovery_job env i ctx prof db)"
| ms_acknowledge: "mapping_step iter onto db (snd (acknowledge_drift i ctx now db))"

lemma map_ok_step:
  assumes iter: "\<And>s. finite s \<Longrightarrow> set (iter s) = s" and step: "mapping_step iter onto db db'" and ok: "map_ok onto db"
  shows "map_ok onto db'"
  using step
proof cases
  case ms_submit
  then show ?thesis using map_ok_submit [OF iter ok] by blast
next
  case ms_start
  then show ?thesis using ok map_ok_cong [of db' db onto] by simp
next
  case ms_discover
  then show ?thesis using ok map_ok_cong [of db' db onto] by simp
next
  case ms_acknowledge
  then show ?thesis using ok map_ok_cong [of db' db onto] by simp
qed (use ok in \<open>simp_all add: map_ok_create_draft map_ok_create_new_version map_ok_approve map_ok_activate
       map_ok_deprecate map_ok_reject map_ok_suspend\<close>)

lemma map_ok_steps:
  assumes "\<And>s. finite s \<Longrightarrow> set (iter s) = s" and "(mapping_step iter onto)\<^sup>*\<^sup>* db db'" and "map_ok onto db"
  shows "map_ok onto db'"
  using assms(2,3) by (induction rule: rtranclp_induct) (auto intro: map_ok_step [OF assms(1)])


subsection \<open>What a step may change\<close>

definition lifecycle :: "(mapping_state \<times> mapping_state) set" where
  "lifecycle = {(M_DRAFT, M_PENDING_VALIDATION), (M_PENDING_VALIDATION, M_APPROVED), (M_APPROVED, M_ACTIVE),
     (M_ACTIVE, M_DEPRECATED), (M_DRAFT, M_REJECTED), (M_PENDING_VALIDATION, M_REJECTED)}"

definition mapping_kept :: "schema_mapping \<Rightarrow> schema_mapping \<Rightarrow> bool" where
  "mapping_kept m m' \<longleftrightarrow> row_id m' = row_id m \<and> row_tenant m' = row_tenant m \<and> sm_entity m' = sm_entity m \<and>
     (sm_state m' = sm_state m \<or> sm_state m' = M_DRAFT \<or> (sm_state m, sm_state m') \<in> lifecycle) \<and>
     (sm_active m' = sm_active m \<or> sm_state m = M_APPROVED \<and> sm_state m' = M_ACTIVE)"

definition version_kept :: "mapping_version \<Rightarrow> mapping_version \<Rightarrow> bool" where
  "version_kept v v' \<longleftrightarrow> (\<exists>a. v' = v\<lparr>mv_approved_by := a\<rparr>)"

definition history_kept :: "'z map_db_scheme \<Rightarrow> 'z map_db_scheme \<Rightarrow> bool" where
  "history_kept db db' \<longleftrightarrow>
     (\<forall>m \<in> set (db_mappings db). \<exists>m' \<in> set (db_mappings db'). mapping_kept m m') \<and>
     (\<forall>v \<in> set (db_versions db). \<exists>v' \<in> set (db_versions db'). version_kept v v')"

lemma mapping_kept_refl [simp]: "mapping_kept m m"
  by (simp add: mapping_kept_def)

lemma version_kept_refl [simp]: "version_kept v v"
  by (auto simp: version_kept_def intro: exI [of _ "mv_approved_by v"])

lemma version_kept_approved [simp]: "version_kept v (v\<lparr>mv_approved_by := a\<rparr>)"
  by (auto simp: version_kept_def)

lemma history_kept_superset:
  "set (db_mappings db) \<subseteq> set (db_mappings db') \<Longrightarrow> set (db_versions db) \<subseteq> set (db_versions db') \<Longrightarrow>
    history_kept db db'"
  unfolding history_kept_def using mapping_kept_refl version_kept_refl by blast

lemma history_kept_refl [simp]: "history_kept db db"
  by (simp add: history_kept_superset)

lemma row_set_mem:
  assumes "r \<in> set t"
  shows "(if row_id r = i then f r else r) \<in> set (row_set t i f)"
  using assms by (auto simp: row_set_def)

lemma history_kept_set_mapping:
  assumes "\<And>m. m \<in> set (db_mappings db) \<Longrightarrow> row_id m = i \<Longrightarrow> mapping_kept m (f m)"
    and "db_mappings db1 = db_mappings db"
    and "\<And>v. v \<in> set (db_versions db) \<Longrightarrow> \<exists>v' \<in> set (db_versions db1). version_kept v v'"
  shows "history_kept db (set_mapping i f db1)"
proof -
  have "\<exists>m' \<in> set (row_set (db_mappings db) i f). mapping_kept m m'" if "m \<in> set (db_mappings db)" for m
  proof (rule bexI)
    show "(if row_id m = i then f m else m) \<in> set (row_set (db_mappings db) i f)"
      using that by (rule row_set_mem)
    show "mapping_kept m (if row_id m = i then f m else m)" using assms(1) [OF that] by simp
  qed
  with assms show ?thesis by (simp add: history_kept_def)
qed

lemma history_kept_record [simp]: "history_kept db (audit_record e db') = history_kept db db'"
  by (simp add: history_kept_def)

lemma history_create_draft: "history_kept db (snd (create_draft ctx snap doc ver info fm fv db))"
proof -
  have add: "set (db_versions db2) \<supseteq> set (db_versions db1) \<and> db_mappings db2 = db_mappings db1"
    if "add_version fv mid 1 doc info ctx db1 = Inr (v, db2)" for mid v and db1 db2 :: "'a map_db_scheme"
    using add_version_Inr [OF that] by auto
  show ?thesis
  proof (rule history_kept_superset)
    show "set (db_mappings db) \<subseteq> set (db_mappings (snd (create_draft ctx snap doc ver info fm fv db)))"
      using add by (auto simp: create_draft_def attempt_def Let_def split: sum.split prod.split dest!: repo_add_Inr)
    show "set (db_versions db) \<subseteq> set (db_versions (snd (create_draft ctx snap doc ver info fm fv db)))"
      using add by (force simp: create_draft_def attempt_def Let_def split: sum.split prod.split dest!: repo_add_Inr)
  qed
qed

lemma history_create_new_version: "history_kept db (snd (create_new_version i ctx doc info fresh db))"
proof (cases "repo_require (db_mappings db) i ctx")
  case (Inr m)
  let ?n = "next_version_number (row_id m) ctx db"
  show ?thesis
  proof (cases "add_version fresh (row_id m) ?n doc info ctx db")
    case (Inr u)
    then obtain v db1 where u: "add_version fresh (row_id m) ?n doc info ctx db = Inr (v, db1)" by (cases u) auto
    have "history_kept db (set_mapping (row_id m) (\<lambda>x. x\<lparr>sm_state := M_DRAFT\<rparr>) db1)"
    proof (rule history_kept_set_mapping)
      show "\<exists>v' \<in> set (db_versions db1). version_kept v v'" if "v \<in> set (db_versions db)" for v
        using add_version_Inr [OF u] that by (intro bexI [of _ v]) simp_all
    qed (use add_version_Inr [OF u] in \<open>simp_all add: mapping_kept_def\<close>)
    with u \<open>repo_require _ _ _ = Inr m\<close> show ?thesis by (simp add: create_new_version_def Let_def)
  qed (use Inr in \<open>simp add: create_new_version_def Let_def\<close>)
qed (simp add: create_new_version_def)

text \<open>The transitions assign to the loaded row after checking its state.\<close>

lemma history_transition:
  assumes ok: "map_ok onto db" and m: "repo_require (db_mappings db) i ctx = Inr m" and "mapping_kept m (f m)"
  shows "history_kept db (set_mapping (row_id m) f db)"
proof (rule history_kept_set_mapping)
  show "mapping_kept x (f x)" if "x \<in> set (db_mappings db)" "row_id x = row_id m" for x
    using map_ok_only(2,5) [OF ok m] that assms(3) by simp
  show "\<exists>v' \<in> set (db_versions db). version_kept v v'" if "v \<in> set (db_versions db)" for v
    using that by (intro bexI [of _ v]) simp_all
qed simp


lemma history_submit:
  assumes "map_ok onto' db"
  shows "history_kept db (snd (submit_for_validation iter onto i ctx db))"
proof (cases "repo_require (db_mappings db) i ctx")
  case (Inr m)
  have "history_kept db (set_mapping (row_id m) (\<lambda>x. x\<lparr>sm_state := M_PENDING_VALIDATION\<rparr>) db)" if "sm_state m = M_DRAFT"
    by (rule history_transition [OF assms Inr]) (simp add: mapping_kept_def lifecycle_def that)
  with Inr show ?thesis by (simp add: submit_for_validation_def attempt_def split: sum.split)
qed (simp add: submit_for_validation_def)

lemma history_approve:
  assumes ok: "map_ok onto db"
  shows "history_kept db (snd (approve i ctx db))"
proof (cases "repo_require (db_mappings db) i ctx")
  case (Inr m)
  have "history_kept db (set_mapping (row_id m) (\<lambda>x. x\<lparr>sm_state := M_APPROVED\<rparr>)
      (set_version j (\<lambda>x. x\<lparr>mv_approved_by := Some p\<rparr>) db))" if st: "sm_state m = M_PENDING_VALIDATION" for j p
  proof (rule history_kept_set_mapping)
    show "mapping_kept x (x\<lparr>sm_state := M_APPROVED\<rparr>)" if "x \<in> set (db_mappings db)" "row_id x = row_id m" for x
      using map_ok_only(2,5) [OF ok Inr] that st by (simp add: mapping_kept_def lifecycle_def)
    let ?g = "\<lambda>x. x\<lparr>mv_approved_by := Some p\<rparr>"
    show "\<exists>v' \<in> set (db_versions (set_version j ?g db)). version_kept v v'" if "v \<in> set (db_versions db)" for v
    proof (rule bexI)
      show "(if row_id v = j then ?g v else v) \<in> set (db_versions (set_version j ?g db))"
        using row_set_mem [OF that, of j ?g] by simp
      show "version_kept v (if row_id v = j then ?g v else v)" by simp
    qed
  qed simp
  with Inr show ?thesis by (simp add: approve_def attempt_def split: sum.split)
qed (simp add: approve_def)

lemma history_activate:
  assumes "map_ok onto db"
  shows "history_kept db (snd (activate i ctx db))"
proof (cases "repo_require (db_mappings db) i ctx")
  case (Inr m)
  have "history_kept db (set_mapping (row_id m) (\<lambda>x. x\<lparr>sm_active := Some a, sm_state := M_ACTIVE, sm_suspended := False\<rparr>) db)"
    if "sm_state m = M_APPROVED" for a
    by (rule history_transition [OF assms Inr]) (simp add: mapping_kept_def lifecycle_def that)
  with Inr show ?thesis by (simp add: activate_def attempt_def Let_def split: sum.split)
qed (simp add: activate_def)

lemma history_deprecate:
  assumes "map_ok onto db"
  shows "history_kept db (snd (deprecate i ctx db))"
proof (cases "repo_require (db_mappings db) i ctx")
  case (Inr m)
  have "history_kept db (set_mapping (row_id m) (\<lambda>x. x\<lparr>sm_state := M_DEPRECATED\<rparr>) db)" if "sm_state m = M_ACTIVE"
    by (rule history_transition [OF assms Inr]) (simp add: mapping_kept_def lifecycle_def that)
  with Inr show ?thesis by (simp add: deprecate_def)
qed (simp add: deprecate_def)

lemma history_reject:
  assumes "map_ok onto db"
  shows "history_kept db (snd (reject i ctx db))"
proof (cases "repo_require (db_mappings db) i ctx")
  case (Inr m)
  have "history_kept db (set_mapping (row_id m) (\<lambda>x. x\<lparr>sm_state := M_REJECTED\<rparr>) db)"
    if "sm_state m \<in> {M_DRAFT, M_PENDING_VALIDATION}"
    by (rule history_transition [OF assms Inr]) (use that in \<open>auto simp: mapping_kept_def lifecycle_def\<close>)
  with Inr show ?thesis by (simp add: reject_def)
qed (simp add: reject_def)

lemma mapping_kept_suspend:
  "mapping_kept m0 x \<Longrightarrow> mapping_kept m0 (x\<lparr>sm_suspended := b\<rparr>)"
  by (simp add: mapping_kept_def)

lemma history_set_suspended:
  assumes "history_kept db0 db"
  shows "history_kept db0 (set_mapping i (\<lambda>x. x\<lparr>sm_suspended := True\<rparr>) db)"
proof -
  let ?f = "\<lambda>x :: schema_mapping. x\<lparr>sm_suspended := True\<rparr>"
  have "\<exists>m' \<in> set (row_set (db_mappings db) i ?f). mapping_kept m m'" if "m \<in> set (db_mappings db0)" for m
  proof -
    from assms that obtain x where x: "x \<in> set (db_mappings db)" "mapping_kept m x" unfolding history_kept_def by blast
    show ?thesis
    proof (rule bexI)
      show "(if row_id x = i then ?f x else x) \<in> set (row_set (db_mappings db) i ?f)" using x(1) by (rule row_set_mem)
      show "mapping_kept m (if row_id x = i then ?f x else x)" using x(2) mapping_kept_suspend by simp
    qed
  qed
  with assms show ?thesis by (simp add: history_kept_def)
qed

lemma history_suspend_each:
  "history_kept db0 db \<Longrightarrow> history_kept db0 (snd (suspend_each sid affected ctx ms db))"
proof (induction ms arbitrary: db)
  case (Cons m ms)
  then show ?case
    by (simp add: attempt_def Let_def case_prod_beta history_set_suspended split: option.split sum.split)
qed simp

lemma history_step:
  assumes step: "mapping_step iter onto db db'" and ok: "map_ok onto db"
  shows "history_kept db db'"
  using step
proof cases
  case ms_suspend
  then show ?thesis by (auto simp: suspend_affected_by_drift_def Let_def history_suspend_each split: option.split)
next
  case ms_start
  then show ?thesis by (simp add: history_kept_superset)
next
  case ms_discover
  then show ?thesis by (simp add: history_kept_superset)
next
  case ms_acknowledge
  then show ?thesis by (simp add: history_kept_superset)
qed (use ok in \<open>simp_all add: history_create_draft history_create_new_version history_submit history_approve
       history_activate history_deprecate history_reject\<close>)

lemma versions_kept_steps:
  assumes iter: "\<And>s. finite s \<Longrightarrow> set (iter s) = s" and "(mapping_step iter onto)\<^sup>*\<^sup>* db db'" and "map_ok onto db"
    and "v \<in> set (db_versions db)"
  shows "\<exists>v' \<in> set (db_versions db'). version_kept v v'"
  using assms(2)
proof (induction rule: rtranclp_induct)
  case base
  then show ?case using assms(4) version_kept_refl by blast
next
  case (step db1 db2)
  then obtain w where w: "w \<in> set (db_versions db1)" "version_kept v w" by blast
  have "map_ok onto db1" by (rule map_ok_steps [OF iter step.hyps(1) assms(3)])
  from history_step [OF step.hyps(2) this] w(1) obtain u where "u \<in> set (db_versions db2)" "version_kept w u"
    unfolding history_kept_def by blast
  with w(2) show ?case by (auto simp: version_kept_def)
qed


subsection \<open>Properties of the lifecycle\<close>

lemma map_ok_start: "db_mappings db = [] \<Longrightarrow> db_versions db = [] \<Longrightarrow> map_ok onto db"
  by (simp add: map_ok_def)

lemma get_production_version_Inr:
  assumes "get_production_version mid ctx db = Inr v"
  shows "\<exists>m vid. repo_require (db_mappings db) mid ctx = Inr m \<and> sm_active m = Some vid \<and>
    sm_state m = M_ACTIVE \<and> \<not> sm_suspended m \<and> repo_require (db_versions db) vid ctx = Inr v"
  using assms
  by (cases "repo_require (db_mappings db) mid ctx")
    (auto simp: get_production_version_def split: option.splits if_splits)

text \<open>
  C4: what production reads was validated and approved. From a database without mappings, after any run of mapping and discovery
  operations by any tenants, the version handed out for production is the latest version of a
  mapping of the caller's tenant that is active and not suspended; it has an approver, and its
  document is valid for the ontology entity of the mapping.
\<close>

theorem production_version_is_vetted:
  assumes "\<And>s. finite s \<Longrightarrow> set (iter s) = s"
    and "db_mappings db0 = []" and "db_versions db0 = []" and "(mapping_step iter onto)\<^sup>*\<^sup>* db0 db"
    and "get_production_version mid ctx db = Inr v"
  shows "\<exists>m \<in> set (db_mappings db). row_id m = mid \<and> row_tenant m = Some (tc_tenant ctx) \<and>
    sm_state m = M_ACTIVE \<and> \<not> sm_suspended m \<and>
    latest_version_for m ctx db = Inr v \<and> mv_mapping v = mid \<and> mv_approved_by v \<noteq> None \<and>
    suits_ontology onto m (mv_document v)"
proof -
  have ok: "map_ok onto db" by (rule map_ok_steps [OF assms(1,4) map_ok_start [OF assms(2,3)]])
  from get_production_version_Inr [OF assms(5)] obtain m vid
    where m: "repo_require (db_mappings db) mid ctx = Inr m" "sm_active m = Some vid"
      "sm_state m = M_ACTIVE" "\<not> sm_suspended m" and v: "repo_require (db_versions db) vid ctx = Inr v"
    by blast
  note only = map_ok_only [OF ok m(1)]
  from only(4) m(2,3) obtain w where w: "first_max mv_number (own_versions m db) = Some w" "row_id w = vid"
      "mv_approved_by w \<noteq> None" "suits_ontology onto m (mv_document w)"
    by (auto simp: mapping_ok_def)
  have "w \<in> set (db_versions db)" and wm: "mv_mapping w = mid"
    using first_max_Some [OF w(1)] only(2) by (auto simp: own_versions_def)
  then have "w = v"
    using session_get_distinct [of "db_versions db" w] ok v w(2) by (simp add: map_ok_def repo_require_Inr_iff)
  moreover have "latest_version_for m ctx db = Inr w" using w(1) latest_version_Inr [OF only(3)] by blast
  ultimately show ?thesis using only(1-3) m(3,4) w(3,4) wm by blast
qed

text \<open>
  C22: versions are immutable. No run of the operations deletes a version of a mapping or changes
  its document, number, owner or author; only its approver is ever filled in.
\<close>

theorem mapping_versions_are_immutable:
  assumes "\<And>s. finite s \<Longrightarrow> set (iter s) = s"
    and "db_mappings db0 = []" and "db_versions db0 = []" and "(mapping_step iter onto)\<^sup>*\<^sup>* db0 db" and "(mapping_step iter onto)\<^sup>*\<^sup>* db db'"
    and "v \<in> set (db_versions db)"
  shows "\<exists>v' \<in> set (db_versions db'). \<exists>a. v' = v\<lparr>mv_approved_by := a\<rparr>"
proof -
  have "map_ok onto db" by (rule map_ok_steps [OF assms(1,4) map_ok_start [OF assms(2,3)]])
  from versions_kept_steps [OF assms(1,5) this assms(6)] show ?thesis by (simp add: version_kept_def)
qed

text \<open>
  C12: a mapping moves along its lifecycle only. Any single step keeps every mapping, its tenant
  and its entity; its state stays, falls back to draft, or follows one edge of draft, pending,
  approved, active, deprecated, with rejection from the first two; and the active version changes
  on activation only.
\<close>

theorem mapping_lifecycle_edges:
  assumes "\<And>s. finite s \<Longrightarrow> set (iter s) = s"
    and "db_mappings db0 = []" and "db_versions db0 = []" and "(mapping_step iter onto)\<^sup>*\<^sup>* db0 db" and "mapping_step iter onto db db'"
    and "m \<in> set (db_mappings db)"
  shows "\<exists>m' \<in> set (db_mappings db'). row_id m' = row_id m \<and> row_tenant m' = row_tenant m \<and> sm_entity m' = sm_entity m \<and>
    (sm_state m' = sm_state m \<or> sm_state m' = M_DRAFT \<or> (sm_state m, sm_state m') \<in> lifecycle) \<and>
    (sm_active m' = sm_active m \<or> sm_state m = M_APPROVED \<and> sm_state m' = M_ACTIVE)"
proof -
  have "map_ok onto db" by (rule map_ok_steps [OF assms(1,4) map_ok_start [OF assms(2,3)]])
  from history_step [OF assms(5) this] assms(6) show ?thesis
    unfolding history_kept_def mapping_kept_def by blast
qed

text \<open>
  A new version takes its mapping out of production until it is approved and activated
  itself, although an older version stays recorded as the active one.
\<close>

theorem new_version_stops_production:
  assumes "create_new_version mid ctx doc info fresh db = (Inr v, db')"
  shows "get_production_version mid ctx db' = Inl (MappingNotProductionReadyError mid)"
proof -
  from assms obtain m db1 where m: "repo_require (db_mappings db) mid ctx = Inr m"
      and add: "add_version fresh (row_id m) (next_version_number (row_id m) ctx db) doc info ctx db = Inr (v, db1)"
      and db': "db_mappings db' = row_set (db_mappings db1) (row_id m) (\<lambda>x. x\<lparr>sm_state := M_DRAFT\<rparr>)"
    by (auto simp: create_new_version_def Let_def)
  from m have get: "session_get (db_mappings db) mid = Some m" "row_id m = mid" "row_tenant m = Some (tc_tenant ctx)"
    by (auto simp: repo_require_Inr_iff dest: session_get_Some)
  moreover have "db_mappings db1 = db_mappings db" using add_version_Inr [OF add] by simp
  ultimately have "session_get (db_mappings db') mid = Some (m\<lparr>sm_state := M_DRAFT\<rparr>)"
    using db' by (simp add: session_get_row_set)
  then have "repo_require (db_mappings db') mid ctx = Inr (m\<lparr>sm_state := M_DRAFT\<rparr>)"
    using get(3) by (simp add: repo_require_Inr_iff)
  then show ?thesis by (simp add: get_production_version_def split: option.split)
qed

definition drift_hits :: "drift_event list \<Rightarrow> tenant_context \<Rightarrow> 'z map_db_scheme \<Rightarrow> schema_mapping \<Rightarrow> bool" where
  "drift_hits events ctx db m \<longleftrightarrow> row_tenant m = Some (tc_tenant ctx) \<and> sm_state m = M_ACTIVE \<and>
     (case sm_active m of None \<Rightarrow> False | Some vid \<Rightarrow>
        (case repo_require (db_versions db) vid ctx of Inl _ \<Rightarrow> False
         | Inr v \<Rightarrow> qualified_source (mv_document v) \<in> set (map event_table events)))"

lemma drift_hits_cong:
  "db_versions db' = db_versions db \<Longrightarrow> drift_hits events ctx db' = drift_hits events ctx db"
  by (simp add: drift_hits_def fun_eq_iff split: option.split sum.split)

lemma suspend_each_hit:
  assumes "drift_hits events ctx db m"
  shows "\<exists>e. suspend_each sid (set (map event_table events)) ctx (m # ms) db =
    (case suspend_each sid (set (map event_table events)) ctx ms
        (audit_record e (set_mapping (row_id m) (\<lambda>x. x\<lparr>sm_suspended := True\<rparr>) db)) of
       (res, db2) \<Rightarrow> (map_sum id ((#) (m\<lparr>sm_suspended := True\<rparr>)) res, db2))"
proof -
  from assms obtain vid v where "sm_active m = Some vid" "sm_state m = M_ACTIVE"
      "repo_require (db_versions db) vid ctx = Inr v" "qualified_source (mv_document v) \<in> set (map event_table events)"
    by (auto simp: drift_hits_def split: option.splits sum.splits)
  then show ?thesis by (auto simp: Let_def)
qed

lemma suspend_each_exact:
  assumes "\<And>m. m \<in> set ms \<Longrightarrow> row_tenant m = Some (tc_tenant ctx)"
    and "suspend_each sid (set (map event_table events)) ctx ms db = (Inr out, db')"
  shows "db_versions db' = db_versions db \<and>
    db_mappings db' = map (\<lambda>x. if row_id x \<in> row_id ` set (filter (drift_hits events ctx db) ms)
                                then x\<lparr>sm_suspended := True\<rparr> else x) (db_mappings db)"
  using assms
proof (induction ms arbitrary: db out)
  case Nil
  then show ?case by simp
next
  case (Cons m ms)
  let ?A = "set (map event_table events)"
  show ?case
  proof (cases "drift_hits events ctx db m")
    case False
    then have "suspend_each sid ?A ctx ms db = (Inr out, db')"
      using Cons.prems by (auto simp: drift_hits_def split: option.splits if_splits)
    from Cons.IH [OF _ this] Cons.prems(1) False show ?thesis by simp
  next
    case True
    define db1 where "db1 = set_mapping (row_id m) (\<lambda>x. x\<lparr>sm_suspended := True\<rparr>) db"
    from suspend_each_hit [OF True] Cons.prems(2) obtain e
      where "(case suspend_each sid ?A ctx ms (audit_record e db1) of
        (res, db2) \<Rightarrow> (map_sum id ((#) (m\<lparr>sm_suspended := True\<rparr>)) res, db2)) = (Inr out, db')"
      unfolding db1_def by metis
    then obtain out' where rec: "suspend_each sid ?A ctx ms (audit_record e db1) = (Inr out', db')"
      by (cases "suspend_each sid ?A ctx ms (audit_record e db1)"; cases "fst (suspend_each sid ?A ctx ms (audit_record e db1))") auto
    have hits: "drift_hits events ctx (audit_record e db1) = drift_hits events ctx db"
      by (rule drift_hits_cong) (simp add: db1_def)
    let ?S = "row_id ` set (filter (drift_hits events ctx db) ms)"
    have "db_versions db' = db_versions db \<and>
        db_mappings db' = map (\<lambda>x. if row_id x \<in> ?S then x\<lparr>sm_suspended := True\<rparr> else x) (db_mappings db1)"
      using Cons.IH [OF _ rec] Cons.prems(1) unfolding hits by (simp add: db1_def)
    moreover have "map (\<lambda>x. if row_id x \<in> ?S then x\<lparr>sm_suspended := True\<rparr> else x) (db_mappings db1) =
        map (\<lambda>x. if row_id x \<in> insert (row_id m) ?S then x\<lparr>sm_suspended := True\<rparr> else x) (db_mappings db)"
      unfolding db1_def set_mapping_frame row_set_def map_map by (rule map_cong [OF refl]) simp
    ultimately show ?thesis using True by simp
  qed
qed

text \<open>
  C21: drift suspends exactly the affected mappings. When suspension succeeds for a snapshot with
  drift events, the suspended mappings are the tenant's active ones whose active version reads a
  table named by an event, no other mapping changes, and no suspended mapping yields a production
  version any more.
\<close>

theorem drift_suspends_affected_mappings:
  assumes "distinct (map row_id (db_mappings db))" and "ss_drift snap = Some events"
    and "suspend_affected_by_drift snap ctx db = (Inr out, db')"
  shows "db_mappings db' = map (\<lambda>m. if drift_hits events ctx db m then m\<lparr>sm_suspended := True\<rparr> else m) (db_mappings db) \<and>
    (\<forall>m \<in> set (db_mappings db). drift_hits events ctx db m \<longrightarrow>
       get_production_version (row_id m) ctx db' = Inl (MappingNotProductionReadyError (row_id m)))"
proof -
  let ?hit = "drift_hits events ctx db"
  let ?upd = "\<lambda>m. if ?hit m then m\<lparr>sm_suspended := True\<rparr> else m"
  let ?own = "list_for_tenant (db_mappings db) ctx"
  have same: "row_id x \<in> row_id ` set (filter ?hit ?own) \<longleftrightarrow> ?hit x" if x: "x \<in> set (db_mappings db)" for x
  proof
    assume "row_id x \<in> row_id ` set (filter ?hit ?own)"
    then obtain y where y: "y \<in> set (db_mappings db)" "row_id y = row_id x" "?hit y"
      by (auto simp: list_for_tenant_def)
    then have "y = x"
      using session_get_distinct [OF assms(1) x] session_get_distinct [OF assms(1) y(1)] by simp
    with y show "?hit x" by simp
  qed (use x in \<open>auto simp: list_for_tenant_def drift_hits_def\<close>)
  have eq: "db_mappings db' = map ?upd (db_mappings db)"
  proof (cases "events = []")
    case True
    have "\<not> ?hit x" for x using True by (simp add: drift_hits_def split: option.split sum.split)
    then show ?thesis using True assms(2,3) by (simp add: suspend_affected_by_drift_def)
  next
    case False
    then have each: "suspend_each (row_id snap) (set (map event_table events)) ctx ?own db = (Inr out, db')"
      using assms(2,3) by (simp add: suspend_affected_by_drift_def Let_def)
    have "db_mappings db' = map (\<lambda>x. if row_id x \<in> row_id ` set (filter ?hit ?own)
        then x\<lparr>sm_suspended := True\<rparr> else x) (db_mappings db)"
      using suspend_each_exact [OF _ each] by (simp add: list_for_tenant_def)
    also have "\<dots> = map ?upd (db_mappings db)" by (rule map_cong) (simp_all only: same)
    finally show ?thesis .
  qed
  moreover have "get_production_version (row_id m) ctx db' = Inl (MappingNotProductionReadyError (row_id m))"
    if m: "m \<in> set (db_mappings db)" "?hit m" for m
  proof -
    have "map row_id (db_mappings db') = map row_id (db_mappings db)" unfolding eq by simp
    then have "distinct (map row_id (db_mappings db'))" using assms(1) by (simp only:)
    moreover have "?upd m \<in> set (db_mappings db')" unfolding eq using m(1) by simp
    ultimately have "session_get (db_mappings db') (row_id (?upd m)) = Some (?upd m)"
      by (rule session_get_distinct)
    then have "repo_require (db_mappings db') (row_id m) ctx = Inr (m\<lparr>sm_suspended := True\<rparr>)"
      using m by (simp add: repo_require_Inr_iff drift_hits_def)
    then show ?thesis by (simp add: get_production_version_def split: option.split)
  qed
  ultimately show ?thesis by blast
qed


subsection \<open>A mapping of the sample tenant\<close>

definition vehicles_table :: table_meta where
  "vehicles_table = \<lparr>tm_schema = ''public'', tm_name = ''vehicles'', tm_kind = ''BASE TABLE'', tm_comment = None,
     tm_columns = [\<lparr>cm_name = ''id'', cm_sql_type = ''text'', cm_nullable = False, cm_position = 1, cm_comment = None\<rparr>],
     tm_primary_key = [''id''], tm_foreign_keys = [], tm_uniques = [], tm_indexes = [], tm_row_count = None\<rparr>"

definition vehicles_snapshot :: snapshot where
  "vehicles_snapshot = \<lparr>row_id = 70, row_tenant = Some 1, ss_connection = 60, ss_sequence = 1, ss_status = COMPLETED,
     ss_fingerprint = None, ss_metadata = Some \<lparr>in_schemas = [''public''], in_tables = [vehicles_table]\<rparr>,
     ss_profiles = None, ss_table_fingerprints = [], ss_error = None,
     ss_drift = Some [TableRemoved ''public.vehicles''], ss_ack_at = None, ss_ack_by = None\<rparr>"

definition map_db0 :: map_db where
  "map_db0 = snap_db.extend (empty_snap_db\<lparr>db_snapshots := [vehicles_snapshot]\<rparr>) \<lparr>db_mappings = [], db_versions = []\<rparr>"

definition no_info :: draft_info where
  "no_info = \<lparr>di_ai_suggested = False, di_confidence = None, di_explanation = None\<rparr>"

definition vehicle_ontology :: ontology_loader where
  "vehicle_ontology v = Inr \<lparr>on_version = v, on_entities = [vehicle_entity]\<rparr>"

definition map_db1 :: map_db where
  "map_db1 = snd (create_draft sample_ctx 70 sample_document ''1'' no_info 80 81 map_db0)"
definition map_db2 :: map_db where
  "map_db2 = snd (submit_for_validation sorted_list_of_set vehicle_ontology 80 sample_ctx map_db1)"
definition map_db3 :: map_db where
  "map_db3 = snd (approve 80 sample_ctx map_db2)"
definition map_db4 :: map_db where
  "map_db4 = snd (activate 80 sample_ctx map_db3)"

lemma map_db0_start [simp]: "db_mappings map_db0 = []" "db_versions map_db0 = []"
  by (simp_all add: map_db0_def snap_db.defs)

lemma map_db1_step: "mapping_step sorted_list_of_set vehicle_ontology map_db0 map_db1"
  unfolding map_db1_def by (rule ms_create)

lemma map_db4_reachable: "(mapping_step sorted_list_of_set vehicle_ontology)\<^sup>*\<^sup>* map_db0 map_db4"
proof -
  have "(mapping_step sorted_list_of_set vehicle_ontology)\<^sup>*\<^sup>* map_db0 map_db2"
    unfolding map_db2_def using map_db1_step ms_submit by (meson r_into_rtranclp rtranclp.rtrancl_into_rtrancl)
  then show ?thesis
    unfolding map_db4_def map_db3_def using ms_approve ms_activate by (meson rtranclp.rtrancl_into_rtrancl)
qed

lemma iter_sorted: "finite s \<Longrightarrow> set (sorted_list_of_set s) = (s :: string set)"
  by simp

lemma map_db4_production:
  obtains v where "get_production_version 80 sample_ctx map_db4 = Inr v" and "mv_approved_by v = Some 10"
proof -
  have "(case get_production_version 80 sample_ctx map_db4 of Inl _ \<Rightarrow> False | Inr v \<Rightarrow> mv_approved_by v = Some 10)"
    by code_simp
  then show ?thesis using that by (simp split: sum.splits)
qed

theorem production_version_is_vetted_witness:
  "\<exists>v. get_production_version 80 sample_ctx map_db4 = Inr v \<and> mv_approved_by v \<noteq> None"
proof -
  obtain v where v: "get_production_version 80 sample_ctx map_db4 = Inr v" by (rule map_db4_production)
  from production_version_is_vetted [OF iter_sorted map_db0_start map_db4_reachable v] v show ?thesis by blast
qed

lemma map_db1_version: "db_versions map_db1 \<noteq> []" "db_mappings map_db1 \<noteq> []"
  by code_simp+

theorem mapping_versions_are_immutable_witness:
  "\<exists>v' \<in> set (db_versions map_db4). \<exists>a. v' = (hd (db_versions map_db1))\<lparr>mv_approved_by := a\<rparr>"
proof (rule mapping_versions_are_immutable [OF iter_sorted map_db0_start, of vehicle_ontology])
  show "(mapping_step sorted_list_of_set vehicle_ontology)\<^sup>*\<^sup>* map_db0 map_db1"
    using map_db1_step by blast
  show "(mapping_step sorted_list_of_set vehicle_ontology)\<^sup>*\<^sup>* map_db1 map_db4"
    unfolding map_db4_def map_db3_def map_db2_def
    by (meson ms_submit ms_approve ms_activate r_into_rtranclp rtranclp.rtrancl_into_rtrancl)
  show "hd (db_versions map_db1) \<in> set (db_versions map_db1)" using map_db1_version by simp
qed

theorem mapping_lifecycle_edges_witness:
  "\<exists>m' \<in> set (db_mappings map_db2). row_id m' = row_id (hd (db_mappings map_db1))"
proof -
  have "(mapping_step sorted_list_of_set vehicle_ontology)\<^sup>*\<^sup>* map_db0 map_db1"
    using map_db1_step by blast
  moreover have "mapping_step sorted_list_of_set vehicle_ontology map_db1 map_db2"
    unfolding map_db2_def by (rule ms_submit)
  moreover have "hd (db_mappings map_db1) \<in> set (db_mappings map_db1)" using map_db1_version by simp
  ultimately show ?thesis
    using mapping_lifecycle_edges [OF iter_sorted map_db0_start] by blast
qed

theorem new_version_stops_production_witness:
  "get_production_version 80 sample_ctx (snd (create_new_version 80 sample_ctx sample_document no_info 82 map_db4)) =
   Inl (MappingNotProductionReadyError 80)"
proof -
  have "isl (fst (create_new_version 80 sample_ctx sample_document no_info 82 map_db4)) = False" by code_simp
  then obtain v where "create_new_version 80 sample_ctx sample_document no_info 82 map_db4 =
      (Inr v, snd (create_new_version 80 sample_ctx sample_document no_info 82 map_db4))"
    by (metis isl_def obj_sumE prod.collapse)
  from new_version_stops_production [OF this] show ?thesis .
qed

theorem drift_suspends_affected_mappings_witness:
  "\<exists>m \<in> set (db_mappings map_db4). get_production_version (row_id m) sample_ctx
      (snd (suspend_affected_by_drift vehicles_snapshot sample_ctx map_db4)) =
    Inl (MappingNotProductionReadyError (row_id m))"
proof -
  let ?r = "suspend_affected_by_drift vehicles_snapshot sample_ctx map_db4"
  have "isl (fst ?r) = False" by code_simp
  then obtain out where out: "?r = (Inr out, snd ?r)" by (metis isl_def obj_sumE prod.collapse)
  have "distinct (map row_id (db_mappings map_db4))" by code_simp
  moreover have "ss_drift vehicles_snapshot = Some [TableRemoved ''public.vehicles'']"
    by (simp add: vehicles_snapshot_def)
  moreover have "db_mappings map_db4 \<noteq> [] \<and>
      drift_hits [TableRemoved ''public.vehicles''] sample_ctx map_db4 (hd (db_mappings map_db4))"
    by code_simp
  ultimately show ?thesis
    using drift_suspends_affected_mappings [OF _ _ out] by (meson hd_in_set)
qed

end
