(* ===== verification/Registry.thy ===== *)
theory Registry
  imports Mappings
begin

section \<open>The model registry\<close>

text \<open>
  \<open>hermes_rpt/registry\<close>: model versions, tenant adapters and aliases. A model without a tenant
  is shared. The caller is a tenant context, or none for a trusted system caller. The state adds
  the three tables; the optimistic version columns and foreign keys are left out.
\<close>

datatype model_stage = CANDIDATE | STAGING | PRODUCTION | ARCHIVED

fun stage_value :: "model_stage \<Rightarrow> string" where
  "stage_value CANDIDATE = ''candidate''"
| "stage_value STAGING = ''staging''"
| "stage_value PRODUCTION = ''production''"
| "stage_value ARCHIVED = ''archived''"

fun valid_transitions :: "model_stage \<Rightarrow> model_stage set" where
  "valid_transitions CANDIDATE = {STAGING, ARCHIVED}"
| "valid_transitions STAGING = {PRODUCTION, CANDIDATE, ARCHIVED}"
| "valid_transitions PRODUCTION = {ARCHIVED, STAGING}"
| "valid_transitions ARCHIVED = {}"

definition promotion_stages :: "model_stage set" where
  "promotion_stages = {STAGING, PRODUCTION}"

record model_version = tenant_row +
  mo_name :: string
  mo_label :: string
  mo_task :: uuid
  mo_stage :: model_stage
  mo_uri :: string
  mo_checksum :: string
  mo_run :: "string option"
  mo_ontology :: string
  mo_contract :: string
  mo_live :: bool

record model_adapter = tenant_row +
  ma_base :: uuid
  ma_name :: string
  ma_label :: string
  ma_stage :: model_stage
  ma_uri :: string
  ma_checksum :: string
  ma_ontology :: string
  ma_contract :: string
  ma_live :: bool

record model_alias = tenant_row +
  al_task :: uuid
  al_name :: string
  al_model :: uuid
  al_adapter :: "uuid option"

record reg_db = map_db +
  db_models :: "model_version list"
  db_adapters :: "model_adapter list"
  db_aliases :: "model_alias list"

subsection \<open>Lookups\<close>

definition list_available_for_tenant :: "tenant_context \<Rightarrow> 'z reg_db_scheme \<Rightarrow> model_version list" where
  "list_available_for_tenant ctx db =
     filter (\<lambda>m. row_tenant m = None \<or> row_tenant m = Some (tc_tenant ctx)) (db_models db)"

definition get_available_for_tenant :: "uuid \<Rightarrow> tenant_context \<Rightarrow> 'z reg_db_scheme \<Rightarrow> model_version option" where
  "get_available_for_tenant mid ctx db =
     (case session_get (db_models db) mid of
        None \<Rightarrow> None
      | Some m \<Rightarrow> if row_tenant m \<noteq> None \<and> row_tenant m \<noteq> Some (tc_tenant ctx) then None else Some m)"

definition require_available_for_tenant :: "uuid \<Rightarrow> tenant_context \<Rightarrow> 'z reg_db_scheme \<Rightarrow> exn + model_version" where
  "require_available_for_tenant mid ctx db =
     (case get_available_for_tenant mid ctx db of None \<Rightarrow> Inl TenantMismatchError | Some m \<Rightarrow> Inr m)"

definition get_production_model :: "uuid \<Rightarrow> tenant_context \<Rightarrow> 'z reg_db_scheme \<Rightarrow> model_version option" where
  "get_production_model task ctx db =
     (let candidates = filter (\<lambda>m. mo_task m = task \<and> mo_stage m = PRODUCTION \<and> mo_live m \<and>
            (row_tenant m = None \<or> row_tenant m = Some (tc_tenant ctx))) (db_models db);
          private = filter (\<lambda>m. row_tenant m = Some (tc_tenant ctx)) candidates
      in case private of m # _ \<Rightarrow> Some m
         | [] \<Rightarrow> (case candidates of [] \<Rightarrow> None | m # _ \<Rightarrow> Some m))"

definition get_active_for_base_model :: "uuid \<Rightarrow> tenant_context \<Rightarrow> 'z reg_db_scheme \<Rightarrow> exn + model_adapter option" where
  "get_active_for_base_model base ctx db =
     (case filter (\<lambda>a. ma_base a = base \<and> row_tenant a = Some (tc_tenant ctx) \<and> ma_stage a = PRODUCTION \<and> ma_live a)
        (db_adapters db) of
        [] \<Rightarrow> Inr None | [a] \<Rightarrow> Inr (Some a) | _ \<Rightarrow> Inl MultipleResultsFound)"

definition find_alias :: "uuid \<Rightarrow> string \<Rightarrow> uuid option \<Rightarrow> 'z reg_db_scheme \<Rightarrow> exn + model_alias option" where
  "find_alias task name tenant db =
     (case filter (\<lambda>a. al_task a = task \<and> al_name a = name \<and> row_tenant a = tenant) (db_aliases db) of
        [] \<Rightarrow> Inr None | [a] \<Rightarrow> Inr (Some a) | _ \<Rightarrow> Inl MultipleResultsFound)"

definition resolve_for_tenant :: "uuid \<Rightarrow> string \<Rightarrow> tenant_context \<Rightarrow> 'z reg_db_scheme \<Rightarrow> exn + model_alias option" where
  "resolve_for_tenant task name ctx db =
     rbind (find_alias task name (Some (tc_tenant ctx)) db) (\<lambda>own.
       case own of Some a \<Rightarrow> Inr (Some a) | None \<Rightarrow> find_alias task name None db)"

subsection \<open>Authorisation and compatibility\<close>

definition ensure_compatible :: "model_version \<Rightarrow> model_adapter \<Rightarrow> exn + unit" where
  "ensure_compatible base a =
     (if mo_ontology base \<noteq> ma_ontology a \<or> mo_contract base \<noteq> ma_contract a
      then Inl (IncompatibleAdapterError (row_id a) (row_id base)) else Inr ())"

definition require_promotion_authorization :: "tenant_context option \<Rightarrow> exn + unit" where
  "require_promotion_authorization caller =
     (case caller of
        None \<Rightarrow> Inr ()
      | Some ctx \<Rightarrow> if ''model:promote'' \<notin> tc_scopes ctx
          then Inl (AuthorizationError ''missing_scope:model:promote'' (tc_tenant ctx) (tc_principal ctx)) else Inr ())"

definition registry_event ::
  "tenant_context option \<Rightarrow> uuid option \<Rightarrow> string \<Rightarrow> string \<Rightarrow> uuid \<Rightarrow> (string \<times> json) list \<Rightarrow> audit_event" where
  "registry_event caller tenant action rtype rid details =
     \<lparr>ae_tenant = tenant, ae_principal = map_option tc_principal caller, ae_principal_type = ''unknown'',
      ae_action = action, ae_resource_type = Some rtype, ae_resource_id = Some rid, ae_outcome = SUCCESS,
      ae_correlation = (case caller of None \<Rightarrow> None | Some ctx \<Rightarrow> tc_correlation ctx), ae_details = details\<rparr>"

subsection \<open>Model versions\<close>

definition register_candidate :: "model_version \<Rightarrow> 'z reg_db_scheme \<Rightarrow> (exn + model_version) \<times> 'z reg_db_scheme" where
  "register_candidate m db =
     (let m' = m\<lparr>mo_stage := CANDIDATE\<rparr>
      in attempt (session_add (db_models db) m') db (\<lambda>t.
         (Inr m', audit_record (registry_event None (row_tenant m') ''model.register_candidate'' ''ModelVersion'' (row_id m')
            [(''name'', JStr (mo_name m')), (''version_label'', JStr (mo_label m'))]) (db\<lparr>db_models := t\<rparr>))))"

definition get_for_stage_mutation :: "uuid \<Rightarrow> tenant_context option \<Rightarrow> 'z reg_db_scheme \<Rightarrow> exn + model_version" where
  "get_for_stage_mutation mid caller db =
     (case caller of
        Some ctx \<Rightarrow> require_available_for_tenant mid ctx db
      | None \<Rightarrow> (case session_get (db_models db) mid of None \<Rightarrow> Inl (ValueError ''not found'') | Some m \<Rightarrow> Inr m))"

definition check_transition :: "model_stage \<Rightarrow> model_stage \<Rightarrow> tenant_context option \<Rightarrow> exn + unit" where
  "check_transition current target caller =
     (if target \<notin> valid_transitions current
      then Inl (InvalidModelStageTransitionError (stage_value current) (stage_value target))
      else if target \<in> promotion_stages then require_promotion_authorization caller else Inr ())"

definition stage_details :: "model_stage \<Rightarrow> model_stage \<Rightarrow> (string \<times> json) list" where
  "stage_details current target = [(''from_stage'', JStr (stage_value current)), (''to_stage'', JStr (stage_value target))]"

definition set_model :: "uuid \<Rightarrow> (model_version \<Rightarrow> model_version) \<Rightarrow> 'z reg_db_scheme \<Rightarrow> 'z reg_db_scheme" where
  "set_model i f db = db\<lparr>db_models := row_set (db_models db) i f\<rparr>"

definition set_adapter :: "uuid \<Rightarrow> (model_adapter \<Rightarrow> model_adapter) \<Rightarrow> 'z reg_db_scheme \<Rightarrow> 'z reg_db_scheme" where
  "set_adapter i f db = db\<lparr>db_adapters := row_set (db_adapters db) i f\<rparr>"

definition transition_stage ::
  "uuid \<Rightarrow> model_stage \<Rightarrow> tenant_context option \<Rightarrow> 'z reg_db_scheme \<Rightarrow> (exn + model_version) \<times> 'z reg_db_scheme" where
  "transition_stage mid target caller db =
     attempt (get_for_stage_mutation mid caller db) db (\<lambda>m.
     attempt (check_transition (mo_stage m) target caller) db (\<lambda>_.
       (Inr (m\<lparr>mo_stage := target\<rparr>),
        audit_record (registry_event caller (row_tenant m) ''model.transition_stage'' ''ModelVersion'' (row_id m)
          (stage_details (mo_stage m) target)) (set_model (row_id m) (\<lambda>x. x\<lparr>mo_stage := target\<rparr>) db))))"

definition deactivate_model_version ::
  "uuid \<Rightarrow> tenant_context option \<Rightarrow> 'z reg_db_scheme \<Rightarrow> (exn + model_version) \<times> 'z reg_db_scheme" where
  "deactivate_model_version mid caller db =
     attempt (get_for_stage_mutation mid caller db) db (\<lambda>m.
       (Inr (m\<lparr>mo_live := False\<rparr>),
        audit_record (registry_event caller (row_tenant m) ''model.deactivate'' ''ModelVersion'' (row_id m) [])
          (set_model (row_id m) (\<lambda>x. x\<lparr>mo_live := False\<rparr>) db)))"

subsection \<open>Tenant adapters\<close>

definition register_adapter_candidate ::
  "model_adapter \<Rightarrow> model_version \<Rightarrow> tenant_context \<Rightarrow> 'z reg_db_scheme \<Rightarrow> (exn + model_adapter) \<times> 'z reg_db_scheme" where
  "register_adapter_candidate a base ctx db =
     attempt (ensure_compatible base a) db (\<lambda>_.
     attempt (repo_add (db_adapters db) (a\<lparr>ma_stage := CANDIDATE\<rparr>) ctx) db (\<lambda>(a', t).
       (Inr a', audit_record (registry_event (Some ctx) (Some (tc_tenant ctx)) ''model.register_adapter_candidate''
          ''TenantModelAdapter'' (row_id a') [(''base_model_version_id'', JUuid (row_id base)),
            (''name'', JStr (ma_name a')), (''version_label'', JStr (ma_label a'))]) (db\<lparr>db_adapters := t\<rparr>))))"

definition transition_adapter_stage ::
  "uuid \<Rightarrow> model_stage \<Rightarrow> tenant_context \<Rightarrow> 'z reg_db_scheme \<Rightarrow> (exn + model_adapter) \<times> 'z reg_db_scheme" where
  "transition_adapter_stage aid target ctx db =
     attempt (repo_require (db_adapters db) aid ctx) db (\<lambda>a.
     attempt (check_transition (ma_stage a) target (Some ctx)) db (\<lambda>_.
       (Inr (a\<lparr>ma_stage := target\<rparr>),
        audit_record (registry_event (Some ctx) (Some (tc_tenant ctx)) ''model.transition_adapter_stage''
          ''TenantModelAdapter'' (row_id a) (stage_details (ma_stage a) target))
          (set_adapter (row_id a) (\<lambda>x. x\<lparr>ma_stage := target\<rparr>) db))))"

definition deactivate_adapter ::
  "uuid \<Rightarrow> tenant_context \<Rightarrow> 'z reg_db_scheme \<Rightarrow> (exn + model_adapter) \<times> 'z reg_db_scheme" where
  "deactivate_adapter aid ctx db =
     attempt (repo_require (db_adapters db) aid ctx) db (\<lambda>a.
       (Inr (a\<lparr>ma_live := False\<rparr>),
        audit_record (registry_event (Some ctx) (Some (tc_tenant ctx)) ''model.deactivate_adapter''
          ''TenantModelAdapter'' (row_id a) []) (set_adapter (row_id a) (\<lambda>x. x\<lparr>ma_live := False\<rparr>) db)))"

subsection \<open>Aliases\<close>

definition aliasable_model :: "uuid \<Rightarrow> tenant_context option \<Rightarrow> 'z reg_db_scheme \<Rightarrow> exn + model_version" where
  "aliasable_model mid caller db =
     (case session_get (db_models db) mid of
        None \<Rightarrow> Inl (ValueError ''not found'')
      | Some m \<Rightarrow>
          if \<not> mo_live m \<or> mo_stage m = ARCHIVED then Inl (ValueError ''is inactive or archived and cannot be aliased'')
          else if row_tenant m \<noteq> None \<and> (caller = None \<or> row_tenant m \<noteq> map_option tc_tenant caller)
          then Inl (ValueError ''is not shared and does not belong to the aliasing tenant'')
          else Inr m)"

definition aliasable_adapter ::
  "model_version \<Rightarrow> uuid option \<Rightarrow> tenant_context option \<Rightarrow> 'z reg_db_scheme \<Rightarrow> exn + model_adapter option" where
  "aliasable_adapter m aid caller db =
     (case aid of
        None \<Rightarrow> Inr None
      | Some i \<Rightarrow> (case caller of
            None \<Rightarrow> Inl (ValueError ''A tenant-private adapter requires a tenant_context'')
          | Some ctx \<Rightarrow> rbind (repo_require (db_adapters db) i ctx) (\<lambda>a.
              rbind (ensure_compatible m a) (\<lambda>_. Inr (Some a)))))"

definition upsert_alias ::
  "uuid \<Rightarrow> string \<Rightarrow> uuid option \<Rightarrow> uuid \<Rightarrow> uuid option \<Rightarrow> uuid \<Rightarrow> 'z reg_db_scheme \<Rightarrow> exn + model_alias \<times> 'z reg_db_scheme" where
  "upsert_alias task name tenant mid aid fresh db =
     rbind (find_alias task name tenant db) (\<lambda>existing.
       case existing of
         Some a \<Rightarrow> (let f = (\<lambda>x. x\<lparr>al_model := mid, al_adapter := aid\<rparr>)
                    in Inr (f a, db\<lparr>db_aliases := row_set (db_aliases db) (row_id a) f\<rparr>))
       | None \<Rightarrow> (let a = \<lparr>row_id = fresh, row_tenant = tenant, al_task = task, al_name = name, al_model = mid, al_adapter = aid\<rparr>
                  in rbind (session_add (db_aliases db) a) (\<lambda>t. Inr (a, db\<lparr>db_aliases := t\<rparr>))))"

definition point_alias ::
  "string \<Rightarrow> uuid \<Rightarrow> uuid \<Rightarrow> uuid option \<Rightarrow> string \<Rightarrow> tenant_context option \<Rightarrow> uuid \<Rightarrow> 'z reg_db_scheme \<Rightarrow>
   (exn + model_alias) \<times> 'z reg_db_scheme" where
  "point_alias action task mid aid name caller fresh db =
     attempt (require_promotion_authorization caller) db (\<lambda>_.
     attempt (aliasable_model mid caller db) db (\<lambda>m.
     attempt (aliasable_adapter m aid caller db) db (\<lambda>adapter.
     attempt (upsert_alias task name (map_option tc_tenant caller) (row_id m) (map_option row_id adapter) fresh db) db
       (\<lambda>(a, db1). (Inr a, audit_record (registry_event caller (map_option tc_tenant caller) action ''ModelAlias'' (row_id a)
          [(''alias_name'', JStr name), (''model_version_id'', JUuid (row_id m)),
           (''tenant_model_adapter_id'', case adapter of None \<Rightarrow> JNull | Some x \<Rightarrow> JUuid (row_id x))]) db1)))))"

definition set_alias ::
  "uuid \<Rightarrow> uuid \<Rightarrow> uuid option \<Rightarrow> string \<Rightarrow> tenant_context option \<Rightarrow> uuid \<Rightarrow> 'z reg_db_scheme \<Rightarrow>
   (exn + model_alias) \<times> 'z reg_db_scheme" where
  "set_alias = point_alias ''model.set_alias''"

definition rollback_alias ::
  "uuid \<Rightarrow> uuid \<Rightarrow> uuid option \<Rightarrow> string \<Rightarrow> tenant_context option \<Rightarrow> uuid \<Rightarrow> 'z reg_db_scheme \<Rightarrow>
   (exn + model_alias) \<times> 'z reg_db_scheme" where
  "rollback_alias = point_alias ''model.rollback_alias''"

definition resolve_alias :: "uuid \<Rightarrow> tenant_context \<Rightarrow> string \<Rightarrow> 'z reg_db_scheme \<Rightarrow> exn + model_alias option" where
  "resolve_alias task ctx name db = resolve_for_tenant task name ctx db"

subsection \<open>The policy of the registry\<close>

text \<open>
  What a caller may do to the registry, as a step relation over the tables: it adds candidates,
  moves a visible model or an adapter of its own along a valid transition, takes one out of
  service, or points an alias of its own tenant at something it may serve. A move into staging
  or production and any change of an alias need the permission to promote.
\<close>

definition may_promote :: "tenant_context option \<Rightarrow> bool" where
  "may_promote caller \<longleftrightarrow> (case caller of None \<Rightarrow> True | Some ctx \<Rightarrow> ''model:promote'' \<in> tc_scopes ctx)"

definition model_visible :: "tenant_context option \<Rightarrow> model_version \<Rightarrow> bool" where
  "model_visible caller m \<longleftrightarrow>
     (case caller of None \<Rightarrow> True | Some ctx \<Rightarrow> row_tenant m = None \<or> row_tenant m = Some (tc_tenant ctx))"

definition may_move :: "tenant_context option \<Rightarrow> model_stage \<Rightarrow> model_stage \<Rightarrow> bool" where
  "may_move caller s t \<longleftrightarrow> t \<in> valid_transitions s \<and> (t \<in> promotion_stages \<longrightarrow> may_promote caller)"

definition servable :: "model_version list \<Rightarrow> model_adapter list \<Rightarrow> uuid option \<Rightarrow> uuid \<Rightarrow> uuid option \<Rightarrow> bool" where
  "servable models adapters tenant mid aid \<longleftrightarrow>
     (\<exists>m. session_get models mid = Some m \<and> (row_tenant m = None \<or> row_tenant m = tenant) \<and>
        (case aid of None \<Rightarrow> True
         | Some i \<Rightarrow> tenant \<noteq> None \<and> (\<exists>a. session_get adapters i = Some a \<and> row_tenant a = tenant \<and>
             ma_ontology a = mo_ontology m \<and> ma_contract a = mo_contract m)))"

definition alias_key :: "model_alias \<Rightarrow> uuid option \<times> uuid \<times> string" where
  "alias_key a = (row_tenant a, al_task a, al_name a)"

inductive reg_effect :: "tenant_context option \<Rightarrow> 'z reg_db_scheme \<Rightarrow> 'z reg_db_scheme \<Rightarrow> bool" where
  re_none: "reg_effect caller db db"
| re_register: "row_id m \<notin> row_id ` set (db_models db) \<Longrightarrow> mo_stage m = CANDIDATE \<Longrightarrow>
    reg_effect None db (audit_record e (db\<lparr>db_models := db_models db @ [m]\<rparr>))"
| re_stage: "session_get (db_models db) mid = Some m \<Longrightarrow> model_visible caller m \<Longrightarrow> may_move caller (mo_stage m) t \<Longrightarrow>
    reg_effect caller db (audit_record e (set_model mid (\<lambda>x. x\<lparr>mo_stage := t\<rparr>) db))"
| re_off: "session_get (db_models db) mid = Some m \<Longrightarrow> model_visible caller m \<Longrightarrow>
    reg_effect caller db (audit_record e (set_model mid (\<lambda>x. x\<lparr>mo_live := False\<rparr>) db))"
| re_adapter: "row_id a \<notin> row_id ` set (db_adapters db) \<Longrightarrow> ma_stage a = CANDIDATE \<Longrightarrow> row_tenant a = Some (tc_tenant ctx) \<Longrightarrow>
    reg_effect (Some ctx) db (audit_record e (db\<lparr>db_adapters := db_adapters db @ [a]\<rparr>))"
| re_adapter_stage: "session_get (db_adapters db) aid = Some a \<Longrightarrow> row_tenant a = Some (tc_tenant ctx) \<Longrightarrow>
    may_move (Some ctx) (ma_stage a) t \<Longrightarrow>
    reg_effect (Some ctx) db (audit_record e (set_adapter aid (\<lambda>x. x\<lparr>ma_stage := t\<rparr>) db))"
| re_adapter_off: "session_get (db_adapters db) aid = Some a \<Longrightarrow> row_tenant a = Some (tc_tenant ctx) \<Longrightarrow>
    reg_effect (Some ctx) db (audit_record e (set_adapter aid (\<lambda>x. x\<lparr>ma_live := False\<rparr>) db))"
| re_alias: "may_promote caller \<Longrightarrow> row_tenant al = map_option tc_tenant caller \<Longrightarrow>
    servable (db_models db) (db_adapters db) (row_tenant al) (al_model al) (al_adapter al) \<Longrightarrow>
    row_id al \<notin> row_id ` set (db_aliases db) \<Longrightarrow> alias_key al \<notin> alias_key ` set (db_aliases db) \<Longrightarrow>
    reg_effect caller db (audit_record e (db\<lparr>db_aliases := db_aliases db @ [al]\<rparr>))"
| re_repoint: "may_promote caller \<Longrightarrow> al \<in> set (db_aliases db) \<Longrightarrow> row_tenant al = map_option tc_tenant caller \<Longrightarrow>
    servable (db_models db) (db_adapters db) (row_tenant al) mid aid \<Longrightarrow>
    reg_effect caller db (audit_record e
      (db\<lparr>db_aliases := row_set (db_aliases db) (row_id al) (\<lambda>x. x\<lparr>al_model := mid, al_adapter := aid\<rparr>)\<rparr>))"

text \<open>The operations of the service, as steps of a caller.\<close>

inductive reg_step :: "tenant_context option \<Rightarrow> 'z reg_db_scheme \<Rightarrow> 'z reg_db_scheme \<Rightarrow> bool" where
  rs_register: "reg_step None db (snd (register_candidate m db))"
| rs_transition: "reg_step caller db (snd (transition_stage mid t caller db))"
| rs_deactivate: "reg_step caller db (snd (deactivate_model_version mid caller db))"
| rs_register_adapter: "reg_step (Some ctx) db (snd (register_adapter_candidate a base ctx db))"
| rs_transition_adapter: "reg_step (Some ctx) db (snd (transition_adapter_stage aid t ctx db))"
| rs_deactivate_adapter: "reg_step (Some ctx) db (snd (deactivate_adapter aid ctx db))"
| rs_set: "reg_step caller db (snd (set_alias task mid aid name caller fresh db))"
| rs_rollback: "reg_step caller db (snd (rollback_alias task mid aid name caller fresh db))"

lemma effect_attempt:
  "(\<And>x. r = Inr x \<Longrightarrow> reg_effect caller db (snd (k x))) \<Longrightarrow> reg_effect caller db (snd (attempt r db k))"
  by (cases r) (simp_all add: re_none)

lemma get_for_stage_mutation_Inr:
  "get_for_stage_mutation mid caller db = Inr m \<Longrightarrow>
    session_get (db_models db) mid = Some m \<and> row_id m = mid \<and> model_visible caller m"
  by (auto simp: get_for_stage_mutation_def require_available_for_tenant_def get_available_for_tenant_def model_visible_def
      split: option.splits if_splits dest: session_get_Some)

lemma require_promotion_iff [simp]: "require_promotion_authorization caller = Inr u \<longleftrightarrow> may_promote caller"
  by (simp add: require_promotion_authorization_def may_promote_def split: option.split)

lemma check_transition_iff [simp]: "check_transition s t caller = Inr u \<longleftrightarrow> may_move caller s t"
  by (auto simp: check_transition_def may_move_def)

lemma ensure_compatible_iff [simp]:
  "ensure_compatible m a = Inr u \<longleftrightarrow> ma_ontology a = mo_ontology m \<and> ma_contract a = mo_contract m"
  by (auto simp: ensure_compatible_def)

lemma aliasable_servable:
  assumes "aliasable_model mid caller db = Inr m" and "aliasable_adapter m aid caller db = Inr adapter"
  shows "servable (db_models db) (db_adapters db) (map_option tc_tenant caller) (row_id m) (map_option row_id adapter)"
proof -
  from assms(1) have m: "session_get (db_models db) (row_id m) = Some m"
      "row_tenant m = None \<or> row_tenant m = map_option tc_tenant caller"
    by (auto simp: aliasable_model_def split: option.splits if_splits dest: session_get_Some)
  moreover have "case map_option row_id adapter of None \<Rightarrow> True
      | Some i \<Rightarrow> map_option tc_tenant caller \<noteq> None \<and> (\<exists>a. session_get (db_adapters db) i = Some a \<and>
          row_tenant a = map_option tc_tenant caller \<and> ma_ontology a = mo_ontology m \<and> ma_contract a = mo_contract m)"
    using assms(2) by (auto simp: aliasable_adapter_def repo_require_Inr_iff split: option.splits dest: session_get_Some)
  ultimately show ?thesis unfolding servable_def by blast
qed

lemma find_alias_Some:
  "find_alias task name tenant db = Inr (Some a) \<Longrightarrow>
    a \<in> set (db_aliases db) \<and> al_task a = task \<and> al_name a = name \<and> row_tenant a = tenant"
proof -
  let ?P = "\<lambda>a. al_task a = task \<and> al_name a = name \<and> row_tenant a = tenant"
  assume "find_alias task name tenant db = Inr (Some a)"
  then have "filter ?P (db_aliases db) = [a]" by (auto simp: find_alias_def split: list.splits)
  then have "a \<in> set (filter ?P (db_aliases db))" by simp
  then show ?thesis by simp
qed

lemma find_alias_None:
  "find_alias task name tenant db = Inr None \<Longrightarrow> (tenant, task, name) \<notin> alias_key ` set (db_aliases db)"
proof -
  let ?P = "\<lambda>a. al_task a = task \<and> al_name a = name \<and> row_tenant a = tenant"
  assume "find_alias task name tenant db = Inr None"
  then have "filter ?P (db_aliases db) = []" by (auto simp: find_alias_def split: list.splits)
  then show ?thesis by (auto simp: alias_key_def filter_empty_conv)
qed

lemma point_alias_effect: "reg_effect caller db (snd (point_alias action task mid aid name caller fresh db))"
  unfolding point_alias_def
proof (intro effect_attempt)
  fix u m adapter ab
  assume p: "require_promotion_authorization caller = Inr u" and m: "aliasable_model mid caller db = Inr m"
    and a: "aliasable_adapter m aid caller db = Inr adapter"
    and up: "upsert_alias task name (map_option tc_tenant caller) (row_id m) (map_option row_id adapter) fresh db = Inr ab"
  note ok = aliasable_servable [OF m a]
  obtain al db1 where ab: "ab = (al, db1)" by (cases ab)
  from up obtain ex where ex: "find_alias task name (map_option tc_tenant caller) db = Inr ex"
    by (auto simp: upsert_alias_def)
  have "reg_effect caller db (audit_record e db1)" for e
  proof (cases ex)
    case None
    with up ex ab have "db1 = db\<lparr>db_aliases := db_aliases db @ [al]\<rparr>" "row_id al \<notin> row_id ` set (db_aliases db)"
        and al: "al = \<lparr>row_id = fresh, row_tenant = map_option tc_tenant caller, al_task = task, al_name = name,
          al_model = row_id m, al_adapter = map_option row_id adapter\<rparr>"
      by (auto simp: upsert_alias_def session_add_def Let_def split: if_splits)
    moreover have "alias_key al \<notin> alias_key ` set (db_aliases db)"
      using find_alias_None [OF ex [unfolded None]] al by (simp add: alias_key_def)
    ultimately show ?thesis using p ok by (auto intro!: re_alias)
  next
    case (Some x)
    note x = find_alias_Some [OF ex [unfolded Some]]
    from up ex ab Some have "db1 = db\<lparr>db_aliases := row_set (db_aliases db) (row_id x)
        (\<lambda>y. y\<lparr>al_model := row_id m, al_adapter := map_option row_id adapter\<rparr>)\<rparr>"
      by (auto simp: upsert_alias_def Let_def)
    with x p ok show ?thesis by (auto intro!: re_repoint)
  qed
  then show "reg_effect caller db (snd (case ab of (a, db1) \<Rightarrow> (Inr a, audit_record
      (registry_event caller (map_option tc_tenant caller) action ''ModelAlias'' (row_id a)
          [(''alias_name'', JStr name), (''model_version_id'', JUuid (row_id m)),
           (''tenant_model_adapter_id'', case adapter of None \<Rightarrow> JNull | Some x \<Rightarrow> JUuid (row_id x))]) db1)))"
    by (simp add: ab)
qed

lemma transition_stage_effect: "reg_effect caller db (snd (transition_stage mid t caller db))"
  unfolding transition_stage_def
  by (intro effect_attempt) (auto intro!: re_stage dest!: get_for_stage_mutation_Inr)

lemma deactivate_model_effect: "reg_effect caller db (snd (deactivate_model_version mid caller db))"
  unfolding deactivate_model_version_def
  by (intro effect_attempt) (auto intro!: re_off dest!: get_for_stage_mutation_Inr)

lemma register_candidate_effect: "reg_effect None db (snd (register_candidate m db))"
  unfolding register_candidate_def Let_def
  by (intro effect_attempt) (auto intro!: re_register simp: session_add_def split: if_splits)

lemma register_adapter_effect: "reg_effect (Some ctx) db (snd (register_adapter_candidate a base ctx db))"
  unfolding register_adapter_candidate_def case_prod_beta
  by (intro effect_attempt) (auto intro!: re_adapter dest!: repo_add_Inr)

lemma transition_adapter_effect: "reg_effect (Some ctx) db (snd (transition_adapter_stage aid t ctx db))"
  unfolding transition_adapter_stage_def
  by (intro effect_attempt) (auto intro!: re_adapter_stage simp: repo_require_Inr_iff dest: session_get_Some)

lemma deactivate_adapter_effect: "reg_effect (Some ctx) db (snd (deactivate_adapter aid ctx db))"
  unfolding deactivate_adapter_def
  by (intro effect_attempt) (auto intro!: re_adapter_off simp: repo_require_Inr_iff dest: session_get_Some)

lemmas registry_effects =
  register_candidate_effect transition_stage_effect deactivate_model_effect register_adapter_effect
  transition_adapter_effect deactivate_adapter_effect

lemma reg_step_effect: "reg_step caller db db' \<Longrightarrow> reg_effect caller db db'"
  by (induction rule: reg_step.induct) (simp_all add: registry_effects set_alias_def rollback_alias_def point_alias_effect)

subsection \<open>Guarantees\<close>

text \<open>What holds of the three tables at any time.\<close>

definition registry_ok :: "'z reg_db_scheme \<Rightarrow> bool" where
  "registry_ok db \<longleftrightarrow> distinct (map row_id (db_models db)) \<and> distinct (map row_id (db_adapters db)) \<and>
     distinct (map row_id (db_aliases db)) \<and> distinct (map alias_key (db_aliases db)) \<and>
     (\<forall>al \<in> set (db_aliases db). servable (db_models db) (db_adapters db) (row_tenant al) (al_model al) (al_adapter al))"

text \<open>A change of a row that keeps what makes it servable.\<close>

lemma session_get_extend: "session_get t j = Some r \<Longrightarrow> session_get (t @ u) j = Some r"
  by (induction t) (auto simp: session_get_def)

lemma servable_mono:
  assumes "servable models adapters tenant mid aid"
    and "\<And>m. session_get models mid = Some m \<Longrightarrow> \<exists>m'. session_get models' mid = Some m' \<and> row_tenant m' = row_tenant m \<and>
      mo_ontology m' = mo_ontology m \<and> mo_contract m' = mo_contract m"
    and "\<And>i a. session_get adapters i = Some a \<Longrightarrow> \<exists>a'. session_get adapters' i = Some a' \<and> row_tenant a' = row_tenant a \<and>
      ma_ontology a' = ma_ontology a \<and> ma_contract a' = ma_contract a"
  shows "servable models' adapters' tenant mid aid"
proof -
  from assms(1) obtain m where m: "session_get models mid = Some m" "row_tenant m = None \<or> row_tenant m = tenant"
      and a: "case aid of None \<Rightarrow> True
         | Some i \<Rightarrow> tenant \<noteq> None \<and> (\<exists>a. session_get adapters i = Some a \<and> row_tenant a = tenant \<and>
             ma_ontology a = mo_ontology m \<and> ma_contract a = mo_contract m)"
    unfolding servable_def by blast
  from assms(2) [OF m(1)] obtain m' where m': "session_get models' mid = Some m'" "row_tenant m' = row_tenant m"
      "mo_ontology m' = mo_ontology m" "mo_contract m' = mo_contract m"
    by blast
  show ?thesis
  proof (cases aid)
    case None
    with m m' show ?thesis by (simp add: servable_def)
  next
    case (Some i)
    with a obtain x where "tenant \<noteq> None" "session_get adapters i = Some x" "row_tenant x = tenant"
        "ma_ontology x = mo_ontology m" "ma_contract x = mo_contract m"
      by auto
    with assms(3) [of i x] m m' Some show ?thesis unfolding servable_def by fastforce
  qed
qed

lemma servable_models_row_set:
  assumes "servable models adapters tenant mid aid"
    and "\<And>x. row_id (f x) = row_id x" and "\<And>x. row_tenant (f x) = row_tenant x"
    and "\<And>x. mo_ontology (f x) = mo_ontology x" and "\<And>x. mo_contract (f x) = mo_contract x"
  shows "servable (row_set models i f) adapters tenant mid aid"
  by (rule servable_mono [OF assms(1)]) (auto simp: session_get_row_set assms(2-5))

lemma servable_adapters_row_set:
  assumes "servable models adapters tenant mid aid"
    and "\<And>x. row_id (f x) = row_id x" and "\<And>x. row_tenant (f x) = row_tenant x"
    and "\<And>x. ma_ontology (f x) = ma_ontology x" and "\<And>x. ma_contract (f x) = ma_contract x"
  shows "servable models (row_set adapters i f) tenant mid aid"
  by (rule servable_mono [OF assms(1)]) (auto simp: session_get_row_set assms(2-5))

lemma servable_append:
  "servable models adapters tenant mid aid \<Longrightarrow> servable (models @ ms) (adapters @ as) tenant mid aid"
  by (rule servable_mono) (auto intro: session_get_extend)

lemma mem_row_set: "x \<in> set (row_set t i f) \<longleftrightarrow> (\<exists>y \<in> set t. x = (if row_id y = i then f y else y))"
  unfolding row_set_def set_map by blast

lemma map_row_set: "(\<And>x. g (f x) = g x) \<Longrightarrow> map g (row_set t i f) = map g t"
  by (simp add: row_set_def)

lemma registry_ok_effect:
  assumes "reg_effect caller db db'" and "registry_ok db"
  shows "registry_ok db'"
  using assms
proof (induction rule: reg_effect.induct)
  case (re_register m db e)
  then show ?case using servable_append [of "db_models db" "db_adapters db" _ _ _ "[m]" "[]"]
    by (auto simp: registry_ok_def audit_record_def)
next
  case (re_stage db mid m caller t e)
  then show ?case
    by (auto simp: registry_ok_def audit_record_def set_model_def intro: servable_models_row_set)
next
  case (re_off db mid m caller e)
  then show ?case
    by (auto simp: registry_ok_def audit_record_def set_model_def intro: servable_models_row_set)
next
  case (re_adapter a db ctx e)
  then show ?case using servable_append [of "db_models db" "db_adapters db" _ _ _ "[]" "[a]"]
    by (auto simp: registry_ok_def audit_record_def)
next
  case (re_adapter_stage db aid a ctx t e)
  then show ?case
    by (auto simp: registry_ok_def audit_record_def set_adapter_def intro: servable_adapters_row_set)
next
  case (re_adapter_off db aid a ctx e)
  then show ?case
    by (auto simp: registry_ok_def audit_record_def set_adapter_def intro: servable_adapters_row_set)
next
  case (re_alias caller al db e)
  then show ?case by (auto simp: registry_ok_def audit_record_def)
next
  case (re_repoint caller al db mid aid e)
  let ?f = "\<lambda>x. x\<lparr>al_model := mid, al_adapter := aid\<rparr>"
  have same: "x = al" if "x \<in> set (db_aliases db)" "row_id x = row_id al" for x
    using that re_repoint.hyps(2) re_repoint.prems by (auto simp: registry_ok_def distinct_map inj_on_def)
  have "servable (db_models db) (db_adapters db) (row_tenant y) (al_model y) (al_adapter y)"
    if "y \<in> set (row_set (db_aliases db) (row_id al) ?f)" for y
    using that re_repoint.hyps(4) re_repoint.prems by (auto simp: mem_row_set registry_ok_def dest: same split: if_splits)
  then show ?case using re_repoint.prems
    by (simp add: registry_ok_def audit_record_def map_row_set alias_key_def)
qed simp

inductive reg_run :: "'z reg_db_scheme \<Rightarrow> 'z reg_db_scheme \<Rightarrow> bool" where
  rr_refl: "reg_run db db"
| rr_step: "reg_run db db' \<Longrightarrow> reg_step caller db' db'' \<Longrightarrow> reg_run db db''"

lemma registry_ok_run: "reg_run db db' \<Longrightarrow> registry_ok db \<Longrightarrow> registry_ok db'"
  by (induction rule: reg_run.induct) (auto intro: registry_ok_effect reg_step_effect)

lemma registry_ok_start: "db_models db = [] \<Longrightarrow> db_adapters db = [] \<Longrightarrow> db_aliases db = [] \<Longrightarrow> registry_ok db"
  by (simp add: registry_ok_def)

lemma find_alias_unique:
  assumes "distinct (map alias_key (db_aliases db))"
  shows "\<exists>r. find_alias task name tenant db = Inr r"
proof -
  let ?xs = "filter (\<lambda>a. al_task a = task \<and> al_name a = name \<and> row_tenant a = tenant) (db_aliases db)"
  have "alias_key a = (tenant, task, name)" if "a \<in> set ?xs" for a using that by (simp add: alias_key_def)
  moreover have "distinct (map alias_key ?xs)" using assms by (simp add: distinct_map_filter)
  ultimately have "length ?xs \<le> 1" by (cases ?xs rule: remdups_adj.cases) auto
  then show ?thesis by (cases ?xs rule: remdups_adj.cases) (auto simp: find_alias_def)
qed

text \<open>
  C10: the registry service refines its policy. Whatever an operation is called with, and whether
  it returns or raises, the change it makes is one the policy allows its caller: new rows start
  as candidates, stages move along valid transitions, a promotion or a change of an alias needs
  the permission to promote, and a tenant's call touches shared rows and its own only.
\<close>

theorem registry_refines_policy:
  "reg_effect None db (snd (register_candidate m db)) \<and>
   reg_effect caller db (snd (transition_stage mid t caller db)) \<and>
   reg_effect caller db (snd (deactivate_model_version mid caller db)) \<and>
   reg_effect (Some ctx) db (snd (register_adapter_candidate a base ctx db)) \<and>
   reg_effect (Some ctx) db (snd (transition_adapter_stage aid t ctx db)) \<and>
   reg_effect (Some ctx) db (snd (deactivate_adapter aid ctx db)) \<and>
   reg_effect caller db (snd (set_alias task mid aid' name caller fresh db)) \<and>
   reg_effect caller db (snd (rollback_alias task mid aid' name caller fresh db))"
  by (intro conjI registry_effects) (simp_all add: set_alias_def rollback_alias_def point_alias_effect)

text \<open>
  C11: aliases stay sound. In every state that calls of the registry reach from empty tables, an
  alias names a model that exists and is shared or of the alias's tenant, and an adapter of that
  tenant with the model's ontology and feature-contract versions, if any; keys are unique; and
  resolving a name for a tenant never raises and yields the tenant's own alias, or a shared one
  only when the tenant has none.
\<close>

theorem aliases_stay_sound:
  assumes "reg_run db0 db" and "db_models db0 = []" and "db_adapters db0 = []" and "db_aliases db0 = []"
  shows "(\<forall>al \<in> set (db_aliases db).
      servable (db_models db) (db_adapters db) (row_tenant al) (al_model al) (al_adapter al)) \<and>
    distinct (map alias_key (db_aliases db)) \<and>
    (\<exists>r. resolve_alias task ctx name db = Inr r \<and>
      (\<forall>al. r = Some al \<longrightarrow> al \<in> set (db_aliases db) \<and> al_task al = task \<and> al_name al = name \<and>
         (row_tenant al = Some (tc_tenant ctx) \<or> row_tenant al = None \<and>
            (Some (tc_tenant ctx), task, name) \<notin> alias_key ` set (db_aliases db))))"
proof -
  have ok: "registry_ok db" using registry_ok_run [OF assms(1)] registry_ok_start [OF assms(2-4)] .
  then have d: "distinct (map alias_key (db_aliases db))" by (simp add: registry_ok_def)
  obtain own where own: "find_alias task name (Some (tc_tenant ctx)) db = Inr own" using find_alias_unique [OF d] by blast
  obtain shared where shared: "find_alias task name None db = Inr shared" using find_alias_unique [OF d] by blast
  have "\<exists>r. resolve_alias task ctx name db = Inr r \<and>
      (\<forall>al. r = Some al \<longrightarrow> al \<in> set (db_aliases db) \<and> al_task al = task \<and> al_name al = name \<and>
         (row_tenant al = Some (tc_tenant ctx) \<or> row_tenant al = None \<and>
            (Some (tc_tenant ctx), task, name) \<notin> alias_key ` set (db_aliases db)))"
  proof (cases own)
    case None
    with own shared show ?thesis using find_alias_None [of task name "Some (tc_tenant ctx)" db]
      by (auto simp: resolve_alias_def resolve_for_tenant_def dest: find_alias_Some)
  next
    case (Some al)
    with own find_alias_Some [of task name "Some (tc_tenant ctx)" db al] show ?thesis
      by (simp add: resolve_alias_def resolve_for_tenant_def)
  qed
  with ok d show ?thesis by (simp add: registry_ok_def)
qed

subsection \<open>Tenants do not touch one another's models\<close>

text \<open>The private rows of a tenant: models, adapters and aliases.\<close>

definition registry_view :: "uuid \<Rightarrow> 'z reg_db_scheme \<Rightarrow> model_version list \<times> model_adapter list \<times> model_alias list" where
  "registry_view c db = (rows_of c (db_models db), rows_of c (db_adapters db), rows_of c (db_aliases db))"

lemma registry_view_effect:
  assumes "reg_effect (Some ctx) db db'" and "registry_ok db" and "c \<noteq> tc_tenant ctx"
  shows "registry_view c db' = registry_view c db"
  using assms(1)
proof (cases rule: reg_effect.cases)
  case (re_stage mid m t e)
  have "row_tenant r \<noteq> Some c" if "r \<in> set (db_models db)" "row_id r = mid" for r
    using that re_stage session_get_distinct [of "db_models db" r] assms(2,3) by (auto simp: registry_ok_def model_visible_def)
  with re_stage show ?thesis by (simp add: registry_view_def audit_record_def set_model_def rows_of_row_set_other)
next
  case (re_off mid m e)
  have "row_tenant r \<noteq> Some c" if "r \<in> set (db_models db)" "row_id r = mid" for r
    using that re_off session_get_distinct [of "db_models db" r] assms(2,3) by (auto simp: registry_ok_def model_visible_def)
  with re_off show ?thesis by (simp add: registry_view_def audit_record_def set_model_def rows_of_row_set_other)
next
  case (re_adapter_stage aid a t e)
  have "row_tenant r \<noteq> Some c" if "r \<in> set (db_adapters db)" "row_id r = aid" for r
    using that re_adapter_stage session_get_distinct [of "db_adapters db" r] assms(2,3) by (auto simp: registry_ok_def)
  with re_adapter_stage show ?thesis by (simp add: registry_view_def audit_record_def set_adapter_def rows_of_row_set_other)
next
  case (re_adapter_off aid a e)
  have "row_tenant r \<noteq> Some c" if "r \<in> set (db_adapters db)" "row_id r = aid" for r
    using that re_adapter_off session_get_distinct [of "db_adapters db" r] assms(2,3) by (auto simp: registry_ok_def)
  with re_adapter_off show ?thesis by (simp add: registry_view_def audit_record_def set_adapter_def rows_of_row_set_other)
next
  case (re_repoint al mid aid e)
  from assms(2) have inj: "inj_on row_id (set (db_aliases db))" by (simp add: registry_ok_def distinct_map)
  have "row_tenant r \<noteq> Some c" if "r \<in> set (db_aliases db)" "row_id r = row_id al" for r
  proof -
    have "r = al" using inj_onD [OF inj that(2,1) re_repoint(3)] .
    with re_repoint(4) assms(3) show ?thesis by simp
  qed
  with re_repoint show ?thesis by (simp add: registry_view_def audit_record_def rows_of_row_set_other)
qed (use assms(3) in \<open>auto simp: registry_view_def audit_record_def\<close>)

text \<open>
  Tenants cannot touch one another's models. In any state the registry reaches, a call in
  the context of one tenant leaves every model, adapter and alias of another tenant as it was,
  whatever identifiers it passes.
\<close>

theorem registry_isolates_tenants:
  assumes "reg_run db0 db" and "db_models db0 = []" and "db_adapters db0 = []" and "db_aliases db0 = []"
    and "reg_step (Some ctx) db db'" and "c \<noteq> tc_tenant ctx"
  shows "rows_of c (db_models db') = rows_of c (db_models db) \<and>
    rows_of c (db_adapters db') = rows_of c (db_adapters db) \<and> rows_of c (db_aliases db') = rows_of c (db_aliases db)"
  using registry_view_effect [OF reg_step_effect [OF assms(5)] registry_ok_run [OF assms(1) registry_ok_start [OF assms(2-4)]] assms(6)]
  by (simp add: registry_view_def)

subsection \<open>What is served\<close>

definition may_serve :: "uuid \<Rightarrow> tenant_context \<Rightarrow> model_version \<Rightarrow> bool" where
  "may_serve task ctx m \<longleftrightarrow> mo_task m = task \<and> mo_stage m = PRODUCTION \<and> mo_live m \<and>
     (row_tenant m = None \<or> row_tenant m = Some (tc_tenant ctx))"

lemma production_model_Some:
  assumes "get_production_model task ctx db = Some m"
  shows "m \<in> set (db_models db) \<and> may_serve task ctx m \<and>
    (row_tenant m = None \<longrightarrow> (\<forall>m' \<in> set (db_models db). may_serve task ctx m' \<longrightarrow> row_tenant m' = None))"
proof -
  let ?c = "filter (may_serve task ctx) (db_models db)"
  let ?p = "filter (\<lambda>m. row_tenant m = Some (tc_tenant ctx)) ?c"
  have eq: "get_production_model task ctx db = (case ?p of m # _ \<Rightarrow> Some m | [] \<Rightarrow> (case ?c of [] \<Rightarrow> None | m # _ \<Rightarrow> Some m))"
    unfolding get_production_model_def Let_def may_serve_def by simp
  show ?thesis
  proof (cases ?p)
    case Nil
    with assms eq obtain rest where "?c = m # rest" by (auto split: list.splits)
    then have "m \<in> set ?c" by simp
    moreover have "row_tenant m' = None" if "m' \<in> set ?c" for m'
      using Nil that unfolding filter_empty_conv by (auto simp: may_serve_def)
    ultimately show ?thesis by auto
  next
    case (Cons x rest)
    with assms eq have "x = m" by simp
    with Cons have "m \<in> set ?p" by simp
    then show ?thesis by auto
  qed
qed

lemma production_model_live:
  "get_production_model task ctx db = Some m \<Longrightarrow> m \<in> set (db_models db) \<and> mo_live m"
  using production_model_Some unfolding may_serve_def by blast

lemma production_model_None:
  "get_production_model task ctx db = None \<Longrightarrow> m \<in> set (db_models db) \<Longrightarrow> \<not> may_serve task ctx m"
  by (auto simp: get_production_model_def Let_def may_serve_def filter_empty_conv split: list.splits)

text \<open>A model that is archived or switched off.\<close>

definition retired :: "model_version \<Rightarrow> bool" where
  "retired m \<longleftrightarrow> mo_stage m = ARCHIVED \<or> \<not> mo_live m"

lemma retired_effect:
  assumes "reg_effect caller db db'" and "session_get (db_models db) mid = Some m" and "retired m"
  shows "\<exists>m'. session_get (db_models db') mid = Some m' \<and> retired m'"
  using assms
proof (cases rule: reg_effect.cases)
  case (re_register x e)
  with assms show ?thesis by (simp add: audit_record_def session_get_extend)
next
  case (re_stage i x t e)
  then have "i = mid \<Longrightarrow> mo_stage m \<noteq> ARCHIVED" using assms(2) by (auto simp: may_move_def)
  with re_stage assms show ?thesis
    by (auto simp: audit_record_def set_model_def session_get_row_set retired_def dest: session_get_Some)
next
  case (re_off i x e)
  with assms show ?thesis by (auto simp: audit_record_def set_model_def session_get_row_set retired_def)
qed (use assms in \<open>auto simp: audit_record_def set_adapter_def\<close>)

lemma retired_run:
  "reg_run db db' \<Longrightarrow> session_get (db_models db) mid = Some m \<Longrightarrow> retired m \<Longrightarrow>
    \<exists>m'. session_get (db_models db') mid = Some m' \<and> retired m'"
proof (induction rule: reg_run.induct)
  case (rr_step db db' caller db'')
  then obtain m' where "session_get (db_models db') mid = Some m'" "retired m'" by blast
  with retired_effect [OF reg_step_effect [OF rr_step.hyps(2)]] show ?case by blast
qed blast

lemma retired_not_served:
  assumes "registry_ok db" and "session_get (db_models db) mid = Some m" and "retired m"
  shows "get_production_model task ctx db = Some x \<Longrightarrow> row_id x \<noteq> mid"
    and "aliasable_model mid caller db = Inl (ValueError ''is inactive or archived and cannot be aliased'')"
proof -
  assume x: "get_production_model task ctx db = Some x"
  show "row_id x \<noteq> mid"
  proof
    assume "row_id x = mid"
    with production_model_Some [OF x] session_get_distinct [of "db_models db" x] assms have "x = m" by (auto simp: registry_ok_def)
    with production_model_Some [OF x] assms(3) show False by (simp add: may_serve_def retired_def)
  qed
next
  show "aliasable_model mid caller db = Inl (ValueError ''is inactive or archived and cannot be aliased'')"
    using assms(2,3) by (auto simp: aliasable_model_def retired_def)
qed

text \<open>
  C26: a retired model never comes back. Once a model is archived or deactivated, no sequence of
  calls, by whatever callers, makes it the production model of a task for any tenant again, and
  no call points an alias at it.
\<close>

theorem retired_models_stay_retired:
  assumes "reg_run db0 db" and "db_models db0 = []" and "db_adapters db0 = []" and "db_aliases db0 = []"
    and "session_get (db_models db) mid = Some m" and "mo_stage m = ARCHIVED \<or> \<not> mo_live m" and "reg_run db db'"
  shows "(\<forall>x. get_production_model task ctx db' = Some x \<longrightarrow> row_id x \<noteq> mid) \<and>
    (\<exists>e. set_alias t mid aid name caller fresh db' = (Inl e, db'))"
proof -
  from retired_run [OF assms(7,5)] assms(6) obtain m' where m': "session_get (db_models db') mid = Some m'" "retired m'"
    by (auto simp: retired_def)
  have ok: "registry_ok db'" using registry_ok_run [OF assms(7) registry_ok_run [OF assms(1) registry_ok_start [OF assms(2-4)]]] .
  have "\<exists>e. set_alias t mid aid name caller fresh db' = (Inl e, db')"
    using retired_not_served(2) [OF ok m', of caller]
    by (auto simp: set_alias_def point_alias_def attempt_def split: sum.split)
  with retired_not_served(1) [OF ok m'] show ?thesis by blast
qed

text \<open>
  Any tenant can take a shared model out of service. Deactivating a shared model needs no
  permission: called in the context of any tenant, with any scopes, it succeeds, and afterwards
  the model is served to no tenant.
\<close>

theorem any_tenant_retires_shared_model:
  assumes "session_get (db_models db) mid = Some m" and "row_tenant m = None" and "distinct (map row_id (db_models db))"
  shows "\<exists>db'. deactivate_model_version mid (Some ctx) db = (Inr (m\<lparr>mo_live := False\<rparr>), db') \<and>
    (\<forall>task ctx' x. get_production_model task ctx' db' = Some x \<longrightarrow> row_id x \<noteq> mid)"
proof -
  let ?db = "snd (deactivate_model_version mid (Some ctx) db)"
  from assms have run: "deactivate_model_version mid (Some ctx) db = (Inr (m\<lparr>mo_live := False\<rparr>), ?db)"
    and models: "db_models ?db = row_set (db_models db) mid (\<lambda>x. x\<lparr>mo_live := False\<rparr>)"
    by (auto simp: deactivate_model_version_def get_for_stage_mutation_def require_available_for_tenant_def
        get_available_for_tenant_def audit_record_def set_model_def dest: session_get_Some)
  have "row_id x \<noteq> mid" if "get_production_model task ctx' ?db = Some x" for task ctx' x
  proof -
    from production_model_live [OF that] obtain y where "x = (if row_id y = mid then y\<lparr>mo_live := False\<rparr> else y)" "mo_live x"
      unfolding models mem_row_set by blast
    then show ?thesis by (cases "row_id y = mid") simp_all
  qed
  with run show ?thesis by blast
qed

subsection \<open>An example\<close>

definition sample_model :: model_version where
  "sample_model = \<lparr>row_id = 40, row_tenant = None, mo_name = ''delay'', mo_label = ''1'', mo_task = 50, mo_stage = STAGING,
     mo_uri = ''runs'', mo_checksum = ''abc'', mo_run = None, mo_ontology = ''1'', mo_contract = ''1'', mo_live = True\<rparr>"

definition promoter :: tenant_context where
  "promoter = sample_ctx\<lparr>tc_scopes := {''model:promote''}\<rparr>"

definition reg_db0 :: reg_db where
  "reg_db0 = map_db.extend map_db4 \<lparr>db_models = [], db_adapters = [], db_aliases = []\<rparr>"

definition reg_db1 :: reg_db where
  "reg_db1 = snd (register_candidate sample_model reg_db0)"

definition reg_db2 :: reg_db where
  "reg_db2 = snd (transition_stage 40 PRODUCTION None (snd (transition_stage 40 STAGING None reg_db1)))"

definition reg_db3 :: reg_db where
  "reg_db3 = snd (set_alias 50 40 None ''production'' (Some promoter) 60 reg_db2)"

definition reg_db4 :: reg_db where
  "reg_db4 = snd (deactivate_model_version 40 (Some sample_ctx) reg_db3)"

lemma reg_db0_empty: "db_models reg_db0 = []" "db_adapters reg_db0 = []" "db_aliases reg_db0 = []"
  by (simp_all add: reg_db0_def map_db.defs)

lemma reg_db2_run: "reg_run reg_db0 reg_db2"
  unfolding reg_db2_def reg_db1_def by (intro rr_step [OF _ rs_transition] rr_step [OF _ rs_register] rr_refl)

lemma reg_db3_run: "reg_run reg_db0 reg_db3"
  unfolding reg_db3_def by (intro rr_step [OF _ rs_set] reg_db2_run)

lemma reg_db4_run: "reg_run reg_db0 reg_db4"
  unfolding reg_db4_def by (intro rr_step [OF _ rs_deactivate] reg_db3_run)

theorem aliases_stay_sound_witness:
  "\<exists>al. db_aliases reg_db3 = [al] \<and> row_tenant al = Some 1 \<and> al_model al = 40 \<and>
    servable (db_models reg_db3) (db_adapters reg_db3) (Some 1) 40 None"
proof -
  have "map row_tenant (db_aliases reg_db3) = [Some 1]" "map al_model (db_aliases reg_db3) = [40]"
      "map al_adapter (db_aliases reg_db3) = [None]"
    by code_simp+
  then obtain al where al: "db_aliases reg_db3 = [al]" "row_tenant al = Some 1" "al_model al = 40" "al_adapter al = None"
    by auto
  with aliases_stay_sound [OF reg_db3_run reg_db0_empty] show ?thesis by (metis list.set_intros(1))
qed

theorem registry_isolates_tenants_witness:
  "rows_of 2 (db_models reg_db4) = rows_of 2 (db_models reg_db3) \<and> map mo_live (db_models reg_db4) = [False]"
proof -
  have "reg_step (Some sample_ctx) reg_db3 reg_db4" unfolding reg_db4_def by (rule rs_deactivate)
  moreover have "2 \<noteq> tc_tenant sample_ctx" by (simp add: sample_ctx_def)
  moreover have "map mo_live (db_models reg_db4) = [False]" by code_simp
  ultimately show ?thesis using registry_isolates_tenants [OF reg_db3_run reg_db0_empty] by blast
qed

theorem retired_models_stay_retired_witness:
  "map mo_live (db_models reg_db4) = [False] \<and> get_production_model 50 promoter reg_db3 \<noteq> None \<and>
   (\<exists>e. set_alias 50 40 None ''production'' (Some promoter) 61 reg_db4 = (Inl e, reg_db4))"
proof -
  have live: "map mo_live (db_models reg_db4) = [False]" "map row_id (db_models reg_db4) = [40]" by code_simp+
  then obtain m where "db_models reg_db4 = [m]" "row_id m = 40" "\<not> mo_live m" by auto
  then have "session_get (db_models reg_db4) 40 = Some m" "mo_stage m = ARCHIVED \<or> \<not> mo_live m"
    by (simp_all add: session_get_def)
  from retired_models_stay_retired [OF reg_db4_run reg_db0_empty this rr_refl] live(1)
  have "\<exists>e. set_alias 50 40 None ''production'' (Some promoter) 61 reg_db4 = (Inl e, reg_db4)" by blast
  moreover have "get_production_model 50 promoter reg_db3 \<noteq> None" by code_simp
  ultimately show ?thesis using live(1) by blast
qed

theorem any_tenant_retires_shared_model_witness:
  "tc_scopes sample_ctx \<inter> {''model:promote''} = {} \<and>
   (\<exists>db'. deactivate_model_version 40 (Some sample_ctx) reg_db3 = (Inr (sample_model\<lparr>mo_stage := PRODUCTION, mo_live := False\<rparr>), db') \<and>
     map_option row_id (get_production_model 50 promoter reg_db3) = Some 40 \<and>
     map_option row_id (get_production_model 50 promoter db') \<noteq> Some 40)"
proof -
  have m: "session_get (db_models reg_db3) 40 = Some (sample_model\<lparr>mo_stage := PRODUCTION\<rparr>)" by code_simp
  have t: "row_tenant (sample_model\<lparr>mo_stage := PRODUCTION\<rparr>) = None" by (simp add: sample_model_def)
  have d: "distinct (map row_id (db_models reg_db3))" by code_simp
  have before: "map_option row_id (get_production_model 50 promoter reg_db3) = Some 40" by code_simp
  from any_tenant_retires_shared_model [OF m t d, of sample_ctx] obtain db' where
      "deactivate_model_version 40 (Some sample_ctx) reg_db3 = (Inr (sample_model\<lparr>mo_stage := PRODUCTION, mo_live := False\<rparr>), db')"
      "map_option row_id (get_production_model 50 promoter db') \<noteq> Some 40" by auto
  moreover have "tc_scopes sample_ctx \<inter> {''model:promote''} = {}" by code_simp
  ultimately show ?thesis using before by blast
qed

end
