(* ===== verification/Resilience.thy ===== *)
theory Resilience
  imports Errors
begin

section \<open>Timeouts, retries and the circuit breaker\<close>

text \<open>
  \<open>hermes_rpt/inference/resilience.py\<close>. An operation runs in a world \<open>'w\<close> that has a clock in
  microseconds (\<open>clock\<close>) and in which one can sleep (\<open>sleep\<close>); it returns or raises and leaves
  a new world. A cancelled operation leaves the world it had reached when it was waited for.
  Every exception of the model is one that \<open>except Exception\<close> catches.
\<close>

type_synonym ('w, 'a) operation = "'w \<Rightarrow> (exn + 'a) \<times> 'w"

definition with_timeout :: "('w \<Rightarrow> int) \<Rightarrow> int \<Rightarrow> ('w, 'a) operation \<Rightarrow> ('w, 'a) operation" where
  "with_timeout clock limit op w =
     (case op w of (r, w') \<Rightarrow>
        if clock w' - clock w > limit \<or> r = Inl (ExternalError ''TimeoutError'') then (Inl TimeoutExceededError, w')
        else (r, w'))"

subsection \<open>Retries\<close>

record retry_config =
  rc_attempts :: nat
  rc_initial :: rat
  rc_multiplier :: rat

fun retry_loop ::
  "(rat \<Rightarrow> 'w \<Rightarrow> 'w) \<Rightarrow> (exn \<Rightarrow> bool) \<Rightarrow> rat \<Rightarrow> ('w, 'a) operation \<Rightarrow> nat \<Rightarrow> rat \<Rightarrow> ('w, 'a) operation" where
  "retry_loop sleep retryable factor op 0 delay w = (Inl AssertionError, w)"
| "retry_loop sleep retryable factor op (Suc n) delay w =
     (case op w of
        (Inr v, w') \<Rightarrow> (Inr v, w')
      | (Inl e, w') \<Rightarrow>
          if \<not> retryable e \<or> n = 0 then (Inl e, w')
          else retry_loop sleep retryable factor op n (delay * factor) (sleep delay w'))"

definition retry_with_backoff ::
  "(rat \<Rightarrow> 'w \<Rightarrow> 'w) \<Rightarrow> (exn \<Rightarrow> bool) \<Rightarrow> retry_config \<Rightarrow> ('w, 'a) operation \<Rightarrow> ('w, 'a) operation" where
  "retry_with_backoff sleep retryable cfg op =
     retry_loop sleep retryable (rc_multiplier cfg) op (rc_attempts cfg) (rc_initial cfg)"

subsection \<open>The circuit breaker\<close>

datatype circuit_state = CLOSED | OPEN | HALF_OPEN

record breaker =
  cb_threshold :: int
  cb_reset :: int
  cb_state :: circuit_state
  cb_failures :: int
  cb_opened :: "int option"

definition new_breaker :: "int \<Rightarrow> int \<Rightarrow> breaker" where
  "new_breaker threshold reset =
     \<lparr>cb_threshold = threshold, cb_reset = reset, cb_state = CLOSED, cb_failures = 0, cb_opened = None\<rparr>"

text \<open>Reading the state moves an open breaker to half-open once the reset time has passed.\<close>

definition read_state :: "int \<Rightarrow> breaker \<Rightarrow> breaker" where
  "read_state now b =
     (case cb_opened b of
        None \<Rightarrow> b
      | Some t \<Rightarrow> if cb_state b = OPEN \<and> now - t \<ge> cb_reset b then b\<lparr>cb_state := HALF_OPEN\<rparr> else b)"

definition on_success :: "breaker \<Rightarrow> breaker" where
  "on_success b = b\<lparr>cb_failures := 0, cb_state := CLOSED, cb_opened := None\<rparr>"

definition on_failure :: "int \<Rightarrow> breaker \<Rightarrow> breaker" where
  "on_failure now b =
     (let b1 = b\<lparr>cb_failures := cb_failures b + 1\<rparr>
      in if cb_failures b1 \<ge> cb_threshold b1 then b1\<lparr>cb_state := OPEN, cb_opened := Some now\<rparr> else b1)"

text \<open>The breaker is part of the state of the call, beside the world.\<close>

definition breaker_call :: "('w \<Rightarrow> int) \<Rightarrow> ('w, 'a) operation \<Rightarrow> (breaker \<times> 'w, 'a) operation" where
  "breaker_call clock op bw =
     (case bw of (b0, w) \<Rightarrow>
        (let b = read_state (clock w) b0
         in if cb_state b = OPEN then (Inl CircuitOpenError, (b, w))
            else (case op w of
                (Inr v, w') \<Rightarrow> (Inr v, (on_success b, w'))
              | (Inl e, w') \<Rightarrow> (Inl e, (on_failure (clock w') b, w')))))"

subsection \<open>Retries are bounded and back off\<close>

text \<open>
  A reference for the loop: the outcomes of the attempts in order, each with the world it
  started from. The loop stops at the first success, at the first error it must not retry, or
  when the attempts are used up.
\<close>

fun attempts ::
  "(rat \<Rightarrow> 'w \<Rightarrow> 'w) \<Rightarrow> (exn \<Rightarrow> bool) \<Rightarrow> rat \<Rightarrow> ('w, 'a) operation \<Rightarrow> nat \<Rightarrow> rat \<Rightarrow> 'w \<Rightarrow> (rat \<times> (exn + 'a)) list" where
  "attempts sleep retryable factor op 0 delay w = []"
| "attempts sleep retryable factor op (Suc n) delay w =
     (case op w of (r, w') \<Rightarrow> (delay, r) #
        (case r of Inr v \<Rightarrow> [] | Inl e \<Rightarrow>
           if retryable e then attempts sleep retryable factor op n (delay * factor) (sleep delay w') else []))"

lemma attempts_length: "length (attempts sleep retryable factor op n delay w) \<le> n"
  by (induction n arbitrary: delay w) (auto split: prod.split sum.split)

lemma attempts_nonempty: "attempts sleep retryable factor op n delay w = [] \<longleftrightarrow> n = 0"
  by (cases n) (auto split: prod.split)

lemma attempts_delays:
  "i < length (attempts sleep retryable factor op n delay w) \<Longrightarrow>
    fst (attempts sleep retryable factor op n delay w ! i) = delay * factor ^ i"
proof (induction n arbitrary: delay w i)
  case (Suc n)
  then show ?case by (cases i) (auto split: prod.splits sum.splits if_splits)
qed simp

lemma attempts_fail_before_last:
  "i + 1 < length (attempts sleep retryable factor op n delay w) \<Longrightarrow>
    \<exists>e. snd (attempts sleep retryable factor op n delay w ! i) = Inl e \<and> retryable e"
proof (induction n arbitrary: delay w i)
  case (Suc n)
  then show ?case by (cases i) (auto split: prod.splits sum.splits if_splits)
qed simp

lemma retry_loop_last:
  "0 < n \<Longrightarrow> fst (retry_loop sleep retryable factor op n delay w) =
    snd (last (attempts sleep retryable factor op n delay w))"
proof (induction n arbitrary: delay w)
  case (Suc n)
  then show ?case by (cases "n = 0") (auto simp: attempts_nonempty split: prod.split sum.split)
qed simp

lemma attempts_exhausted:
  "length (attempts sleep retryable factor op n delay w) < n \<Longrightarrow>
    (\<exists>v. snd (last (attempts sleep retryable factor op n delay w)) = Inr v) \<or>
    (\<exists>e. snd (last (attempts sleep retryable factor op n delay w)) = Inl e \<and> \<not> retryable e)"
proof (induction n arbitrary: delay w)
  case (Suc n)
  obtain r w' where r: "op w = (r, w')" by (cases "op w")
  show ?case
  proof (cases r)
    case (Inl e)
    show ?thesis
    proof (cases "retryable e")
      case True
      with Suc.prems r Inl have "length (attempts sleep retryable factor op n (delay * factor) (sleep delay w')) < n" by simp
      moreover from this have "n \<noteq> 0" by simp
      ultimately show ?thesis using Suc.IH r Inl True by (auto simp: attempts_nonempty)
    qed (use r Inl in simp)
  qed (use r in simp)
qed simp

text \<open>The same loop with a counter of the runs of the operation.\<close>

definition counted :: "('w, 'a) operation \<Rightarrow> (nat \<times> 'w, 'a) operation" where
  "counted op kw = (case op (snd kw) of (r, w') \<Rightarrow> (r, (fst kw + 1, w')))"

lemma retry_loop_runs:
  "fst (snd (retry_loop (\<lambda>d. map_prod id (sleep d)) retryable factor (counted op) n delay (k, w))) =
    k + length (attempts sleep retryable factor op n delay w)"
proof (induction n arbitrary: delay k w)
  case (Suc n)
  obtain r w' where r: "op w = (r, w')" by (cases "op w")
  have none: "attempts sleep retryable factor op 0 d x = []" for d x by simp
  show ?case
  proof (cases r)
    case (Inl e)
    with r Suc.IH [of "delay * factor" "Suc k" "sleep delay w'"] show ?thesis
      by (cases "n = 0") (auto simp: counted_def)
  qed (use r in \<open>simp add: counted_def\<close>)
qed simp

text \<open>
  C27: retries are bounded. With a positive number of attempts, the operation is run at least once
  and at most that many times; every run but the last failed with an error that may be retried;
  the delay before run i+1 is the initial one times the multiplier to the i; the outcome is that
  of the last run; a counter of the runs agrees; and if fewer runs were made than allowed, it is a success or an error that
  must not be retried.
\<close>

theorem retry_is_bounded:
  assumes "0 < rc_attempts cfg" and "runs = attempts sleep retryable (rc_multiplier cfg) op (rc_attempts cfg) (rc_initial cfg) w"
  shows "runs \<noteq> [] \<and> length runs \<le> rc_attempts cfg \<and>
    (\<forall>i. i + 1 < length runs \<longrightarrow> (\<exists>e. snd (runs ! i) = Inl e \<and> retryable e)) \<and>
    (\<forall>i < length runs. fst (runs ! i) = rc_initial cfg * rc_multiplier cfg ^ i) \<and>
    fst (retry_with_backoff sleep retryable cfg op w) = snd (last runs) \<and>
    fst (snd (retry_with_backoff (\<lambda>d. map_prod id (sleep d)) retryable cfg (counted op) (0, w))) = length runs \<and>
    (length runs < rc_attempts cfg \<longrightarrow> (\<forall>e. snd (last runs) = Inl e \<longrightarrow> \<not> retryable e))"
proof -
  have last: "fst (retry_with_backoff sleep retryable cfg op w) = snd (last runs)"
    unfolding assms(2) retry_with_backoff_def by (rule retry_loop_last [OF assms(1)])
  have count: "fst (snd (retry_with_backoff (\<lambda>d. map_prod id (sleep d)) retryable cfg (counted op) (0, w))) = length runs"
    unfolding assms(2) retry_with_backoff_def retry_loop_runs by simp
  have early: "\<forall>e. snd (last runs) = Inl e \<longrightarrow> \<not> retryable e" if "length runs < rc_attempts cfg"
    using attempts_exhausted [of sleep retryable "rc_multiplier cfg" op "rc_attempts cfg" "rc_initial cfg" w] that
    unfolding assms(2) by auto
  show ?thesis
    using last count early assms(1) attempts_length [of sleep retryable "rc_multiplier cfg" op "rc_attempts cfg" "rc_initial cfg" w]
      attempts_nonempty [of sleep retryable "rc_multiplier cfg" op "rc_attempts cfg" "rc_initial cfg" w]
    unfolding assms(2) by (intro conjI allI impI) (simp_all add: attempts_delays attempts_fail_before_last)
qed

definition flaky :: "(nat, int) operation" where
  "flaky n = (if n < 2 then (Inl (ExternalError ''down''), n + 1) else (Inr 7, n + 1))"

theorem retry_is_bounded_witness:
  "fst (snd (retry_with_backoff (\<lambda>d. map_prod id id) (\<lambda>_. True)
     \<lparr>rc_attempts = 5, rc_initial = 1 / 10, rc_multiplier = 2\<rparr> (counted flaky) (0, 0))) = 3"
proof -
  let ?cfg = "\<lparr>rc_attempts = 5, rc_initial = 1 / 10, rc_multiplier = 2\<rparr>"
  have "0 < rc_attempts ?cfg" by simp
  from retry_is_bounded [OF this refl, of "\<lambda>_. id" "\<lambda>_. True" flaky 0]
  have "fst (snd (retry_with_backoff (\<lambda>d. map_prod id id) (\<lambda>_. True) ?cfg (counted flaky) (0, 0))) =
      length (attempts (\<lambda>_. id) (\<lambda>_. True) (rc_multiplier ?cfg) flaky (rc_attempts ?cfg) (rc_initial ?cfg) 0)"
    by blast
  also have "\<dots> = 3" by (simp add: numeral_eq_Suc flaky_def)
  finally show ?thesis .
qed

subsection \<open>What the breaker promises\<close>

text \<open>
  The history of a breaker, newest call first: when each call that reached the dependency ended
  and whether it succeeded. Calls of the operations \<open>ops\<close> may come in any world, and the state may be read in between.
\<close>

inductive breaker_trace ::
  "('w, 'a) operation set \<Rightarrow> ('w \<Rightarrow> int) \<Rightarrow> int \<Rightarrow> int \<Rightarrow> (int \<times> bool) list \<Rightarrow> breaker \<Rightarrow> bool"
  for ops :: "('w, 'a) operation set" and clock :: "'w \<Rightarrow> int" and threshold :: int and reset :: int where
  bt_new: "breaker_trace ops clock threshold reset [] (new_breaker threshold reset)"
| bt_read: "breaker_trace ops clock threshold reset h b \<Longrightarrow> breaker_trace ops clock threshold reset h (read_state now b)"
| bt_call: "breaker_trace ops clock threshold reset h b \<Longrightarrow> op \<in> ops \<Longrightarrow>
    breaker_call clock op (b, w) = (r, (b', w')) \<Longrightarrow>
    breaker_trace ops clock threshold reset
      (if cb_state (read_state (clock w) b) = OPEN then h else (clock w', \<not> isl r) # h) b'"

definition failures_in_a_row :: "(int \<times> bool) list \<Rightarrow> int" where
  "failures_in_a_row h = int (length (takeWhile (\<lambda>x. \<not> snd x) h))"

definition breaker_inv :: "int \<Rightarrow> int \<Rightarrow> (int \<times> bool) list \<Rightarrow> breaker \<Rightarrow> bool" where
  "breaker_inv threshold reset h b \<longleftrightarrow> cb_threshold b = threshold \<and> cb_reset b = reset \<and>
     cb_failures b = failures_in_a_row h \<and> (cb_state b = CLOSED \<longleftrightarrow> failures_in_a_row h < threshold) \<and>
     cb_opened b = (if cb_state b = CLOSED then None else Some (fst (hd h)))"

lemma failures_Cons [simp]:
  "failures_in_a_row [] = 0"
  "failures_in_a_row ((t, ok) # h) = (if ok then 0 else failures_in_a_row h + 1)"
  by (simp_all add: failures_in_a_row_def)

lemma breaker_inv_read: "breaker_inv threshold reset h b \<Longrightarrow> breaker_inv threshold reset h (read_state now b)"
  by (auto simp: breaker_inv_def read_state_def split: option.split)

lemma breaker_inv_success:
  "0 < threshold \<Longrightarrow> breaker_inv threshold reset h b \<Longrightarrow> breaker_inv threshold reset ((t, True) # h) (on_success b)"
  by (simp add: breaker_inv_def on_success_def)

lemma breaker_inv_failure:
  assumes "breaker_inv threshold reset h b" and "cb_state b \<noteq> OPEN"
  shows "breaker_inv threshold reset ((t, False) # h) (on_failure t b)"
  using assms by (cases "cb_state b") (auto simp: breaker_inv_def on_failure_def Let_def)

lemma breaker_trace_inv:
  assumes "breaker_trace ops clock threshold reset h b" and "0 < threshold"
  shows "breaker_inv threshold reset h b"
  using assms(1)
proof (induction rule: breaker_trace.induct)
  case bt_new
  with assms(2) show ?case by (simp add: breaker_inv_def new_breaker_def)
next
  case (bt_read h b now)
  then show ?case by (rule_tac breaker_inv_read)
next
  case (bt_call h b op w r b' w')
  note inv = breaker_inv_read [OF bt_call.IH, of "clock w"]
  show ?case
  proof (cases "cb_state (read_state (clock w) b) = OPEN")
    case True
    with bt_call.hyps(3) inv show ?thesis by (auto simp: breaker_call_def Let_def)
  next
    case False
    with bt_call.hyps(3) inv show ?thesis
      by (auto simp: breaker_call_def Let_def assms(2) breaker_inv_success breaker_inv_failure split: prod.splits sum.splits)
  qed
qed

text \<open>
  C28: the breaker keeps its contract. At any time, the breaker is closed exactly when fewer calls
  in a row failed than the threshold; otherwise it was opened by the last of them. A call is
  refused, leaving the world as it is, exactly when the breaker is open and the reset time has
  not passed since; any other call reaches the dependency and hands its outcome on.
\<close>

theorem breaker_keeps_its_contract:
  assumes "breaker_trace ops clock threshold reset h b" and "0 < threshold"
  shows "(cb_state b = CLOSED \<longleftrightarrow> failures_in_a_row h < threshold) \<and>
    (cb_state b \<noteq> CLOSED \<longrightarrow> cb_opened b = Some (fst (hd h)) \<and> \<not> snd (hd h)) \<and>
    (if cb_state b = OPEN \<and> clock w - fst (hd h) < reset
     then breaker_call clock op (b, w) = (Inl CircuitOpenError, (b, w))
     else fst (breaker_call clock op (b, w)) = fst (op w) \<and> snd (snd (breaker_call clock op (b, w))) = snd (op w))"
proof -
  have inv: "breaker_inv threshold reset h b" by (rule breaker_trace_inv [OF assms])
  have last: "\<not> snd (hd h)" if "cb_state b \<noteq> CLOSED"
  proof -
    from inv that assms(2) have "0 < failures_in_a_row h" by (simp add: breaker_inv_def)
    then show ?thesis by (cases h) auto
  qed
  have state: "cb_state (read_state (clock w) b) = OPEN \<longleftrightarrow> cb_state b = OPEN \<and> clock w - fst (hd h) < reset"
    using inv by (auto simp: breaker_inv_def read_state_def)
  have same: "read_state (clock w) b = b" if "cb_state b = OPEN \<and> clock w - fst (hd h) < reset"
    using inv that by (auto simp: breaker_inv_def read_state_def)
  have "if cb_state b = OPEN \<and> clock w - fst (hd h) < reset
     then breaker_call clock op (b, w) = (Inl CircuitOpenError, (b, w))
     else fst (breaker_call clock op (b, w)) = fst (op w) \<and> snd (snd (breaker_call clock op (b, w))) = snd (op w)"
    using state same by (auto simp: breaker_call_def Let_def split: prod.split sum.split)
  with inv last show ?thesis by (simp add: breaker_inv_def)
qed

theorem breaker_keeps_its_contract_witness:
  "\<exists>b. breaker_trace {flaky} int 1 30 [(2, False)] b \<and> cb_state b = OPEN \<and>
    breaker_call int flaky (b, 10) = (Inl CircuitOpenError, (b, 10))"
proof -
  let ?b = "on_failure 2 (new_breaker 1 30)"
  have call: "breaker_call int flaky (new_breaker 1 30, 1) = (Inl (ExternalError ''down''), (?b, 2))"
    by (simp add: breaker_call_def Let_def read_state_def new_breaker_def flaky_def)
  have "cb_state (read_state (int 1) (new_breaker 1 30)) \<noteq> OPEN" by (simp add: read_state_def new_breaker_def)
  with bt_call [OF bt_new _ call, of "{flaky}"] have t: "breaker_trace {flaky} int 1 30 [(2, False)] ?b" by simp
  have open_now: "cb_state ?b = OPEN" by (simp add: on_failure_def new_breaker_def)
  with breaker_keeps_its_contract [OF t, of 10 flaky] have "breaker_call int flaky (?b, 10) = (Inl CircuitOpenError, (?b, 10))"
    by simp
  with t open_now show ?thesis by blast
qed

subsection \<open>The breaker recovers\<close>

text \<open>A client that keeps calling, and waits between its calls.\<close>

fun poll :: "('w \<Rightarrow> int) \<Rightarrow> ('w \<Rightarrow> 'w) \<Rightarrow> ('w, 'a) operation \<Rightarrow> nat \<Rightarrow> breaker \<times> 'w \<Rightarrow> breaker \<times> 'w" where
  "poll clock wait op 0 bw = bw"
| "poll clock wait op (Suc n) bw = (case breaker_call clock op (poll clock wait op n bw) of (r, (b, w)) \<Rightarrow> (b, wait w))"

lemma poll_add: "poll clock wait op (m + n) bw = poll clock wait op n (poll clock wait op m bw)"
  by (induction n) simp_all

lemma breaker_call_time:
  assumes "\<And>w. clock w \<le> clock (snd (op w))" and "breaker_call clock op (b, w) = (r, (b', w'))"
  shows "clock w \<le> clock w'"
  using assms(1) [of w] assms(2) by (auto simp: breaker_call_def Let_def split: if_splits prod.splits sum.splits)

lemma poll_time:
  assumes "\<And>w. clock w \<le> clock (snd (op w))" and "\<And>w. clock w < clock (wait w)"
  shows "clock w + int n \<le> clock (snd (poll clock wait op n (b, w)))"
proof (induction n)
  case (Suc n)
  obtain b1 w1 where p: "poll clock wait op n (b, w) = (b1, w1)" by (cases "poll clock wait op n (b, w)")
  obtain r b2 w2 where c: "breaker_call clock op (b1, w1) = (r, (b2, w2))" by (metis prod.exhaust)
  from breaker_call_time [of clock op, OF assms(1) c] assms(2) [of w2] Suc p c show ?case by simp
qed simp

lemma healthy_call:
  assumes "fst (op w) = Inr v" and "cb_state (read_state (clock w) b) \<noteq> OPEN"
  shows "breaker_call clock op (b, w) = (Inr v, (on_success (read_state (clock w) b), snd (op w)))"
  using assms by (cases "op w") (auto simp: breaker_call_def Let_def)

lemma read_not_open: "cb_state b \<noteq> OPEN \<Longrightarrow> cb_state (read_state now b) \<noteq> OPEN"
  by (auto simp: read_state_def split: option.split)

lemma on_success_closed [simp]: "cb_state (on_success b) = CLOSED"
  by (simp add: on_success_def)

lemma refused_unchanged:
  "cb_state (read_state (clock w) b) = OPEN \<Longrightarrow> breaker_call clock op (b, w) = (Inl CircuitOpenError, (b, w))"
  by (auto simp: breaker_call_def Let_def read_state_def split: option.splits if_splits)

lemma polled_while_open:
  assumes "\<forall>i \<le> n. cb_state (read_state (clock (snd (poll clock wait op i (b, w)))) (fst (poll clock wait op i (b, w)))) = OPEN"
  shows "fst (poll clock wait op n (b, w)) = b"
  using assms
proof (induction n)
  case (Suc n)
  obtain b1 w1 where p: "poll clock wait op n (b, w) = (b1, w1)" by (cases "poll clock wait op n (b, w)")
  from Suc.prems have o: "cb_state (read_state (clock w1) b1) = OPEN" using p by (metis fst_conv le_Suc_eq order_refl snd_conv)
  from Suc p have "b1 = b" by simp
  with refused_unchanged [of clock w1 b1 op, OF o] p show ?case by simp
qed simp

lemma some_call_passes:
  assumes "\<And>w. clock w \<le> clock (snd (op w))" and "\<And>w. clock w < clock (wait w)" and "cb_state b = OPEN \<Longrightarrow> cb_opened b \<noteq> None"
  shows "\<exists>n. cb_state (read_state (clock (snd (poll clock wait op n (b, w)))) (fst (poll clock wait op n (b, w)))) \<noteq> OPEN"
proof (rule ccontr)
  assume "\<not> ?thesis"
  then have open_all: "\<And>n. cb_state (read_state (clock (snd (poll clock wait op n (b, w)))) (fst (poll clock wait op n (b, w)))) = OPEN" by blast
  then have same: "\<And>n. fst (poll clock wait op n (b, w)) = b" by (intro polled_while_open) simp
  from open_all [of 0] have "cb_state b = OPEN" using read_not_open by fastforce
  with assms(3) obtain t where t: "cb_opened b = Some t" by auto
  let ?n = "nat (t + cb_reset b - clock w)"
  have "clock w + int ?n \<le> clock (snd (poll clock wait op ?n (b, w)))" by (rule poll_time [OF assms(1,2)])
  then have "cb_reset b \<le> clock (snd (poll clock wait op ?n (b, w))) - t" by linarith
  with open_all [of ?n] same [of ?n] t \<open>cb_state b = OPEN\<close> show False by (simp add: read_state_def)
qed

lemma stays_closed:
  assumes "\<And>w. clock w \<le> clock (snd (op w))" and "\<And>w. clock w < clock (wait w)"
    and "\<And>w. T \<le> clock w \<Longrightarrow> \<exists>v. fst (op w) = Inr v" and "T \<le> clock w" and "cb_state (read_state (clock w) b) \<noteq> OPEN"
  shows "\<exists>v. fst (breaker_call clock op (poll clock wait op n (b, w))) = Inr v \<and> cb_state (fst (poll clock wait op (Suc n) (b, w))) = CLOSED"
proof (induction n)
  case 0
  from assms(3) [OF assms(4)] obtain v where "fst (op w) = Inr v" by blast
  from healthy_call [where op = op and clock = clock, OF this assms(5)] show ?case by simp
next
  case (Suc n)
  obtain b1 w1 where p: "poll clock wait op (Suc n) (b, w) = (b1, w1)" by (cases "poll clock wait op (Suc n) (b, w)")
  from poll_time [of clock op wait w "Suc n" b, OF assms(1,2)] p assms(4) have "T \<le> clock w1" by simp
  from assms(3) [OF this] obtain v where v: "fst (op w1) = Inr v" by blast
  from Suc p have "cb_state b1 = CLOSED" by (metis fst_conv)
  then have "cb_state (read_state (clock w1) b1) \<noteq> OPEN" by (intro read_not_open) simp
  from healthy_call [where op = op and clock = clock, OF v this] p show ?case by simp
qed

text \<open>
  C32: the breaker recovers. However often the dependency failed before, once it works again and a
  client keeps calling with time passing between its calls, from some call on every call
  reaches it, returns its value and leaves the breaker closed: it never stays open for good.
\<close>

theorem breaker_recovers:
  assumes "breaker_trace ops clock threshold reset h b" and "0 < threshold" and "op \<in> ops"
    and "\<And>w. clock w \<le> clock (snd (op w))" and "\<And>w. clock w < clock (wait w)"
    and "\<And>w. T \<le> clock w \<Longrightarrow> \<exists>v. fst (op w) = Inr v"
  shows "\<exists>N. \<forall>n \<ge> N. \<exists>v. fst (breaker_call clock op (poll clock wait op n (b, w))) = Inr v \<and>
    cb_state (fst (poll clock wait op (Suc n) (b, w))) = CLOSED"
proof -
  have reached: "\<exists>h'. breaker_trace ops clock threshold reset h' (fst (poll clock wait op n (b, w)))" for n
  proof (induction n)
    case 0
    with assms(1) show ?case by auto
  next
    case (Suc n)
    obtain b1 w1 where p: "poll clock wait op n (b, w) = (b1, w1)" by (cases "poll clock wait op n (b, w)")
    obtain r b2 w2 where c: "breaker_call clock op (b1, w1) = (r, (b2, w2))" by (metis prod.exhaust)
    from Suc p obtain h' where "breaker_trace ops clock threshold reset h' b1" by auto
    from bt_call [OF this assms(3) c] p c show ?case by auto
  qed
  let ?m = "nat (T - clock w)"
  obtain b1 w1 where p: "poll clock wait op ?m (b, w) = (b1, w1)" by (cases "poll clock wait op ?m (b, w)")
  from poll_time [of clock op wait w ?m b, OF assms(4,5)] p have late: "T \<le> clock w1" by (simp split: if_splits)
  from reached [of ?m] p obtain h' where "breaker_trace ops clock threshold reset h' b1" by auto
  from breaker_trace_inv [OF this assms(2)] have "cb_state b1 = OPEN \<Longrightarrow> cb_opened b1 \<noteq> None" by (simp add: breaker_inv_def)
  from some_call_passes [of clock op wait b1 w1, OF assms(4,5) this] obtain k b2 w2 where
    k: "poll clock wait op k (b1, w1) = (b2, w2)" "cb_state (read_state (clock w2) b2) \<noteq> OPEN" by (metis prod.collapse)
  from poll_time [of clock op wait w1 k b1, OF assms(4,5)] k late have "T \<le> clock w2" by simp
  note closed = stays_closed [of clock op wait T w2 b2, OF assms(4-6) this k(2)]
  have "poll clock wait op (?m + k + n) (b, w) = poll clock wait op n (b2, w2)" for n
    using p k(1) by (simp add: poll_add)
  with closed show ?thesis by (metis add_Suc_right le_Suc_ex)
qed

text \<open>A dependency that fails until it has been tried twice, behind a breaker that opens at once.\<close>

theorem breaker_recovers_witness:
  "\<exists>b N. breaker_trace {flaky} int 1 30 [(2, False)] b \<and> cb_state b = OPEN \<and>
    (\<exists>v. fst (breaker_call int flaky (poll int Suc flaky N (b, 2))) = Inr v)"
proof -
  let ?b = "on_failure 2 (new_breaker 1 30)"
  have call: "breaker_call int flaky (new_breaker 1 30, 1) = (Inl (ExternalError ''down''), (?b, 2))"
    by (simp add: breaker_call_def Let_def read_state_def new_breaker_def flaky_def)
  have "cb_state (read_state (int 1) (new_breaker 1 30)) \<noteq> OPEN" by (simp add: read_state_def new_breaker_def)
  with bt_call [OF bt_new _ call, of "{flaky}"] have t: "breaker_trace {flaky} int 1 30 [(2, False)] ?b" by simp
  have "\<exists>N. \<forall>n \<ge> N. \<exists>v. fst (breaker_call int flaky (poll int Suc flaky n (?b, 2))) = Inr v \<and>
    cb_state (fst (poll int Suc flaky (Suc n) (?b, 2))) = CLOSED"
    by (rule breaker_recovers [OF t, where T = 2]) (simp_all add: flaky_def)
  moreover have "cb_state ?b = OPEN" by (simp add: on_failure_def new_breaker_def)
  ultimately show ?thesis using t by blast
qed

end
