(* ===== verification/ModelLoading.thy ===== *)
theory ModelLoading
  imports Registry Resilience
begin

section \<open>Artifact integrity and model loading\<close>

text \<open>
  \<open>hermes_rpt/registry/artifact_integrity.py\<close> and \<open>hermes_rpt/inference/model_loading.py\<close>. The
  artifact store and the machine-learning libraries are parameters: downloading an artifact,
  the digest, and turning an artifact or a checkpoint into a model, of which the model keeps a
  handle. The store lives in the world, so that it may change between two downloads.
\<close>

datatype artifact = ArtFile string string | ArtDir "(string list \<times> string) list"

datatype loaded_model = LoadedModel uuid nat | LoadedHermesRPT uuid nat

record 'w model_store =
  ms_clock :: "'w \<Rightarrow> int"
  ms_sleep :: "rat \<Rightarrow> 'w \<Rightarrow> 'w"
  ms_sha :: "string \<Rightarrow> string"
  ms_download :: "string \<Rightarrow> ('w, artifact) operation"
  ms_sklearn :: "string \<Rightarrow> ('w, nat) operation"
  ms_torch :: "string \<Rightarrow> ('w, nat) operation"

definition then_op :: "('w, 'a) operation \<Rightarrow> ('a \<Rightarrow> ('w, 'b) operation) \<Rightarrow> ('w, 'b) operation" where
  "then_op p k w = (case p w of (Inl e, w') \<Rightarrow> (Inl e, w') | (Inr v, w') \<Rightarrow> k v w')"

lemma then_op_Inr:
  "then_op p k w = (Inr v, w') \<longleftrightarrow> (\<exists>x w1. p w = (Inr x, w1) \<and> k x w1 = (Inr v, w'))"
  by (auto simp: then_op_def split: prod.splits sum.splits)

subsection \<open>Checksums\<close>

text \<open>A file is hashed by its bytes; a directory by the relative paths and bytes of its files in path order.\<close>

definition artifact_bytes :: "artifact \<Rightarrow> string" where
  "artifact_bytes a =
     (case a of ArtFile name bytes \<Rightarrow> bytes
      | ArtDir files \<Rightarrow> concat (map (\<lambda>(p, bytes). join_with ''/'' p @ bytes) (sort_key fst files)))"

definition compute_artifact_checksum :: "'w model_store \<Rightarrow> string \<Rightarrow> ('w, string) operation" where
  "compute_artifact_checksum st uri = then_op (ms_download st uri) (\<lambda>a w. (Inr (ms_sha st (artifact_bytes a)), w))"

definition verify_checksum :: "'w model_store \<Rightarrow> model_version \<Rightarrow> ('w, unit) operation" where
  "verify_checksum st m =
     then_op (compute_artifact_checksum st (mo_uri m)) (\<lambda>actual w.
       if actual \<noteq> mo_checksum m then (Inl (ArtifactIntegrityError (row_id m)), w) else (Inr (), w))"

subsection \<open>The two families\<close>

definition load_sklearn :: "'w model_store \<Rightarrow> model_version \<Rightarrow> ('w, loaded_model) operation" where
  "load_sklearn st m =
     then_op (verify_checksum st m) (\<lambda>_.
     then_op (ms_sklearn st (mo_uri m)) (\<lambda>h w. (Inr (LoadedModel (row_id m) h), w)))"

definition is_checkpoint :: "string \<Rightarrow> bool" where
  "is_checkpoint name \<longleftrightarrow> drop (length name - 3) name = ''.pt''"

definition checkpoint_of :: "artifact \<Rightarrow> string option" where
  "checkpoint_of a =
     (case a of
        ArtFile name bytes \<Rightarrow> if is_checkpoint name then Some bytes else None
      | ArtDir files \<Rightarrow>
          map_option snd (List.find (\<lambda>(p, bytes). case p of [name] \<Rightarrow> is_checkpoint name | _ \<Rightarrow> False) files))"

definition load_hermes_rpt :: "'w model_store \<Rightarrow> model_version \<Rightarrow> ('w, loaded_model) operation" where
  "load_hermes_rpt st m =
     then_op (verify_checksum st m) (\<lambda>_.
     then_op (ms_download st (mo_uri m)) (\<lambda>a.
       case checkpoint_of a of
         None \<Rightarrow> (\<lambda>w. (Inl (ExternalError ''NoCheckpointArtifactError''), w))
       | Some bytes \<Rightarrow> then_op (ms_torch st bytes) (\<lambda>h w. (Inr (LoadedHermesRPT (row_id m) h), w))))"

definition contains_text :: "string \<Rightarrow> string \<Rightarrow> bool" where
  "contains_text part s \<longleftrightarrow> list_ex (\<lambda>i. take (length part) (drop i s) = part) [0..<Suc (length s)]"

definition is_hermes_rpt :: "model_version \<Rightarrow> bool" where
  "is_hermes_rpt m = contains_text ''hermes-rpt'' (mo_name m)"

definition load_uncached :: "'w model_store \<Rightarrow> model_version \<Rightarrow> ('w, loaded_model) operation" where
  "load_uncached st m = (if is_hermes_rpt m then load_hermes_rpt st m else load_sklearn st m)"

subsection \<open>The loader\<close>

record 'w loader =
  ld_cache :: "(uuid, loaded_model) dict"
  ld_breaker :: breaker
  ld_world :: 'w

definition load_model ::
  "'w model_store \<Rightarrow> retry_config \<Rightarrow> int \<Rightarrow> model_version \<Rightarrow> ('w loader, loaded_model) operation" where
  "load_model st cfg limit m ld =
     (case dict_get (ld_cache ld) (row_id m) of
        Some l \<Rightarrow> (Inr l, ld)
      | None \<Rightarrow>
          (case retry_with_backoff (\<lambda>d. map_prod id (ms_sleep st d)) (\<lambda>_. True) cfg
              (breaker_call (ms_clock st) (with_timeout (ms_clock st) limit (load_uncached st m)))
              (ld_breaker ld, ld_world ld) of
             (Inl e, (b, w)) \<Rightarrow> (Inl e, ld\<lparr>ld_breaker := b, ld_world := w\<rparr>)
           | (Inr l, (b, w)) \<Rightarrow>
               (Inr l, ld\<lparr>ld_cache := dict_put (row_id m) l (ld_cache ld), ld_breaker := b, ld_world := w\<rparr>)))"

subsection \<open>Only verified models are served\<close>

text \<open>
  What it means that a model was loaded for a version in a world: the artifact that the
  version's address gives in that world has the registered checksum, and the library's next
  answer for that address, or for the checkpoint of a second download, is the model's handle;
  all of it within the time limit.
\<close>

definition loaded_verified :: "'w model_store \<Rightarrow> int \<Rightarrow> model_version \<Rightarrow> loaded_model \<Rightarrow> 'w \<Rightarrow> bool" where
  "loaded_verified st limit m l w \<longleftrightarrow> (\<exists>a w1 h w'.
     ms_download st (mo_uri m) w = (Inr a, w1) \<and> ms_sha st (artifact_bytes a) = mo_checksum m \<and>
     (if is_hermes_rpt m
      then l = LoadedHermesRPT (row_id m) h \<and> (\<exists>a' w2 bytes. ms_download st (mo_uri m) w1 = (Inr a', w2) \<and>
        checkpoint_of a' = Some bytes \<and> ms_torch st bytes w2 = (Inr h, w'))
      else l = LoadedModel (row_id m) h \<and> ms_sklearn st (mo_uri m) w1 = (Inr h, w')) \<and>
     ms_clock st w' - ms_clock st w \<le> limit)"

text \<open>The worlds in which a call of the loader tries: that of the call, and those that failed tries and the waits after them lead to.\<close>

inductive tried :: "'w model_store \<Rightarrow> model_version \<Rightarrow> 'w \<Rightarrow> 'w \<Rightarrow> bool" for st m where
  tr_first: "tried st m w w"
| tr_failed: "tried st m w w1 \<Longrightarrow> load_uncached st m w1 = (r, w2) \<Longrightarrow> tried st m w (ms_sleep st d w2)"
| tr_refused: "tried st m w w1 \<Longrightarrow> tried st m w (ms_sleep st d w1)"

lemma retry_loop_Inr:
  assumes "retry_loop sleep retryable factor op n delay w = (Inr v, w')" and "P w"
    and "\<And>x e x' d. P x \<Longrightarrow> op x = (Inl e, x') \<Longrightarrow> P (sleep d x')"
  shows "\<exists>w0 w1. P w0 \<and> op w0 = (Inr v, w1)"
  using assms(1,2)
proof (induction n arbitrary: delay w)
  case (Suc n)
  obtain r w1 where r: "op w = (r, w1)" by (cases "op w")
  show ?case
  proof (cases r)
    case (Inl e)
    with Suc.prems(1) r have "retry_loop sleep retryable factor op n (delay * factor) (sleep delay w1) = (Inr v, w')"
      by (auto split: if_splits)
    from Suc.IH [OF this] assms(3) [OF Suc.prems(2)] r Inl show ?thesis by blast
  next
    case (Inr x)
    with Suc.prems r show ?thesis by auto
  qed
qed simp

lemma breaker_call_Inr:
  "breaker_call clock op (b, w) = (Inr v, bw') \<Longrightarrow> \<exists>w1. op w = (Inr v, w1)"
  by (auto simp: breaker_call_def Let_def split: prod.splits sum.splits if_splits)

lemma breaker_call_world:
  assumes "breaker_call clock op (b, w) = (r, (b', w'))"
  shows "w' = w \<or> (\<exists>x. op w = (x, w'))"
  using assms by (cases "op w") (auto simp: breaker_call_def Let_def split: prod.splits sum.splits if_splits)

lemma with_timeout_Inr:
  "with_timeout clock limit op w = (Inr v, w') \<Longrightarrow> op w = (Inr v, w') \<and> clock w' - clock w \<le> limit"
  by (auto simp: with_timeout_def split: prod.splits if_splits)

lemma with_timeout_world: "with_timeout clock limit op w = (r, w') \<Longrightarrow> \<exists>x. op w = (x, w')"
  by (cases "op w") (auto simp: with_timeout_def split: if_splits)

lemma verify_checksum_Inr:
  "verify_checksum st m w = (Inr u, w') \<longleftrightarrow>
    (\<exists>a. ms_download st (mo_uri m) w = (Inr a, w') \<and> ms_sha st (artifact_bytes a) = mo_checksum m)"
  by (auto simp: verify_checksum_def compute_artifact_checksum_def then_op_Inr split: if_splits)

lemma load_uncached_verified:
  assumes "load_uncached st m w = (Inr l, w')" and "ms_clock st w' - ms_clock st w \<le> limit"
  shows "loaded_verified st limit m l w"
proof (cases "is_hermes_rpt m")
  case True
  with assms(1) obtain a w1 a' w2 bytes h where
      v: "ms_download st (mo_uri m) w = (Inr a, w1)" "ms_sha st (artifact_bytes a) = mo_checksum m"
      "ms_download st (mo_uri m) w1 = (Inr a', w2)" "checkpoint_of a' = Some bytes" "ms_torch st bytes w2 = (Inr h, w')"
      "l = LoadedHermesRPT (row_id m) h"
    by (auto simp: load_uncached_def load_hermes_rpt_def then_op_Inr verify_checksum_Inr split: option.splits)
  with True assms(2) show ?thesis unfolding loaded_verified_def
    by (intro exI [of _ a] exI [of _ w1] exI [of _ h] exI [of _ w']) auto
next
  case False
  with assms(1) obtain a w1 h where
      v: "ms_download st (mo_uri m) w = (Inr a, w1)" "ms_sha st (artifact_bytes a) = mo_checksum m"
      "ms_sklearn st (mo_uri m) w1 = (Inr h, w')" "l = LoadedModel (row_id m) h"
    by (auto simp: load_uncached_def load_sklearn_def then_op_Inr verify_checksum_Inr)
  with False assms(2) show ?thesis unfolding loaded_verified_def
    by (intro exI [of _ a] exI [of _ w1] exI [of _ h] exI [of _ w']) auto
qed

text \<open>A call that returns a model found it in the cache, or loaded it in a world it tried.\<close>

lemma load_model_verified:
  assumes "load_model st cfg limit m ld = (Inr l, ld')"
  shows "(dict_get (ld_cache ld) (row_id m) = Some l \<and> ld' = ld) \<or>
    ((\<exists>w. tried st m (ld_world ld) w \<and> loaded_verified st limit m l w) \<and>
      ld_cache ld' = dict_put (row_id m) l (ld_cache ld))"
proof (cases "dict_get (ld_cache ld) (row_id m)")
  case None
  let ?op = "breaker_call (ms_clock st) (with_timeout (ms_clock st) limit (load_uncached st m))"
  let ?sleep = "\<lambda>d. map_prod id (ms_sleep st d) :: breaker \<times> 'a \<Rightarrow> breaker \<times> 'a"
  let ?P = "\<lambda>bw. tried st m (ld_world ld) (snd bw)"
  from None assms obtain b w where run: "retry_with_backoff ?sleep (\<lambda>_. True) cfg ?op (ld_breaker ld, ld_world ld) = (Inr l, (b, w))"
      and ld': "ld_cache ld' = dict_put (row_id m) l (ld_cache ld)"
    by (auto simp: load_model_def split: prod.splits sum.splits)
  have again: "?P (?sleep d x')" if "?P x" "?op x = (Inl e, x')" for x e x' d
  proof -
    obtain b0 w0 b1 w1 where x: "x = (b0, w0)" "x' = (b1, w1)" by (cases x, cases x')
    with that(2) have "w1 = w0 \<or> (\<exists>r. with_timeout (ms_clock st) limit (load_uncached st m) w0 = (r, w1))"
      using breaker_call_world by metis
    then have "w1 = w0 \<or> (\<exists>r. load_uncached st m w0 = (r, w1))" using with_timeout_world by metis
    with that(1) x show ?thesis by (auto intro: tr_failed tr_refused)
  qed
  have "?P (ld_breaker ld, ld_world ld)" by (simp add: tr_first)
  then have "\<exists>bw0 bw1. ?P bw0 \<and> ?op bw0 = (Inr l, bw1)"
    by (rule retry_loop_Inr [OF run [unfolded retry_with_backoff_def], where P = ?P]) (rule again)
  then obtain bw0 bw1 where t: "?P bw0" "?op bw0 = (Inr l, bw1)" by blast
  obtain b0 w0 where "bw0 = (b0, w0)" by (cases bw0)
  with t(2) obtain w1 where "with_timeout (ms_clock st) limit (load_uncached st m) w0 = (Inr l, w1)"
    using breaker_call_Inr by metis
  from with_timeout_Inr [OF this] have "loaded_verified st limit m l w0"
    by (elim conjE) (rule load_uncached_verified)
  with t(1) \<open>bw0 = (b0, w0)\<close> ld' show ?thesis by auto
qed (use assms in \<open>simp add: load_model_def\<close>)

lemma load_model_failed: "load_model st cfg limit m ld = (Inl e, ld') \<Longrightarrow> ld_cache ld' = ld_cache ld"
  by (auto simp: load_model_def split: option.splits prod.splits sum.splits)

text \<open>
  The lives of a loader: it is asked for model versions, and the world around it, the artifact
  store included, changes. The calls are kept, each with the world it was made in.
\<close>

inductive loader_run ::
  "'w model_store \<Rightarrow> retry_config \<Rightarrow> int \<Rightarrow> (model_version \<times> 'w) list \<Rightarrow> 'w loader \<Rightarrow> bool"
  for st :: "'w model_store" and cfg :: retry_config and limit :: int where
  lr_new: "ld_cache ld = [] \<Longrightarrow> loader_run st cfg limit [] ld"
| lr_load: "loader_run st cfg limit calls ld \<Longrightarrow>
    loader_run st cfg limit (calls @ [(m, ld_world ld)]) (snd (load_model st cfg limit m ld))"
| lr_world: "loader_run st cfg limit calls ld \<Longrightarrow> loader_run st cfg limit calls (ld\<lparr>ld_world := w\<rparr>)"

definition loaded_by_call ::
  "'w model_store \<Rightarrow> int \<Rightarrow> (model_version \<times> 'w) list \<Rightarrow> model_version \<Rightarrow> loaded_model \<Rightarrow> bool" where
  "loaded_by_call st limit calls m l \<longleftrightarrow>
     (\<exists>w0 w. (m, w0) \<in> set calls \<and> tried st m w0 w \<and> loaded_verified st limit m l w)"

lemma loaded_by_call_more [simp]: "loaded_by_call st limit calls m l \<Longrightarrow> loaded_by_call st limit (calls @ later) m l"
  by (auto simp: loaded_by_call_def)

lemma loader_cache_verified:
  "loader_run st cfg limit calls ld \<Longrightarrow> dict_get (ld_cache ld) i = Some l \<Longrightarrow>
    \<exists>m. row_id m = i \<and> loaded_by_call st limit calls m l"
proof (induction arbitrary: i l rule: loader_run.induct)
  case (lr_load calls ld m)
  obtain r ld' where run: "load_model st cfg limit m ld = (r, ld')" by (cases "load_model st cfg limit m ld")
  show ?case
  proof (cases r)
    case (Inl e)
    with run lr_load load_model_failed [of st cfg limit m ld e ld'] show ?thesis
      by (fastforce intro: loaded_by_call_more)
  next
    case (Inr x)
    with run have v: "(dict_get (ld_cache ld) (row_id m) = Some x \<and> ld' = ld) \<or>
        (loaded_by_call st limit (calls @ [(m, ld_world ld)]) m x \<and> ld_cache ld' = dict_put (row_id m) x (ld_cache ld))"
      using load_model_verified [of st cfg limit m ld x ld'] by (auto simp: loaded_by_call_def)
    show ?thesis
    proof (cases "ld' = ld")
      case True
      with run lr_load show ?thesis by (fastforce intro: loaded_by_call_more)
    next
      case False
      with v have x: "loaded_by_call st limit (calls @ [(m, ld_world ld)]) m x"
        and c: "ld_cache ld' = dict_put (row_id m) x (ld_cache ld)" by blast+
      show ?thesis
      proof (cases "i = row_id m")
        case True
        with x c run lr_load.prems show ?thesis by auto
      next
        case False
        with c run lr_load.prems have "dict_get (ld_cache ld) i = Some l" by simp
        from lr_load.IH [OF this] show ?thesis using loaded_by_call_more by blast
      qed
    qed
  qed
qed simp_all

text \<open>Two rows describe the same artifact when the loader cannot tell them apart.\<close>

definition same_artifact :: "model_version \<Rightarrow> model_version \<Rightarrow> bool" where
  "same_artifact m m' \<longleftrightarrow> row_id m = row_id m' \<and> mo_uri m = mo_uri m' \<and> mo_checksum m = mo_checksum m' \<and> mo_name m = mo_name m'"

lemma tried_same:
  "tried st m w w' \<Longrightarrow> load_uncached st m = load_uncached st m' \<Longrightarrow> tried st m' w w'"
  by (induction rule: tried.induct) (auto intro: tried.intros)

lemma same_artifact_load:
  assumes "same_artifact m m'"
  shows "load_uncached st m = load_uncached st m'" and "loaded_verified st limit m = loaded_verified st limit m'"
    and "tried st m = tried st m'"
proof -
  note s = assms [unfolded same_artifact_def]
  show l: "load_uncached st m = load_uncached st m'"
    unfolding load_uncached_def load_sklearn_def load_hermes_rpt_def verify_checksum_def is_hermes_rpt_def by (simp only: s)
  show "loaded_verified st limit m = loaded_verified st limit m'"
    unfolding loaded_verified_def is_hermes_rpt_def fun_eq_iff by (simp only: s simp_thms)
  show "tried st m = tried st m'" using tried_same [of st m _ _ m'] tried_same [of st m' _ _ m] l by (intro ext iffI) simp_all
qed

text \<open>
  C5: only verified models are served. Whatever a loader went through before, and however the
  artifact store changed meanwhile: when it hands out a model for a version, then in a call it
  was asked for that artifact, this one or an earlier one, and in a world that call tried, the
  artifact had the checksum registered for the version, and the model is the one the library
  gave for it there, within the time limit. The version's row, it is assumed, is not repointed
  under the loader. What is handed out is in the cache, and later calls do not ask the store again.
\<close>

theorem served_models_were_verified:
  assumes "loader_run st cfg limit calls ld" and "load_model st cfg limit m ld = (Inr l, ld')"
    and "\<And>m' w. (m', w) \<in> set calls \<Longrightarrow> row_id m' = row_id m \<Longrightarrow> same_artifact m' m"
  shows "(\<exists>m' w0 w. (m', w0) \<in> set (calls @ [(m, ld_world ld)]) \<and> row_id m' = row_id m \<and> tried st m w0 w \<and>
      loaded_verified st limit m l w) \<and>
    dict_get (ld_cache ld') (row_id m) = Some l \<and>
    load_model st cfg' limit' m (ld'\<lparr>ld_world := w'\<rparr>) = (Inr l, ld'\<lparr>ld_world := w'\<rparr>)"
proof -
  have cached: "dict_get (ld_cache ld') (row_id m) = Some l"
    using load_model_verified [OF assms(2)] by auto
  from load_model_verified [OF assms(2)]
  have "\<exists>m' w0 w. (m', w0) \<in> set (calls @ [(m, ld_world ld)]) \<and> row_id m' = row_id m \<and> tried st m w0 w \<and>
      loaded_verified st limit m l w"
  proof (elim disjE conjE)
    assume "dict_get (ld_cache ld) (row_id m) = Some l"
    from loader_cache_verified [OF assms(1) this] obtain m' w0 w where m': "row_id m' = row_id m" "(m', w0) \<in> set calls"
        "tried st m' w0 w" "loaded_verified st limit m' l w"
      by (auto simp: loaded_by_call_def)
    with assms(3) have "same_artifact m' m" by blast
    note s = same_artifact_load [OF this]
    from m' show ?thesis unfolding s by (intro exI [of _ m'] exI [of _ w0] exI [of _ w]) simp
  qed auto
  with cached show ?thesis by (simp add: load_model_def)
qed

definition still_store :: "nat model_store" where
  "still_store = \<lparr>ms_clock = int, ms_sleep = (\<lambda>_ w. w + 1), ms_sha = id,
     ms_download = (\<lambda>_ w. (Inr (ArtFile ''model'' ''abc''), w)), ms_sklearn = (\<lambda>_ w. (Inr 9, w + 1)),
     ms_torch = (\<lambda>_ w. (Inr 8, w))\<rparr>"

definition new_loader :: "nat loader" where
  "new_loader = \<lparr>ld_cache = [], ld_breaker = new_breaker 5 30, ld_world = 0\<rparr>"

definition default_retries :: retry_config where
  "default_retries = \<lparr>rc_attempts = 3, rc_initial = 1 / 10, rc_multiplier = 2\<rparr>"

lemma sample_load: "fst (load_model still_store default_retries 60 sample_model new_loader) = Inr (LoadedModel 40 9)"
  by code_simp

theorem served_models_were_verified_witness:
  "fst (load_model still_store default_retries 60 sample_model new_loader) = Inr (LoadedModel 40 9) \<and>
   (\<exists>w. loaded_verified still_store 60 sample_model (LoadedModel 40 9) w)"
proof -
  obtain ld' where run: "load_model still_store default_retries 60 sample_model new_loader = (Inr (LoadedModel 40 9), ld')"
    using sample_load by (metis prod.collapse)
  have "loader_run still_store default_retries 60 [] new_loader" by (rule lr_new) (simp add: new_loader_def)
  from served_models_were_verified [OF this run, of default_retries 60 0] obtain w where
      "loaded_verified still_store 60 sample_model (LoadedModel 40 9) w" by auto
  with sample_load show ?thesis by blast
qed

text \<open>
  A checksum does not tell where a path ends. Two different directories of files, one named
  like the start of the other's contents, have the same checksum, whatever the digest is.
\<close>

theorem directory_checksums_collide:
  assumes "ms_download st uri w = (Inr (ArtDir [([p], q @ r)]), w)" and "ms_download st uri' w = (Inr (ArtDir [([p @ q], r)]), w)"
  shows "compute_artifact_checksum st uri w = compute_artifact_checksum st uri' w"
  using assms by (simp add: compute_artifact_checksum_def then_op_def artifact_bytes_def)

theorem directory_checksums_collide_witness:
  "ArtDir [([''a''], ''bc'')] \<noteq> ArtDir [([''ab''], ''c'')] \<and>
   compute_artifact_checksum (still_store\<lparr>ms_download := (\<lambda>u w. (Inr (if u = ''x'' then ArtDir [([''a''], ''bc'')]
     else ArtDir [([''ab''], ''c'')]), w))\<rparr>) ''x'' 0 = (Inr ''abc'', 0)"
proof -
  let ?st = "still_store\<lparr>ms_download := (\<lambda>u w. (Inr (if u = ''x'' then ArtDir [([''a''], ''bc'')]
     else ArtDir [([''ab''], ''c'')]), w))\<rparr>"
  have "compute_artifact_checksum ?st ''x'' 0 = compute_artifact_checksum ?st ''y'' 0"
    by (rule directory_checksums_collide [where p = "''a''" and q = "''b''" and r = "''c''"]) simp_all
  moreover have "compute_artifact_checksum ?st ''y'' 0 = (Inr ''abc'', 0)" by code_simp
  ultimately show ?thesis by simp
qed

end
