(* ===== verification/FeatureSpecs.thy ===== *)
theory FeatureSpecs
  imports Ontology
begin

section \<open>Feature contracts, normalisation and derivation\<close>

text \<open>
  \<open>hermes_rpt/features/contract.py\<close>, \<open>cost_guard.py\<close>, \<open>normalizer.py\<close> and \<open>derive.py\<close>. A raw
  value is what a driver returns for a column; floats and decimals are exact rationals. How
  Python parses a string as an integer, a float or an ISO instant is a parameter (\<open>conv\<close>). A
  prediction time is an instant; a datetime is the pair of wall clock and zone offset of
  \<open>Ontology\<close>. The descriptive texts of a feature (description, source, notes) are left out.
\<close>

datatype pyval = PNone | PInt int | PFloat rat | PStr string | PBool bool | PTime py_datetime

record conv =
  cv_int :: "string \<Rightarrow> int option"
  cv_float :: "string \<Rightarrow> rat option"
  cv_iso :: "string \<Rightarrow> py_datetime option"

subsection \<open>Contracts\<close>

datatype feature_type = FT_FLOAT | FT_INTEGER | FT_BOOLEAN

datatype missing_behavior = MV_NULL | MV_ZERO | MV_CONSTANT

datatype leakage_risk = LR_NONE | LR_MITIGATED

datatype feature_kind =
    DIRECT_FIELD | DERIVED_FROM_TARGET | RELATED_COUNT | RELATED_RATIO | RELATED_RECENCY_DAYS | RELATED_LATEST_VALUE

record feature_spec =
  fs_name :: string
  fs_type :: feature_type
  fs_missing :: missing_behavior
  fs_default :: "rat option"
  fs_leakage :: leakage_risk
  fs_window :: "int option"
  fs_required :: bool
  fs_kind :: feature_kind
  fs_target :: "string option"
  fs_secondary :: "string option"
  fs_derive :: "string option"
  fs_entity :: "string option"
  fs_fk :: "string option"
  fs_timestamp :: "string option"
  fs_filter_field :: "string option"
  fs_filter_equals :: "string option"
  fs_value_field :: "string option"

text \<open>Truth of an optional string: \<open>None\<close> and the empty string are false.\<close>

definition truthy :: "string option \<Rightarrow> bool" where
  "truthy s \<longleftrightarrow> s \<noteq> None \<and> s \<noteq> Some []"

definition is_related :: "feature_kind \<Rightarrow> bool" where
  "is_related k \<longleftrightarrow> k \<noteq> DIRECT_FIELD \<and> k \<noteq> DERIVED_FROM_TARGET"

definition validate_feature_spec :: "feature_spec \<Rightarrow> exn + feature_spec" where
  "validate_feature_spec f =
     (if \<not> is_related (fs_kind f) then
        if \<not> truthy (fs_target f) then Inl (ValueError ''target_field'')
        else if fs_kind f = DERIVED_FROM_TARGET \<and> \<not> truthy (fs_derive f) then Inl (ValueError ''derive'')
        else Inr f
      else if \<not> truthy (fs_entity f) \<or> \<not> truthy (fs_fk f) then Inl (ValueError ''related_entity'')
      else if (fs_kind f \<in> {RELATED_RECENCY_DAYS, RELATED_RATIO} \<or> fs_window f \<noteq> None) \<and> \<not> truthy (fs_timestamp f)
      then Inl (ValueError ''related_timestamp_field'')
      else if fs_kind f = RELATED_RATIO \<and> (fs_filter_field f = None \<or> fs_filter_equals f = None)
      then Inl (ValueError ''related_filter_field'')
      else if fs_kind f = RELATED_LATEST_VALUE \<and> fs_value_field f = None
      then Inl (ValueError ''related_value_field'')
      else Inr f)"

record feature_contract =
  fc_task :: string
  fc_version :: string
  fc_target :: string
  fc_features :: "feature_spec list"

definition get_feature :: "feature_contract \<Rightarrow> string \<Rightarrow> exn + feature_spec" where
  "get_feature c n =
     (case List.find (\<lambda>f. fs_name f = n) (fc_features c) of None \<Rightarrow> Inl (KeyError n) | Some f \<Rightarrow> Inr f)"

subsection \<open>The contract of the delivery-delay task\<close>

text \<open>A specification with the defaults of the optional fields.\<close>

definition base_spec :: "string \<Rightarrow> feature_type \<Rightarrow> leakage_risk \<Rightarrow> feature_kind \<Rightarrow> feature_spec" where
  "base_spec n t r k =
     \<lparr>fs_name = n, fs_type = t, fs_missing = MV_NULL, fs_default = None, fs_leakage = r, fs_window = None,
      fs_required = False, fs_kind = k, fs_target = None, fs_secondary = None, fs_derive = None,
      fs_entity = None, fs_fk = None, fs_timestamp = None, fs_filter_field = None, fs_filter_equals = None,
      fs_value_field = None\<rparr>"

definition planned_departure_hour :: feature_spec where
  "planned_departure_hour = (base_spec ''planned_departure_hour'' FT_INTEGER LR_NONE DERIVED_FROM_TARGET)
     \<lparr>fs_required := True, fs_target := Some ''planned_departure_at'', fs_derive := Some ''hour_of_day''\<rparr>"

definition day_of_week_feature :: feature_spec where
  "day_of_week_feature = (base_spec ''day_of_week'' FT_INTEGER LR_NONE DERIVED_FROM_TARGET)
     \<lparr>fs_required := True, fs_target := Some ''planned_departure_at'', fs_derive := Some ''day_of_week''\<rparr>"

definition planned_trip_distance_km :: feature_spec where
  "planned_trip_distance_km = (base_spec ''planned_trip_distance_km'' FT_FLOAT LR_NONE DIRECT_FIELD)
     \<lparr>fs_required := True, fs_target := Some ''planned_distance_km''\<rparr>"

definition number_of_stops :: feature_spec where
  "number_of_stops = (base_spec ''number_of_stops'' FT_INTEGER LR_NONE RELATED_COUNT)
     \<lparr>fs_missing := MV_ZERO, fs_entity := Some ''RouteStop'', fs_fk := Some ''route_id''\<rparr>"

definition vehicle_age_years :: feature_spec where
  "vehicle_age_years = (base_spec ''vehicle_age_years'' FT_FLOAT LR_NONE RELATED_LATEST_VALUE)
     \<lparr>fs_entity := Some ''Vehicle'', fs_fk := Some ''vehicle_id'', fs_value_field := Some ''acquired_at'',
      fs_derive := Some ''age_years_at_prediction''\<rparr>"

definition odometer_km :: feature_spec where
  "odometer_km = (base_spec ''odometer_km'' FT_FLOAT LR_MITIGATED RELATED_LATEST_VALUE)
     \<lparr>fs_entity := Some ''OdometerReading'', fs_fk := Some ''vehicle_id'',
      fs_timestamp := Some ''recorded_at'', fs_value_field := Some ''reading_km''\<rparr>"

definition days_since_last_maintenance :: feature_spec where
  "days_since_last_maintenance = (base_spec ''days_since_last_maintenance'' FT_FLOAT LR_MITIGATED RELATED_RECENCY_DAYS)
     \<lparr>fs_entity := Some ''MaintenanceEvent'', fs_fk := Some ''vehicle_id'', fs_timestamp := Some ''completed_at''\<rparr>"

definition previous_breakdown_count :: feature_spec where
  "previous_breakdown_count = (base_spec ''previous_breakdown_count'' FT_INTEGER LR_MITIGATED RELATED_COUNT)
     \<lparr>fs_missing := MV_ZERO, fs_window := Some 180, fs_entity := Some ''MaintenanceEvent'',
      fs_fk := Some ''vehicle_id'', fs_timestamp := Some ''started_at'',
      fs_filter_field := Some ''event_type'', fs_filter_equals := Some ''unscheduled''\<rparr>"

definition driver_recent_trip_count :: feature_spec where
  "driver_recent_trip_count = (base_spec ''driver_recent_trip_count'' FT_INTEGER LR_MITIGATED RELATED_COUNT)
     \<lparr>fs_missing := MV_ZERO, fs_window := Some 30, fs_entity := Some ''Trip'', fs_fk := Some ''driver_id'',
      fs_timestamp := Some ''planned_departure_at''\<rparr>"

definition driver_late_delivery_ratio :: feature_spec where
  "driver_late_delivery_ratio = (base_spec ''driver_late_delivery_ratio'' FT_FLOAT LR_MITIGATED RELATED_RATIO)
     \<lparr>fs_window := Some 90, fs_entity := Some ''Trip'', fs_fk := Some ''driver_id'',
      fs_timestamp := Some ''planned_departure_at'', fs_filter_field := Some ''status'',
      fs_filter_equals := Some ''cancelled''\<rparr>"

definition route_historical_delay_ratio :: feature_spec where
  "route_historical_delay_ratio = (base_spec ''route_historical_delay_ratio'' FT_FLOAT LR_MITIGATED RELATED_RATIO)
     \<lparr>fs_window := Some 90, fs_entity := Some ''Trip'', fs_fk := Some ''route_id'',
      fs_timestamp := Some ''planned_departure_at'', fs_filter_field := Some ''status'',
      fs_filter_equals := Some ''cancelled''\<rparr>"

definition planned_delivery_count :: feature_spec where
  "planned_delivery_count = (base_spec ''planned_delivery_count'' FT_INTEGER LR_NONE RELATED_COUNT)
     \<lparr>fs_missing := MV_ZERO, fs_entity := Some ''Delivery'', fs_fk := Some ''trip_id''\<rparr>"

definition loading_start_delay :: feature_spec where
  "loading_start_delay = (base_spec ''loading_start_delay_minutes'' FT_FLOAT LR_MITIGATED DERIVED_FROM_TARGET)
     \<lparr>fs_missing := MV_ZERO, fs_target := Some ''actual_departure_at'', fs_secondary := Some ''planned_departure_at'',
      fs_derive := Some ''loading_start_delay_minutes''\<rparr>"

definition recent_fuel_anomaly_count :: feature_spec where
  "recent_fuel_anomaly_count = (base_spec ''recent_fuel_anomaly_count'' FT_INTEGER LR_MITIGATED RELATED_COUNT)
     \<lparr>fs_missing := MV_ZERO, fs_window := Some 30, fs_entity := Some ''FuelEvent'', fs_fk := Some ''vehicle_id'',
      fs_timestamp := Some ''occurred_at''\<rparr>"

definition delivery_delay_risk_contract :: feature_contract where
  "delivery_delay_risk_contract =
     \<lparr>fc_task = ''delivery-delay-risk'', fc_version = ''1'', fc_target = ''Trip'',
      fc_features = [planned_departure_hour, day_of_week_feature, planned_trip_distance_km, number_of_stops,
        vehicle_age_years, odometer_km, days_since_last_maintenance, previous_breakdown_count,
        driver_recent_trip_count, driver_late_delivery_ratio, route_historical_delay_ratio,
        planned_delivery_count, loading_start_delay, recent_fuel_anomaly_count]\<rparr>"

lemmas feature_defs =
  planned_departure_hour_def day_of_week_feature_def planned_trip_distance_km_def number_of_stops_def
  vehicle_age_years_def odometer_km_def days_since_last_maintenance_def previous_breakdown_count_def
  driver_recent_trip_count_def driver_late_delivery_ratio_def route_historical_delay_ratio_def
  planned_delivery_count_def loading_start_delay_def recent_fuel_anomaly_count_def base_spec_def

subsection \<open>The cost guard\<close>

definition max_window_days :: int where "max_window_days = 365"

definition related_row_limit :: nat where "related_row_limit = 500"

definition dataset_build_row_limit :: nat where "dataset_build_row_limit = 50000"

definition enforce_window_limit :: "int option \<Rightarrow> exn + int option" where
  "enforce_window_limit w =
     (case w of None \<Rightarrow> Inr None
      | Some d \<Rightarrow> if d > max_window_days then Inl (QueryCostExceededError (nat d)) else Inr w)"

subsection \<open>Normalisation\<close>

definition py_int :: "conv \<Rightarrow> pyval \<Rightarrow> exn + int" where
  "py_int cv v =
     (case v of
        PInt i \<Rightarrow> Inr i
      | PFloat q \<Rightarrow> Inr (if 0 \<le> q then \<lfloor>q\<rfloor> else \<lceil>q\<rceil>)
      | PStr s \<Rightarrow> (case cv_int cv s of None \<Rightarrow> Inl (ValueError ''invalid literal for int()'') | Some i \<Rightarrow> Inr i)
      | PBool b \<Rightarrow> Inr (if b then 1 else 0)
      | _ \<Rightarrow> Inl (TypeError ''int()''))"

definition py_float :: "conv \<Rightarrow> pyval \<Rightarrow> exn + rat" where
  "py_float cv v =
     (case v of
        PInt i \<Rightarrow> Inr (of_int i)
      | PFloat q \<Rightarrow> Inr q
      | PStr s \<Rightarrow> (case cv_float cv s of None \<Rightarrow> Inl (ValueError ''could not convert string to float'') | Some q \<Rightarrow> Inr q)
      | PBool b \<Rightarrow> Inr (if b then 1 else 0)
      | _ \<Rightarrow> Inl (TypeError ''float()''))"

fun py_bool :: "pyval \<Rightarrow> bool" where
  "py_bool PNone = False"
| "py_bool (PInt i) = (i \<noteq> 0)"
| "py_bool (PFloat q) = (q \<noteq> 0)"
| "py_bool (PStr s) = (s \<noteq> [])"
| "py_bool (PBool b) = b"
| "py_bool (PTime d) = True"

definition normalize :: "conv \<Rightarrow> feature_spec \<Rightarrow> pyval \<Rightarrow> exn + pyval" where
  "normalize cv f raw =
     (if raw = PNone then
        Inr (case fs_missing f of
               MV_ZERO \<Rightarrow> PInt 0
             | MV_CONSTANT \<Rightarrow> (case fs_default f of None \<Rightarrow> PNone | Some q \<Rightarrow> PFloat q)
             | MV_NULL \<Rightarrow> PNone)
      else case fs_type f of
        FT_INTEGER \<Rightarrow> rbind (py_int cv raw) (\<lambda>i. Inr (PInt i))
      | FT_FLOAT \<Rightarrow> rbind (py_float cv raw) (\<lambda>q. Inr (PFloat q))
      | FT_BOOLEAN \<Rightarrow> Inr (PBool (py_bool raw)))"

subsection \<open>Derivation\<close>

definition dt_utc :: "py_datetime \<Rightarrow> instant" where
  "dt_utc d = fst d - (case snd d of None \<Rightarrow> 0 | Some off \<Rightarrow> off)"

definition assume_utc :: "py_datetime \<Rightarrow> py_datetime" where
  "assume_utc d = (if snd d = None then (fst d, Some 0) else d)"

definition coerce_datetime :: "conv \<Rightarrow> pyval \<Rightarrow> exn + py_datetime option" where
  "coerce_datetime cv v =
     (case v of
        PNone \<Rightarrow> Inr None
      | PStr s \<Rightarrow> (case cv_iso cv s of None \<Rightarrow> Inl (ValueError ''Invalid isoformat string'')
                  | Some d \<Rightarrow> Inr (Some (assume_utc d)))
      | PTime d \<Rightarrow> Inr (Some (assume_utc d))
      | _ \<Rightarrow> Inl (AttributeError ''tzinfo''))"

definition hour_of_day :: "py_datetime option \<Rightarrow> pyval" where
  "hour_of_day v = (case v of None \<Rightarrow> PNone | Some d \<Rightarrow> PInt (fst d div 3600000000 mod 24))"

text \<open>The epoch was a Thursday, and Monday is 0.\<close>

definition day_of_week :: "py_datetime option \<Rightarrow> pyval" where
  "day_of_week v = (case v of None \<Rightarrow> PNone | Some d \<Rightarrow> PInt ((fst d div 86400000000 + 3) mod 7))"

definition age_years_at_prediction :: "instant \<Rightarrow> py_datetime option \<Rightarrow> pyval" where
  "age_years_at_prediction pt v =
     (case v of None \<Rightarrow> PNone
      | Some d \<Rightarrow> PFloat (of_int ((pt - dt_utc d) div 86400000000) / (36525 / 100)))"

definition loading_start_delay_minutes :: "instant \<Rightarrow> py_datetime option \<Rightarrow> py_datetime option \<Rightarrow> pyval" where
  "loading_start_delay_minutes pt v sec =
     (case v of None \<Rightarrow> PFloat 0
      | Some d \<Rightarrow> (case sec of None \<Rightarrow> PFloat 0
         | Some s \<Rightarrow> if dt_utc d \<ge> pt then PFloat 0
                     else PFloat (of_int (dt_utc d - dt_utc s) / 1000000 / 60)))"

definition apply_derive :: "conv \<Rightarrow> string \<Rightarrow> pyval \<Rightarrow> pyval \<Rightarrow> instant \<Rightarrow> exn + pyval" where
  "apply_derive cv name v sec pt =
     (if name \<notin> {''hour_of_day'', ''day_of_week'', ''age_years_at_prediction'', ''loading_start_delay_minutes''}
      then Inl (UnknownDeriveFunctionError name)
      else rbind (coerce_datetime cv v) (\<lambda>d. rbind (coerce_datetime cv sec) (\<lambda>s.
        Inr (if name = ''hour_of_day'' then hour_of_day d
             else if name = ''day_of_week'' then day_of_week d
             else if name = ''age_years_at_prediction'' then age_years_at_prediction pt d
             else loading_start_delay_minutes pt d s))))"

subsection \<open>What a contract guarantees\<close>

text \<open>
  A reviewed feature: its validator accepts it, its window is within the guard, its derivation
  is in the registry, and if it reads related rows without a cutoff it is declared free of
  leakage.
\<close>

definition no_conv :: conv where
  "no_conv = \<lparr>cv_int = (\<lambda>_. None), cv_float = (\<lambda>_. None), cv_iso = (\<lambda>_. None)\<rparr>"

definition feature_reviewed :: "feature_spec \<Rightarrow> bool" where
  "feature_reviewed f \<longleftrightarrow>
     \<not> isl (validate_feature_spec f) \<and> \<not> isl (enforce_window_limit (fs_window f)) \<and>
     (case fs_derive f of None \<Rightarrow> True | Some d \<Rightarrow> \<not> isl (apply_derive no_conv d PNone PNone 0)) \<and>
     (\<not> is_related (fs_kind f) \<or> truthy (fs_timestamp f) \<or> fs_leakage f = LR_NONE)"

text \<open>
  The shipped contract is in order. Its features have distinct names; each passes the
  validator of specifications, asks for a window within the limit, derives with a registered
  function, and has a cutoff column unless it is declared free of leakage; and the features it
  requires are the three that are read off the target row.
\<close>

theorem shipped_contract_is_reviewed:
  "list_all feature_reviewed (fc_features delivery_delay_risk_contract) \<and>
   distinct (map fs_name (fc_features delivery_delay_risk_contract)) \<and>
   map fs_name (filter fs_required (fc_features delivery_delay_risk_contract)) =
     [''planned_departure_hour'', ''day_of_week'', ''planned_trip_distance_km''] \<and>
   list_all (\<lambda>f. \<not> is_related (fs_kind f)) (filter fs_required (fc_features delivery_delay_risk_contract))"
  by (intro conjI) code_simp+

text \<open>
  What a normalised value may be: of the declared type, or what the specification declares for
  missing data, which for \<open>ZERO\<close> is the integer zero whatever the type is.
\<close>

definition feature_value :: "feature_spec \<Rightarrow> pyval \<Rightarrow> bool" where
  "feature_value f v \<longleftrightarrow>
     (case v of
        PInt i \<Rightarrow> fs_type f = FT_INTEGER \<or> fs_missing f = MV_ZERO \<and> i = 0
      | PFloat q \<Rightarrow> fs_type f = FT_FLOAT \<or> fs_missing f = MV_CONSTANT \<and> fs_default f = Some q
      | PBool b \<Rightarrow> fs_type f = FT_BOOLEAN
      | PNone \<Rightarrow> fs_missing f = MV_NULL \<or> fs_missing f = MV_CONSTANT \<and> fs_default f = None
      | _ \<Rightarrow> False)"

lemma normalize_feature_value: "normalize cv f raw = Inr v \<Longrightarrow> feature_value f v"
  by (auto simp: normalize_def feature_value_def split: if_splits feature_type.splits missing_behavior.splits option.splits)

lemma normalize_keeps_integers:
  "normalize cv f d = Inr v \<Longrightarrow> fs_type f = FT_INTEGER \<Longrightarrow> fs_missing f = MV_NULL \<Longrightarrow>
    d \<in> insert PNone (PInt ` S) \<Longrightarrow> v \<in> insert PNone (PInt ` S)"
  by (auto simp: normalize_def py_int_def)

lemma derived_ranges:
  "hour_of_day v = PInt h \<Longrightarrow> 0 \<le> h \<and> h < 24"
  "day_of_week v = PInt d \<Longrightarrow> 0 \<le> d \<and> d < 7"
  by (auto simp: hour_of_day_def day_of_week_def split: option.splits)

text \<open>A departure at or after the prediction time, known or not, is as good as none.\<close>

lemma future_departure_invisible:
  assumes "\<And>d. v = Some d \<Longrightarrow> pt \<le> dt_utc d"
  shows "loading_start_delay_minutes pt v s = PFloat 0"
  using assms by (auto simp: loading_start_delay_minutes_def split: option.split)

lemma derive_registered:
  "apply_derive cv name PNone PNone pt = Inr v \<Longrightarrow> v = PNone \<or> v = PFloat 0"
  by (auto simp: apply_derive_def coerce_datetime_def hour_of_day_def day_of_week_def
      age_years_at_prediction_def loading_start_delay_minutes_def split: if_splits)

end
