(* ===== verification/FeatureQueries.thy ===== *)
theory FeatureQueries
  imports Mappings QueryGuard FeatureSpecs
begin

section \<open>The feature query compiler and the mapping resolver\<close>

text \<open>
  \<open>hermes_rpt/features/compiler.py\<close> and \<open>resolver.py\<close>. A statement is what the compiler builds
  with the query library: table, projection, conditions with their bound values, order and
  limit. How a database answers a statement is a parameter (\<open>query\<close>): a list of rows of
  values, in the order of the projection. \<open>iter\<close> is the iteration order of a set of names and
  \<open>onto\<close> loads the ontology of a version.
\<close>

datatype sql_cmp = CmpEq | CmpLt | CmpGe

datatype projection =
    Columns "(string \<times> string) list"
  | CountRows
  | MatchedAndTotal string pyval
  | MaxOf string
  | OneColumn string

record stmt =
  qs_table :: "string \<times> string"
  qs_project :: projection
  qs_where :: "(string \<times> sql_cmp \<times> pyval) list"
  qs_order :: "(string \<times> bool) option"
  qs_limit :: "nat option"

type_synonym sql_query = "engine \<Rightarrow> stmt \<Rightarrow> exn + pyval list list"

type_synonym record_row = "(string, pyval) dict"

definition utc_value :: "instant \<Rightarrow> pyval" where
  "utc_value t = PTime (t, Some 0)"

subsection \<open>Columns\<close>

definition all_fields :: "mapping_document \<Rightarrow> (string, field_mapping) dict" where
  "all_fields d = dict_merge (md_identity d) (md_fields d)"

definition resolve_column :: "mapping_document \<Rightarrow> string \<Rightarrow> exn + string option" where
  "resolve_column d n =
     (case dict_get (all_fields d) n of
        None \<Rightarrow> Inr None
      | Some m \<Rightarrow> (case fm_sources m of
            [] \<Rightarrow> Inl (ExternalError ''IndexError'')
          | v # _ \<Rightarrow> (case vs_column v of None \<Rightarrow> Inl (ColumnNotDirectlyMappedError n) | Some c \<Rightarrow> Inr (Some c))))"

definition identity_column :: "mapping_document \<Rightarrow> exn + string \<times> string" where
  "identity_column d =
     (case md_identity d of
        [(n, _)] \<Rightarrow> rbind (resolve_column d n) (\<lambda>c. case c of
            None \<Rightarrow> Inl (ColumnNotDirectlyMappedError n) | Some col \<Rightarrow> Inr (n, col))
      | _ \<Rightarrow> Inl (ColumnNotDirectlyMappedError ''identity''))"

definition identity_field_name :: "mapping_document \<Rightarrow> exn + string" where
  "identity_field_name d = rbind (identity_column d) (\<lambda>nc. Inr (fst nc))"

text \<open>The columns of the mapped ones among some fields, after the columns collected so far.\<close>

fun select_columns :: "mapping_document \<Rightarrow> string list \<Rightarrow> (string, string) dict \<Rightarrow> exn + (string, string) dict" where
  "select_columns d [] cols = Inr cols"
| "select_columns d (n # ns) cols =
     (if n \<in> fst ` set cols then select_columns d ns cols
      else rbind (resolve_column d n) (\<lambda>c. case c of
          None \<Rightarrow> select_columns d ns cols | Some col \<Rightarrow> select_columns d ns (dict_put n col cols)))"

definition datetime_field_names :: "ontology_loader \<Rightarrow> mapping_document \<Rightarrow> exn + string set" where
  "datetime_field_names onto d =
     rbind (onto ''1'') (\<lambda>o1. rbind (get_entity o1 (md_entity d)) (\<lambda>e.
       Inr (set (map of_name (filter (\<lambda>f. of_type f = T_DATETIME) (oe_fields e))))))"

definition coerce_row_datetimes :: "conv \<Rightarrow> string set \<Rightarrow> record_row \<Rightarrow> exn + record_row" where
  "coerce_row_datetimes cv names row =
     mapM_r (\<lambda>(k, v). case v of
         PStr s \<Rightarrow> if k \<in> names then
             (case cv_iso cv s of None \<Rightarrow> Inl (ValueError ''Invalid isoformat string'')
              | Some d \<Rightarrow> Inr (k, PTime (assume_utc d)))
           else Inr (k, v)
       | _ \<Rightarrow> Inr (k, v)) row"

definition check_allowlisted :: "mapping_document \<Rightarrow> string list \<Rightarrow> string list \<Rightarrow> exn + unit" where
  "check_allowlisted d schemas tables =
     assert_object_allowed (st_schema (md_source d)) (Some (st_table (md_source d))) schemas tables"

definition source_of :: "mapping_document \<Rightarrow> string \<times> string" where
  "source_of d = (st_schema (md_source d), st_table (md_source d))"

definition labelled :: "(string, string) dict \<Rightarrow> pyval list \<Rightarrow> record_row" where
  "labelled cols vs = zip (map fst cols) vs"

subsection \<open>Target rows and related records\<close>

definition fetch_target_row ::
  "sql_query \<Rightarrow> (string set \<Rightarrow> string list) \<Rightarrow> engine \<Rightarrow> mapping_document \<Rightarrow> string \<Rightarrow> string set \<Rightarrow>
   string list \<Rightarrow> string list \<Rightarrow> exn + record_row option" where
  "fetch_target_row query iter e d reference needed schemas tables =
     rbind (check_allowlisted d schemas tables) (\<lambda>_.
     rbind (identity_column d) (\<lambda>(idf, idc).
     rbind (select_columns d (iter needed) [(idf, idc)]) (\<lambda>cols.
     rbind (query e \<lparr>qs_table = source_of d, qs_project = Columns cols,
              qs_where = [(idc, CmpEq, PStr reference)], qs_order = None, qs_limit = Some 1\<rparr>) (\<lambda>rows.
       Inr (case rows of [] \<Rightarrow> None | r # _ \<Rightarrow> Some (labelled cols r))))))"

definition fetch_rows_in_range ::
  "sql_query \<Rightarrow> (string set \<Rightarrow> string list) \<Rightarrow> ontology_loader \<Rightarrow> conv \<Rightarrow> engine \<Rightarrow> mapping_document \<Rightarrow> string \<Rightarrow>
   instant \<Rightarrow> instant \<Rightarrow> string set \<Rightarrow> string list \<Rightarrow> string list \<Rightarrow> exn + record_row list" where
  "fetch_rows_in_range query iter onto cv e d time_field start stop needed schemas tables =
     rbind (check_allowlisted d schemas tables) (\<lambda>_.
     rbind (identity_column d) (\<lambda>(idf, idc).
     rbind (resolve_column d time_field) (\<lambda>tc. case tc of None \<Rightarrow> Inr [] | Some tcol \<Rightarrow>
     rbind (select_columns d (iter (needed \<union> {time_field})) [(idf, idc)]) (\<lambda>cols.
     rbind (datetime_field_names onto d) (\<lambda>dts.
     rbind (query e \<lparr>qs_table = source_of d, qs_project = Columns cols,
              qs_where = [(tcol, CmpGe, utc_value start), (tcol, CmpLt, utc_value stop)],
              qs_order = Some (tcol, False), qs_limit = Some dataset_build_row_limit\<rparr>) (\<lambda>rows.
       mapM_r (\<lambda>r. coerce_row_datetimes cv dts (labelled cols r)) rows))))))"

definition fetch_related_records ::
  "sql_query \<Rightarrow> ontology_loader \<Rightarrow> conv \<Rightarrow> engine \<Rightarrow> mapping_document \<Rightarrow> string \<Rightarrow> pyval \<Rightarrow> string option \<Rightarrow>
   instant option \<Rightarrow> nat \<Rightarrow> string list \<Rightarrow> string list \<Rightarrow> exn + record_row list" where
  "fetch_related_records query onto cv e d join_field join_value ts pt n schemas tables =
     rbind (check_allowlisted d schemas tables) (\<lambda>_.
     rbind (resolve_column d join_field) (\<lambda>jc. case jc of None \<Rightarrow> Inr [] | Some jcol \<Rightarrow>
     rbind (select_columns d (map fst (all_fields d)) []) (\<lambda>cols.
     rbind (if truthy ts then resolve_column d (the ts) else Inr None) (\<lambda>tc.
     rbind (datetime_field_names onto d) (\<lambda>dts.
     rbind (query e \<lparr>qs_table = source_of d, qs_project = Columns cols,
              qs_where = (jcol, CmpEq, join_value) #
                (case tc of None \<Rightarrow> [] | Some c \<Rightarrow> (case pt of None \<Rightarrow> [] | Some t \<Rightarrow> [(c, CmpLt, utc_value t)])),
              qs_order = map_option (\<lambda>c. (c, True)) tc, qs_limit = Some n\<rparr>) (\<lambda>rows.
       mapM_r (\<lambda>r. coerce_row_datetimes cv dts (labelled cols r)) rows))))))"

subsection \<open>Related features\<close>

fun py_ratio :: "pyval \<Rightarrow> pyval \<Rightarrow> exn + pyval" where
  "py_ratio m t =
     (if \<not> py_bool t then Inr PNone
      else case (m, t) of
          (PInt a, PInt b) \<Rightarrow> Inr (PFloat (of_int a / of_int b))
        | (PFloat a, PInt b) \<Rightarrow> Inr (PFloat (a / of_int b))
        | _ \<Rightarrow> Inl (TypeError ''/''))"

definition scalar_one :: "pyval list list \<Rightarrow> exn + pyval" where
  "scalar_one rows = (case rows of [v # _] \<Rightarrow> Inr v | _ \<Rightarrow> Inl (ExternalError ''NoResultFound''))"

definition scalar_one_or_none_val :: "pyval list list \<Rightarrow> exn + pyval" where
  "scalar_one_or_none_val rows =
     (case rows of [] \<Rightarrow> Inr PNone | [v # _] \<Rightarrow> Inr v | _ \<Rightarrow> Inl MultipleResultsFound)"

definition microseconds_per_day :: int where
  "microseconds_per_day = 86400000000"

text \<open>The conditions every recipe starts from: the join, the cutoff and the window.\<close>

definition base_conditions ::
  "feature_spec \<Rightarrow> string \<Rightarrow> pyval \<Rightarrow> string option \<Rightarrow> instant \<Rightarrow> exn + (string \<times> sql_cmp \<times> pyval) list" where
  "base_conditions f jcol join_value tc pt =
     (case tc of
        None \<Rightarrow> Inr [(jcol, CmpEq, join_value)]
      | Some c \<Rightarrow> rbind (enforce_window_limit (fs_window f)) (\<lambda>w.
          Inr ([(jcol, CmpEq, join_value), (c, CmpLt, utc_value pt)] @
            (case w of None \<Rightarrow> [] | Some days \<Rightarrow> [(c, CmpGe, utc_value (pt - days * microseconds_per_day))]))))"

definition related_recipe ::
  "sql_query \<Rightarrow> conv \<Rightarrow> engine \<Rightarrow> feature_spec \<Rightarrow> mapping_document \<Rightarrow> string option \<Rightarrow>
   (string \<times> sql_cmp \<times> pyval) list \<Rightarrow> instant \<Rightarrow> exn + pyval" where
  "related_recipe query cv e f d tc conds pt =
     (let base = \<lparr>qs_table = source_of d, qs_project = CountRows, qs_where = conds, qs_order = None, qs_limit = None\<rparr>
      in case fs_kind f of
        RELATED_COUNT \<Rightarrow>
          rbind (if truthy (fs_filter_field f) \<and> fs_filter_equals f \<noteq> None
                 then resolve_column d (the (fs_filter_field f)) else Inr None) (\<lambda>fc.
          rbind (query e (base\<lparr>qs_where := conds @ (case fc of None \<Rightarrow> []
                   | Some c \<Rightarrow> [(c, CmpEq, PStr (the (fs_filter_equals f)))])\<rparr>)) scalar_one)
      | RELATED_RATIO \<Rightarrow>
          rbind (ensure (fs_filter_field f \<noteq> None) AssertionError) (\<lambda>_.
          rbind (resolve_column d (the (fs_filter_field f))) (\<lambda>fc. case fc of None \<Rightarrow> Inr PNone | Some c \<Rightarrow>
          rbind (query e (base\<lparr>qs_project := MatchedAndTotal c
                   (case fs_filter_equals f of None \<Rightarrow> PNone | Some x \<Rightarrow> PStr x)\<rparr>)) (\<lambda>rows.
            case rows of [[m, t]] \<Rightarrow> py_ratio m t | _ \<Rightarrow> Inl (ExternalError ''NoResultFound''))))
      | RELATED_RECENCY_DAYS \<Rightarrow>
          (case tc of None \<Rightarrow> Inl AssertionError | Some c \<Rightarrow>
           rbind (query e (base\<lparr>qs_project := MaxOf c\<rparr>)) (\<lambda>rows.
           rbind (scalar_one_or_none_val rows) (\<lambda>raw.
           rbind (coerce_datetime cv raw) (\<lambda>latest. Inr (case latest of None \<Rightarrow> PNone
             | Some ts \<Rightarrow> PFloat (of_int (pt - dt_utc ts) / 1000000 / 86400))))))
      | RELATED_LATEST_VALUE \<Rightarrow>
          rbind (ensure (fs_value_field f \<noteq> None) AssertionError) (\<lambda>_.
          rbind (resolve_column d (the (fs_value_field f))) (\<lambda>vc. case vc of None \<Rightarrow> Inr PNone | Some c \<Rightarrow>
          rbind (query e (base\<lparr>qs_project := OneColumn c, qs_order := map_option (\<lambda>t. (t, True)) tc,
                   qs_limit := Some related_row_limit\<rparr>)) (\<lambda>rows.
            Inr (case rows of (v # _) # _ \<Rightarrow> v | _ \<Rightarrow> PNone))))
      | _ \<Rightarrow> Inl (ValueError ''Unsupported feature kind''))"

definition timestamp_column :: "feature_spec \<Rightarrow> mapping_document \<Rightarrow> exn + string option" where
  "timestamp_column f d = (if truthy (fs_timestamp f) then resolve_column d (the (fs_timestamp f)) else Inr None)"

definition run_related_feature ::
  "sql_query \<Rightarrow> conv \<Rightarrow> engine \<Rightarrow> feature_spec \<Rightarrow> mapping_document \<Rightarrow> pyval \<Rightarrow> instant \<Rightarrow> string list \<Rightarrow> string list \<Rightarrow>
   exn + pyval" where
  "run_related_feature query cv e f d join_value pt schemas tables =
     rbind (check_allowlisted d schemas tables) (\<lambda>_.
     rbind (ensure (fs_fk f \<noteq> None) AssertionError) (\<lambda>_.
     rbind (resolve_column d (the (fs_fk f))) (\<lambda>jc. case jc of None \<Rightarrow> Inr PNone | Some jcol \<Rightarrow>
     rbind (timestamp_column f d) (\<lambda>tc.
     rbind (base_conditions f jcol join_value tc pt) (\<lambda>conds.
       related_recipe query cv e f d tc conds pt)))))"

subsection \<open>The resolver\<close>

record resolved =
  rs_mapping :: schema_mapping
  rs_document :: mapping_document

definition resolve_mapping :: "string \<Rightarrow> tenant_context \<Rightarrow> 'z map_db_scheme \<Rightarrow> exn + resolved option" where
  "resolve_mapping entity ctx db =
     rbind (get_active_by_entity_name entity ctx db) (\<lambda>found.
       Inr (case found of None \<Rightarrow> None | Some m \<Rightarrow>
         (case sm_active m of None \<Rightarrow> None | Some vid \<Rightarrow>
            if sm_suspended m then None
            else map_option (\<lambda>v. \<lparr>rs_mapping = m, rs_document = mv_document v\<rparr>) (repo_get (db_versions db) vid ctx))))"

definition resolve_target_mapping :: "string \<Rightarrow> tenant_context \<Rightarrow> 'z map_db_scheme \<Rightarrow> exn + resolved" where
  "resolve_target_mapping entity ctx db =
     rbind (resolve_mapping entity ctx db) (\<lambda>r.
       case r of None \<Rightarrow> Inl (TargetMappingUnavailableError entity) | Some x \<Rightarrow> Inr x)"

subsection \<open>Only safe statements are sent\<close>

lemma rbind_cong: "(\<And>x. r = Inr x \<Longrightarrow> k x = k' x) \<Longrightarrow> rbind r k = rbind r k'"
  by (cases r) simp_all

lemma check_allowlisted_Inr [simp]:
  "check_allowlisted d schemas tables = Inr u \<longleftrightarrow> fst (source_of d) \<in> set schemas \<and> snd (source_of d) \<in> set tables"
  by (simp add: check_allowlisted_def assert_object_allowed_def source_of_def)

lemma check_allowlisted_ok [simp]:
  "fst (source_of d) \<in> set schemas \<Longrightarrow> snd (source_of d) \<in> set tables \<Longrightarrow> check_allowlisted d schemas tables = Inr ()"
  by simp

text \<open>
  A statement about an allowlisted table that returns one row of aggregates or is limited. Two
  databases that agree on the safe statements cannot be told apart by an operation exactly when
  the operation sends no other statements.
\<close>

definition safe_stmt :: "string list \<Rightarrow> string list \<Rightarrow> stmt \<Rightarrow> bool" where
  "safe_stmt schemas tables s \<longleftrightarrow> fst (qs_table s) \<in> set schemas \<and> snd (qs_table s) \<in> set tables \<and>
     (case qs_project s of
        Columns _ \<Rightarrow> qs_limit s \<noteq> None
      | OneColumn _ \<Rightarrow> qs_limit s \<noteq> None
      | _ \<Rightarrow> True)"

definition agree_on :: "(stmt \<Rightarrow> bool) \<Rightarrow> sql_query \<Rightarrow> sql_query \<Rightarrow> bool" where
  "agree_on P query query' \<longleftrightarrow> (\<forall>e s. P s \<longrightarrow> query e s = query' e s)"

lemma fetch_target_row_safe:
  assumes "agree_on (safe_stmt schemas tables) query query'"
  shows "fetch_target_row query iter e d r needed schemas tables =
    fetch_target_row query' iter e d r needed schemas tables"
  unfolding fetch_target_row_def case_prod_beta
  using assms by (intro rbind_cong arg_cong2 [where f = rbind]) (auto simp: agree_on_def safe_stmt_def)

lemma fetch_rows_in_range_safe:
  assumes "agree_on (safe_stmt schemas tables) query query'"
  shows "fetch_rows_in_range query iter onto cv e d tf a b needed schemas tables =
    fetch_rows_in_range query' iter onto cv e d tf a b needed schemas tables"
proof -
  have eq: "query e s = query' e s" if "safe_stmt schemas tables s" for s
    using assms that by (simp add: agree_on_def)
  show ?thesis
    unfolding fetch_rows_in_range_def case_prod_beta
    by (intro rbind_cong) (auto split: option.split intro!: rbind_cong arg_cong2 [where f = rbind] eq simp: safe_stmt_def)
qed

lemma fetch_related_records_safe:
  assumes "agree_on (safe_stmt schemas tables) query query'"
  shows "fetch_related_records query onto cv e d jf jv ts pt n schemas tables =
    fetch_related_records query' onto cv e d jf jv ts pt n schemas tables"
proof -
  have eq: "query e s = query' e s" if "safe_stmt schemas tables s" for s
    using assms that by (simp add: agree_on_def)
  show ?thesis
    unfolding fetch_related_records_def
    by (intro rbind_cong) (auto split: option.split intro!: rbind_cong arg_cong2 [where f = rbind] eq simp: safe_stmt_def)
qed

text \<open>The statements of a related feature: those of its table that carry its base conditions.\<close>

definition feature_stmt :: "mapping_document \<Rightarrow> (string \<times> sql_cmp \<times> pyval) list \<Rightarrow> stmt \<Rightarrow> bool" where
  "feature_stmt d conds s \<longleftrightarrow> qs_table s = source_of d \<and> set conds \<subseteq> set (qs_where s) \<and>
     (case qs_project s of Columns _ \<Rightarrow> False | OneColumn _ \<Rightarrow> qs_limit s = Some related_row_limit | _ \<Rightarrow> True)"

lemma related_recipe_cong:
  assumes "\<And>s. feature_stmt d conds s \<Longrightarrow> query e s = query' e s"
  shows "related_recipe query cv e f d tc conds pt = related_recipe query' cv e f d tc conds pt"
  unfolding related_recipe_def Let_def
  by (cases "fs_kind f")
    (auto intro!: rbind_cong arg_cong2 [where f = rbind] assms simp: feature_stmt_def split: option.split)

lemma run_related_feature_cong:
  assumes "\<And>jcol tc conds s. timestamp_column f d = Inr tc \<Longrightarrow> base_conditions f jcol jv tc pt = Inr conds \<Longrightarrow>
      feature_stmt d conds s \<Longrightarrow> check_allowlisted d schemas tables = Inr () \<Longrightarrow> query e s = query' e s"
  shows "run_related_feature query cv e f d jv pt schemas tables =
    run_related_feature query' cv e f d jv pt schemas tables"
proof -
  have "related_recipe query cv e f d tc conds pt = related_recipe query' cv e f d tc conds pt"
    if "check_allowlisted d schemas tables = Inr u" "timestamp_column f d = Inr tc"
      "base_conditions f jcol jv tc pt = Inr conds" for u tc jcol conds
    by (rule related_recipe_cong) (use assms that in auto)
  then show ?thesis
    unfolding run_related_feature_def by (auto intro!: rbind_cong split: option.split)
qed

lemma run_related_feature_safe:
  assumes "agree_on (safe_stmt schemas tables) query query'"
  shows "run_related_feature query cv e f d jv pt schemas tables =
    run_related_feature query' cv e f d jv pt schemas tables"
proof (rule run_related_feature_cong)
  fix conds s
  assume s: "feature_stmt d conds s" "check_allowlisted d schemas tables = Inr ()"
  then have "safe_stmt schemas tables s"
    by (auto simp: feature_stmt_def safe_stmt_def split: projection.splits)
  then show "query e s = query' e s" using assms by (simp add: agree_on_def)
qed

text \<open>
  C9: only safe statements reach a customer database. Whatever is fetched for features or for a
  dataset, each statement sent is about a table on the connection's two allowlists, and one that
  returns rows carries a limit: databases that agree on such statements give the same results
  and errors.
\<close>

theorem feature_statements_are_safe:
  assumes "\<And>e s. safe_stmt schemas tables s \<Longrightarrow> query e s = query' e s"
  shows "fetch_target_row query iter e d r needed schemas tables =
      fetch_target_row query' iter e d r needed schemas tables \<and>
    fetch_rows_in_range query iter onto cv e d tf a b needed schemas tables =
      fetch_rows_in_range query' iter onto cv e d tf a b needed schemas tables \<and>
    fetch_related_records query onto cv e d jf jv ts opt n schemas tables =
      fetch_related_records query' onto cv e d jf jv ts opt n schemas tables \<and>
    run_related_feature query cv e f d jv pt schemas tables =
      run_related_feature query' cv e f d jv pt schemas tables"
proof -
  have "agree_on (safe_stmt schemas tables) query query'" using assms by (simp add: agree_on_def)
  note eq = fetch_target_row_safe [OF this] fetch_rows_in_range_safe [OF this]
    fetch_related_records_safe [OF this] run_related_feature_safe [OF this]
  show ?thesis by (intro conjI eq)
qed

text \<open>A database that answers every statement about a forbidden table is never asked one.\<close>

definition only_safe :: "stmt \<Rightarrow> exn + pyval list list" where
  "only_safe s = (if safe_stmt [''public''] [''vehicles''] s then Inr [[PStr ''v1'']] else Inl (ExternalError ''asked''))"

definition sample_engine :: engine where
  "sample_engine = build_engine \<lparr>ct_host = ''h'', ct_port = 5432, ct_database = ''d'', ct_username = ''u'',
     ct_password = ''pw'', ct_tls_mode = ''require''\<rparr>"

theorem feature_statements_are_safe_witness:
  "fetch_target_row (\<lambda>_ _. Inr [[PStr ''v1'']]) (\<lambda>_. []) sample_engine sample_document ''v1'' {} [''public''] [''vehicles''] =
   Inr (Some [(''vehicle_id'', PStr ''v1'')]) \<and>
   fetch_target_row (\<lambda>_. only_safe) (\<lambda>_. []) sample_engine sample_document ''v1'' {} [''public''] [''vehicles''] =
   Inr (Some [(''vehicle_id'', PStr ''v1'')])"
proof -
  have one: "fetch_target_row (\<lambda>_ _. Inr [[PStr ''v1'']]) (\<lambda>_. []) sample_engine sample_document ''v1'' {} [''public''] [''vehicles''] =
      Inr (Some [(''vehicle_id'', PStr ''v1'')])"
    by code_simp
  have "(\<lambda>_ _. Inr [[PStr ''v1'']]) e s = (\<lambda>_. only_safe) e s" if "safe_stmt [''public''] [''vehicles''] s" for e :: engine and s
    using that by (simp add: only_safe_def)
  from feature_statements_are_safe [where query = "\<lambda>_ _. Inr [[PStr ''v1'']]" and query' = "\<lambda>_. only_safe", OF this] one
  show ?thesis by metis
qed

subsection \<open>The cutoff at the prediction time\<close>

text \<open>When a row satisfies a condition; a comparison with a missing value does not hold.\<close>

fun sql_less :: "pyval \<Rightarrow> pyval \<Rightarrow> bool" where
  "sql_less (PTime a) (PTime b) = (dt_utc a < dt_utc b)"
| "sql_less (PInt a) (PInt b) = (a < b)"
| "sql_less (PFloat a) (PFloat b) = (a < b)"
| "sql_less (PStr a) (PStr b) = (a < b)"
| "sql_less _ _ = False"

fun sql_equal :: "pyval \<Rightarrow> pyval \<Rightarrow> bool" where
  "sql_equal PNone _ = False"
| "sql_equal (PTime a) (PTime b) = (dt_utc a = dt_utc b)"
| "sql_equal a b = (a = b)"

fun cond_holds :: "record_row \<Rightarrow> string \<times> sql_cmp \<times> pyval \<Rightarrow> bool" where
  "cond_holds r (c, op, p) =
     (case dict_get r c of
        None \<Rightarrow> False
      | Some v \<Rightarrow> (case op of CmpEq \<Rightarrow> sql_equal v p | CmpLt \<Rightarrow> sql_less v p
                 | CmpGe \<Rightarrow> sql_less p v \<or> sql_equal v p))"

text \<open>What a \<open>WHERE\<close> clause means: the answer depends on the rows that satisfy it only.\<close>

definition where_law :: "(record_row list \<Rightarrow> stmt \<Rightarrow> exn + pyval list list) \<Rightarrow> bool" where
  "where_law exec \<longleftrightarrow> (\<forall>rows s. exec rows s = exec (filter (\<lambda>r. list_all (cond_holds r) (qs_where s)) rows) s)"

definition in_window :: "feature_spec \<Rightarrow> instant \<Rightarrow> string \<Rightarrow> record_row \<Rightarrow> bool" where
  "in_window f pt tc r \<longleftrightarrow>
     (case dict_get r tc of
        Some (PTime t) \<Rightarrow> dt_utc t < pt \<and>
          (case fs_window f of None \<Rightarrow> True | Some days \<Rightarrow> pt - days * microseconds_per_day \<le> dt_utc t)
      | _ \<Rightarrow> False)"

lemma cutoff_in_window:
  assumes "base_conditions f jcol jv (Some tc) pt = Inr conds" and "set conds \<subseteq> set w"
    and "list_all (cond_holds r) w"
  shows "in_window f pt tc r"
proof -
  from assms have "\<And>c. c \<in> set conds \<Longrightarrow> cond_holds r c" by (auto simp: list_all_iff)
  moreover have "conds = [(jcol, CmpEq, jv), (tc, CmpLt, utc_value pt)] @
      (case fs_window f of None \<Rightarrow> [] | Some days \<Rightarrow> [(tc, CmpGe, utc_value (pt - days * microseconds_per_day))])"
    using assms(1) by (cases "fs_window f") (simp_all add: base_conditions_def enforce_window_limit_def split: if_split_asm)
  then have "(tc, CmpLt, utc_value pt) \<in> set conds"
    "\<And>days. fs_window f = Some days \<Longrightarrow> (tc, CmpGe, utc_value (pt - days * microseconds_per_day)) \<in> set conds"
    by simp_all
  ultimately have lt: "cond_holds r (tc, CmpLt, utc_value pt)"
    and ge: "\<And>days. fs_window f = Some days \<Longrightarrow> cond_holds r (tc, CmpGe, utc_value (pt - days * microseconds_per_day))"
    by blast+
  from lt obtain t where t: "dict_get r tc = Some (PTime t)" "dt_utc t < pt"
    by (auto simp: utc_value_def dt_utc_def split: option.splits elim!: sql_less.elims)
  from ge t show ?thesis
    by (auto simp: in_window_def utc_value_def dt_utc_def split: option.splits)
qed

lemma filter_filter_weaker:
  "(\<And>x. P x \<Longrightarrow> Q x) \<Longrightarrow> filter P xs = filter P (filter Q xs)"
  by (auto intro!: filter_cong)

text \<open>
  C6: features see only the past. When the timestamp field of a related feature is mapped, its
  value depends on no row of the related table dated at or after the prediction time, and on
  none before the window, if there is one: two databases whose tables agree on the rows between
  the two instants give the same value or error. The answer to a statement is assumed to depend
  on the rows its conditions select.
\<close>

theorem related_features_see_only_the_past:
  assumes "where_law exec" and "truthy (fs_timestamp f)" and "resolve_column d (the (fs_timestamp f)) = Inr (Some tc)"
    and "filter (in_window f pt tc) (rows e (source_of d)) = filter (in_window f pt tc) (rows' e (source_of d))"
  shows "run_related_feature (\<lambda>e s. exec (rows e (qs_table s)) s) cv e f d jv pt schemas tables =
    run_related_feature (\<lambda>e s. exec (rows' e (qs_table s)) s) cv e f d jv pt schemas tables"
proof (rule run_related_feature_cong)
  fix jcol tc' conds s
  assume tc': "timestamp_column f d = Inr tc'" and conds: "base_conditions f jcol jv tc' pt = Inr conds"
    and s: "feature_stmt d conds s"
  from tc' assms(2,3) have tc: "tc' = Some tc" by (simp add: timestamp_column_def)
  let ?P = "\<lambda>r. list_all (cond_holds r) (qs_where s)"
  have sub: "?P r \<Longrightarrow> in_window f pt tc r" for r
    using cutoff_in_window [of f jcol jv tc pt conds "qs_where s" r] conds s tc by (simp add: feature_stmt_def)
  have law: "exec r s = exec (filter ?P (filter (in_window f pt tc) r)) s" for r
  proof -
    have "exec r s = exec (filter ?P r) s" using assms(1) unfolding where_law_def by blast
    also have "filter ?P r = filter ?P (filter (in_window f pt tc) r)"
      by (rule filter_filter_weaker) (rule sub)
    finally show ?thesis .
  qed
  have "exec (rows e (source_of d)) s = exec (rows' e (source_of d)) s"
    unfolding law [of "rows e (source_of d)"] law [of "rows' e (source_of d)"] assms(4) ..
  moreover have "qs_table s = source_of d" using s by (simp add: feature_stmt_def)
  ultimately show "exec (rows e (qs_table s)) s = exec (rows' e (qs_table s)) s" by simp
qed

text \<open>A counting database.\<close>

definition count_exec :: "record_row list \<Rightarrow> stmt \<Rightarrow> exn + pyval list list" where
  "count_exec rows s = Inr [[PInt (int (length (filter (\<lambda>r. list_all (cond_holds r) (qs_where s)) rows)))]]"

definition fuel_document :: mapping_document where
  "fuel_document = \<lparr>md_entity = ''FuelEvent'', md_source = \<lparr>st_schema = ''public'', st_table = ''fuel''\<rparr>,
     md_identity = [(''fuel_event_id'', \<lparr>fm_sources = [column_source ''id''], fm_default = None\<rparr>)],
     md_fields = [(''vehicle_id'', \<lparr>fm_sources = [column_source ''vehicle''], fm_default = None\<rparr>),
       (''occurred_at'', \<lparr>fm_sources = [column_source ''at''], fm_default = None\<rparr>)],
     md_filters = [], md_joins = []\<rparr>"

definition fuel_row :: "instant \<Rightarrow> record_row" where
  "fuel_row t = [(''vehicle'', PStr ''v1''), (''at'', utc_value t)]"

theorem related_features_see_only_the_past_witness:
  "run_related_feature (\<lambda>e s. count_exec [fuel_row 500, fuel_row 2000] s) no_conv sample_engine recent_fuel_anomaly_count
     fuel_document (PStr ''v1'') 1000 [''public''] [''fuel''] = Inr (PInt 1)"
proof -
  have "run_related_feature (\<lambda>e s. count_exec ((\<lambda>_ _. [fuel_row 500, fuel_row 2000]) e (qs_table s)) s) no_conv sample_engine
      recent_fuel_anomaly_count fuel_document (PStr ''v1'') 1000 [''public''] [''fuel''] =
    run_related_feature (\<lambda>e s. count_exec ((\<lambda>_ _. [fuel_row 500]) e (qs_table s)) s) no_conv sample_engine
      recent_fuel_anomaly_count fuel_document (PStr ''v1'') 1000 [''public''] [''fuel'']"
  proof (rule related_features_see_only_the_past)
    show "where_law count_exec" by (simp add: where_law_def count_exec_def)
    show "truthy (fs_timestamp recent_fuel_anomaly_count)" by code_simp
    show "resolve_column fuel_document (the (fs_timestamp recent_fuel_anomaly_count)) = Inr (Some ''at'')" by code_simp
    show "filter (in_window recent_fuel_anomaly_count 1000 ''at'') [fuel_row 500, fuel_row 2000] =
        filter (in_window recent_fuel_anomaly_count 1000 ''at'') [fuel_row 500]"
      by code_simp
  qed
  moreover have "run_related_feature (\<lambda>e s. count_exec ((\<lambda>_ _. [fuel_row 500]) e (qs_table s)) s) no_conv sample_engine
      recent_fuel_anomaly_count fuel_document (PStr ''v1'') 1000 [''public''] [''fuel''] = Inr (PInt 1)"
    by code_simp
  ultimately show ?thesis by simp
qed

text \<open>
  An unmapped timestamp switches the cutoff off. If the related entity is mapped without the
  feature's timestamp field, the feature has no cutoff and no window: counts, ratios and latest
  values are the same whatever the prediction time is, and a recency raises an assertion error
  once the join field is mapped.
\<close>

theorem unmapped_timestamp_has_no_cutoff:
  assumes "timestamp_column f d = Inr None"
  shows "(fs_kind f \<noteq> RELATED_RECENCY_DAYS \<longrightarrow>
      run_related_feature query cv e f d jv pt schemas tables =
      run_related_feature query cv e f d jv pt' schemas tables) \<and>
    (fs_kind f = RELATED_RECENCY_DAYS \<and> check_allowlisted d schemas tables = Inr () \<and> fs_fk f = Some k \<and>
       resolve_column d k = Inr (Some jcol) \<longrightarrow>
      run_related_feature query cv e f d jv pt schemas tables = Inl AssertionError)"
proof -
  have "related_recipe query cv e f d None conds pt = related_recipe query cv e f d None conds pt'" for conds
    by (cases "fs_kind f") (simp_all add: related_recipe_def)
  moreover have "base_conditions f jcol jv None pt = base_conditions f jcol jv None pt'" for jcol
    by (simp add: base_conditions_def)
  ultimately have "run_related_feature query cv e f d jv pt schemas tables =
      run_related_feature query cv e f d jv pt' schemas tables"
    using assms unfolding run_related_feature_def by (auto intro!: rbind_cong split: option.split)
  then show ?thesis
    using assms by (auto simp: run_related_feature_def related_recipe_def base_conditions_def)
qed

definition bare_fuel_document :: mapping_document where
  "bare_fuel_document = fuel_document\<lparr>md_fields := [(''vehicle_id'', \<lparr>fm_sources = [column_source ''vehicle''], fm_default = None\<rparr>)]\<rparr>"

theorem unmapped_timestamp_has_no_cutoff_witness:
  "timestamp_column recent_fuel_anomaly_count bare_fuel_document = Inr None \<and>
   run_related_feature (\<lambda>e s. count_exec [fuel_row 500, fuel_row 2000] s) no_conv sample_engine recent_fuel_anomaly_count
     bare_fuel_document (PStr ''v1'') 1000 [''public''] [''fuel''] = Inr (PInt 2)"
proof -
  have t: "timestamp_column recent_fuel_anomaly_count bare_fuel_document = Inr None" by code_simp
  have k: "fs_kind recent_fuel_anomaly_count \<noteq> RELATED_RECENCY_DAYS" by code_simp
  have "run_related_feature (\<lambda>e s. count_exec [fuel_row 500, fuel_row 2000] s) no_conv sample_engine recent_fuel_anomaly_count
     bare_fuel_document (PStr ''v1'') 3000 [''public''] [''fuel''] = Inr (PInt 2)" by code_simp
  with unmapped_timestamp_has_no_cutoff [OF t] k t show ?thesis by metis
qed


subsection \<open>What extraction uses of a mapping\<close>

definition bare_source :: "value_source \<Rightarrow> value_source" where
  "bare_source v = v\<lparr>vs_unit := None, vs_timezone := None, vs_value_map := None, vs_null_values := []\<rparr>"

definition bare_mapping :: "field_mapping \<Rightarrow> field_mapping" where
  "bare_mapping m = m\<lparr>fm_sources := map bare_source (fm_sources m), fm_default := None\<rparr>"

text \<open>A document without units, zones, value maps, null values, defaults, filters and joins.\<close>

definition bare_document :: "mapping_document \<Rightarrow> mapping_document" where
  "bare_document d = d\<lparr>md_identity := map (map_prod id bare_mapping) (md_identity d),
     md_fields := map (map_prod id bare_mapping) (md_fields d), md_filters := [], md_joins := []\<rparr>"

lemma dict_put_map: "dict_put k (h v) (map (map_prod id h) d) = map (map_prod id h) (dict_put k v d)"
  by (induction d) auto

lemma dict_merge_map: "dict_merge (map (map_prod id h) d) (map (map_prod id h) e) = map (map_prod id h) (dict_merge d e)"
proof -
  have "foldl (\<lambda>acc kv. dict_put (fst kv) (snd kv) acc) (map (map_prod id h) d) (map (map_prod id h) e) =
      map (map_prod id h) (foldl (\<lambda>acc kv. dict_put (fst kv) (snd kv) acc) d e)"
    by (induction e arbitrary: d) (simp_all add: dict_put_map)
  then show ?thesis by (simp add: dict_merge_def)
qed

lemma all_fields_bare: "all_fields (bare_document d) = map (map_prod id bare_mapping) (all_fields d)"
  by (simp add: all_fields_def bare_document_def dict_merge_map)

lemma resolve_column_bare [simp]: "resolve_column (bare_document d) n = resolve_column d n"
proof -
  have "dict_get (map (map_prod id bare_mapping) x) n = map_option bare_mapping (dict_get x n)" for x
    by (induction x) (auto simp: dict_get_def)
  then show ?thesis
    by (simp add: resolve_column_def all_fields_bare bare_mapping_def bare_source_def split: option.split list.split)
qed

lemma identity_column_bare [simp]: "identity_column (bare_document d) = identity_column d"
proof -
  have "md_identity (bare_document d) = map (map_prod id bare_mapping) (md_identity d)"
    by (simp add: bare_document_def)
  then show ?thesis by (simp add: identity_column_def split: list.split)
qed

lemma select_columns_bare [simp]: "select_columns (bare_document d) ns cols = select_columns d ns cols"
  by (induction ns arbitrary: cols) (auto intro!: rbind_cong split: option.split)

lemma bare_sel [simp]:
  "md_source (bare_document d) = md_source d" "md_entity (bare_document d) = md_entity d"
  by (simp_all add: bare_document_def)

lemma bare_derived [simp]:
  "source_of (bare_document d) = source_of d"
  "check_allowlisted (bare_document d) schemas tables = check_allowlisted d schemas tables"
  "timestamp_column f (bare_document d) = timestamp_column f d"
  "map fst (all_fields (bare_document d)) = map fst (all_fields d)"
  by (simp_all add: source_of_def check_allowlisted_def timestamp_column_def all_fields_bare)

lemma related_recipe_bare [simp]:
  "related_recipe query cv e f (bare_document d) tc conds pt = related_recipe query cv e f d tc conds pt"
  by (simp only: related_recipe_def resolve_column_bare bare_derived)

text \<open>
  Extraction reads raw columns. Of a mapping, what is extracted depends on the source table
  and on the column that each field's first source names, and on nothing else: units, time
  zones, value maps, null values, defaults, filters and joins, which validation checks, have no
  effect on any feature, target row, dataset row or related record.
\<close>

theorem extraction_ignores_conversions:
  "fetch_target_row query iter e (bare_document d) r needed schemas tables =
     fetch_target_row query iter e d r needed schemas tables \<and>
   fetch_rows_in_range query iter onto cv e (bare_document d) tf a b needed schemas tables =
     fetch_rows_in_range query iter onto cv e d tf a b needed schemas tables \<and>
   fetch_related_records query onto cv e (bare_document d) jf jv ts opt n schemas tables =
     fetch_related_records query onto cv e d jf jv ts opt n schemas tables \<and>
   run_related_feature query cv e f (bare_document d) jv pt schemas tables =
     run_related_feature query cv e f d jv pt schemas tables"
  by (simp add: fetch_target_row_def fetch_rows_in_range_def fetch_related_records_def run_related_feature_def
      datetime_field_names_def)

end
