(* ===== verification/FeatureExtraction.thy ===== *)
theory FeatureExtraction
  imports FeatureQueries
begin

section \<open>Dry-run plans and feature extraction\<close>

text \<open>
  \<open>hermes_rpt/features/planner.py\<close>, \<open>lineage.py\<close> and \<open>service.py\<close>. The control-plane state is
  that of the mapping lifecycle; extraction reads mappings, snapshots and connections, may open
  engines and records an audit event. The counters of the monitoring module are left out.
\<close>

subsection \<open>Plans\<close>

record plan_entry =
  pe_feature :: string
  pe_kind :: feature_kind
  pe_available :: bool
  pe_reason :: "string option"
  pe_table :: "string option"
  pe_columns :: "string list"

record plan_report =
  pr_task :: string
  pr_target :: string
  pr_table :: string
  pr_entries :: "plan_entry list"

definition plan_feature :: "resolved \<Rightarrow> (string, resolved option) dict \<Rightarrow> feature_spec \<Rightarrow> exn + plan_entry" where
  "plan_feature target related f =
     (if \<not> is_related (fs_kind f) then
        rbind (ensure (fs_target f \<noteq> None) AssertionError) (\<lambda>_.
        rbind (resolve_column (rs_document target) (the (fs_target f))) (\<lambda>c.
          Inr \<lparr>pe_feature = fs_name f, pe_kind = fs_kind f, pe_available = (c \<noteq> None),
               pe_reason = (if c \<noteq> None then None else Some ''Target field is not mapped''),
               pe_table = Some (qualified_source (rs_document target)),
               pe_columns = (if truthy c then [the c] else [])\<rparr>))
      else
        rbind (ensure (fs_entity f \<noteq> None) AssertionError) (\<lambda>_.
        case (case dict_get related (the (fs_entity f)) of None \<Rightarrow> None | Some r \<Rightarrow> r) of
          None \<Rightarrow> Inr \<lparr>pe_feature = fs_name f, pe_kind = fs_kind f, pe_available = False,
              pe_reason = Some (''No active production mapping for '' @ the (fs_entity f)),
              pe_table = None, pe_columns = []\<rparr>
        | Some r \<Rightarrow>
            rbind (ensure (fs_fk f \<noteq> None) AssertionError) (\<lambda>_.
            rbind (resolve_column (rs_document target) (the (fs_fk f))) (\<lambda>tc.
            rbind (resolve_column (rs_document r) (the (fs_fk f))) (\<lambda>rc.
              (let available = (tc \<noteq> None \<and> rc \<noteq> None)
               in Inr \<lparr>pe_feature = fs_name f, pe_kind = fs_kind f, pe_available = available,
                    pe_reason = (if available then None else Some ''Join field is not mapped on one side''),
                    pe_table = Some (qualified_source (rs_document r)),
                    pe_columns = map the (filter truthy [tc, rc])\<rparr>))))))"

definition build_query_plan :: "feature_contract \<Rightarrow> resolved \<Rightarrow> (string, resolved option) dict \<Rightarrow> exn + plan_report" where
  "build_query_plan c target related =
     rbind (mapM_r (plan_feature target related) (fc_features c)) (\<lambda>entries.
       Inr \<lparr>pr_task = fc_task c, pr_target = fc_target c,
            pr_table = qualified_source (rs_document target), pr_entries = entries\<rparr>)"

subsection \<open>The extraction service\<close>

record extract_env =
  xe_query :: sql_query
  xe_iter :: "string set \<Rightarrow> string list"
  xe_conv :: conv
  xe_now :: instant

record lineage =
  ln_tenant :: uuid
  ln_task :: string
  ln_contract :: string
  ln_target_version :: uuid
  ln_snapshot :: uuid
  ln_related :: "(string, uuid) dict"
  ln_extracted_at :: instant
  ln_missing :: "(string \<times> string) list"

record feature_batch =
  fb_reference :: string
  fb_time :: instant
  fb_features :: "(string, pyval) dict"
  fb_lineage :: lineage

definition connection_and_snapshot_for ::
  "resolved \<Rightarrow> tenant_context \<Rightarrow> 'z map_db_scheme \<Rightarrow> exn + connection \<times> snapshot" where
  "connection_and_snapshot_for r ctx db =
     rbind (repo_require (db_snapshots db) (sm_snapshot (rs_mapping r)) ctx) (\<lambda>s.
     rbind (repo_require (db_connections db) (ss_connection s) ctx) (\<lambda>c. Inr (c, s)))"

definition resolve_related_entities ::
  "(string set \<Rightarrow> string list) \<Rightarrow> feature_contract \<Rightarrow> tenant_context \<Rightarrow> 'z map_db_scheme \<Rightarrow>
   exn + (string, resolved option) dict" where
  "resolve_related_entities iter c ctx db =
     mapM_r (\<lambda>n. rbind (resolve_mapping n ctx db) (\<lambda>r. Inr (n, r)))
       (iter (set (map (\<lambda>f. the (fs_entity f)) (filter (\<lambda>f. truthy (fs_entity f)) (fc_features c)))))"

definition extraction_plan ::
  "(string set \<Rightarrow> string list) \<Rightarrow> feature_contract \<Rightarrow> tenant_context \<Rightarrow> 'z map_db_scheme \<Rightarrow> exn + plan_report" where
  "extraction_plan iter c ctx db =
     rbind (resolve_target_mapping (fc_target c) ctx db) (\<lambda>target.
     rbind (resolve_related_entities iter c ctx db) (\<lambda>related. build_query_plan c target related))"

definition row_get :: "record_row \<Rightarrow> string \<Rightarrow> pyval" where
  "row_get row n = (case dict_get row n of None \<Rightarrow> PNone | Some v \<Rightarrow> v)"

definition needed_target_fields :: "feature_contract \<Rightarrow> string set" where
  "needed_target_fields c =
     set (map the (filter truthy (concat (map (\<lambda>f. [fs_target f, fs_secondary f, fs_fk f]) (fc_features c)))))"

text \<open>What a feature adds: its value, whether it is reported missing, the mapping version used.\<close>

record feature_result =
  fr_value :: pyval
  fr_missing :: "string option"
  fr_version :: "uuid option"

definition no_value :: "conv \<Rightarrow> feature_spec \<Rightarrow> string \<Rightarrow> uuid option \<Rightarrow> exn + feature_result" where
  "no_value cv f reason v =
     rbind (normalize cv f PNone) (\<lambda>n. Inr \<lparr>fr_value = n, fr_missing = Some reason, fr_version = v\<rparr>)"

definition some_value :: "conv \<Rightarrow> feature_spec \<Rightarrow> pyval \<Rightarrow> uuid option \<Rightarrow> exn + feature_result" where
  "some_value cv f raw v =
     rbind (normalize cv f raw) (\<lambda>n. Inr \<lparr>fr_value = n,
       fr_missing = (if raw = PNone \<and> fs_required f then Some ''No value'' else None), fr_version = v\<rparr>)"

definition extract_target_feature :: "conv \<Rightarrow> record_row \<Rightarrow> instant \<Rightarrow> feature_spec \<Rightarrow> exn + feature_result" where
  "extract_target_feature cv row pt f =
     rbind (ensure (fs_target f \<noteq> None) AssertionError) (\<lambda>_.
     (let raw = row_get row (the (fs_target f))
      in if fs_kind f = DERIVED_FROM_TARGET then
           rbind (ensure (fs_derive f \<noteq> None) AssertionError) (\<lambda>_.
           rbind (apply_derive cv (the (fs_derive f)) raw
               (if truthy (fs_secondary f) then row_get row (the (fs_secondary f)) else PNone) pt) (\<lambda>d.
             some_value cv f d None))
         else some_value cv f raw None))"

definition extract_related_feature ::
  "extract_env \<Rightarrow> record_row \<Rightarrow> (string, resolved option) dict \<Rightarrow> tenant_context \<Rightarrow> instant \<Rightarrow> feature_spec \<Rightarrow>
   'z map_db_scheme \<Rightarrow> (exn + feature_result) \<times> 'z map_db_scheme" where
  "extract_related_feature env row related ctx pt f db =
     attempt (ensure (fs_entity f \<noteq> None) AssertionError) db (\<lambda>_.
     attempt (ensure (fs_fk f \<noteq> None) AssertionError) db (\<lambda>_.
     (case (case dict_get related (the (fs_entity f)) of None \<Rightarrow> None | Some r \<Rightarrow> r) of
        None \<Rightarrow> (no_value (xe_conv env) f (''No active mapping for '' @ the (fs_entity f)) None, db)
      | Some r \<Rightarrow>
          (case sm_active (rs_mapping r) of
             None \<Rightarrow> (no_value (xe_conv env) f (''No active mapping for '' @ the (fs_entity f)) None, db)
           | Some vid \<Rightarrow>
               (let jv = row_get row (the (fs_fk f))
                in if jv = PNone
                   then (no_value (xe_conv env) f ''Join field has no value on target row'' (Some vid), db)
                   else attempt (connection_and_snapshot_for r ctx db) db (\<lambda>(conn, _).
                     (case get_or_create_engine (row_id conn) ctx db of
                        (Inl x, db') \<Rightarrow> (Inl x, db')
                      | (Inr (_, eng), db') \<Rightarrow>
                          (rbind (run_related_feature (xe_query env) (xe_conv env) eng f (rs_document r) jv pt
                              (cn_schemas conn) (cn_tables conn)) (\<lambda>raw.
                           rbind (case fs_derive f of None \<Rightarrow> Inr raw
                              | Some d \<Rightarrow> apply_derive (xe_conv env) d raw PNone pt) (\<lambda>raw'.
                             some_value (xe_conv env) f raw' (Some vid))), db'))))))))"

definition extract_feature ::
  "extract_env \<Rightarrow> record_row \<Rightarrow> (string, resolved option) dict \<Rightarrow> tenant_context \<Rightarrow> instant \<Rightarrow> feature_spec \<Rightarrow>
   'z map_db_scheme \<Rightarrow> (exn + feature_result) \<times> 'z map_db_scheme" where
  "extract_feature env row related ctx pt f db =
     (if is_related (fs_kind f) then extract_related_feature env row related ctx pt f db
      else (extract_target_feature (xe_conv env) row pt f, db))"

record extraction =
  ex_values :: "(string, pyval) dict"
  ex_missing :: "(string \<times> string) list"
  ex_versions :: "(string, uuid) dict"

definition add_result :: "feature_spec \<Rightarrow> feature_result \<Rightarrow> extraction \<Rightarrow> extraction" where
  "add_result f r x =
     \<lparr>ex_values = dict_put (fs_name f) (fr_value r) (ex_values x),
      ex_missing = ex_missing x @ (case fr_missing r of None \<Rightarrow> [] | Some reason \<Rightarrow> [(fs_name f, reason)]),
      ex_versions = (case fr_version r of None \<Rightarrow> ex_versions x
        | Some v \<Rightarrow> dict_put (the (fs_entity f)) v (ex_versions x))\<rparr>"

fun extract_features ::
  "extract_env \<Rightarrow> record_row \<Rightarrow> (string, resolved option) dict \<Rightarrow> tenant_context \<Rightarrow> instant \<Rightarrow> feature_spec list \<Rightarrow>
   extraction \<Rightarrow> 'z map_db_scheme \<Rightarrow> (exn + extraction) \<times> 'z map_db_scheme" where
  "extract_features env row related ctx pt [] x db = (Inr x, db)"
| "extract_features env row related ctx pt (f # fs) x db =
     (case extract_feature env row related ctx pt f db of
        (Inl e, db') \<Rightarrow> (Inl e, db')
      | (Inr r, db') \<Rightarrow> extract_features env row related ctx pt fs (add_result f r x) db')"

definition extract_event :: "tenant_context \<Rightarrow> feature_contract \<Rightarrow> string \<Rightarrow> nat \<Rightarrow> audit_event" where
  "extract_event ctx c reference n =
     (audit_for ctx ''feature_extraction.extract'' SUCCESS ''PredictionTaskDefinition'' 0
        [(''task_key'', JStr (fc_task c)), (''business_reference'', JStr reference),
         (''missing_feature_count'', JInt (int n))])\<lparr>ae_resource_id := None\<rparr>"

definition extract_batch ::
  "extract_env \<Rightarrow> feature_contract \<Rightarrow> tenant_context \<Rightarrow> string \<Rightarrow> instant \<Rightarrow> 'z map_db_scheme \<Rightarrow>
   (exn + feature_batch) \<times> 'z map_db_scheme" where
  "extract_batch env c ctx reference pt db =
     attempt (resolve_target_mapping (fc_target c) ctx db) db (\<lambda>target.
     attempt (connection_and_snapshot_for target ctx db) db (\<lambda>(conn, snap).
     (case get_or_create_engine (row_id conn) ctx db of
        (Inl x, db1) \<Rightarrow> (Inl x, db1)
      | (Inr (_, eng), db1) \<Rightarrow>
          attempt (fetch_target_row (xe_query env) (xe_iter env) eng (rs_document target) reference
              (needed_target_fields c) (cn_schemas conn) (cn_tables conn)) db1 (\<lambda>found.
          (case found of
             None \<Rightarrow> (Inl (TargetRowNotFoundError reference), db1)
           | Some row \<Rightarrow>
               attempt (resolve_related_entities (xe_iter env) c ctx db1) db1 (\<lambda>related.
               (case extract_features env row related ctx pt (fc_features c)
                    \<lparr>ex_values = [], ex_missing = [], ex_versions = []\<rparr> db1 of
                  (Inl x, db2) \<Rightarrow> (Inl x, db2)
                | (Inr x, db2) \<Rightarrow>
                    (case sm_active (rs_mapping target) of
                       None \<Rightarrow> (Inl AssertionError, db2)
                     | Some vid \<Rightarrow>
                         (Inr \<lparr>fb_reference = reference, fb_time = pt, fb_features = ex_values x,
                            fb_lineage = \<lparr>ln_tenant = tc_tenant ctx, ln_task = fc_task c, ln_contract = fc_version c,
                              ln_target_version = vid, ln_snapshot = row_id snap, ln_related = ex_versions x,
                              ln_extracted_at = xe_now env, ln_missing = ex_missing x\<rparr>\<rparr>,
                          audit_record (extract_event ctx c reference (length (ex_missing x))) db2)))))))))"

subsection \<open>What an extraction returns\<close>

lemma ex_values_add [simp]: "ex_values (add_result f r x) = dict_put (fs_name f) (fr_value r) (ex_values x)"
  by (simp add: add_result_def)

lemma dict_put_append: "k \<notin> fst ` set d \<Longrightarrow> dict_put k v d = d @ [(k, v)]"
  by (induction d) auto

lemma extract_features_names:
  assumes "extract_features env row related ctx pt fs x db = (Inr y, db')"
    and "distinct (map fst (ex_values x) @ map fs_name fs)"
  shows "map fst (ex_values y) = map fst (ex_values x) @ map fs_name fs"
  using assms
proof (induction fs arbitrary: x db)
  case (Cons f fs)
  from Cons.prems(1) obtain r db1 where r: "extract_feature env row related ctx pt f db = (Inr r, db1)"
      and rest: "extract_features env row related ctx pt fs (add_result f r x) db1 = (Inr y, db')"
    by (auto split: prod.splits sum.splits)
  from Cons.prems(2) have "fs_name f \<notin> fst ` set (ex_values x)" by auto
  then have "map fst (ex_values (add_result f r x)) = map fst (ex_values x) @ [fs_name f]"
    by (simp add: dict_put_append)
  with Cons.IH [OF rest] Cons.prems(2) show ?case by simp
qed simp

text \<open>The engines opened on the way are the only change to the control plane.\<close>

definition same_plane :: "'z map_db_scheme \<Rightarrow> 'z map_db_scheme \<Rightarrow> bool" where
  "same_plane db db' \<longleftrightarrow> db' = db\<lparr>db_pools := db_pools db'\<rparr>"

lemma same_plane_refl [simp]: "same_plane db db"
  by (simp add: same_plane_def)

lemma same_plane_trans: "same_plane a b \<Longrightarrow> same_plane b c \<Longrightarrow> same_plane a c"
  unfolding same_plane_def
proof -
  assume b: "b = a\<lparr>db_pools := db_pools b\<rparr>" and c: "c = b\<lparr>db_pools := db_pools c\<rparr>"
  have "c = (a\<lparr>db_pools := db_pools b\<rparr>)\<lparr>db_pools := db_pools c\<rparr>" by (subst c, subst b) (rule refl)
  then show "c = a\<lparr>db_pools := db_pools c\<rparr>" by (cases a) simp
qed

lemma same_plane_engine: "same_plane db (snd (get_or_create_engine i ctx db))"
  by (simp add: same_plane_def get_or_create_engine_def attempt_def split: sum.split prod.split)

lemma same_plane_feature: "same_plane db (snd (extract_feature env row related ctx pt f db))"
proof -
  have eng: "get_or_create_engine i ctx db = (r, db') \<Longrightarrow> same_plane db db'" for i r db'
    using same_plane_engine [of db i ctx] by simp
  show ?thesis
    by (auto simp: extract_feature_def extract_related_feature_def attempt_def Let_def
        split: sum.split option.split prod.split dest: eng)
qed

lemma same_plane_features: "same_plane db (snd (extract_features env row related ctx pt fs x db))"
proof (induction fs arbitrary: x db)
  case (Cons f fs)
  have f: "extract_feature env row related ctx pt f db = (r, db') \<Longrightarrow> same_plane db db'" for r db'
    using same_plane_feature [of db env row related ctx pt f] by simp
  show ?case
    by (auto split: prod.split sum.split intro: same_plane_trans [OF f Cons.IH] dest: f)
qed simp

lemma resolve_mapping_Some:
  assumes "resolve_mapping n ctx db = Inr (Some r)"
  shows "\<exists>m vid v. m \<in> set (db_mappings db) \<and> row_tenant m = Some (tc_tenant ctx) \<and> sm_entity m = n \<and>
    sm_state m = M_ACTIVE \<and> sm_active m = Some vid \<and> \<not> sm_suspended m \<and>
    repo_get (db_versions db) vid ctx = Some v \<and> r = \<lparr>rs_mapping = m, rs_document = mv_document v\<rparr>"
proof -
  from assms obtain m where act: "get_active_by_entity_name n ctx db = Inr (Some m)"
      and r: "(case sm_active m of None \<Rightarrow> None | Some vid \<Rightarrow> if sm_suspended m then None
            else map_option (\<lambda>v. \<lparr>rs_mapping = m, rs_document = mv_document v\<rparr>) (repo_get (db_versions db) vid ctx)) = Some r"
    by (auto simp: resolve_mapping_def split: option.splits)
  let ?P = "\<lambda>m. row_tenant m = Some (tc_tenant ctx) \<and> sm_entity m = n \<and> sm_state m = M_ACTIVE"
  from act have "filter ?P (db_mappings db) = [m]"
    by (auto simp: get_active_by_entity_name_def split: list.splits)
  then have "m \<in> set (filter ?P (db_mappings db))" by simp
  with r show ?thesis by (auto split: option.splits if_splits)
qed

text \<open>The engine of a resolved mapping is that of its connection.\<close>

lemma engine_of_connection:
  assumes "connection_and_snapshot_for r ctx db = Inr (conn, snap)"
    and "get_or_create_engine (row_id conn) ctx db = (Inr (conn', eng), db1)"
  shows "conn' = conn"
proof -
  from assms(1) have conn: "repo_require (db_connections db) (ss_connection snap) ctx = Inr conn"
    by (auto simp: connection_and_snapshot_for_def)
  then have "row_id conn = ss_connection snap" by (auto simp: repo_require_Inr_iff dest: session_get_Some)
  with conn assms(2) show ?thesis
    by (auto simp: get_or_create_engine_def attempt_def split: sum.splits if_splits prod.splits)
qed

lemma extract_batch_Inr:
  assumes "extract_batch env c ctx reference pt db = (Inr b, db')"
  shows "\<exists>target conn snap eng db1 row related x vid db2.
    resolve_target_mapping (fc_target c) ctx db = Inr target \<and>
    connection_and_snapshot_for target ctx db = Inr (conn, snap) \<and>
    get_or_create_engine (row_id conn) ctx db = (Inr (conn, eng), db1) \<and>
    fetch_target_row (xe_query env) (xe_iter env) eng (rs_document target) reference
      (needed_target_fields c) (cn_schemas conn) (cn_tables conn) = Inr (Some row) \<and>
    resolve_related_entities (xe_iter env) c ctx db1 = Inr related \<and>
    extract_features env row related ctx pt (fc_features c)
      \<lparr>ex_values = [], ex_missing = [], ex_versions = []\<rparr> db1 = (Inr x, db2) \<and>
    sm_active (rs_mapping target) = Some vid \<and>
    fb_reference b = reference \<and> fb_time b = pt \<and> fb_features b = ex_values x \<and>
    ln_tenant (fb_lineage b) = tc_tenant ctx \<and> ln_target_version (fb_lineage b) = vid \<and>
    ln_snapshot (fb_lineage b) = row_id snap \<and> ln_missing (fb_lineage b) = ex_missing x \<and>
    db' = audit_record (extract_event ctx c reference (length (ex_missing x))) db2"
proof -
  from assms obtain target conn snap where t: "resolve_target_mapping (fc_target c) ctx db = Inr target"
      and cs: "connection_and_snapshot_for target ctx db = Inr (conn, snap)"
    by (auto simp: extract_batch_def)
  obtain q db1 where ge: "get_or_create_engine (row_id conn) ctx db = (q, db1)" by (cases "get_or_create_engine (row_id conn) ctx db")
  with assms t cs obtain conn' eng where q: "q = Inr (conn', eng)"
    by (cases q) (auto simp: extract_batch_def)
  have "conn' = conn" using engine_of_connection [OF cs] ge q by metis
  with ge q have ge': "get_or_create_engine (row_id conn) ctx db = (Inr (conn, eng), db1)" by simp
  from assms obtain row where row: "fetch_target_row (xe_query env) (xe_iter env) eng (rs_document target) reference
      (needed_target_fields c) (cn_schemas conn) (cn_tables conn) = Inr (Some row)"
    unfolding extract_batch_def t cs attempt_simps prod.case ge' sum.case
    by (auto split: option.splits)
  from assms obtain related where rel: "resolve_related_entities (xe_iter env) c ctx db1 = Inr related"
    unfolding extract_batch_def t cs attempt_simps prod.case ge' sum.case row option.case attempt_Inr_iff by blast
  let ?x0 = "\<lparr>ex_values = [], ex_missing = [], ex_versions = []\<rparr>"
  note run = assms [unfolded extract_batch_def t cs attempt_simps prod.case ge' sum.case row option.case rel]
  obtain y db2 where y: "extract_features env row related ctx pt (fc_features c) ?x0 db1 = (y, db2)"
    by (cases "extract_features env row related ctx pt (fc_features c) ?x0 db1")
  with run obtain x where x: "y = Inr x" by (cases y) auto
  with run y obtain vid where vid: "sm_active (rs_mapping target) = Some vid" by (auto split: option.splits)
  note run' = run [unfolded y x vid prod.case sum.case option.case]
  have "fb_reference b = reference \<and> fb_time b = pt \<and> fb_features b = ex_values x \<and>
      ln_tenant (fb_lineage b) = tc_tenant ctx \<and> ln_target_version (fb_lineage b) = vid \<and>
      ln_snapshot (fb_lineage b) = row_id snap \<and> ln_missing (fb_lineage b) = ex_missing x \<and>
      db' = audit_record (extract_event ctx c reference (length (ex_missing x))) db2"
    using run' by auto
  with t cs ge' row rel y [unfolded x] vid show ?thesis by blast
qed

subsection \<open>Where an extraction reads\<close>

text \<open>
  An engine a tenant may read with: it is the one built from the row and the current secret of
  a connection of the tenant that is not disabled.
\<close>

definition live_engine :: "tenant_context \<Rightarrow> 'z conn_db_scheme \<Rightarrow> connection \<Rightarrow> engine \<Rightarrow> bool" where
  "live_engine ctx db conn e \<longleftrightarrow> conn \<in> set (db_connections db) \<and> row_tenant conn = Some (tc_tenant ctx) \<and>
     cn_status conn \<noteq> CONN_DISABLED \<and> (\<exists>tg. resolve_target conn ctx db = Inr tg \<and> e = build_engine tg)"

text \<open>Reading an entity through the active version of its mapping and the connection its snapshot was taken of.\<close>

definition reads_through ::
  "tenant_context \<Rightarrow> 'z map_db_scheme \<Rightarrow> string \<Rightarrow> resolved \<Rightarrow> uuid \<Rightarrow> connection \<Rightarrow> engine \<Rightarrow> bool" where
  "reads_through ctx db entity r vid conn e \<longleftrightarrow> resolve_mapping entity ctx db = Inr (Some r) \<and>
     sm_active (rs_mapping r) = Some vid \<and> (\<exists>snap. connection_and_snapshot_for r ctx db = Inr (conn, snap)) \<and>
     live_engine ctx db conn e"

text \<open>
  What a related feature holds: the value for missing data, which is reported, or what its query
  returned through the mapping and the engine of its entity, derived and normalised.
\<close>

definition related_value ::
  "extract_env \<Rightarrow> tenant_context \<Rightarrow> 'z map_db_scheme \<Rightarrow> record_row \<Rightarrow> instant \<Rightarrow> feature_spec \<Rightarrow> feature_result \<Rightarrow> bool" where
  "related_value env ctx db row pt f r \<longleftrightarrow>
     (fr_missing r \<noteq> None \<and> normalize (xe_conv env) f PNone = Inr (fr_value r)) \<or>
     (\<exists>q vid conn e raw raw'. reads_through ctx db (the (fs_entity f)) q vid conn e \<and>
        run_related_feature (xe_query env) (xe_conv env) e f (rs_document q) (row_get row (the (fs_fk f))) pt
          (cn_schemas conn) (cn_tables conn) = Inr raw \<and>
        (case fs_derive f of None \<Rightarrow> Inr raw | Some d \<Rightarrow> apply_derive (xe_conv env) d raw PNone pt) = Inr raw' \<and>
        normalize (xe_conv env) f raw' = Inr (fr_value r))"

lemma plane_view [simp]:
  "resolve_mapping n ctx (db\<lparr>db_pools := p\<rparr>) = resolve_mapping n ctx db"
  "connection_and_snapshot_for r ctx (db\<lparr>db_pools := p\<rparr>) = connection_and_snapshot_for r ctx db"
  "resolve_target conn ctx (db\<lparr>db_pools := p\<rparr>) = resolve_target conn ctx db"
  by (simp_all add: resolve_mapping_def get_active_by_entity_name_def connection_and_snapshot_for_def resolve_target_def
      cong: option.case_cong if_cong)

lemma same_plane_reads:
  assumes "same_plane db db'"
  shows "resolve_mapping n ctx db' = resolve_mapping n ctx db"
    and "connection_and_snapshot_for r ctx db' = connection_and_snapshot_for r ctx db"
    and "live_engine ctx db' = live_engine ctx db" and "reads_through ctx db' = reads_through ctx db"
  by (subst assms [unfolded same_plane_def], simp add: live_engine_def reads_through_def fun_eq_iff)+

lemma engine_live:
  assumes "conn_ok g db" and "get_or_create_engine i ctx db = (Inr (conn, e), db')"
  shows "live_engine ctx db conn e" and "conn_ok g db'" and "same_plane db db'"
proof -
  from assms(2) obtain tg p where conn: "repo_require (db_connections db) i ctx = Inr conn"
    and st: "cn_status conn \<noteq> CONN_DISABLED" and tg: "resolve_target conn ctx db = Inr tg"
    and ep: "pool_get_or_create (tc_tenant ctx, row_id conn) tg (db_pools db) = (e, p)"
    by (auto simp: get_or_create_engine_def attempt_def split: sum.splits if_splits prod.splits)
  from conn have sg: "session_get (db_connections db) i = Some conn" "row_id conn = i" "row_tenant conn = Some (tc_tenant ctx)"
    by (auto simp: repo_require_Inr_iff dest: session_get_Some)
  have "e = build_engine tg"
    using pool_create_fresh(1) [OF _ sg(1,3) tg] assms(1) ep sg(2) by (simp add: conn_ok_def)
  with st tg sg session_get_Some [OF sg(1)] show "live_engine ctx db conn e" by (simp add: live_engine_def)
  show "conn_ok g db'" using conn_ok_engine [OF assms(1), of i ctx] assms(2) by simp
  show "same_plane db db'" using same_plane_engine [of db i ctx] assms(2) by simp
qed

lemma extract_feature_kept:
  assumes "conn_ok g db" and "extract_feature env row related ctx pt f db = (x, db')"
  shows "conn_ok g db' \<and> same_plane db db'"
proof -
  have eng: "conn_ok g db1 \<and> same_plane db db1" if "get_or_create_engine i ctx db = (r, db1)" for i r db1
    using conn_ok_engine [OF assms(1), of i ctx] same_plane_engine [of db i ctx] that by simp
  show ?thesis
    using assms
    by (auto simp: extract_feature_def extract_related_feature_def attempt_def Let_def
        split: if_splits sum.splits option.splits prod.splits dest: eng)
qed

lemma mapM_r_pairs:
  assumes "mapM_r (\<lambda>n. rbind (F n) (\<lambda>r. Inr (n, r))) ns = Inr d" and "(n, r) \<in> set d"
  shows "F n = Inr r"
  using assms by (induction ns arbitrary: d) auto

lemma related_entities_resolved:
  assumes "resolve_related_entities iter c ctx db = Inr related" and "dict_get related n = Some (Some r)"
  shows "resolve_mapping n ctx db = Inr (Some r)"
  using mapM_r_pairs [OF assms(1) [unfolded resolve_related_entities_def]] assms(2)
  by (auto simp: dict_get_def dest: map_of_SomeD)

lemma extract_feature_value:
  assumes "conn_ok g db" and "extract_feature env row related ctx pt f db = (Inr r, db')"
    and "\<And>n q. dict_get related n = Some (Some q) \<Longrightarrow> resolve_mapping n ctx db = Inr (Some q)"
  shows "if is_related (fs_kind f) then related_value env ctx db row pt f r else extract_target_feature (xe_conv env) row pt f = Inr r"
proof (cases "is_related (fs_kind f)")
  case True
  with assms(2) have x: "extract_related_feature env row related ctx pt f db = (Inr r, db')" by (simp add: extract_feature_def)
  then obtain en fk where ent: "fs_entity f = Some en" and fk: "fs_fk f = Some fk"
    by (auto simp: extract_related_feature_def)
  note run = x [unfolded extract_related_feature_def ent fk, simplified]
  have none: "no_value (xe_conv env) f reason v = Inr r \<Longrightarrow> related_value env ctx db row pt f r" for reason v
    by (auto simp: no_value_def related_value_def)
  have "related_value env ctx db row pt f r"
  proof (cases "case dict_get related en of None \<Rightarrow> None | Some r \<Rightarrow> r")
    case None
    with run none show ?thesis by auto
  next
    case (Some q)
    then have q: "resolve_mapping en ctx db = Inr (Some q)" using assms(3) by (auto split: option.splits)
    show ?thesis
    proof (cases "sm_active (rs_mapping q) = None \<or> row_get row fk = PNone")
      case True
      with run Some none show ?thesis by (auto simp: Let_def split: option.splits)
    next
      case False
      then obtain vid where vid: "sm_active (rs_mapping q) = Some vid" and jv: "row_get row fk \<noteq> PNone" by auto
      note run = run [unfolded Some option.case vid Let_def option.sel if_not_P [OF jv]]
      then obtain conn snap where cs: "connection_and_snapshot_for q ctx db = Inr (conn, snap)" by auto
      obtain y db1 where ge: "get_or_create_engine (row_id conn) ctx db = (y, db1)" by (cases "get_or_create_engine (row_id conn) ctx db")
      with run cs obtain conn' eng where "y = Inr (conn', eng)" by (cases y) auto
      with ge engine_of_connection [OF cs] have ge': "get_or_create_engine (row_id conn) ctx db = (Inr (conn, eng), db1)" by metis
      have th: "reads_through ctx db en q vid conn eng"
        using engine_live(1) [OF assms(1) ge'] q vid cs by (auto simp: reads_through_def)
      from run cs ge' obtain raw raw' where "run_related_feature (xe_query env) (xe_conv env) eng f (rs_document q) (row_get row fk) pt
          (cn_schemas conn) (cn_tables conn) = Inr raw"
          "(case fs_derive f of None \<Rightarrow> Inr raw | Some d \<Rightarrow> apply_derive (xe_conv env) d raw PNone pt) = Inr raw'"
          "some_value (xe_conv env) f raw' (Some vid) = Inr r"
        by auto
      with th ent fk show ?thesis unfolding related_value_def some_value_def by fastforce
    qed
  qed
  with True show ?thesis by simp
next
  case False
  with assms(2) show ?thesis by (simp add: extract_feature_def)
qed

text \<open>Each feature of a contract gets its own value, and what is missing is reported.\<close>

lemma extract_features_values:
  assumes "extract_features env row related ctx pt fs x db = (Inr y, db')" and "conn_ok g db"
    and "\<And>n q. dict_get related n = Some (Some q) \<Longrightarrow> resolve_mapping n ctx db = Inr (Some q)"
    and "distinct (map fst (ex_values x) @ map fs_name fs)"
  shows "set (ex_values x) \<subseteq> set (ex_values y) \<and> set (ex_missing x) \<subseteq> set (ex_missing y) \<and>
    (\<forall>f \<in> set fs. \<exists>r. (fs_name f, fr_value r) \<in> set (ex_values y) \<and>
      (\<forall>reason. fr_missing r = Some reason \<longrightarrow> (fs_name f, reason) \<in> set (ex_missing y)) \<and>
      (if is_related (fs_kind f) then related_value env ctx db row pt f r
       else extract_target_feature (xe_conv env) row pt f = Inr r))"
  using assms
proof (induction fs arbitrary: x db)
  case (Cons f fs)
  from Cons.prems(1) obtain r db1 where r: "extract_feature env row related ctx pt f db = (Inr r, db1)"
      and rest: "extract_features env row related ctx pt fs (add_result f r x) db1 = (Inr y, db')"
    by (auto split: prod.splits sum.splits)
  note kept = extract_feature_kept [OF Cons.prems(2) r]
  note same = same_plane_reads [OF conjunct2 [OF kept]]
  have fresh: "fs_name f \<notin> fst ` set (ex_values x)" using Cons.prems(4) by auto
  then have vals: "ex_values (add_result f r x) = ex_values x @ [(fs_name f, fr_value r)]" by (simp add: dict_put_append)
  have rel: "related_value env ctx db1 = related_value env ctx db" by (simp add: fun_eq_iff related_value_def same)
  have "distinct (map fst (ex_values (add_result f r x)) @ map fs_name fs)" using Cons.prems(4) vals by auto
  from Cons.IH [OF rest conjunct1 [OF kept] _ this] Cons.prems(3)
  have IH: "set (ex_values (add_result f r x)) \<subseteq> set (ex_values y)" "set (ex_missing (add_result f r x)) \<subseteq> set (ex_missing y)"
      "\<forall>f \<in> set fs. \<exists>r. (fs_name f, fr_value r) \<in> set (ex_values y) \<and>
      (\<forall>reason. fr_missing r = Some reason \<longrightarrow> (fs_name f, reason) \<in> set (ex_missing y)) \<and>
      (if is_related (fs_kind f) then related_value env ctx db row pt f r
       else extract_target_feature (xe_conv env) row pt f = Inr r)"
    unfolding same rel by blast+
  have own: "if is_related (fs_kind f) then related_value env ctx db row pt f r
      else extract_target_feature (xe_conv env) row pt f = Inr r"
    by (rule extract_feature_value [OF Cons.prems(2) r Cons.prems(3)])
  have miss: "set (ex_missing x) \<subseteq> set (ex_missing (add_result f r x))"
      "fr_missing r = Some reason \<Longrightarrow> (fs_name f, reason) \<in> set (ex_missing (add_result f r x))" for reason
    by (auto simp: add_result_def)
  have "\<exists>r. (fs_name f, fr_value r) \<in> set (ex_values y) \<and>
      (\<forall>reason. fr_missing r = Some reason \<longrightarrow> (fs_name f, reason) \<in> set (ex_missing y)) \<and>
      (if is_related (fs_kind f) then related_value env ctx db row pt f r
       else extract_target_feature (xe_conv env) row pt f = Inr r)"
    using own IH(1,2) miss(2) vals by (intro exI [of _ r]) auto
  with IH miss(1) vals show ?case by auto
qed simp

subsection \<open>Nothing else is read\<close>

text \<open>
  Two customer databases that agree on the safe statements sent through engines the tenant may
  read with cannot be told apart by an extraction: it sends no others, through no others.
\<close>

definition agree_live :: "tenant_context \<Rightarrow> 'z conn_db_scheme \<Rightarrow> sql_query \<Rightarrow> sql_query \<Rightarrow> bool" where
  "agree_live ctx db query query' \<longleftrightarrow> (\<forall>conn e s. live_engine ctx db conn e \<longrightarrow>
     safe_stmt (cn_schemas conn) (cn_tables conn) s \<longrightarrow> query' e s = query e s)"

lemma fetch_target_row_at:
  assumes "\<And>s. safe_stmt schemas tables s \<Longrightarrow> query' e s = query e s"
  shows "fetch_target_row query' iter e d r needed schemas tables = fetch_target_row query iter e d r needed schemas tables"
  unfolding fetch_target_row_def case_prod_beta
  using assms by (intro rbind_cong arg_cong2 [where f = rbind]) (auto simp: safe_stmt_def)

lemma run_related_feature_at:
  assumes "\<And>s. safe_stmt schemas tables s \<Longrightarrow> query' e s = query e s"
  shows "run_related_feature query' cv e f d jv pt schemas tables = run_related_feature query cv e f d jv pt schemas tables"
proof (rule run_related_feature_cong)
  fix conds s
  assume "feature_stmt d conds s" "check_allowlisted d schemas tables = Inr ()"
  then have "safe_stmt schemas tables s" by (auto simp: feature_stmt_def safe_stmt_def split: projection.splits)
  then show "query' e s = query e s" by (rule assms)
qed

lemma attempt_cong2: "(\<And>x. r = Inr x \<Longrightarrow> k x = k' x) \<Longrightarrow> attempt r db k = attempt r db k'"
  by (cases r) simp_all

lemma extract_feature_agree:
  assumes "conn_ok g db" and "agree_live ctx db (xe_query env) query'"
  shows "extract_feature (env\<lparr>xe_query := query'\<rparr>) row related ctx pt f db = extract_feature env row related ctx pt f db"
proof -
  have run: "run_related_feature query' cv eng f d jv pt (cn_schemas conn) (cn_tables conn) =
      run_related_feature (xe_query env) cv eng f d jv pt (cn_schemas conn) (cn_tables conn)"
    if "connection_and_snapshot_for q ctx db = Inr (conn, snap)" "get_or_create_engine (row_id conn) ctx db = (Inr (conn', eng), db1)"
    for q conn snap conn' eng db1 cv d jv
  proof -
    from engine_of_connection [OF that] that(2) have "get_or_create_engine (row_id conn) ctx db = (Inr (conn, eng), db1)" by simp
    from engine_live(1) [OF assms(1) this] assms(2) show ?thesis
      by (intro run_related_feature_at) (auto simp: agree_live_def)
  qed
  show ?thesis
    unfolding extract_feature_def extract_related_feature_def Let_def
    by (auto intro!: attempt_cong2 simp: run cong: option.case_cong split: option.split prod.split sum.split)
qed

lemma extract_features_agree:
  "conn_ok g db \<Longrightarrow> agree_live ctx db (xe_query env) query' \<Longrightarrow>
    extract_features (env\<lparr>xe_query := query'\<rparr>) row related ctx pt fs x db = extract_features env row related ctx pt fs x db"
proof (induction fs arbitrary: x db)
  case (Cons f fs)
  obtain r db1 where r: "extract_feature env row related ctx pt f db = (r, db1)" by (cases "extract_feature env row related ctx pt f db")
  note kept = extract_feature_kept [OF Cons.prems(1) r]
  have "agree_live ctx db1 (xe_query env) query'"
    using Cons.prems(2) same_plane_reads(3) [OF conjunct2 [OF kept]] by (simp add: agree_live_def)
  from Cons.IH [OF conjunct1 [OF kept] this] extract_feature_agree [OF Cons.prems] r show ?case
    by (auto split: sum.split)
qed simp

lemma extract_batch_agree:
  assumes "conn_ok g db" and "agree_live ctx db (xe_query env) query'"
  shows "extract_batch (env\<lparr>xe_query := query'\<rparr>) c ctx reference pt db = extract_batch env c ctx reference pt db"
proof -
  have parts: "fetch_target_row query' iter eng d reference needed (cn_schemas conn) (cn_tables conn) =
        fetch_target_row (xe_query env) iter eng d reference needed (cn_schemas conn) (cn_tables conn) \<and>
      extract_features (env\<lparr>xe_query := query'\<rparr>) row related ctx pt fs x db1 = extract_features env row related ctx pt fs x db1"
    if "connection_and_snapshot_for q ctx db = Inr (conn, snap)" "get_or_create_engine (row_id conn) ctx db = (Inr (conn', eng), db1)"
    for q conn snap conn' eng db1 iter d needed row related fs x
  proof -
    from engine_of_connection [OF that] that(2) have ge: "get_or_create_engine (row_id conn) ctx db = (Inr (conn, eng), db1)" by simp
    note live = engine_live [OF assms(1) ge]
    have "agree_live ctx db1 (xe_query env) query'"
      using assms(2) same_plane_reads(3) [OF live(3)] by (simp add: agree_live_def)
    with live assms(2) show ?thesis
      by (intro conjI fetch_target_row_at extract_features_agree [OF live(2)]) (auto simp: agree_live_def)
  qed
  show ?thesis
    unfolding extract_batch_def
    by (auto intro!: attempt_cong2 simp: parts split: option.split prod.split sum.split)
qed

text \<open>
  C24: what a successful extraction is, on a control plane whose pools are as the connection
  lifecycle keeps them. It has exactly one value per feature of the contract, in its order. The
  target row is the one its query returned for the reference, through the active, unsuspended mapping of the
  caller's tenant and the engine of that mapping's own connection, which is the tenant's, is not disabled and
  was opened with its current secret. A feature of the row is derived from that row; a related one comes
  from a query through the mapping and engine of its own entity, of the same tenant, or is reported missing.
  Nothing else is read: a database that answers otherwise on any other engine, or on any
  statement off the connection's allowlists, gives the same extraction. The lineage names the
  tenant and the mapping's version, and the control plane changes by the engines opened and one
  audit event only.
\<close>

theorem extraction_is_complete_and_confined:
  assumes "extract_batch env c ctx reference pt db = (Inr b, db')" and "distinct (map fs_name (fc_features c))"
    and "conn_ok g db"
  shows "map fst (fb_features b) = map fs_name (fc_features c) \<and>
    (\<exists>m v target conn e row. m \<in> set (db_mappings db) \<and> row_tenant m = Some (tc_tenant ctx) \<and> sm_entity m = fc_target c \<and>
      sm_state m = M_ACTIVE \<and> \<not> sm_suspended m \<and> sm_active m = Some (ln_target_version (fb_lineage b)) \<and>
      repo_get (db_versions db) (ln_target_version (fb_lineage b)) ctx = Some v \<and>
      target = \<lparr>rs_mapping = m, rs_document = mv_document v\<rparr> \<and>
      reads_through ctx db (fc_target c) target (ln_target_version (fb_lineage b)) conn e \<and>
      fetch_target_row (xe_query env) (xe_iter env) e (mv_document v) reference (needed_target_fields c)
        (cn_schemas conn) (cn_tables conn) = Inr (Some row) \<and>
      (\<forall>f \<in> set (fc_features c). \<exists>r. dict_get (fb_features b) (fs_name f) = Some (fr_value r) \<and>
        (\<forall>reason. fr_missing r = Some reason \<longrightarrow> (fs_name f, reason) \<in> set (ln_missing (fb_lineage b))) \<and>
        (if is_related (fs_kind f) then related_value env ctx db row pt f r
         else extract_target_feature (xe_conv env) row pt f = Inr r))) \<and>
    (\<forall>query'. agree_live ctx db (xe_query env) query' \<longrightarrow>
      extract_batch (env\<lparr>xe_query := query'\<rparr>) c ctx reference pt db = (Inr b, db')) \<and>
    ln_tenant (fb_lineage b) = tc_tenant ctx \<and>
    db' = db\<lparr>db_pools := db_pools db',
      audit_log := audit_log db @ [extract_event ctx c reference (length (ln_missing (fb_lineage b)))]\<rparr>"
proof -
  from extract_batch_Inr [OF assms(1)] obtain target conn snap eng db1 row related x vid db2
    where t: "resolve_target_mapping (fc_target c) ctx db = Inr target"
      and cs: "connection_and_snapshot_for target ctx db = Inr (conn, snap)"
      and ge: "get_or_create_engine (row_id conn) ctx db = (Inr (conn, eng), db1)"
      and row: "fetch_target_row (xe_query env) (xe_iter env) eng (rs_document target) reference
        (needed_target_fields c) (cn_schemas conn) (cn_tables conn) = Inr (Some row)"
      and rel: "resolve_related_entities (xe_iter env) c ctx db1 = Inr related"
      and fs: "extract_features env row related ctx pt (fc_features c)
        \<lparr>ex_values = [], ex_missing = [], ex_versions = []\<rparr> db1 = (Inr x, db2)"
      and vid: "sm_active (rs_mapping target) = Some vid"
      and b: "fb_features b = ex_values x" "ln_tenant (fb_lineage b) = tc_tenant ctx"
        "ln_target_version (fb_lineage b) = vid" "ln_missing (fb_lineage b) = ex_missing x"
      and db': "db' = audit_record (extract_event ctx c reference (length (ex_missing x))) db2"
    by blast
  note live = engine_live [OF assms(3) ge] and same = same_plane_reads [OF engine_live(3) [OF assms(3) ge]]
  have names: "map fst (fb_features b) = map fs_name (fc_features c)"
    using extract_features_names [OF fs] assms(2) b by simp
  from t have resolved: "resolve_mapping (fc_target c) ctx db = Inr (Some target)"
    by (auto simp: resolve_target_mapping_def split: option.splits)
  with vid cs live(1) have reads: "reads_through ctx db (fc_target c) target vid conn eng" by (auto simp: reads_through_def)
  from resolve_mapping_Some [OF resolved] vid obtain m v where m: "m \<in> set (db_mappings db) \<and> row_tenant m = Some (tc_tenant ctx) \<and>
      sm_entity m = fc_target c \<and> sm_state m = M_ACTIVE \<and> \<not> sm_suspended m \<and> sm_active m = Some vid \<and>
      repo_get (db_versions db) vid ctx = Some v" and target: "target = \<lparr>rs_mapping = m, rs_document = mv_document v\<rparr>"
    by auto
  have rv: "related_value env ctx db1 = related_value env ctx db" by (simp add: fun_eq_iff related_value_def same)
  have vals: "\<forall>f \<in> set (fc_features c). \<exists>r. (fs_name f, fr_value r) \<in> set (ex_values x) \<and>
      (\<forall>reason. fr_missing r = Some reason \<longrightarrow> (fs_name f, reason) \<in> set (ex_missing x)) \<and>
      (if is_related (fs_kind f) then related_value env ctx db row pt f r
       else extract_target_feature (xe_conv env) row pt f = Inr r)"
    using extract_features_values [OF fs live(2) related_entities_resolved [OF rel]] assms(2) unfolding rv by simp
  have "dict_get (ex_values x) n = Some y" if "(n, y) \<in> set (ex_values x)" for n y
    using that names assms(2) by (simp add: dict_get_def b)
  with vals have each: "\<forall>f \<in> set (fc_features c). \<exists>r. dict_get (fb_features b) (fs_name f) = Some (fr_value r) \<and>
        (\<forall>reason. fr_missing r = Some reason \<longrightarrow> (fs_name f, reason) \<in> set (ln_missing (fb_lineage b))) \<and>
        (if is_related (fs_kind f) then related_value env ctx db row pt f r
         else extract_target_feature (xe_conv env) row pt f = Inr r)"
    unfolding b by meson
  have "same_plane db1 db2" using same_plane_features [of db1 env row related ctx pt "fc_features c"] fs
    by (metis snd_conv)
  with live(3) have "same_plane db db2" by (rule same_plane_trans)
  then have p: "db2 = db\<lparr>db_pools := db_pools db2\<rparr>" by (simp add: same_plane_def)
  have log: "audit_log db2 = audit_log db" by (subst p) simp
  have "db' = db2\<lparr>audit_log := audit_log db @ [extract_event ctx c reference (length (ln_missing (fb_lineage b)))]\<rparr>"
    unfolding db' b audit_record_def log ..
  also have "\<dots> = db\<lparr>db_pools := db_pools db2,
      audit_log := audit_log db @ [extract_event ctx c reference (length (ln_missing (fb_lineage b)))]\<rparr>"
    by (subst p) simp
  finally have "db' = db\<lparr>db_pools := db_pools db2,
      audit_log := audit_log db @ [extract_event ctx c reference (length (ln_missing (fb_lineage b)))]\<rparr>" .
  moreover have "db_pools db' = db_pools db2" by (simp add: db' audit_record_def)
  ultimately have plane: "db' = db\<lparr>db_pools := db_pools db',
      audit_log := audit_log db @ [extract_event ctx c reference (length (ln_missing (fb_lineage b)))]\<rparr>" by simp
  have only: "\<forall>query'. agree_live ctx db (xe_query env) query' \<longrightarrow>
      extract_batch (env\<lparr>xe_query := query'\<rparr>) c ctx reference pt db = (Inr b, db')"
    using extract_batch_agree [OF assms(3)] assms(1) by simp
  have row': "fetch_target_row (xe_query env) (xe_iter env) eng (mv_document v) reference (needed_target_fields c)
        (cn_schemas conn) (cn_tables conn) = Inr (Some row)" using row target by simp
  show ?thesis
    using names m target reads [folded b(3)] row' each only b(2) plane unfolding b(3)
    by (intro conjI exI [of _ m] exI [of _ v] exI [of _ target] exI [of _ conn] exI [of _ eng] exI [of _ row]) (blast | assumption)+
qed


definition extraction_db :: map_db where
  "extraction_db = map_db4\<lparr>db_connections := map (\<lambda>c. c\<lparr>cn_tables := [''vehicles'']\<rparr>) (db_connections sample_conn_db),
     db_credential_refs := db_credential_refs sample_conn_db, db_secrets := db_secrets sample_conn_db\<rparr>"

definition vehicle_contract :: feature_contract where
  "vehicle_contract = \<lparr>fc_task = ''t'', fc_version = ''1'', fc_target = ''Vehicle'',
     fc_features = [(base_spec ''known'' FT_BOOLEAN LR_NONE DIRECT_FIELD)\<lparr>fs_target := Some ''vehicle_id''\<rparr>,
       number_of_stops]\<rparr>"

definition sample_extract_env :: extract_env where
  "sample_extract_env = \<lparr>xe_query = (\<lambda>_ _. Inr [[PStr ''v1'']]), xe_iter = (\<lambda>_. []), xe_conv = no_conv, xe_now = 9\<rparr>"

lemma sample_extraction:
  obtains b db' where "extract_batch sample_extract_env vehicle_contract
      sample_ctx ''v1'' 5 extraction_db = (Inr b, db')"
    and "fb_features b = [(''known'', PBool True), (''number_of_stops'', PInt 0)]"
proof -
  let ?r = "extract_batch sample_extract_env vehicle_contract
      sample_ctx ''v1'' 5 extraction_db"
  have "(case fst ?r of Inl _ \<Rightarrow> False | Inr b \<Rightarrow> fb_features b = [(''known'', PBool True), (''number_of_stops'', PInt 0)])"
    by code_simp
  then show ?thesis using that by (cases ?r) (auto split: sum.splits)
qed

lemma extraction_db_ok: "conn_ok (\<lambda>_. 1) extraction_db"
proof -
  have sample: "conn_ok (\<lambda>_. 1) sample_conn_db" using conn_ok_steps [OF sample_conn_db_reachable conn_ok_empty] .
  have parts: "db_connections extraction_db = map (\<lambda>c. c\<lparr>cn_tables := [''vehicles'']\<rparr>) (db_connections sample_conn_db)"
      "db_credential_refs extraction_db = db_credential_refs sample_conn_db" "db_secrets extraction_db = db_secrets sample_conn_db"
    by (simp_all add: extraction_db_def)
  have "po_engines (db_pools extraction_db) = []" by code_simp
  then have "pools_fresh extraction_db"
    by (simp add: pools_fresh_def registry.fresh_for_def pool_get_existing_def dict_get_def)
  moreover have "conn_wf (\<lambda>_. 1) extraction_db"
    using sample by (auto simp: conn_ok_def conn_wf_def table_wf_def parts comp_def)
  ultimately show ?thesis by (simp add: conn_ok_def)
qed

theorem extraction_is_complete_and_confined_witness:
  "\<exists>b :: feature_batch. fb_features b = [(''known'', PBool True), (''number_of_stops'', PInt 0)] \<and> ln_tenant (fb_lineage b) = 1 \<and>
    map fst (fb_features b) = map fs_name (fc_features vehicle_contract)"
proof -
  obtain b db' where b: "extract_batch sample_extract_env vehicle_contract
      sample_ctx ''v1'' 5 extraction_db = (Inr b, db')"
    and v: "fb_features b = [(''known'', PBool True), (''number_of_stops'', PInt 0)]"
    by (rule sample_extraction)
  have "distinct (map fs_name (fc_features vehicle_contract))" by code_simp
  from extraction_is_complete_and_confined [OF b this extraction_db_ok]
  have "map fst (fb_features b) = map fs_name (fc_features vehicle_contract) \<and>
      ln_tenant (fb_lineage b) = tc_tenant sample_ctx" by blast
  with v show ?thesis by (intro exI [of _ b]) (simp add: sample_ctx_def)
qed

subsection \<open>Unusable mappings\<close>

text \<open>A target mapping that is suspended, or whose state is not active, is never read from.\<close>

lemma suspended_target_unavailable:
  assumes "\<And>m. m \<in> set (db_mappings db) \<Longrightarrow> row_tenant m = Some (tc_tenant ctx) \<Longrightarrow> sm_entity m = fc_target c \<Longrightarrow>
      sm_state m = M_ACTIVE \<Longrightarrow> sm_suspended m"
  shows "\<exists>e. extract_batch env c ctx reference pt db = (Inl e, db) \<and>
    e \<in> {TargetMappingUnavailableError (fc_target c), MultipleResultsFound}"
proof -
  have no: "resolve_mapping (fc_target c) ctx db \<noteq> Inr (Some r)" for r
    using resolve_mapping_Some [of "fc_target c" ctx db r] assms by blast
  have err: "e = MultipleResultsFound" if "resolve_mapping (fc_target c) ctx db = Inl e" for e
    using that by (auto simp: resolve_mapping_def rbind_Inl_iff get_active_by_entity_name_def split: list.splits)
  show ?thesis
  proof (cases "resolve_mapping (fc_target c) ctx db")
    case (Inl e)
    then show ?thesis using err by (simp add: extract_batch_def resolve_target_mapping_def)
  next
    case (Inr r)
    with no have "r = None" by (cases r) auto
    with Inr show ?thesis by (simp add: extract_batch_def resolve_target_mapping_def)
  qed
qed

text \<open>
  The dry run foretells what has no data. If a plan reports a related feature as unavailable
  without a derivation of its own, then extracting it from a row that has mapped fields only
  either raises or gives the value the feature declares for missing data.
\<close>

theorem unavailable_features_have_no_data:
  assumes "plan_feature target related f = Inr p" and "\<not> pe_available p" and "is_related (fs_kind f)"
    and "\<And>n. n \<in> fst ` set row \<Longrightarrow> resolve_column (rs_document target) n \<noteq> Inr None"
    and "fs_derive f = None"
    and "extract_feature env row related ctx pt f db = (Inr r, db')"
  shows "normalize (xe_conv env) f PNone = Inr (fr_value r)"
proof -
  from assms(3,6) have x: "extract_related_feature env row related ctx pt f db = (Inr r, db')"
    by (simp add: extract_feature_def)
  then obtain en fk where ent: "fs_entity f = Some en" and fk: "fs_fk f = Some fk"
    by (auto simp: extract_related_feature_def)
  let ?rel = "case dict_get related en of None \<Rightarrow> None | Some q \<Rightarrow> q"
  show ?thesis
  proof (cases ?rel)
    case None
    with x ent fk show ?thesis by (auto simp: extract_related_feature_def no_value_def)
  next
    case (Some q)
    with assms(1-3) ent fk obtain tc rc where
        tc: "resolve_column (rs_document target) fk = Inr tc" and rc: "resolve_column (rs_document q) fk = Inr rc"
        and un: "tc = None \<or> rc = None"
      by (auto simp: plan_feature_def Let_def)
    show ?thesis
    proof (cases "sm_active (rs_mapping q)")
      case None
      with x ent fk Some show ?thesis by (auto simp: extract_related_feature_def no_value_def)
    next
      case act: (Some vid)
      show ?thesis
      proof (cases "row_get row fk = PNone")
        case True
        with x ent fk Some act show ?thesis by (auto simp: extract_related_feature_def no_value_def Let_def)
      next
        case False
        then have "fk \<in> fst ` set row" by (auto simp: row_get_def dict_get_def split: option.splits dest: map_of_SomeD intro: rev_image_eqI)
        with assms(4) tc un have "rc = None" by auto
        with rc fk have run: "run_related_feature qy cv e f (rs_document q) jv pt schemas tables = Inr raw \<Longrightarrow> raw = PNone"
          for qy cv e jv schemas tables raw
          by (auto simp: run_related_feature_def)
        from x ent fk Some act False obtain conn snap where
            cs: "connection_and_snapshot_for q ctx db = Inr (conn, snap)"
          by (auto simp: extract_related_feature_def Let_def)
        obtain g db1 where ge: "get_or_create_engine (row_id conn) ctx db = (g, db1)"
          by (cases "get_or_create_engine (row_id conn) ctx db")
        with x ent fk Some act False cs obtain conn' eng where "g = Inr (conn', eng)"
          by (cases g) (auto simp: extract_related_feature_def Let_def)
        with x ent fk Some act False cs ge assms(5) obtain raw where
            raw: "run_related_feature (xe_query env) (xe_conv env) eng f (rs_document q) (row_get row fk) pt
                (cn_schemas conn) (cn_tables conn) = Inr raw" "some_value (xe_conv env) f raw (Some vid) = Inr r"
          by (auto simp: extract_related_feature_def Let_def)
        from run [OF raw(1)] raw(2) show ?thesis by (auto simp: some_value_def)
      qed
    qed
  qed
qed


definition vehicle_resolved :: resolved where
  "vehicle_resolved = \<lparr>rs_mapping = hd (db_mappings map_db4), rs_document = sample_document\<rparr>"

theorem unavailable_features_have_no_data_witness:
  "normalize no_conv number_of_stops PNone = Inr (PInt 0) \<and>
   fst (extract_feature sample_extract_env [] [] sample_ctx 5 number_of_stops map_db4) =
     Inr \<lparr>fr_value = PInt 0, fr_missing = Some ''No active mapping for RouteStop'', fr_version = None\<rparr>"
proof -
  let ?r = "\<lparr>fr_value = PInt 0, fr_missing = Some ''No active mapping for RouteStop'', fr_version = None\<rparr>"
  let ?p = "\<lparr>pe_feature = ''number_of_stops'', pe_kind = RELATED_COUNT, pe_available = False,
      pe_reason = Some ''No active production mapping for RouteStop'', pe_table = None, pe_columns = []\<rparr>"
  have p: "plan_feature vehicle_resolved [] number_of_stops = Inr ?p"
    by (simp add: plan_feature_def feature_defs is_related_def)
  have x: "extract_feature sample_extract_env [] [] sample_ctx 5 number_of_stops map_db4 = (Inr ?r, map_db4)"
    by (simp add: extract_feature_def extract_related_feature_def feature_defs is_related_def no_value_def
        normalize_def sample_extract_env_def)
  have k: "is_related (fs_kind number_of_stops)" "fs_derive number_of_stops = None"
    by (simp_all add: feature_defs is_related_def)
  have "normalize (xe_conv sample_extract_env) number_of_stops PNone = Inr (fr_value ?r)"
    by (rule unavailable_features_have_no_data [OF p _ k(1) _ k(2) x]) simp_all
  with x show ?thesis by (simp add: sample_extract_env_def)
qed

subsection \<open>What reading leaves unchanged\<close>

text \<open>Reading may open engines and record events; the rest of the control plane stays.\<close>

definition quiet :: "'z map_db_scheme \<Rightarrow> 'z map_db_scheme \<Rightarrow> bool" where
  "quiet db db' \<longleftrightarrow> (\<exists>p es. db' = db\<lparr>db_pools := p, audit_log := audit_log db @ es\<rparr>)"

lemma quiet_refl [simp]: "quiet db db"
  unfolding quiet_def by (intro exI [of _ "db_pools db"] exI [of _ "[]"]) (cases db, simp)

lemma quiet_trans: "quiet a b \<Longrightarrow> quiet b c \<Longrightarrow> quiet a c"
  unfolding quiet_def by (cases a) fastforce

lemma same_plane_quiet: "same_plane db db' \<Longrightarrow> quiet db db'"
proof -
  assume "same_plane db db'"
  moreover have "db\<lparr>db_pools := p, audit_log := audit_log db @ []\<rparr> = db\<lparr>db_pools := p\<rparr>" for p by (cases db) simp
  ultimately show ?thesis unfolding quiet_def same_plane_def by metis
qed

lemma quiet_record: "quiet db (audit_record e db)"
  unfolding quiet_def by (intro exI [of _ "db_pools db"] exI [of _ "[e]"]) (cases db, simp add: audit_record_def)

lemma extract_batch_quiet:
  assumes "extract_batch env c ctx reference pt db = (x, db')"
  shows "quiet db db'"
proof -
  have eng: "get_or_create_engine i ctx db = (r, db1) \<Longrightarrow> same_plane db db1" for i r db1
    using same_plane_engine [of db i ctx] by simp
  have fs: "extract_features env row related ctx pt fs z db1 = (r, db2) \<Longrightarrow> same_plane db1 db2" for row related fs z db1 r db2
    using same_plane_features [of db1 env row related ctx pt fs z] by simp
  have rec: "same_plane db db1 \<Longrightarrow> same_plane db1 db2 \<Longrightarrow> quiet db (audit_record ev db2)" for db1 db2 ev
    using quiet_record quiet_trans same_plane_quiet by blast
  show ?thesis
    using assms
    by (auto simp: extract_batch_def attempt_def split: sum.splits option.splits prod.splits
        dest!: eng fs intro: same_plane_quiet rec same_plane_quiet [OF same_plane_trans])
qed

end
