(* ===== verification/Datasets.thy ===== *)
theory Datasets
  imports FeatureExtraction "HOL-Library.Sublist"
begin

section \<open>Dataset building\<close>

text \<open>
  \<open>hermes_rpt/datasets\<close>: labels, data-quality checks, temporal splits, statistics, the manifest
  and the build service. Parameters, gathered in a record, are the text of a value (\<open>str\<close>), the
  floating-point cut \<open>int(n * fraction)\<close> of a split, the square root, the digest and the JSON
  text of a row. Values compare as in the model: Python's identification of equal numbers of
  different types is not modelled.
\<close>

subsection \<open>Labels\<close>

text \<open>Subtraction and comparison of datetimes raise when one has a zone and the other has none.\<close>

definition dt_minus :: "py_datetime \<Rightarrow> py_datetime \<Rightarrow> exn + int" where
  "dt_minus a b =
     (if (snd a = None) \<noteq> (snd b = None) then Inl (TypeError ''offset-naive and offset-aware datetimes'')
      else Inr (dt_utc a - dt_utc b))"

definition dt_before :: "py_datetime \<Rightarrow> py_datetime \<Rightarrow> exn + bool" where
  "dt_before a b = rbind (dt_minus a b) (\<lambda>d. Inr (d < 0))"

definition exceeds :: "rat \<Rightarrow> pyval \<Rightarrow> exn + bool" where
  "exceeds x threshold =
     (case threshold of PInt i \<Rightarrow> Inr (x > of_int i) | PFloat q \<Rightarrow> Inr (x > q) | _ \<Rightarrow> Inl (TypeError ''>''))"

definition delivery_delay_label :: "pyval \<Rightarrow> record_row \<Rightarrow> exn + int option" where
  "delivery_delay_label threshold row =
     (let status = row_get row ''status''
      in if status \<in> {PNone, PStr ''planned'', PStr ''in_progress''} then Inr None
         else if status = PStr ''cancelled'' then Inr (Some 1)
         else if status \<noteq> PStr ''completed'' then Inr None
         else case (row_get row ''planned_arrival_at'', row_get row ''actual_arrival_at'') of
             (PTime p, PTime a) \<Rightarrow> rbind (dt_minus a p) (\<lambda>us.
               rbind (exceeds (of_int us / 1000000 / 60) threshold) (\<lambda>late.
                 Inr (Some (if late then 1 else 0))))
           | _ \<Rightarrow> Inr None)"

definition compute_label :: "string \<Rightarrow> record_row \<Rightarrow> (string, pyval) dict \<Rightarrow> exn + int option" where
  "compute_label name row kwargs =
     (if name \<noteq> ''delivery_delay_label'' then Inl (UnknownLabelFunctionError name)
      else if \<not> fst ` set kwargs \<subseteq> {''delay_threshold_minutes''} then Inl (TypeError ''unexpected keyword argument'')
      else delivery_delay_label (case dict_get kwargs ''delay_threshold_minutes'' of None \<Rightarrow> PInt 30 | Some t \<Rightarrow> t) row)"

subsection \<open>Definitions\<close>

record label_definition =
  ld_function :: string
  ld_sources :: "string list"
  ld_time :: string
  ld_kwargs :: "(string, pyval) dict"

record split_strategy =
  tp_train :: rat
  tp_validation :: rat

record dataset_definition =
  dd_key :: string
  dd_task :: string
  dd_tenant :: "uuid option"
  dd_shared :: bool
  dd_start :: instant
  dd_stop :: instant
  dd_label :: label_definition
  dd_split :: split_strategy

definition make_split_strategy :: "split_strategy \<Rightarrow> exn + split_strategy" where
  "make_split_strategy s =
     (if \<not> (0 < tp_train s \<and> tp_train s < 1) \<or> \<not> (0 < tp_validation s \<and> tp_validation s < 1)
      then Inl (ValueError ''must each be in (0, 1)'')
      else if tp_train s + tp_validation s \<ge> 1 then Inl (ValueError ''must leave room for a test split'')
      else Inr s)"

definition make_dataset_definition :: "dataset_definition \<Rightarrow> exn + dataset_definition" where
  "make_dataset_definition d =
     rbind (make_split_strategy (dd_split d)) (\<lambda>_.
       if ld_sources (dd_label d) = [] then Inl (ValidationError ''source_fields'')
       else if dd_tenant d = None \<and> \<not> dd_shared d then Inl (ValueError ''tenant_id is required'')
       else if dd_stop d \<le> dd_start d then Inl (ValueError ''time_range_end must be after time_range_start'')
       else Inr d)"

subsection \<open>Quality checks\<close>

datatype quality_severity = QS_INFO | QS_WARNING | QS_ERROR

record quality_issue =
  qi_check :: string
  qi_severity :: quality_severity
  qi_count :: nat
  qi_examples :: "string list"

record quality_report =
  qr_rows :: nat
  qr_issues :: "quality_issue list"

definition report_passed :: "quality_report \<Rightarrow> bool" where
  "report_passed r \<longleftrightarrow> \<not> list_ex (\<lambda>i. qi_severity i = QS_ERROR) (qr_issues r)"

definition max_example_ids :: nat where "max_example_ids = 5"

definition issue_of :: "string \<Rightarrow> quality_severity \<Rightarrow> string list \<Rightarrow> quality_issue option" where
  "issue_of check sev bad =
     (if bad = [] then None
      else Some \<lparr>qi_check = check, qi_severity = sev, qi_count = length bad, qi_examples = take max_example_ids bad\<rparr>)"

fun filter_r :: "('a \<Rightarrow> 'e + bool) \<Rightarrow> 'a list \<Rightarrow> 'e + 'a list" where
  "filter_r P [] = Inr []"
| "filter_r P (x # xs) = rbind (P x) (\<lambda>b. rbind (filter_r P xs) (\<lambda>ys. Inr (if b then x # ys else ys)))"

text \<open>The identifiers of the rows a check finds bad, turned into its issue.\<close>

definition row_check ::
  "(pyval \<Rightarrow> string) \<Rightarrow> string \<Rightarrow> string \<Rightarrow> quality_severity \<Rightarrow> (record_row \<Rightarrow> exn + bool) \<Rightarrow> record_row list \<Rightarrow>
   exn + quality_issue option" where
  "row_check str idf check sev P rows =
     rbind (filter_r P rows) (\<lambda>bad. Inr (issue_of check sev (map (\<lambda>r. str (row_get r idf)) bad)))"

text \<open>The distinct values in the order of their first occurrence, as in the keys of a counter.\<close>

definition counter_keys :: "'a list \<Rightarrow> 'a list" where
  "counter_keys xs = map fst (dict_of (map (\<lambda>x. (x, ())) xs))"

definition check_duplicate_ids :: "(pyval \<Rightarrow> string) \<Rightarrow> string \<Rightarrow> string \<Rightarrow> record_row list \<Rightarrow> quality_issue option" where
  "check_duplicate_ids str idf check rows =
     (let ids = filter (\<lambda>v. v \<noteq> PNone) (map (\<lambda>r. row_get r idf) rows)
      in issue_of check QS_ERROR (map str (filter (\<lambda>v. count_list ids v > 1) (counter_keys ids))))"

definition later_before_earlier :: "string \<Rightarrow> string \<Rightarrow> record_row \<Rightarrow> exn + bool" where
  "later_before_earlier earlier later r =
     (case (row_get r earlier, row_get r later) of
        (PTime e, PTime l) \<Rightarrow> dt_before l e | _ \<Rightarrow> Inr False)"

definition check_invalid_date_ordering ::
  "(pyval \<Rightarrow> string) \<Rightarrow> string \<Rightarrow> string \<Rightarrow> string \<Rightarrow> string \<Rightarrow> record_row list \<Rightarrow> exn + quality_issue option" where
  "check_invalid_date_ordering str idf earlier later check rows =
     row_check str idf check QS_ERROR (later_before_earlier earlier later) rows"

definition negative_number :: "pyval \<Rightarrow> bool" where
  "negative_number v = (case v of PInt i \<Rightarrow> i < 0 | PFloat q \<Rightarrow> q < 0 | _ \<Rightarrow> False)"

definition check_negative_numeric ::
  "(pyval \<Rightarrow> string) \<Rightarrow> string \<Rightarrow> string \<Rightarrow> string \<Rightarrow> record_row list \<Rightarrow> exn + quality_issue option" where
  "check_negative_numeric str idf field check rows =
     row_check str idf check QS_ERROR (\<lambda>r. Inr (negative_number (row_get r field))) rows"

definition check_unrecognised_values ::
  "(pyval \<Rightarrow> string) \<Rightarrow> string \<Rightarrow> string \<Rightarrow> string set \<Rightarrow> string \<Rightarrow> record_row list \<Rightarrow> exn + quality_issue option" where
  "check_unrecognised_values str idf field allowed check rows =
     row_check str idf check QS_WARNING
       (\<lambda>r. Inr (case row_get r field of PNone \<Rightarrow> False | PStr s \<Rightarrow> s \<notin> allowed | _ \<Rightarrow> True)) rows"

definition in_future :: "instant \<Rightarrow> pyval \<Rightarrow> exn + bool" where
  "in_future now v = (case v of PTime t \<Rightarrow> dt_before (now, Some 0) t | _ \<Rightarrow> Inr False)"

definition check_future_timestamps ::
  "(pyval \<Rightarrow> string) \<Rightarrow> string \<Rightarrow> string \<Rightarrow> instant \<Rightarrow> string \<Rightarrow> record_row list \<Rightarrow> exn + quality_issue option" where
  "check_future_timestamps str idf field now check rows =
     row_check str idf check QS_ERROR (\<lambda>r. in_future now (row_get r field)) rows"

definition check_missing_labels :: "int option list \<Rightarrow> quality_issue option" where
  "check_missing_labels labels =
     (let missing = length (filter (\<lambda>l. l = None) labels)
      in if missing = 0 then None
         else Some \<lparr>qi_check = ''missing_labels'', qi_severity = QS_INFO, qi_count = missing, qi_examples = []\<rparr>)"

definition min_minority_fraction :: rat where "min_minority_fraction = 2 / 100"

definition check_class_imbalance :: "int list \<Rightarrow> quality_issue option" where
  "check_class_imbalance labels =
     (if labels = [] then None
      else let positive = of_int (sum_list labels) / of_nat (length labels);
               minority = min positive (1 - positive)
           in if minority \<ge> min_minority_fraction then None
              else Some \<lparr>qi_check = ''class_imbalance'', qi_severity = QS_WARNING, qi_count = length labels, qi_examples = []\<rparr>)"

definition check_cross_tenant_contamination :: "uuid \<Rightarrow> uuid list \<Rightarrow> quality_issue option" where
  "check_cross_tenant_contamination expected tids =
     (let foreign = filter (\<lambda>t. t \<noteq> expected) tids
      in if foreign = [] then None
         else Some \<lparr>qi_check = ''cross_tenant_contamination'', qi_severity = QS_ERROR, qi_count = length foreign, qi_examples = []\<rparr>)"

subsection \<open>Splits, statistics and the checksum\<close>

record 'r splits =
  sl_train :: "'r list"
  sl_validation :: "'r list"
  sl_test :: "'r list"

definition split_temporally :: "(nat \<Rightarrow> rat \<Rightarrow> nat) \<Rightarrow> split_strategy \<Rightarrow> 'r list \<Rightarrow> 'r splits" where
  "split_temporally portion s rows =
     (let n = length rows; train_end = portion n (tp_train s); validation_end = train_end + portion n (tp_validation s)
      in \<lparr>sl_train = take train_end rows, sl_validation = drop train_end (take validation_end rows),
          sl_test = drop validation_end rows\<rparr>)"

record feature_statistic =
  st_feature :: string
  st_count :: nat
  st_missing :: nat
  st_mean :: "rat option"
  st_std :: "rat option"
  st_min :: "rat option"
  st_max :: "rat option"

definition mean_of :: "rat list \<Rightarrow> rat" where
  "mean_of nums = sum_list nums / of_nat (length nums)"

definition variance_of :: "rat list \<Rightarrow> rat" where
  "variance_of nums = mean_of (map (\<lambda>v. (v - mean_of nums) * (v - mean_of nums)) nums)"

definition statistic_of_numbers :: "(rat \<Rightarrow> rat) \<Rightarrow> string \<Rightarrow> nat \<Rightarrow> rat list \<Rightarrow> feature_statistic" where
  "statistic_of_numbers square_root name missing nums =
     (case nums of
        [] \<Rightarrow> \<lparr>st_feature = name, st_count = 0, st_missing = missing, st_mean = None, st_std = None,
               st_min = None, st_max = None\<rparr>
      | x # xs \<Rightarrow> \<lparr>st_feature = name, st_count = length nums, st_missing = missing, st_mean = Some (mean_of nums),
               st_std = Some (square_root (variance_of nums)), st_min = Some (fold min xs x), st_max = Some (fold max xs x)\<rparr>)"

definition feature_statistic_of :: "conv \<Rightarrow> (rat \<Rightarrow> rat) \<Rightarrow> record_row list \<Rightarrow> string \<Rightarrow> exn + feature_statistic" where
  "feature_statistic_of cv square_root rows name =
     (let values = filter (\<lambda>v. v \<noteq> PNone) (map (\<lambda>r. row_get r name) rows)
      in rbind (mapM_r (py_float cv) values) (\<lambda>nums.
           Inr (statistic_of_numbers square_root name (length rows - length values) nums)))"

definition compute_feature_statistics ::
  "conv \<Rightarrow> (rat \<Rightarrow> rat) \<Rightarrow> record_row list \<Rightarrow> string list \<Rightarrow> exn + feature_statistic list" where
  "compute_feature_statistics cv square_root rows names = mapM_r (feature_statistic_of cv square_root rows) names"

record label_statistics =
  ls_count :: nat
  ls_positive :: int
  ls_negative :: int

definition compute_label_statistics :: "int list \<Rightarrow> label_statistics" where
  "compute_label_statistics labels =
     \<lparr>ls_count = length labels, ls_positive = sum_list labels, ls_negative = int (length labels) - sum_list labels\<rparr>"

definition positive_fraction :: "label_statistics \<Rightarrow> rat" where
  "positive_fraction s = (if ls_count s = 0 then 0 else of_int (ls_positive s) / of_nat (ls_count s))"

definition compute_dataset_checksum ::
  "(string \<Rightarrow> string) \<Rightarrow> (record_row \<Rightarrow> string) \<Rightarrow> (int \<Rightarrow> string) \<Rightarrow> record_row list \<Rightarrow> int list \<Rightarrow> exn + string" where
  "compute_dataset_checksum sha row_json show_int rows labels =
     (if length rows \<noteq> length labels then Inl (ValueError ''zip() argument 2'')
      else Inr (sha (concat (map (\<lambda>(r, l). row_json r @ ''|label='' @ show_int l @ [CHR 0x0A]) (zip rows labels)))))"

subsection \<open>The build\<close>

record dataset_env =
  de_extract :: extract_env
  de_onto :: ontology_loader
  de_str :: "pyval \<Rightarrow> string"
  de_portion :: "nat \<Rightarrow> rat \<Rightarrow> nat"
  de_sqrt :: "rat \<Rightarrow> rat"
  de_sha :: "string \<Rightarrow> string"
  de_row_json :: "record_row \<Rightarrow> string"
  de_show_int :: "int \<Rightarrow> string"
  de_dataset_id :: uuid

record dataset_row =
  dr_reference :: string
  dr_time :: instant
  dr_features :: record_row
  dr_label :: int

record dataset_lineage =
  dl_ontology :: string
  dl_contract :: string
  dl_task :: string
  dl_versions :: "(string, uuid) dict"
  dl_snapshots :: "(string, uuid) dict"
  dl_built_at :: instant
  dl_built_by :: uuid

record dataset_manifest =
  dm_id :: uuid
  dm_key :: string
  dm_tenant :: "uuid option"
  dm_shared :: bool
  dm_lineage :: dataset_lineage
  dm_counts :: "(string, nat) dict"
  dm_checksum :: string
  dm_quality :: quality_report
  dm_features :: "feature_statistic list"
  dm_labels :: label_statistics

record built_dataset =
  bd_manifest :: dataset_manifest
  bd_splits :: "dataset_row splits"

definition validate_definition_matches_tenant :: "dataset_definition \<Rightarrow> tenant_context \<Rightarrow> exn + unit" where
  "validate_definition_matches_tenant d ctx =
     (if dd_shared d then Inl DatasetTenantMismatchError
      else if dd_tenant d \<noteq> Some (tc_tenant ctx) then Inl DatasetTenantMismatchError
      else Inr ())"

definition is_point_in_time_valid :: "string \<Rightarrow> record_row \<Rightarrow> exn + bool" where
  "is_point_in_time_valid time_field row =
     (case (row_get row time_field, row_get row ''actual_arrival_at'') of
        (PTime p, PTime a) \<Rightarrow> dt_before p a | _ \<Rightarrow> Inr True)"

text \<open>The label of a row that may be used: none when the label could have been known before.\<close>

definition usable_label :: "label_definition \<Rightarrow> record_row \<Rightarrow> exn + record_row \<times> int option" where
  "usable_label ld row =
     rbind (compute_label (ld_function ld) row (ld_kwargs ld)) (\<lambda>l.
       if l = None then Inr (row, None)
       else rbind (is_point_in_time_valid (ld_time ld) row) (\<lambda>ok. Inr (row, if ok then l else None)))"

definition trip_status_values :: "string set" where
  "trip_status_values = {''planned'', ''in_progress'', ''completed'', ''cancelled''}"

definition unless_field :: "bool \<Rightarrow> (exn + quality_issue option) \<Rightarrow> exn + quality_issue option" where
  "unless_field b r = (if b then r else Inr None)"

definition raw_quality ::
  "(pyval \<Rightarrow> string) \<Rightarrow> instant \<Rightarrow> string \<Rightarrow> label_definition \<Rightarrow> record_row list \<Rightarrow> exn + quality_issue list" where
  "raw_quality str now idf ld rows =
     rbind (mapM_r id
       [Inr (check_duplicate_ids str idf ''duplicate_entity_ids'' rows),
        unless_field (''actual_arrival_at'' \<in> set (ld_sources ld))
          (check_invalid_date_ordering str idf (ld_time ld) ''actual_arrival_at'' ''invalid_dates'' rows),
        unless_field (''planned_distance_km'' \<in> set (ld_sources ld))
          (check_negative_numeric str idf ''planned_distance_km'' ''negative_distances'' rows),
        unless_field (''status'' \<in> set (ld_sources ld))
          (check_unrecognised_values str idf ''status'' trip_status_values ''unrecognised_statuses'' rows),
        check_future_timestamps str idf (ld_time ld) now ''future_timestamps'' rows])
     (\<lambda>found. Inr (List.map_filter id found))"

definition labelled_items :: "(record_row \<times> int option) list \<Rightarrow> (record_row \<times> int) list" where
  "labelled_items ps = List.map_filter (\<lambda>(r, l). map_option (Pair r) l) ps"

definition row_not_found :: "exn \<Rightarrow> bool" where
  "row_not_found e = (case e of TargetRowNotFoundError _ \<Rightarrow> True | _ \<Rightarrow> False)"

fun extract_rows ::
  "dataset_env \<Rightarrow> feature_contract \<Rightarrow> tenant_context \<Rightarrow> string \<Rightarrow> string \<Rightarrow> (record_row \<times> int) list \<Rightarrow>
   'z map_db_scheme \<Rightarrow> (exn + dataset_row list) \<times> 'z map_db_scheme" where
  "extract_rows env c ctx idf tf [] db = (Inr [], db)"
| "extract_rows env c ctx idf tf ((row, label) # rest) db =
     attempt (case row_get row tf of PTime d \<Rightarrow> Inr (dt_utc d) | _ \<Rightarrow> Inl AssertionError) db (\<lambda>pt.
     (case extract_batch (de_extract env) c ctx (de_str env (row_get row idf)) pt db of
        (Inl e, db1) \<Rightarrow> if row_not_found e then extract_rows env c ctx idf tf rest db1 else (Inl e, db1)
      | (Inr b, db1) \<Rightarrow>
          (case extract_rows env c ctx idf tf rest db1 of
             (Inl e, db2) \<Rightarrow> (Inl e, db2)
           | (Inr rows, db2) \<Rightarrow>
               (Inr (\<lparr>dr_reference = de_str env (row_get row idf), dr_time = pt,
                      dr_features = fb_features b, dr_label = label\<rparr> # rows), db2))))"

definition assemble_dataset ::
  "dataset_env \<Rightarrow> dataset_definition \<Rightarrow> feature_contract \<Rightarrow> tenant_context \<Rightarrow> resolved \<Rightarrow> uuid \<Rightarrow>
   quality_issue list \<Rightarrow> dataset_row list \<Rightarrow> exn + built_dataset" where
  "assemble_dataset env d c ctx target snap issues rows =
     (let report = \<lparr>qr_rows = length rows,
            qr_issues = issues @ List.map_filter id [check_class_imbalance (map dr_label rows)]\<rparr>;
          splits = split_temporally (de_portion env) (dd_split d) rows;
          feature_rows = map dr_features rows; labels = map dr_label rows
      in rbind (compute_dataset_checksum (de_sha env) (de_row_json env) (de_show_int env) feature_rows labels) (\<lambda>checksum.
         rbind (compute_feature_statistics (xe_conv (de_extract env)) (de_sqrt env) feature_rows (map fs_name (fc_features c))) (\<lambda>stats.
         case sm_active (rs_mapping target) of None \<Rightarrow> Inl AssertionError | Some vid \<Rightarrow>
           Inr \<lparr>bd_manifest = \<lparr>dm_id = de_dataset_id env, dm_key = dd_key d, dm_tenant = dd_tenant d,
                   dm_shared = dd_shared d,
                   dm_lineage = \<lparr>dl_ontology = sm_ontology (rs_mapping target), dl_contract = fc_version c, dl_task = fc_task c,
                      dl_versions = [(fc_target c, vid)], dl_snapshots = [(fc_target c, snap)],
                      dl_built_at = xe_now (de_extract env), dl_built_by = tc_principal ctx\<rparr>,
                   dm_counts = [(''train'', length (sl_train splits)), (''validation'', length (sl_validation splits)),
                      (''test'', length (sl_test splits))],
                   dm_checksum = checksum, dm_quality = report, dm_features = stats,
                   dm_labels = compute_label_statistics labels\<rparr>,
                bd_splits = splits\<rparr>)))"

definition build_dataset ::
  "dataset_env \<Rightarrow> dataset_definition \<Rightarrow> feature_contract \<Rightarrow> tenant_context \<Rightarrow> 'z map_db_scheme \<Rightarrow>
   (exn + built_dataset) \<times> 'z map_db_scheme" where
  "build_dataset env d c ctx db =
     (let x = de_extract env
      in attempt (validate_definition_matches_tenant d ctx) db (\<lambda>_.
         attempt (resolve_target_mapping (fc_target c) ctx db) db (\<lambda>target.
         attempt (connection_and_snapshot_for target ctx db) db (\<lambda>(conn, snap).
         (case get_or_create_engine (row_id conn) ctx db of
            (Inl e, db1) \<Rightarrow> (Inl e, db1)
          | (Inr (_, eng), db1) \<Rightarrow>
              attempt (identity_field_name (rs_document target)) db1 (\<lambda>idf.
              attempt (fetch_rows_in_range (xe_query x) (xe_iter x) (de_onto env) (xe_conv x) eng (rs_document target)
                  (ld_time (dd_label d)) (dd_start d) (dd_stop d) (set (ld_sources (dd_label d)))
                  (cn_schemas conn) (cn_tables conn)) db1 (\<lambda>raw.
              attempt (raw_quality (de_str env) (xe_now x) idf (dd_label d) raw) db1 (\<lambda>issues.
              attempt (mapM_r (usable_label (dd_label d)) raw) db1 (\<lambda>labelled_rows.
              (case extract_rows env c ctx idf (ld_time (dd_label d))
                   (labelled_items labelled_rows) db1 of
                 (Inl e, db2) \<Rightarrow> (Inl e, db2)
               | (Inr rows, db2) \<Rightarrow>
                   (assemble_dataset env d c ctx target (row_id snap)
                      (issues @ List.map_filter id [check_missing_labels (map snd labelled_rows)]) rows, db2)))))))))))"

subsection \<open>Splits cut a list in order\<close>

lemma split_temporally_concat:
  "sl_train (split_temporally portion s rows) @ sl_validation (split_temporally portion s rows) @
   sl_test (split_temporally portion s rows) = rows"
proof -
  let ?a = "portion (length rows) (tp_train s)" and ?b = "portion (length rows) (tp_validation s)"
  have "drop ?a (take (?a + ?b) rows) @ drop (?a + ?b) rows = drop ?a rows"
    by (metis append_take_drop_id drop_drop drop_take add_diff_cancel_left' add.commute)
  then show ?thesis by (simp add: split_temporally_def Let_def)
qed

subsection \<open>Rows in range are in order\<close>

text \<open>
  What the statements rely on: the answer to a query with an order is sorted by that column,
  and each row of an answer satisfies the conditions on the columns it shows. Iterating over a
  finite set gives its elements.
\<close>

definition time_of :: "pyval \<Rightarrow> instant" where
  "time_of v = (case v of PTime d \<Rightarrow> dt_utc d | _ \<Rightarrow> 0)"

definition answers_in_order :: "sql_query \<Rightarrow> bool" where
  "answers_in_order query \<longleftrightarrow> (\<forall>e s cols col n rows.
     qs_project s = Columns cols \<longrightarrow> qs_order s = Some (col, False) \<longrightarrow> distinct (map fst cols) \<longrightarrow> (n, col) \<in> set cols \<longrightarrow>
     query e s = Inr rows \<longrightarrow> sorted (map (\<lambda>r. time_of (row_get (labelled cols r) n)) rows))"

definition answers_satisfy :: "sql_query \<Rightarrow> bool" where
  "answers_satisfy query \<longleftrightarrow> (\<forall>e s cols col cmp p n rows r.
     qs_project s = Columns cols \<longrightarrow> (col, cmp, p) \<in> set (qs_where s) \<longrightarrow> distinct (map fst cols) \<longrightarrow>
     (n, col) \<in> set cols \<longrightarrow> query e s = Inr rows \<longrightarrow> r \<in> set rows \<longrightarrow> cond_holds [(col, row_get (labelled cols r) n)] (col, cmp, p))"

definition iterates :: "(string set \<Rightarrow> string list) \<Rightarrow> bool" where
  "iterates iter \<longleftrightarrow> (\<forall>S. finite S \<longrightarrow> set (iter S) = S)"

lemma select_columns_keeps:
  "select_columns d ns cols = Inr cols' \<Longrightarrow> kv \<in> set cols \<Longrightarrow> kv \<in> set cols'"
proof (induction ns arbitrary: cols)
  case (Cons n ns)
  show ?case
  proof (cases "n \<in> fst ` set cols")
    case True
    with Cons show ?thesis by simp
  next
    case False
    with Cons.prems obtain c where c: "resolve_column d n = Inr c"
        "(case c of None \<Rightarrow> select_columns d ns cols | Some col \<Rightarrow> select_columns d ns (dict_put n col cols)) = Inr cols'"
      by auto
    then show ?thesis using Cons.IH Cons.prems(2) False by (cases c) (auto simp: dict_put_append)
  qed
qed simp

lemma select_columns_selects:
  "select_columns d ns cols = Inr cols' \<Longrightarrow> n \<in> set ns \<Longrightarrow> n \<notin> fst ` set cols \<Longrightarrow>
    resolve_column d n = Inr (Some col) \<Longrightarrow> (n, col) \<in> set cols'"
proof (induction ns arbitrary: cols)
  case (Cons m ns)
  show ?case
  proof (cases "m = n")
    case True
    with Cons.prems have "select_columns d ns (dict_put n col cols) = Inr cols'" by simp
    then show ?thesis by (rule select_columns_keeps) (simp add: dict_put_append Cons.prems(3))
  next
    case False
    then have n: "n \<in> set ns" using Cons.prems(2) by simp
    show ?thesis
    proof (cases "m \<in> fst ` set cols")
      case True
      with Cons.prems Cons.IH n show ?thesis by simp
    next
      case m: False
      with Cons.prems obtain c where c: "resolve_column d m = Inr c"
          "(case c of None \<Rightarrow> select_columns d ns cols | Some x \<Rightarrow> select_columns d ns (dict_put m x cols)) = Inr cols'"
        by auto
      then show ?thesis using Cons.IH n Cons.prems(3,4) False by (cases c) auto
    qed
  qed
qed simp

lemma select_columns_distinct:
  "select_columns d ns cols = Inr cols' \<Longrightarrow> distinct (map fst cols) \<Longrightarrow> distinct (map fst cols')"
proof (induction ns arbitrary: cols)
  case (Cons n ns)
  show ?case
  proof (cases "n \<in> fst ` set cols")
    case True
    with Cons show ?thesis by simp
  next
    case False
    with Cons.prems obtain c where "resolve_column d n = Inr c"
        "(case c of None \<Rightarrow> select_columns d ns cols | Some col \<Rightarrow> select_columns d ns (dict_put n col cols)) = Inr cols'"
      by auto
    then show ?thesis using Cons.IH Cons.prems(2) by (cases c) (auto intro: distinct_dict_put)
  qed
qed simp

lemma coerce_row_keeps_times:
  "coerce_row_datetimes cv names row = Inr row' \<Longrightarrow> row_get row n = PTime d \<Longrightarrow> row_get row' n = PTime d"
  unfolding coerce_row_datetimes_def
proof (induction row arbitrary: row')
  case (Cons kv row)
  obtain k v where kv: "kv = (k, v)" by (cases kv)
  with Cons.prems(1) obtain v' rest where "row' = (k, v') # rest" "v' = v \<or> (\<exists>s. v = PStr s)"
      and "mapM_r (\<lambda>(k, v). case v of
         PStr s \<Rightarrow> if k \<in> names then
             (case cv_iso cv s of None \<Rightarrow> Inl (ValueError ''Invalid isoformat string'')
              | Some d \<Rightarrow> Inr (k, PTime (assume_utc d)))
           else Inr (k, v)
       | _ \<Rightarrow> Inr (k, v)) row = Inr rest"
    by (auto split: pyval.splits if_splits option.splits)
  with Cons.IH [of rest] Cons.prems(2) kv show ?case
    by (auto simp: row_get_def dict_get_def split: if_splits)
qed (simp add: row_get_def)

definition row_time :: "string \<Rightarrow> record_row \<Rightarrow> instant" where
  "row_time tf r = time_of (row_get r tf)"

lemma cutoff_is_time:
  assumes "cond_holds [(c, v)] (c, CmpGe, utc_value a)" and "cond_holds [(c, v)] (c, CmpLt, utc_value b)"
  shows "\<exists>d. v = PTime d \<and> a \<le> dt_utc d \<and> dt_utc d < b"
  using assms by (cases v) (auto simp: dict_get_def utc_value_def dt_utc_def split: option.splits)

lemma identity_column_resolves:
  "identity_column d = Inr (n, c) \<Longrightarrow> resolve_column d n = Inr (Some c)"
  by (auto simp: identity_column_def split: list.splits option.splits)

lemma fetch_rows_in_range_ordered:
  assumes "answers_in_order query" and "answers_satisfy query" and "iterates iter" and "finite needed"
    and fetched: "fetch_rows_in_range query iter onto cv e d tf start stop needed schemas tables = Inr raw"
  shows "sorted (map (row_time tf) raw) \<and>
    (\<forall>r \<in> set raw. \<exists>t. row_get r tf = PTime t \<and> start \<le> dt_utc t \<and> dt_utc t < stop)"
proof -
  from fetched obtain idf idc tc where id: "identity_column d = Inr (idf, idc)"
      and tc: "resolve_column d tf = Inr tc"
    by (auto simp: fetch_rows_in_range_def)
  show ?thesis
  proof (cases tc)
    case None
    with fetched id tc show ?thesis by (auto simp: fetch_rows_in_range_def)
  next
    case (Some tcol)
    let ?s = "\<lambda>cols. \<lparr>qs_table = source_of d, qs_project = Columns cols,
              qs_where = [(tcol, CmpGe, utc_value start), (tcol, CmpLt, utc_value stop)],
              qs_order = Some (tcol, False), qs_limit = Some dataset_build_row_limit\<rparr>"
    from fetched id tc Some obtain cols dts rows where
        cols: "select_columns d (iter (needed \<union> {tf})) [(idf, idc)] = Inr cols"
        and rows: "query e (?s cols) = Inr rows"
        and raw: "mapM_r (\<lambda>r. coerce_row_datetimes cv dts (labelled cols r)) rows = Inr raw"
      by (auto simp: fetch_rows_in_range_def)
    have "tf \<in> set (iter (needed \<union> {tf}))" using assms(3,4) by (simp add: iterates_def)
    then have col: "(tf, tcol) \<in> set cols"
      using select_columns_selects [OF cols] select_columns_keeps [OF cols, of "(idf, idc)"]
        identity_column_resolves [OF id] tc Some
      by (cases "tf = idf") auto
    have names: "distinct (map fst cols)" by (rule select_columns_distinct [OF cols]) simp
    have time: "\<exists>t. row_get (labelled cols r) tf = PTime t \<and> start \<le> dt_utc t \<and> dt_utc t < stop" if "r \<in> set rows" for r
    proof (rule cutoff_is_time)
      show "cond_holds [(tcol, row_get (labelled cols r) tf)] (tcol, CmpGe, utc_value start)"
        by (rule assms(2) [unfolded answers_satisfy_def, rule_format, OF _ _ names col rows that]) simp_all
      show "cond_holds [(tcol, row_get (labelled cols r) tf)] (tcol, CmpLt, utc_value stop)"
        by (rule assms(2) [unfolded answers_satisfy_def, rule_format, OF _ _ names col rows that]) simp_all
    qed
    have len: "length raw = length rows" using raw by (rule mapM_r_Inr_length)
    have co: "coerce_row_datetimes cv dts (labelled cols (rows ! i)) = Inr (raw ! i)" if "i < length rows" for i
      using raw that len unfolding mapM_r_Inr_iff by (metis nth_map)
    have same: "row_get (raw ! i) tf = row_get (labelled cols (rows ! i)) tf" if "i < length rows" for i
      using time [of "rows ! i"] coerce_row_keeps_times [OF co [OF that], of tf] that by auto
    have "map (row_time tf) raw = map (\<lambda>r. time_of (row_get (labelled cols r) tf)) rows"
      by (rule nth_equalityI) (simp_all add: len same row_time_def)
    moreover have "sorted (map (\<lambda>r. time_of (row_get (labelled cols r) tf)) rows)"
      by (rule assms(1) [unfolded answers_in_order_def, rule_format, OF _ _ names col rows]) simp_all
    moreover have "\<exists>t. row_get r tf = PTime t \<and> start \<le> dt_utc t \<and> dt_utc t < stop" if "r \<in> set raw" for r
      using that time same len by (metis in_set_conv_nth)
    ultimately show ?thesis by simp
  qed
qed

subsection \<open>What the build keeps of a row\<close>

lemma usable_label_row: "usable_label ld row = Inr p \<Longrightarrow> fst p = row"
  by (auto simp: usable_label_def split: if_splits)

lemma usable_labels_rows: "mapM_r (usable_label ld) raw = Inr ps \<Longrightarrow> map fst ps = raw"
proof (induction raw arbitrary: ps)
  case (Cons r raw)
  then obtain p qs where "usable_label ld r = Inr p" "mapM_r (usable_label ld) raw = Inr qs" "ps = p # qs"
    by auto
  with Cons.IH [of qs] usable_label_row [of ld r p] show ?case by simp
qed simp

lemma labelled_items_simps [simp]:
  "labelled_items [] = []"
  "labelled_items (p # ps) = (case snd p of None \<Rightarrow> labelled_items ps | Some l \<Rightarrow> (fst p, l) # labelled_items ps)"
  by (simp_all add: labelled_items_def List.map_filter_simps case_prod_beta split: option.split)

lemma labelled_items_subseq: "subseq (map fst (labelled_items ps)) (map fst ps)"
  by (induction ps) (auto split: option.split)


text \<open>
  What a row of the data set has to do with the labelled row it comes from; and why a labelled
  row gave none. The extraction runs on the control plane of the build, with engines opened and
  events recorded by the extractions before it.
\<close>

definition row_made_from ::
  "dataset_env \<Rightarrow> feature_contract \<Rightarrow> tenant_context \<Rightarrow> string \<Rightarrow> string \<Rightarrow> 'z map_db_scheme \<Rightarrow> record_row \<times> int \<Rightarrow>
   dataset_row \<Rightarrow> bool" where
  "row_made_from env c ctx idf tf db item dr \<longleftrightarrow>
     (\<exists>t. row_get (fst item) tf = PTime t \<and> dr_time dr = dt_utc t) \<and> dr_label dr = snd item \<and>
     dr_reference dr = de_str env (row_get (fst item) idf) \<and>
     (\<exists>db0 b db1. quiet db db0 \<and> extract_batch (de_extract env) c ctx (dr_reference dr) (dr_time dr) db0 = (Inr b, db1) \<and>
        dr_features dr = fb_features b)"

definition row_vanished ::
  "dataset_env \<Rightarrow> feature_contract \<Rightarrow> tenant_context \<Rightarrow> string \<Rightarrow> string \<Rightarrow> 'z map_db_scheme \<Rightarrow> record_row \<Rightarrow> bool" where
  "row_vanished env c ctx idf tf db row \<longleftrightarrow> (\<exists>t db0 e db1. row_get row tf = PTime t \<and> quiet db db0 \<and>
     extract_batch (de_extract env) c ctx (de_str env (row_get row idf)) (dt_utc t) db0 = (Inl e, db1) \<and> row_not_found e)"

lemma made_from_quiet:
  "quiet db db1 \<Longrightarrow> row_made_from env c ctx idf tf db1 item dr \<Longrightarrow> row_made_from env c ctx idf tf db item dr"
  "quiet db db1 \<Longrightarrow> row_vanished env c ctx idf tf db1 row \<Longrightarrow> row_vanished env c ctx idf tf db row"
  unfolding row_made_from_def row_vanished_def using quiet_trans by blast+

lemma extract_rows_sound:
  assumes "extract_rows env c ctx idf tf items db = (Inr rows, db')"
  shows "\<exists>items'. subseq items' items \<and> list_all2 (row_made_from env c ctx idf tf db) items' rows \<and>
    (\<forall>item \<in> set items. item \<in> set items' \<or> row_vanished env c ctx idf tf db (fst item))"
  using assms
proof (induction items arbitrary: db rows)
  case (Cons item items)
  obtain row label where item: "item = (row, label)" by (cases item)
  from Cons.prems item obtain t where t: "row_get row tf = PTime t" by (auto split: pyval.splits)
  obtain res db1 where res: "extract_batch (de_extract env) c ctx (de_str env (row_get row idf)) (dt_utc t) db = (res, db1)"
    by (cases "extract_batch (de_extract env) c ctx (de_str env (row_get row idf)) (dt_utc t) db")
  note q = extract_batch_quiet [OF res]
  have shift: "list_all2 (row_made_from env c ctx idf tf db) items' rest \<and>
      (\<forall>item \<in> set items. item \<in> set items' \<or> row_vanished env c ctx idf tf db (fst item))"
    if "list_all2 (row_made_from env c ctx idf tf db1) items' rest"
      "\<forall>item \<in> set items. item \<in> set items' \<or> row_vanished env c ctx idf tf db1 (fst item)" for items' rest
    using that made_from_quiet [OF q] by (auto elim: list_all2_mono)
  show ?case
  proof (cases res)
    case (Inl e)
    with Cons.prems item t res have rest: "extract_rows env c ctx idf tf items db1 = (Inr rows, db')" and e: "row_not_found e"
      by (auto split: if_splits)
    have "row_vanished env c ctx idf tf db (fst item)"
      unfolding row_vanished_def by (intro exI [of _ t] exI [of _ db]) (use t res Inl e item in simp)
    moreover from Cons.IH [OF rest] shift obtain items' where i: "subseq items' items"
        "list_all2 (row_made_from env c ctx idf tf db) items' rows"
        "\<forall>item \<in> set items. item \<in> set items' \<or> row_vanished env c ctx idf tf db (fst item)"
      by metis
    ultimately show ?thesis by (intro exI [of _ items']) (auto intro: list_emb_Cons)
  next
    case (Inr b)
    let ?dr = "\<lparr>dr_reference = de_str env (row_get row idf), dr_time = dt_utc t, dr_features = fb_features b, dr_label = label\<rparr>"
    from Cons.prems item t res Inr obtain rest where rest: "extract_rows env c ctx idf tf items db1 = (Inr rest, db')"
        and rows: "rows = ?dr # rest"
      by (auto split: prod.splits sum.splits)
    from Cons.IH [OF rest] shift obtain items' where i: "subseq items' items"
        "list_all2 (row_made_from env c ctx idf tf db) items' rest"
        "\<forall>item \<in> set items. item \<in> set items' \<or> row_vanished env c ctx idf tf db (fst item)"
      by metis
    moreover have "row_made_from env c ctx idf tf db item ?dr"
      using res Inr t item unfolding row_made_from_def by (auto intro!: exI [of _ db])
    ultimately show ?thesis using rows by (intro exI [of _ "item # items'"]) simp
  qed
qed simp

lemma build_dataset_Inr:
  fixes db :: "'z map_db_scheme"
  assumes "build_dataset env d c ctx db = (Inr bd, db')"
  obtains target conn snap eng db1 idf raw issues ps rows where
    "dd_tenant d = Some (tc_tenant ctx)" and "\<not> dd_shared d"
    and "resolve_target_mapping (fc_target c) ctx db = Inr target"
    and "connection_and_snapshot_for target ctx db = Inr (conn, snap)"
    and "get_or_create_engine (row_id conn) ctx db = (Inr (conn, eng), db1)"
    and "identity_field_name (rs_document target) = Inr idf"
    and "fetch_rows_in_range (xe_query (de_extract env)) (xe_iter (de_extract env)) (de_onto env) (xe_conv (de_extract env))
        eng (rs_document target) (ld_time (dd_label d)) (dd_start d) (dd_stop d) (set (ld_sources (dd_label d)))
        (cn_schemas conn) (cn_tables conn) = Inr raw"
    and "raw_quality (de_str env) (xe_now (de_extract env)) idf (dd_label d) raw = Inr issues"
    and "mapM_r (usable_label (dd_label d)) raw = Inr ps"
    and "extract_rows env c ctx idf (ld_time (dd_label d)) (labelled_items ps) db1 = (Inr rows, db')"
    and "assemble_dataset env d c ctx target (row_id snap)
        (issues @ List.map_filter id [check_missing_labels (map snd ps)]) rows = Inr bd"
proof -
  from assms have v: "validate_definition_matches_tenant d ctx = Inr ()"
    by (auto simp: build_dataset_def Let_def)
  then have t: "dd_tenant d = Some (tc_tenant ctx)" "\<not> dd_shared d"
    by (auto simp: validate_definition_matches_tenant_def split: if_splits)
  note run = assms [unfolded build_dataset_def Let_def v attempt_simps]
  from run obtain target conn snap where tg: "resolve_target_mapping (fc_target c) ctx db = Inr target"
      and cs: "connection_and_snapshot_for target ctx db = Inr (conn, snap)"
    by auto
  note run = run [unfolded tg cs attempt_simps prod.case]
  obtain q db1 where ge: "get_or_create_engine (row_id conn) ctx db = (q, db1)" by (cases "get_or_create_engine (row_id conn) ctx db")
  with run obtain conn' eng where q: "q = Inr (conn', eng)" by (cases q) auto
  have ge': "get_or_create_engine (row_id conn) ctx db = (Inr (conn, eng), db1)"
    using engine_of_connection [OF cs] ge q by metis
  note run = run [unfolded ge' prod.case sum.case]
  from run obtain idf raw issues ps where f: "identity_field_name (rs_document target) = Inr idf"
      "fetch_rows_in_range (xe_query (de_extract env)) (xe_iter (de_extract env)) (de_onto env) (xe_conv (de_extract env))
        eng (rs_document target) (ld_time (dd_label d)) (dd_start d) (dd_stop d) (set (ld_sources (dd_label d)))
        (cn_schemas conn) (cn_tables conn) = Inr raw"
      "raw_quality (de_str env) (xe_now (de_extract env)) idf (dd_label d) raw = Inr issues"
      "mapM_r (usable_label (dd_label d)) raw = Inr ps"
    unfolding attempt_Inr_iff by blast
  note run = run [unfolded f attempt_simps]
  obtain y db2 where y: "extract_rows env c ctx idf (ld_time (dd_label d)) (labelled_items ps) db1 = (y, db2)"
    by (cases "extract_rows env c ctx idf (ld_time (dd_label d)) (labelled_items ps) db1")
  with run obtain rows where "y = Inr rows" by (cases y) auto
  with run y have "assemble_dataset env d c ctx target (row_id snap)
        (issues @ List.map_filter id [check_missing_labels (map snd ps)]) rows = Inr bd" and "db2 = db'"
    by auto
  with that [OF t tg cs ge' f] y \<open>y = Inr rows\<close> show ?thesis by blast
qed

lemma assemble_dataset_Inr:
  assumes "assemble_dataset env d c ctx target snap issues rows = Inr bd"
  shows "bd_splits bd = split_temporally (de_portion env) (dd_split d) rows \<and> dm_tenant (bd_manifest bd) = dd_tenant d \<and>
    dm_shared (bd_manifest bd) = dd_shared d \<and> qr_rows (dm_quality (bd_manifest bd)) = length rows"
  using assms by (auto simp: assemble_dataset_def Let_def split: option.splits)

definition all_rows :: "built_dataset \<Rightarrow> dataset_row list" where
  "all_rows bd = sl_train (bd_splits bd) @ sl_validation (bd_splits bd) @ sl_test (bd_splits bd)"

lemma all_rows_assembled:
  "assemble_dataset env d c ctx target snap issues rows = Inr bd \<Longrightarrow> all_rows bd = rows"
  using assemble_dataset_Inr split_temporally_concat unfolding all_rows_def by metis



lemma list_all2_times:
  "list_all2 (row_made_from env c ctx idf tf ty) items rows \<Longrightarrow>
    map dr_time rows = map (row_time tf) (map fst items)"
  by (induction rule: list_all2_induct) (auto simp: row_made_from_def row_time_def time_of_def)

lemma subseq_subset: "subseq xs ys \<Longrightarrow> set xs \<subseteq> set ys"
  by (auto simp: subseq_conv_nths dest: in_set_nthsD)

lemma sorted_subseq: "subseq xs ys \<Longrightarrow> sorted (map f ys) \<Longrightarrow> sorted (map f xs)"
  by (induction rule: list_emb.induct) (auto dest!: subseq_subset)

text \<open>
  Data sets are split along time. If the customer database orders its answers as asked and
  answers with rows that satisfy the conditions, then the rows of a built data set, training
  rows first, then validation, then test, are in the order of their prediction times, so that
  no training row is later than a validation or test row, and all of them lie in the requested
  range; and the manifest counts the rows of each part.
\<close>

theorem built_dataset_is_temporal:
  fixes db :: "'z map_db_scheme"
  assumes "build_dataset env d c ctx db = (Inr bd, db')"
    and "answers_in_order (xe_query (de_extract env))" and "answers_satisfy (xe_query (de_extract env))"
    and "iterates (xe_iter (de_extract env))"
  shows "sorted (map dr_time (sl_train (bd_splits bd) @ sl_validation (bd_splits bd) @ sl_test (bd_splits bd))) \<and>
    (\<forall>r \<in> set (sl_train (bd_splits bd) @ sl_validation (bd_splits bd) @ sl_test (bd_splits bd)).
       dd_start d \<le> dr_time r \<and> dr_time r < dd_stop d)"
proof (rule build_dataset_Inr [OF assms(1)])
  fix target conn snap eng idf raw issues ps rows and db1 :: "'z map_db_scheme"
  let ?tf = "ld_time (dd_label d)"
  assume f: "fetch_rows_in_range (xe_query (de_extract env)) (xe_iter (de_extract env)) (de_onto env) (xe_conv (de_extract env))
        eng (rs_document target) ?tf (dd_start d) (dd_stop d) (set (ld_sources (dd_label d)))
        (cn_schemas conn) (cn_tables conn) = Inr raw"
    and ps: "mapM_r (usable_label (dd_label d)) raw = Inr ps"
    and x: "extract_rows env c ctx idf ?tf (labelled_items ps) db1 = (Inr rows, db')"
    and a: "assemble_dataset env d c ctx target (row_id snap)
        (issues @ List.map_filter id [check_missing_labels (map snd ps)]) rows = Inr bd"
  have raw: "sorted (map (row_time ?tf) raw)"
      "\<And>r. r \<in> set raw \<Longrightarrow> \<exists>t. row_get r ?tf = PTime t \<and> dd_start d \<le> dt_utc t \<and> dt_utc t < dd_stop d"
    using fetch_rows_in_range_ordered [OF assms(2-4) _ f] by simp_all
  from extract_rows_sound [OF x] obtain items where items: "subseq items (labelled_items ps)"
      "list_all2 (row_made_from env c ctx idf ?tf db1) items rows"
    by blast
  have times: "map dr_time rows = map (row_time ?tf) (map fst items)"
    by (rule list_all2_times [OF items(2)])
  have sub: "subseq (map fst items) raw"
    using subseq_map [OF items(1), of fst] labelled_items_subseq [of ps] usable_labels_rows [OF ps]
      subseq_order.trans by metis
  have "sorted (map dr_time rows)" unfolding times by (rule sorted_subseq [OF sub raw(1)])
  moreover have "dd_start d \<le> dr_time r \<and> dr_time r < dd_stop d" if "r \<in> set rows" for r
  proof -
    have "dr_time r \<in> set (map (row_time ?tf) (map fst items))" using that times by (metis image_eqI set_map)
    then obtain x where "x \<in> set raw" "dr_time r = row_time ?tf x"
      using subseq_subset [OF sub] by auto
    with raw(2) show ?thesis by (fastforce simp: row_time_def time_of_def)
  qed
  ultimately show ?thesis using all_rows_assembled [OF a] by (simp add: all_rows_def)
qed





text \<open>
  A build is confined to its tenant. A definition that names another tenant, or claims to be
  shared research data, is refused before anything is read, and a data set that is built is the
  caller's own: its manifest names the caller's tenant and principal and the active version of
  the tenant's unsuspended mapping.
\<close>

theorem dataset_belongs_to_the_caller:
  "(dd_tenant d \<noteq> Some (tc_tenant ctx) \<or> dd_shared d \<longrightarrow>
      build_dataset env d c ctx db = (Inl DatasetTenantMismatchError, db)) \<and>
   (build_dataset env d c ctx db = (Inr bd, db') \<longrightarrow>
      dm_tenant (bd_manifest bd) = Some (tc_tenant ctx) \<and> \<not> dm_shared (bd_manifest bd) \<and>
      dl_built_by (dm_lineage (bd_manifest bd)) = tc_principal ctx \<and>
      (\<exists>m \<in> set (db_mappings db). row_tenant m = Some (tc_tenant ctx) \<and> sm_entity m = fc_target c \<and>
         sm_state m = M_ACTIVE \<and> \<not> sm_suspended m \<and>
         dl_versions (dm_lineage (bd_manifest bd)) = [(fc_target c, the (sm_active m))]))"
proof (intro conjI impI)
  assume "dd_tenant d \<noteq> Some (tc_tenant ctx) \<or> dd_shared d"
  then show "build_dataset env d c ctx db = (Inl DatasetTenantMismatchError, db)"
    by (auto simp: build_dataset_def validate_definition_matches_tenant_def Let_def)
next
  assume b: "build_dataset env d c ctx db = (Inr bd, db')"
  show "dm_tenant (bd_manifest bd) = Some (tc_tenant ctx)" "\<not> dm_shared (bd_manifest bd)"
    using build_dataset_Inr [OF b] assemble_dataset_Inr by metis+
  show "dl_built_by (dm_lineage (bd_manifest bd)) = tc_principal ctx"
    by (rule build_dataset_Inr [OF b]) (auto simp: assemble_dataset_def Let_def split: option.splits)
  show "\<exists>m \<in> set (db_mappings db). row_tenant m = Some (tc_tenant ctx) \<and> sm_entity m = fc_target c \<and>
         sm_state m = M_ACTIVE \<and> \<not> sm_suspended m \<and>
         dl_versions (dm_lineage (bd_manifest bd)) = [(fc_target c, the (sm_active m))]"
  proof (rule build_dataset_Inr [OF b])
    fix target snap issues ps rows
    assume "resolve_target_mapping (fc_target c) ctx db = Inr target"
      and a: "assemble_dataset env d c ctx target (row_id (snap :: snapshot))
        (issues @ List.map_filter id [check_missing_labels (map snd (ps :: (record_row \<times> int option) list))]) rows = Inr bd"
    then have "resolve_mapping (fc_target c) ctx db = Inr (Some target)"
      by (auto simp: resolve_target_mapping_def split: option.splits)
    from resolve_mapping_Some [OF this] obtain m vid where m: "m \<in> set (db_mappings db)" "row_tenant m = Some (tc_tenant ctx)"
        "sm_entity m = fc_target c" "sm_state m = M_ACTIVE" "sm_active m = Some vid" "\<not> sm_suspended m" "rs_mapping target = m"
      by auto
    with a have "dl_versions (dm_lineage (bd_manifest bd)) = [(fc_target c, the (sm_active m))]"
      by (auto simp: assemble_dataset_def Let_def)
    with m show ?thesis by blast
  qed
qed

subsection \<open>What the quality report says\<close>

lemma filter_r_Nil: "filter_r P xs = Inr ys \<Longrightarrow> ys = [] \<longleftrightarrow> (\<forall>x \<in> set xs. P x = Inr False)"
  by (induction xs arbitrary: ys) (auto split: if_splits)

lemma row_check_None: "row_check str idf ck sev P rows = Inr r \<Longrightarrow> r = None \<longleftrightarrow> (\<forall>x \<in> set rows. P x = Inr False)"
  using filter_r_Nil by (fastforce simp: row_check_def issue_of_def)

lemma row_check_Some: "row_check str idf ck sev P rows = Inr (Some i) \<Longrightarrow> qi_severity i = sev"
  by (auto simp: row_check_def issue_of_def split: if_splits)

lemma counter_keys_set [simp]: "set (counter_keys xs) = set xs"
proof -
  have "set (counter_keys xs) = fst ` set (dict_of (map (\<lambda>x. (x, ())) xs))" by (simp add: counter_keys_def)
  also have "\<dots> = set xs" unfolding keys_dict_of by force
  finally show ?thesis .
qed

lemma count_list_pos: "0 < count_list xs v \<longleftrightarrow> v \<in> set xs"
  using count_list_0_iff [of xs v] by (cases "count_list xs v") simp_all

lemma distinct_counts: "distinct xs \<longleftrightarrow> (\<forall>v \<in> set xs. \<not> count_list xs v > 1)"
proof (induction xs)
  case (Cons x xs)
  show ?case
  proof (cases "x \<in> set xs")
    case True
    then have "count_list (x # xs) x > 1" using count_list_pos [of xs x] by simp
    with True show ?thesis by auto
  next
    case False
    then have "count_list xs x = 0" by simp
    with False Cons.IH show ?thesis by auto
  qed
qed simp

lemma check_duplicate_ids_None:
  "check_duplicate_ids str idf ck rows = None \<longleftrightarrow>
    distinct (filter (\<lambda>v. v \<noteq> PNone) (map (\<lambda>r. row_get r idf) rows))"
  unfolding distinct_counts by (simp add: check_duplicate_ids_def issue_of_def Let_def filter_empty_conv)

definition in_order :: "string \<Rightarrow> string \<Rightarrow> record_row \<Rightarrow> bool" where
  "in_order earlier later r \<longleftrightarrow>
     (case (row_get r earlier, row_get r later) of (PTime e, PTime l) \<Rightarrow> dt_utc e \<le> dt_utc l | _ \<Rightarrow> True)"

lemma filter_r_defined: "filter_r P xs = Inr ys \<Longrightarrow> x \<in> set xs \<Longrightarrow> \<exists>b. P x = Inr b"
  by (induction xs arbitrary: ys) auto

lemma row_check_defined: "row_check str idf ck sev P rows = Inr r \<Longrightarrow> x \<in> set rows \<Longrightarrow> \<exists>b. P x = Inr b"
  using filter_r_defined unfolding row_check_def by fastforce

lemma invalid_date_ordering_None:
  assumes "check_invalid_date_ordering str idf a b ck rows = Inr r"
  shows "r = None \<longleftrightarrow> (\<forall>x \<in> set rows. in_order a b x)"
proof -
  note c = assms [unfolded check_invalid_date_ordering_def]
  have "later_before_earlier a b x = Inr False \<longleftrightarrow> in_order a b x" if "x \<in> set rows" for x
    using row_check_defined [OF c that]
    by (auto simp: later_before_earlier_def in_order_def dt_before_def dt_minus_def split: pyval.splits if_splits)
  then show ?thesis using row_check_None [OF c] by blast
qed

lemma negative_numeric_None:
  "check_negative_numeric str idf f ck rows = Inr r \<Longrightarrow> r = None \<longleftrightarrow> (\<forall>x \<in> set rows. \<not> negative_number (row_get x f))"
  using row_check_None by (fastforce simp: check_negative_numeric_def)

lemma future_timestamps_None:
  assumes "check_future_timestamps str idf f now ck rows = Inr r"
  shows "r = None \<longleftrightarrow> (\<forall>x \<in> set rows. \<forall>t. row_get x f = PTime t \<longrightarrow> dt_utc t \<le> now)"
proof -
  note c = assms [unfolded check_future_timestamps_def]
  have "in_future now (row_get x f) = Inr False \<longleftrightarrow> (\<forall>t. row_get x f = PTime t \<longrightarrow> dt_utc t \<le> now)" if "x \<in> set rows" for x
    using row_check_defined [OF c that]
    by (auto simp: in_future_def dt_before_def dt_minus_def dt_utc_def split: pyval.splits if_splits)
  then show ?thesis using row_check_None [OF c] by blast
qed

lemma report_passed_append:
  "report_passed \<lparr>qr_rows = n, qr_issues = xs @ ys\<rparr> \<longleftrightarrow>
    report_passed \<lparr>qr_rows = n, qr_issues = xs\<rparr> \<and> report_passed \<lparr>qr_rows = n, qr_issues = ys\<rparr>"
  by (auto simp: report_passed_def)

lemma report_passed_optional:
  "report_passed \<lparr>qr_rows = n, qr_issues = List.map_filter id (r # rs)\<rparr> \<longleftrightarrow>
    (case r of None \<Rightarrow> True | Some i \<Rightarrow> qi_severity i \<noteq> QS_ERROR) \<and>
    report_passed \<lparr>qr_rows = n, qr_issues = List.map_filter id rs\<rparr>"
  by (auto simp: report_passed_def List.map_filter_simps split: option.split)

lemma report_passed_Nil: "report_passed \<lparr>qr_rows = n, qr_issues = List.map_filter id []\<rparr>"
  by (simp add: report_passed_def List.map_filter_simps)

lemma check_severities:
  "check_duplicate_ids str idf ck rows = Some i \<Longrightarrow> qi_severity i = QS_ERROR"
  "check_invalid_date_ordering str idf a b ck rows = Inr (Some i) \<Longrightarrow> qi_severity i = QS_ERROR"
  "check_negative_numeric str idf f ck rows = Inr (Some i) \<Longrightarrow> qi_severity i = QS_ERROR"
  "check_unrecognised_values str idf f V ck rows = Inr (Some i) \<Longrightarrow> qi_severity i = QS_WARNING"
  "check_future_timestamps str idf f now ck rows = Inr (Some i) \<Longrightarrow> qi_severity i = QS_ERROR"
  "check_missing_labels ls = Some i \<Longrightarrow> qi_severity i = QS_INFO"
  "check_class_imbalance bs = Some i \<Longrightarrow> qi_severity i = QS_WARNING"
  by (auto simp: check_duplicate_ids_def issue_of_def check_invalid_date_ordering_def check_negative_numeric_def
      check_unrecognised_values_def check_future_timestamps_def check_missing_labels_def check_class_imbalance_def Let_def
      split: if_splits dest: row_check_Some)

lemma raw_quality_Inr:
  "raw_quality str now idf ld rows = Inr issues \<longleftrightarrow>
    (\<exists>o2 o3 o4 o5. unless_field (''actual_arrival_at'' \<in> set (ld_sources ld))
          (check_invalid_date_ordering str idf (ld_time ld) ''actual_arrival_at'' ''invalid_dates'' rows) = Inr o2 \<and>
      unless_field (''planned_distance_km'' \<in> set (ld_sources ld))
          (check_negative_numeric str idf ''planned_distance_km'' ''negative_distances'' rows) = Inr o3 \<and>
      unless_field (''status'' \<in> set (ld_sources ld))
          (check_unrecognised_values str idf ''status'' trip_status_values ''unrecognised_statuses'' rows) = Inr o4 \<and>
      check_future_timestamps str idf (ld_time ld) now ''future_timestamps'' rows = Inr o5 \<and>
      issues = List.map_filter id [check_duplicate_ids str idf ''duplicate_entity_ids'' rows, o2, o3, o4, o5])"
  by (auto simp: raw_quality_def)

text \<open>
  What a passed quality report means. The report of a build passes exactly when the rows
  enumerated have distinct identifiers, no departure in the future, and, of the fields the
  label definition lists, no arrival before the departure and no negative distance. Unknown
  statuses, missing labels and a class imbalance never fail it.
\<close>

theorem quality_verdict_exact:
  assumes "raw_quality str now idf ld rows = Inr issues"
  shows "report_passed \<lparr>qr_rows = n, qr_issues = (issues @ List.map_filter id [check_missing_labels ls]) @
      List.map_filter id [check_class_imbalance bs]\<rparr> \<longleftrightarrow>
    distinct (filter (\<lambda>v. v \<noteq> PNone) (map (\<lambda>r. row_get r idf) rows)) \<and>
    (\<forall>r \<in> set rows. \<forall>t. row_get r (ld_time ld) = PTime t \<longrightarrow> dt_utc t \<le> now) \<and>
    (''actual_arrival_at'' \<in> set (ld_sources ld) \<longrightarrow> (\<forall>r \<in> set rows. in_order (ld_time ld) ''actual_arrival_at'' r)) \<and>
    (''planned_distance_km'' \<in> set (ld_sources ld) \<longrightarrow>
       (\<forall>r \<in> set rows. \<not> negative_number (row_get r ''planned_distance_km'')))"
proof -
  from assms obtain o2 o3 o4 o5 where
      o2: "unless_field (''actual_arrival_at'' \<in> set (ld_sources ld))
          (check_invalid_date_ordering str idf (ld_time ld) ''actual_arrival_at'' ''invalid_dates'' rows) = Inr o2"
      and o3: "unless_field (''planned_distance_km'' \<in> set (ld_sources ld))
          (check_negative_numeric str idf ''planned_distance_km'' ''negative_distances'' rows) = Inr o3"
      and o4: "unless_field (''status'' \<in> set (ld_sources ld))
          (check_unrecognised_values str idf ''status'' trip_status_values ''unrecognised_statuses'' rows) = Inr o4"
      and o5: "check_future_timestamps str idf (ld_time ld) now ''future_timestamps'' rows = Inr o5"
      and issues: "issues = List.map_filter id [check_duplicate_ids str idf ''duplicate_entity_ids'' rows, o2, o3, o4, o5]"
    unfolding raw_quality_Inr by blast
  let ?bad = "\<lambda>r. case r of None \<Rightarrow> True | Some i \<Rightarrow> qi_severity i \<noteq> QS_ERROR"
  have 1: "?bad (check_duplicate_ids str idf ''duplicate_entity_ids'' rows) \<longleftrightarrow>
      distinct (filter (\<lambda>v. v \<noteq> PNone) (map (\<lambda>r. row_get r idf) rows))"
    unfolding check_duplicate_ids_None [where str = str and ck = "''duplicate_entity_ids''", symmetric]
    using check_severities(1) by (auto split: option.split)
  have 2: "?bad o2 \<longleftrightarrow> (''actual_arrival_at'' \<in> set (ld_sources ld) \<longrightarrow>
      (\<forall>r \<in> set rows. in_order (ld_time ld) ''actual_arrival_at'' r))"
    using o2 invalid_date_ordering_None check_severities(2)
    by (cases o2) (fastforce simp: unless_field_def split: if_splits)+
  have 3: "?bad o3 \<longleftrightarrow> (''planned_distance_km'' \<in> set (ld_sources ld) \<longrightarrow>
      (\<forall>r \<in> set rows. \<not> negative_number (row_get r ''planned_distance_km'')))"
    using o3 negative_numeric_None check_severities(3)
    by (cases o3) (fastforce simp: unless_field_def split: if_splits)+
  have 4: "?bad o4" using o4 check_severities(4)
    by (cases o4) (auto simp: unless_field_def split: if_splits)
  have 5: "?bad o5 \<longleftrightarrow> (\<forall>r \<in> set rows. \<forall>t. row_get r (ld_time ld) = PTime t \<longrightarrow> dt_utc t \<le> now)"
    using future_timestamps_None [OF o5] check_severities(5) o5 by (cases o5) auto
  have 6: "?bad (check_missing_labels ls)" "?bad (check_class_imbalance bs)"
    using check_severities(6,7) by (auto split: option.split)
  show ?thesis
    unfolding report_passed_append issues report_passed_optional 1 2 3 5
    using 4 6 report_passed_Nil by blast
qed

subsection \<open>A small build\<close>

text \<open>A database of one table whose answers obey the two laws; it has fewer rows than any limit.\<close>

definition matching :: "record_row list \<Rightarrow> stmt \<Rightarrow> record_row list" where
  "matching rows s =
     (let found = filter (\<lambda>r. list_all (cond_holds r) (qs_where s)) rows
      in (case qs_order s of None \<Rightarrow> found
          | Some (c, down) \<Rightarrow> (if down then rev else id) (sort_key (row_time c) found)))"

definition table_query :: "record_row list \<Rightarrow> sql_query" where
  "table_query rows e s =
     (case qs_project s of
        Columns cols \<Rightarrow> Inr (map (\<lambda>r. map (\<lambda>nc. row_get r (snd nc)) cols) (matching rows s))
      | _ \<Rightarrow> Inl (ExternalError ''not a row query''))"

lemma labelled_row:
  assumes "distinct (map fst cols)" and "(n, col) \<in> set cols"
  shows "row_get (labelled cols (map (\<lambda>nc. row_get r (snd nc)) cols)) n = row_get r col"
proof -
  have "labelled cols (map (\<lambda>nc. row_get r (snd nc)) cols) = map (\<lambda>nc. (fst nc, row_get r (snd nc))) cols"
    by (simp add: labelled_def zip_map_map zip_same_conv_map)
  moreover have "map_of (map (\<lambda>nc. (fst nc, row_get r (snd nc))) cols) n = Some (row_get r col)"
    using assms by (intro map_of_is_SomeI) (auto simp: comp_def rev_image_eqI)
  ultimately show ?thesis by (simp add: row_get_def dict_get_def)
qed

lemma table_query_in_order: "answers_in_order (table_query rows)"
proof -
  have ord: "sorted (map (row_time c) (matching rows s))" if "qs_order s = Some (c, False)" for s c
    using that by (simp add: matching_def)
  have "map (\<lambda>r. time_of (row_get (labelled cols (map (\<lambda>nc. row_get r (snd nc)) cols)) n)) xs = map (row_time col) xs"
    if "distinct (map fst cols)" "(n, col) \<in> set cols" for cols n col xs
    using labelled_row [OF that] by (simp add: row_time_def)
  note eq = this
  show ?thesis unfolding answers_in_order_def
  proof (intro allI impI)
    fix e s cols col n found
    assume s: "qs_project s = Columns cols" "qs_order s = Some (col, False)" "distinct (map fst cols)" "(n, col) \<in> set cols"
      and "table_query rows e s = Inr found"
    then have "found = map (\<lambda>r. map (\<lambda>nc. row_get r (snd nc)) cols) (matching rows s)" by (simp add: table_query_def)
    then show "sorted (map (\<lambda>r. time_of (row_get (labelled cols r) n)) found)"
      using eq [OF s(3,4)] ord [OF s(2)] by (simp only: map_map comp_def)
  qed
qed

lemma table_query_satisfies: "answers_satisfy (table_query rows)"
proof -
  have all: "list_all (cond_holds r) (qs_where s)" if "r \<in> set (matching rows s)" for r s
    using that by (auto simp: matching_def Let_def split: option.splits if_splits)
  have "cond_holds r (col, cmp, p)" if "r \<in> set (matching rows s)" "(col, cmp, p) \<in> set (qs_where s)" for r s col cmp p
    using all [OF that(1)] that(2) unfolding list_all_iff by blast
  moreover have "cond_holds [(col, row_get r col)] (col, cmp, p)" if "cond_holds r (col, cmp, p)" for r col cmp p
    using that by (simp add: row_get_def dict_get_def split: option.splits)
  ultimately show ?thesis
    by (auto simp del: cond_holds.simps simp: answers_satisfy_def table_query_def labelled_row)
qed

lemma sorted_list_iterates: "iterates sorted_list_of_set"
  by (simp add: iterates_def)

definition trip_row :: "string \<Rightarrow> instant \<Rightarrow> record_row" where
  "trip_row i t = [(''id'', PStr i), (''at'', utc_value t), (''state'', PStr ''cancelled'')]"

definition trips_query :: sql_query where
  "trips_query = table_query [trip_row ''b'' 50, trip_row ''a'' 20, trip_row ''c'' 200]"

definition dated_document :: mapping_document where
  "dated_document = sample_document\<lparr>md_fields := [(''at'', \<lparr>fm_sources = [column_source ''at''], fm_default = None\<rparr>),
     (''status'', \<lparr>fm_sources = [column_source ''state''], fm_default = None\<rparr>)]\<rparr>"

definition dataset_db :: map_db where
  "dataset_db = extraction_db\<lparr>db_versions := map (\<lambda>v. v\<lparr>mv_document := dated_document\<rparr>) (db_versions extraction_db)\<rparr>"

definition sample_definition :: dataset_definition where
  "sample_definition = \<lparr>dd_key = ''k'', dd_task = ''t'', dd_tenant = Some 1, dd_shared = False, dd_start = 0, dd_stop = 100,
     dd_label = \<lparr>ld_function = ''delivery_delay_label'', ld_sources = [''status''], ld_time = ''at'', ld_kwargs = []\<rparr>,
     dd_split = \<lparr>tp_train = 7 / 10, tp_validation = 15 / 100\<rparr>\<rparr>"

definition text_of :: "pyval \<Rightarrow> string" where
  "text_of v = (case v of PStr s \<Rightarrow> s | _ \<Rightarrow> [])"

definition sample_dataset_env :: dataset_env where
  "sample_dataset_env = \<lparr>de_extract = sample_extract_env\<lparr>xe_query :=
       trips_query, xe_iter := sorted_list_of_set, xe_now := 90\<rparr>,
     de_onto = vehicle_ontology, de_str = text_of, de_portion = (\<lambda>n _. n div 2),
     de_sqrt = id, de_sha = id, de_row_json = (\<lambda>_. []), de_show_int = (\<lambda>_. []), de_dataset_id = 7\<rparr>"


lemma build_dataset_run:
  assumes "validate_definition_matches_tenant d ctx = Inr ()"
    and "resolve_target_mapping (fc_target c) ctx db = Inr target"
    and "connection_and_snapshot_for target ctx db = Inr (conn, snap)"
    and "get_or_create_engine (row_id conn) ctx db = (Inr (conn, eng), db1)"
    and "identity_field_name (rs_document target) = Inr idf"
    and "fetch_rows_in_range (xe_query (de_extract env)) (xe_iter (de_extract env)) (de_onto env) (xe_conv (de_extract env))
        eng (rs_document target) (ld_time (dd_label d)) (dd_start d) (dd_stop d) (set (ld_sources (dd_label d)))
        (cn_schemas conn) (cn_tables conn) = Inr raw"
    and "raw_quality (de_str env) (xe_now (de_extract env)) idf (dd_label d) raw = Inr issues"
    and "mapM_r (usable_label (dd_label d)) raw = Inr ps"
    and "extract_rows env c ctx idf (ld_time (dd_label d)) (labelled_items ps) db1 = (Inr rows, db')"
  shows "build_dataset env d c ctx db = (assemble_dataset env d c ctx target (row_id snap)
        (issues @ List.map_filter id [check_missing_labels (map snd ps)]) rows, db')"
  by (simp only: build_dataset_def Let_def assms attempt_simps prod.case sum.case)

definition raw_trips :: "record_row list" where
  "raw_trips = map (\<lambda>(i, t). [(''vehicle_id'', PStr i), (''at'', utc_value t), (''status'', PStr ''cancelled'')])
     [(''a'', 20), (''b'', 50)]"

definition trip_dataset_row :: "string \<Rightarrow> instant \<Rightarrow> dataset_row" where
  "trip_dataset_row i t = \<lparr>dr_reference = i, dr_time = t,
     dr_features = [(''known'', PBool True), (''number_of_stops'', PInt 0)], dr_label = 1\<rparr>"

definition sample_target :: resolved where
  "sample_target = \<lparr>rs_mapping = hd (db_mappings dataset_db), rs_document = dated_document\<rparr>"

definition sample_connection :: connection where
  "sample_connection = hd (db_connections dataset_db)"

definition sample_opened :: "(exn + connection \<times> engine) \<times> map_db" where
  "sample_opened = get_or_create_engine (row_id sample_connection) sample_ctx dataset_db"

definition trip_columns :: "(string, string) dict" where
  "trip_columns = [(''vehicle_id'', ''id''), (''at'', ''at''), (''status'', ''state'')]"

lemma sample_columns:
  "select_columns dated_document [''at'', ''status''] [(''vehicle_id'', ''id'')] = Inr trip_columns"
  "datetime_field_names vehicle_ontology dated_document = Inr {}"
  "resolve_column dated_document ''at'' = Inr (Some ''at'')"
  "identity_column dated_document = Inr (''vehicle_id'', ''id'')"
  "check_allowlisted dated_document [''public''] [''vehicles''] = Inr ()"
  "sorted_list_of_set ({''status''} \<union> {''at''}) = [''at'', ''status'']"
  by code_simp+

lemma sample_answer:
  "trips_query e \<lparr>qs_table = source_of dated_document, qs_project = Columns trip_columns,
     qs_where = [(''at'', CmpGe, utc_value 0), (''at'', CmpLt, utc_value 100)], qs_order = Some (''at'', False), qs_limit = L\<rparr> =
   Inr [[PStr ''a'', utc_value 20, PStr ''cancelled''], [PStr ''b'', utc_value 50, PStr ''cancelled'']]"
  by code_simp

lemma sample_coerced:
  "mapM_r (\<lambda>r. coerce_row_datetimes no_conv {} (labelled trip_columns r))
     [[PStr ''a'', utc_value 20, PStr ''cancelled''], [PStr ''b'', utc_value 50, PStr ''cancelled'']] = Inr raw_trips"
  by code_simp

lemma sample_fetch:
  "fetch_rows_in_range trips_query sorted_list_of_set vehicle_ontology no_conv e dated_document ''at'' 0 100 {''status''}
     [''public''] [''vehicles''] = Inr raw_trips"
  by (simp only: fetch_rows_in_range_def sample_columns sample_answer sample_coerced rbind_simps prod.case option.case)

lemma sample_env_parts:
  "xe_query (de_extract sample_dataset_env) = trips_query" "xe_iter (de_extract sample_dataset_env) = sorted_list_of_set"
  "xe_conv (de_extract sample_dataset_env) = no_conv" "xe_now (de_extract sample_dataset_env) = 90"
  "de_onto sample_dataset_env = vehicle_ontology" "de_str sample_dataset_env = text_of"
  by (simp_all add: sample_dataset_env_def sample_extract_env_def trips_query_def)

lemma sample_definition_parts:
  "ld_sources (dd_label sample_definition) = [''status'']" "ld_time (dd_label sample_definition) = ''at''"
  "dd_start sample_definition = 0" "dd_stop sample_definition = 100"
  by (simp_all add: sample_definition_def)

lemma sample_quality: "raw_quality text_of 90 ''vehicle_id'' (dd_label sample_definition) raw_trips = Inr []"
  by code_simp

lemma sample_build:
  obtains bd db' where "build_dataset sample_dataset_env sample_definition vehicle_contract sample_ctx dataset_db = (Inr bd, db')"
    and "sl_train (bd_splits bd) = [trip_dataset_row ''a'' 20]" and "sl_validation (bd_splits bd) = [trip_dataset_row ''b'' 50]"
    and "dm_tenant (bd_manifest bd) = Some 1"
proof -
  let ?env = sample_dataset_env and ?d = sample_definition and ?c = vehicle_contract
  let ?rows = "[trip_dataset_row ''a'' 20, trip_dataset_row ''b'' 50]"
  have v: "validate_definition_matches_tenant ?d sample_ctx = Inr ()" by code_simp
  have t: "resolve_target_mapping (fc_target ?c) sample_ctx dataset_db = Inr sample_target" by code_simp
  have "(case connection_and_snapshot_for sample_target sample_ctx dataset_db of Inl _ \<Rightarrow> False | Inr (c, s) \<Rightarrow> c = sample_connection)"
    by code_simp
  then obtain snap where cs: "connection_and_snapshot_for sample_target sample_ctx dataset_db = Inr (sample_connection, snap)"
    by (auto split: sum.splits)
  have "(case sample_opened of (Inl _, _) \<Rightarrow> False | (Inr (c, e), _) \<Rightarrow> c = sample_connection)" by code_simp
  then obtain eng db1 where ge: "get_or_create_engine (row_id sample_connection) sample_ctx dataset_db = (Inr (sample_connection, eng), db1)"
    by (cases sample_opened) (auto simp: sample_opened_def split: sum.splits)
  have id: "identity_field_name (rs_document sample_target) = Inr ''vehicle_id''" by code_simp
  have allow: "cn_schemas sample_connection = [''public'']" "cn_tables sample_connection = [''vehicles'']"
      "rs_document sample_target = dated_document"
    by (code_simp, code_simp, simp add: sample_target_def)
  have labels: "mapM_r (usable_label (dd_label ?d)) raw_trips = Inr (map (\<lambda>r. (r, Some 1)) raw_trips)" by code_simp
  have "(case extract_rows ?env ?c sample_ctx ''vehicle_id'' ''at'' (labelled_items (map (\<lambda>r. (r, Some 1)) raw_trips))
      (snd sample_opened) of (Inl _, _) \<Rightarrow> False | (Inr rows, _) \<Rightarrow> rows = ?rows)"
    by code_simp
  then obtain db' where x: "extract_rows ?env ?c sample_ctx ''vehicle_id'' (ld_time (dd_label ?d))
      (labelled_items (map (\<lambda>r. (r, Some 1)) raw_trips)) db1 = (Inr ?rows, db')"
    by (auto simp: sample_opened_def ge sample_definition_parts split: prod.splits sum.splits)
  have "(case assemble_dataset ?env ?d ?c sample_ctx sample_target (row_id snap) [] ?rows of Inl _ \<Rightarrow> False | Inr bd \<Rightarrow>
      sl_train (bd_splits bd) = [trip_dataset_row ''a'' 20] \<and> sl_validation (bd_splits bd) = [trip_dataset_row ''b'' 50] \<and>
      dm_tenant (bd_manifest bd) = Some 1)"
    by code_simp
  then obtain bd where bd: "assemble_dataset ?env ?d ?c sample_ctx sample_target (row_id snap) [] ?rows = Inr bd"
      "sl_train (bd_splits bd) = [trip_dataset_row ''a'' 20]" "sl_validation (bd_splits bd) = [trip_dataset_row ''b'' 50]"
      "dm_tenant (bd_manifest bd) = Some 1"
    by (cases "assemble_dataset ?env ?d ?c sample_ctx sample_target (row_id snap) [] ?rows")
      (simp_all only: sum.case)
  have none: "[] @ List.map_filter id [check_missing_labels (map snd (map (\<lambda>r. (r, Some 1)) raw_trips))] = []"
    by code_simp
  have "build_dataset ?env ?d ?c sample_ctx dataset_db = (Inr bd, db')"
    using build_dataset_run [OF v t cs ge id, of ?env raw_trips "[]" "map (\<lambda>r. (r, Some 1)) raw_trips" ?rows db']
      x labels sample_fetch sample_quality
    unfolding none bd(1) by (simp add: sample_env_parts sample_definition_parts allow)
  then show ?thesis by (rule that [OF _ bd(2-4)])
qed

theorem built_dataset_is_temporal_witness:
  "\<exists>bd :: built_dataset. sl_train (bd_splits bd) = [trip_dataset_row ''a'' 20] \<and>
    sl_validation (bd_splits bd) = [trip_dataset_row ''b'' 50] \<and>
    sorted (map dr_time (sl_train (bd_splits bd) @ sl_validation (bd_splits bd) @ sl_test (bd_splits bd)))"
proof -
  obtain bd db' where b: "build_dataset sample_dataset_env sample_definition vehicle_contract sample_ctx dataset_db = (Inr bd, db')"
    and rows: "sl_train (bd_splits bd) = [trip_dataset_row ''a'' 20]" "sl_validation (bd_splits bd) = [trip_dataset_row ''b'' 50]"
    by (rule sample_build)
  have "answers_in_order (xe_query (de_extract sample_dataset_env))" "answers_satisfy (xe_query (de_extract sample_dataset_env))"
      "iterates (xe_iter (de_extract sample_dataset_env))"
    unfolding sample_env_parts trips_query_def by (rule table_query_in_order table_query_satisfies sorted_list_iterates)+
  from built_dataset_is_temporal [OF b this] rows show ?thesis by blast
qed


theorem dataset_belongs_to_the_caller_witness:
  "(\<exists>bd :: built_dataset. sl_train (bd_splits bd) = [trip_dataset_row ''a'' 20] \<and> dm_tenant (bd_manifest bd) = Some 1) \<and>
   build_dataset sample_dataset_env (sample_definition\<lparr>dd_tenant := Some 2\<rparr>) vehicle_contract sample_ctx dataset_db =
     (Inl DatasetTenantMismatchError, dataset_db)"
proof
  obtain bd db' where b: "build_dataset sample_dataset_env sample_definition vehicle_contract sample_ctx dataset_db = (Inr bd, db')"
    and rows: "sl_train (bd_splits bd) = [trip_dataset_row ''a'' 20]"
    by (rule sample_build)
  then show "\<exists>bd :: built_dataset. sl_train (bd_splits bd) = [trip_dataset_row ''a'' 20] \<and> dm_tenant (bd_manifest bd) = Some 1"
    using dataset_belongs_to_the_caller [of sample_definition sample_ctx sample_dataset_env vehicle_contract dataset_db bd db']
    by (auto simp: sample_ctx_def)
  have "dd_tenant (sample_definition\<lparr>dd_tenant := Some 2\<rparr>) \<noteq> Some (tc_tenant sample_ctx)" by code_simp
  then show "build_dataset sample_dataset_env (sample_definition\<lparr>dd_tenant := Some 2\<rparr>) vehicle_contract sample_ctx dataset_db =
     (Inl DatasetTenantMismatchError, dataset_db)"
    using dataset_belongs_to_the_caller by blast
qed

theorem quality_verdict_exact_witness:
  "report_passed \<lparr>qr_rows = 2, qr_issues = ([] @ List.map_filter id [check_missing_labels []]) @
     List.map_filter id [check_class_imbalance []]\<rparr> \<and>
   distinct (filter (\<lambda>v. v \<noteq> PNone) (map (\<lambda>r. row_get r ''vehicle_id'') raw_trips))"
proof
  show p: "report_passed \<lparr>qr_rows = 2, qr_issues = ([] @ List.map_filter id [check_missing_labels []]) @
     List.map_filter id [check_class_imbalance []]\<rparr>"
    by code_simp
  show "distinct (filter (\<lambda>v. v \<noteq> PNone) (map (\<lambda>r. row_get r ''vehicle_id'') raw_trips))"
    using quality_verdict_exact [OF sample_quality, of 2 "[]" "[]"] p by blast
qed

end
