(* ===== verification/RelationalContext.thy ===== *)
theory RelationalContext
  imports Datasets
begin

section \<open>Relational context of a prediction\<close>

text \<open>
  \<open>hermes_rpt/models/transformer/context.py\<close>, \<open>schema.py\<close> and the layout of \<open>encoding.py\<close>. An
  example is the target trip with the records related to it, raw values under ontology names.
  The encoder places the records in a fixed number of positions; a position is modelled as the
  values it writes into the tensors, none where a tensor keeps its zero and its mask is off.
  The digest of a string, as a number, is a parameter.
\<close>

subsection \<open>Fixed schemas and vocabularies\<close>

definition numeric_slots :: nat where "numeric_slots = 2"
definition categorical_slots :: nat where "categorical_slots = 4"
definition datetime_slots :: nat where "datetime_slots = 4"

record entity_field_schema =
  ef_numeric :: "string list"
  ef_categorical :: "string list"
  ef_datetime :: "string list"

definition make_entity_schema :: "entity_field_schema \<Rightarrow> exn + entity_field_schema" where
  "make_entity_schema s =
     (if length (ef_numeric s) > numeric_slots then Inl (ValueError ''too many numeric fields for NUMERIC_SLOTS'')
      else if length (ef_categorical s) > categorical_slots then Inl (ValueError ''too many categorical fields for CATEGORICAL_SLOTS'')
      else if length (ef_datetime s) > datetime_slots then Inl (ValueError ''too many datetime fields for DATETIME_SLOTS'')
      else Inr s)"

definition entity_field_schemas :: "(string, entity_field_schema) dict" where
  "entity_field_schemas =
     [(''Trip'', \<lparr>ef_numeric = [''planned_distance_km''], ef_categorical = [''status'', ''driver_id'', ''route_id'', ''vehicle_id''],
         ef_datetime = [''planned_departure_at'', ''planned_arrival_at'', ''actual_departure_at'', ''actual_arrival_at'']\<rparr>),
      (''Vehicle'', \<lparr>ef_numeric = [''manufacture_year''], ef_categorical = [''model_name'', ''registration_number''],
         ef_datetime = [''acquired_at'']\<rparr>),
      (''MaintenanceEvent'', \<lparr>ef_numeric = [], ef_categorical = [''event_type'', ''vehicle_id''],
         ef_datetime = [''started_at'', ''completed_at'']\<rparr>),
      (''OdometerReading'', \<lparr>ef_numeric = [''reading_km''], ef_categorical = [''source'', ''vehicle_id''],
         ef_datetime = [''recorded_at'']\<rparr>),
      (''FuelEvent'', \<lparr>ef_numeric = [''quantity_litres''], ef_categorical = [''vehicle_id'', ''trip_id''],
         ef_datetime = [''occurred_at'']\<rparr>),
      (''RouteStop'', \<lparr>ef_numeric = [''sequence_number''], ef_categorical = [''route_id'', ''location_label''],
         ef_datetime = []\<rparr>),
      (''Delivery'', \<lparr>ef_numeric = [], ef_categorical = [''status'', ''trip_id''],
         ef_datetime = [''planned_at'', ''delivered_at'']\<rparr>)]"

definition entity_type_vocab :: "string list" where
  "entity_type_vocab = ''__pad__'' # map fst entity_field_schemas"

definition relationship_vocab :: "string list" where
  "relationship_vocab = [''__pad__'', ''__target__'', ''uses_vehicle'', ''assigned_driver_history'',
     ''follows_route_history'', ''has_deliveries'', ''has_maintenance_events'', ''has_fuel_events'']"

subsection \<open>Building an example\<close>

record relational_record =
  rr_entity :: string
  rr_relationship :: string
  rr_fields :: record_row

record relational_example =
  rx_reference :: string
  rx_time :: instant
  rx_label :: "int option"
  rx_target :: relational_record
  rx_related :: "relational_record list"
  rx_version :: "uuid option"

record relation_spec =
  rp_relationship :: string
  rp_entity :: string
  rp_join :: string
  rp_from :: string
  rp_timestamp :: "string option"

definition relation_specs :: "relation_spec list" where
  "relation_specs =
     [\<lparr>rp_relationship = ''uses_vehicle'', rp_entity = ''Vehicle'', rp_join = ''vehicle_id'', rp_from = ''vehicle_id'',
       rp_timestamp = None\<rparr>,
      \<lparr>rp_relationship = ''assigned_driver_history'', rp_entity = ''Trip'', rp_join = ''driver_id'', rp_from = ''driver_id'',
       rp_timestamp = Some ''planned_departure_at''\<rparr>,
      \<lparr>rp_relationship = ''follows_route_history'', rp_entity = ''Trip'', rp_join = ''route_id'', rp_from = ''route_id'',
       rp_timestamp = Some ''planned_departure_at''\<rparr>,
      \<lparr>rp_relationship = ''has_deliveries'', rp_entity = ''Delivery'', rp_join = ''trip_id'', rp_from = ''trip_id'',
       rp_timestamp = None\<rparr>,
      \<lparr>rp_relationship = ''has_maintenance_events'', rp_entity = ''MaintenanceEvent'', rp_join = ''vehicle_id'',
       rp_from = ''vehicle_id'', rp_timestamp = Some ''started_at''\<rparr>,
      \<lparr>rp_relationship = ''has_fuel_events'', rp_entity = ''FuelEvent'', rp_join = ''vehicle_id'', rp_from = ''vehicle_id'',
       rp_timestamp = Some ''occurred_at''\<rparr>]"

definition engine_for ::
  "resolved \<Rightarrow> tenant_context \<Rightarrow> 'z map_db_scheme \<Rightarrow> (exn + engine \<times> connection) \<times> 'z map_db_scheme" where
  "engine_for r ctx db =
     attempt (connection_and_snapshot_for r ctx db) db (\<lambda>(conn, _).
     (case get_or_create_engine (row_id conn) ctx db of
        (Inl e, db1) \<Rightarrow> (Inl e, db1) | (Inr (_, eng), db1) \<Rightarrow> (Inr (eng, conn), db1)))"

text \<open>The parameters of the extraction service, with the ontology loader.\<close>

record context_env = extract_env +
  ce_onto :: ontology_loader

definition relation_records ::
  "context_env \<Rightarrow> record_row \<Rightarrow> tenant_context \<Rightarrow> instant \<Rightarrow> nat \<Rightarrow> relation_spec \<Rightarrow> 'z map_db_scheme \<Rightarrow>
   (exn + relational_record list) \<times> 'z map_db_scheme" where
  "relation_records env target ctx pt k spec db =
     (let join_value = row_get target (rp_from spec)
      in if join_value = PNone then (Inr [], db)
         else attempt (resolve_mapping (rp_entity spec) ctx db) db (\<lambda>found.
           (case found of
              None \<Rightarrow> (Inr [], db)
            | Some r \<Rightarrow>
                (case engine_for r ctx db of
                   (Inl e, db1) \<Rightarrow> (Inl e, db1)
                 | (Inr (eng, conn), db1) \<Rightarrow>
                     (rbind (fetch_related_records (xe_query env) (ce_onto env) (xe_conv env) eng (rs_document r) (rp_join spec)
                        join_value (rp_timestamp spec) (Some pt) k (cn_schemas conn) (cn_tables conn)) (\<lambda>rows.
                        Inr (map (\<lambda>row. \<lparr>rr_entity = rp_entity spec, rr_relationship = rp_relationship spec, rr_fields = row\<rparr>) rows)),
                      db1)))))"

fun all_relation_records ::
  "context_env \<Rightarrow> record_row \<Rightarrow> tenant_context \<Rightarrow> instant \<Rightarrow> nat \<Rightarrow> relation_spec list \<Rightarrow> 'z map_db_scheme \<Rightarrow>
   (exn + relational_record list) \<times> 'z map_db_scheme" where
  "all_relation_records env target ctx pt k [] db = (Inr [], db)"
| "all_relation_records env target ctx pt k (spec # specs) db =
     (case relation_records env target ctx pt k spec db of
        (Inl e, db1) \<Rightarrow> (Inl e, db1)
      | (Inr rs, db1) \<Rightarrow>
          (case all_relation_records env target ctx pt k specs db1 of
             (Inl e, db2) \<Rightarrow> (Inl e, db2) | (Inr rest, db2) \<Rightarrow> (Inr (rs @ rest), db2)))"

definition schema_fields :: "string \<Rightarrow> string set" where
  "schema_fields entity =
     (case dict_get entity_field_schemas entity of
        None \<Rightarrow> {} | Some s \<Rightarrow> set (ef_numeric s) \<union> set (ef_categorical s) \<union> set (ef_datetime s))"

definition build_example ::
  "context_env \<Rightarrow> string \<Rightarrow> instant \<Rightarrow> int option \<Rightarrow> tenant_context \<Rightarrow> nat \<Rightarrow> 'z map_db_scheme \<Rightarrow>
   (exn + relational_example) \<times> 'z map_db_scheme" where
  "build_example env reference pt label ctx k db =
     attempt (resolve_target_mapping ''Trip'' ctx db) db (\<lambda>target.
     (case engine_for target ctx db of
        (Inl e, db1) \<Rightarrow> (Inl e, db1)
      | (Inr (eng, conn), db1) \<Rightarrow>
          attempt (fetch_target_row (xe_query env) (xe_iter env) eng (rs_document target) reference (schema_fields ''Trip'')
              (cn_schemas conn) (cn_tables conn)) db1 (\<lambda>found.
          (case found of
             None \<Rightarrow> (Inl (ExternalError ''TargetRecordNotFoundError''), db1)
           | Some row \<Rightarrow>
               (case all_relation_records env row ctx pt k relation_specs db1 of
                  (Inl e, db2) \<Rightarrow> (Inl e, db2)
                | (Inr related, db2) \<Rightarrow>
                    (Inr \<lparr>rx_reference = reference, rx_time = pt, rx_label = label,
                       rx_target = \<lparr>rr_entity = ''Trip'', rr_relationship = ''__target__'', rr_fields = row\<rparr>,
                       rx_related = related, rx_version = sm_active (rs_mapping target)\<rparr>, db2))))))"

subsection \<open>The layout of the encoding\<close>

definition relation_order :: "string list" where
  "relation_order = filter (\<lambda>n. n \<notin> {''__pad__'', ''__target__''}) relationship_vocab"

definition hash_categorical :: "(string \<Rightarrow> nat) \<Rightarrow> string \<Rightarrow> int \<Rightarrow> exn + int" where
  "hash_categorical digest v vocab_size =
     (if vocab_size = 1 then Inl (ExternalError ''ZeroDivisionError'')
      else Inr (1 + int (digest v) mod (vocab_size - 1)))"

text \<open>1 January 2020, and the hour, the weekday and the date as fractions.\<close>

definition datetime_epoch :: instant where "datetime_epoch = 1577836800000000"

definition clamp_unit :: "rat \<Rightarrow> rat" where
  "clamp_unit x = max 0 (min 1 x)"

definition encode_datetime :: "py_datetime \<Rightarrow> rat \<times> rat \<times> rat" where
  "encode_datetime d =
     (of_int (fst d div 3600000000 mod 24) / 24, of_int ((fst d div 86400000000 + 3) mod 7) / 7,
      clamp_unit (of_int ((fst d - datetime_epoch) div 86400000000) / (36525 / 100) / 10))"

record position =
  ps_numeric :: "rat option list"
  ps_categorical :: "int option list"
  ps_datetime :: "(rat \<times> rat \<times> rat) option list"
  ps_entity :: nat
  ps_relationship :: nat
  ps_attended :: bool

definition padding :: position where
  "padding = \<lparr>ps_numeric = replicate numeric_slots None, ps_categorical = replicate categorical_slots None,
     ps_datetime = replicate datetime_slots None, ps_entity = 0, ps_relationship = 0, ps_attended = False\<rparr>"

definition pad_to :: "nat \<Rightarrow> 'a option list \<Rightarrow> 'a option list" where
  "pad_to n xs = xs @ replicate (n - length xs) None"

fun index_of :: "'a \<Rightarrow> 'a list \<Rightarrow> nat option" where
  "index_of x [] = None"
| "index_of x (y # ys) = (if x = y then Some 0 else map_option Suc (index_of x ys))"

definition vocab_index :: "string \<Rightarrow> string list \<Rightarrow> exn + nat" where
  "vocab_index n vocab = (case index_of n vocab of None \<Rightarrow> Inl (KeyError n) | Some i \<Rightarrow> Inr i)"

definition write_record ::
  "conv \<Rightarrow> (pyval \<Rightarrow> string) \<Rightarrow> (string \<Rightarrow> nat) \<Rightarrow> int \<Rightarrow> relational_record \<Rightarrow> exn + position" where
  "write_record cv str digest vocab_size r =
     (case dict_get entity_field_schemas (rr_entity r) of
        None \<Rightarrow> Inl (KeyError (rr_entity r))
      | Some s \<Rightarrow>
          rbind (mapM_r (\<lambda>n. let v = row_get (rr_fields r) n
              in if v = PNone then Inr None else rbind (py_float cv v) (\<lambda>q. Inr (Some q))) (ef_numeric s)) (\<lambda>nums.
          rbind (mapM_r (\<lambda>n. let v = row_get (rr_fields r) n
              in if v = PNone then Inr None else rbind (hash_categorical digest (str v) vocab_size) (\<lambda>h. Inr (Some h)))
              (ef_categorical s)) (\<lambda>cats.
          rbind (vocab_index (rr_entity r) entity_type_vocab) (\<lambda>et.
          rbind (vocab_index (rr_relationship r) relationship_vocab) (\<lambda>rt.
            Inr \<lparr>ps_numeric = pad_to numeric_slots nums, ps_categorical = pad_to categorical_slots cats,
              ps_datetime = pad_to datetime_slots (map (\<lambda>n. case row_get (rr_fields r) n of PTime d \<Rightarrow> Some (encode_datetime d) | _ \<Rightarrow> None)
                (ef_datetime s)), ps_entity = et, ps_relationship = rt, ps_attended = True\<rparr>)))))"

definition relation_block ::
  "conv \<Rightarrow> (pyval \<Rightarrow> string) \<Rightarrow> (string \<Rightarrow> nat) \<Rightarrow> int \<Rightarrow> nat \<Rightarrow> relational_record list \<Rightarrow> string \<Rightarrow> exn + position list" where
  "relation_block cv str digest vocab_size k related name =
     rbind (mapM_r (write_record cv str digest vocab_size) (take k (filter (\<lambda>r. rr_relationship r = name) related))) (\<lambda>ps.
       Inr (ps @ replicate (k - length ps) padding))"

definition encode_example ::
  "conv \<Rightarrow> (pyval \<Rightarrow> string) \<Rightarrow> (string \<Rightarrow> nat) \<Rightarrow> nat \<Rightarrow> int \<Rightarrow> relational_example \<Rightarrow> exn + position list" where
  "encode_example cv str digest k vocab_size x =
     rbind (write_record cv str digest vocab_size (rx_target x)) (\<lambda>t.
     rbind (ensure (list_all (\<lambda>r. rr_relationship r \<in> set relation_order) (rx_related x)) (KeyError ''relationship'')) (\<lambda>_.
     rbind (mapM_r (relation_block cv str digest vocab_size k (rx_related x)) relation_order) (\<lambda>blocks.
       Inr (t # concat blocks))))"

subsection \<open>The layout is fixed\<close>

lemma schemas_fit:
  assumes "dict_get entity_field_schemas n = Some s"
  shows "length (ef_numeric s) \<le> numeric_slots" and "length (ef_categorical s) \<le> categorical_slots"
    and "length (ef_datetime s) \<le> datetime_slots"
proof -
  have "list_all (\<lambda>(n, s). make_entity_schema s = Inr s) entity_field_schemas" by code_simp
  moreover have "(n, s) \<in> set entity_field_schemas" using assms by (simp add: dict_get_def map_of_SomeD)
  ultimately have "make_entity_schema s = Inr s" by (auto simp: list_all_iff)
  then show "length (ef_numeric s) \<le> numeric_slots" and "length (ef_categorical s) \<le> categorical_slots"
      and "length (ef_datetime s) \<le> datetime_slots"
    by (auto simp: make_entity_schema_def split: if_splits)
qed

lemma pad_to_length [simp]: "length xs \<le> n \<Longrightarrow> length (pad_to n xs) = n"
  by (simp add: pad_to_def)

lemma hash_categorical_range:
  "hash_categorical digest v n = Inr h \<Longrightarrow> 2 \<le> n \<Longrightarrow> 1 \<le> h \<and> h < n"
proof -
  assume h: "hash_categorical digest v n = Inr h" and n: "2 \<le> n"
  then have "h = 1 + int (digest v) mod (n - 1)" by (simp add: hash_categorical_def)
  moreover have "0 \<le> int (digest v) mod (n - 1) \<and> int (digest v) mod (n - 1) < n - 1"
    using n by simp
  ultimately show ?thesis by linarith
qed

definition position_ok :: "int \<Rightarrow> position \<Rightarrow> bool" where
  "position_ok vocab_size p \<longleftrightarrow> length (ps_numeric p) = numeric_slots \<and> length (ps_categorical p) = categorical_slots \<and>
     length (ps_datetime p) = datetime_slots \<and> (\<forall>h. Some h \<in> set (ps_categorical p) \<longrightarrow> 1 \<le> h \<and> h < vocab_size)"

lemma padding_ok: "position_ok n padding"
  by (simp add: position_ok_def padding_def categorical_slots_def)

lemma pad_to_mem: "Some x \<in> set (pad_to n xs) \<longleftrightarrow> Some x \<in> set xs"
  by (auto simp: pad_to_def)

lemma write_record_Inr:
  assumes "write_record cv str digest n r = Inr p"
  obtains s nums cats et rt where "dict_get entity_field_schemas (rr_entity r) = Some s"
    and "mapM_r (\<lambda>n. let v = row_get (rr_fields r) n
              in if v = PNone then Inr None else rbind (py_float cv v) (\<lambda>q. Inr (Some q))) (ef_numeric s) = Inr nums"
    and "mapM_r (\<lambda>f. let v = row_get (rr_fields r) f
              in if v = PNone then Inr None else rbind (hash_categorical digest (str v) n) (\<lambda>h. Inr (Some h))) (ef_categorical s) = Inr cats"
    and "vocab_index (rr_relationship r) relationship_vocab = Inr rt"
    and "p = \<lparr>ps_numeric = pad_to numeric_slots nums, ps_categorical = pad_to categorical_slots cats,
          ps_datetime = pad_to datetime_slots (map (\<lambda>n. case row_get (rr_fields r) n of PTime d \<Rightarrow> Some (encode_datetime d) | _ \<Rightarrow> None)
            (ef_datetime s)), ps_entity = et, ps_relationship = rt, ps_attended = True\<rparr>"
proof (cases "dict_get entity_field_schemas (rr_entity r)")
  case None
  with assms show ?thesis by (simp add: write_record_def)
next
  case (Some s)
  show ?thesis
    using assms [unfolded write_record_def Some option.case rbind_Inr_iff]
    by (elim exE conjE) (rule that [OF Some], assumption+, rule sym, simp)
qed

lemma write_record_ok:
  assumes "write_record cv str digest n r = Inr p" and "2 \<le> n"
  shows "position_ok n p \<and> ps_attended p"
proof (rule write_record_Inr [OF assms(1)])
  fix s nums cats et rt
  assume s: "dict_get entity_field_schemas (rr_entity r) = Some s"
    and nums: "mapM_r (\<lambda>n. let v = row_get (rr_fields r) n
              in if v = PNone then Inr None else rbind (py_float cv v) (\<lambda>q. Inr (Some q))) (ef_numeric s) = Inr nums"
    and cats: "mapM_r (\<lambda>f. let v = row_get (rr_fields r) f
              in if v = PNone then Inr None else rbind (hash_categorical digest (str v) n) (\<lambda>h. Inr (Some h))) (ef_categorical s) = Inr cats"
    and p: "p = \<lparr>ps_numeric = pad_to numeric_slots nums, ps_categorical = pad_to categorical_slots cats,
          ps_datetime = pad_to datetime_slots (map (\<lambda>n. case row_get (rr_fields r) n of PTime d \<Rightarrow> Some (encode_datetime d) | _ \<Rightarrow> None)
            (ef_datetime s)), ps_entity = et, ps_relationship = rt, ps_attended = True\<rparr>"
  have "1 \<le> h \<and> h < n" if h: "Some h \<in> set cats" for h
  proof -
    from mapM_r_mem [OF cats h] obtain f where "(let v = row_get (rr_fields r) f
        in if v = PNone then Inr None else rbind (hash_categorical digest (str v) n) (\<lambda>h. Inr (Some h))) = Inr (Some h)"
      by blast
    then show ?thesis using hash_categorical_range assms(2) by (auto simp: Let_def split: if_splits)
  qed
  then show ?thesis
    using schemas_fit [OF s] mapM_r_Inr_length [OF nums] mapM_r_Inr_length [OF cats]
    by (simp add: p position_ok_def pad_to_mem)
qed

lemma relation_block_Inr:
  assumes "relation_block cv str digest n k related name = Inr ps"
  obtains qs where "mapM_r (write_record cv str digest n) (take k (filter (\<lambda>r. rr_relationship r = name) related)) = Inr qs"
    and "ps = qs @ replicate (k - length qs) padding" and "length qs = min k (length (filter (\<lambda>r. rr_relationship r = name) related))"
    and "length ps = k"
proof -
  from assms obtain qs where qs: "mapM_r (write_record cv str digest n) (take k (filter (\<lambda>r. rr_relationship r = name) related)) = Inr qs"
      "ps = qs @ replicate (k - length qs) padding"
    by (auto simp: relation_block_def)
  from mapM_r_Inr_length [OF qs(1)] have "length qs = min k (length (filter (\<lambda>r. rr_relationship r = name) related))" by simp
  with that qs show ?thesis by simp
qed

lemma relation_block_ok:
  assumes "relation_block cv str digest n k related name = Inr ps" and "2 \<le> n" and "p \<in> set ps"
  shows "position_ok n p"
proof (rule relation_block_Inr [OF assms(1)])
  fix qs
  assume qs: "mapM_r (write_record cv str digest n) (take k (filter (\<lambda>r. rr_relationship r = name) related)) = Inr qs"
    and ps: "ps = qs @ replicate (k - length qs) padding"
  have "\<forall>q \<in> set qs. \<exists>r. write_record cv str digest n r = Inr q" using mapM_r_mem [OF qs] by blast
  with assms(2,3) ps write_record_ok padding_ok show ?thesis by fastforce
qed

lemma length_concat_const: "\<forall>b \<in> set bs. length b = k \<Longrightarrow> length (concat bs) = length bs * k"
  by (induction bs) simp_all

lemma concat_blocks_nth:
  "\<forall>b \<in> set bs. length b = k \<Longrightarrow> i < length bs \<Longrightarrow> j < k \<Longrightarrow> concat bs ! (i * k + j) = bs ! i ! j"
proof (induction bs arbitrary: i)
  case (Cons b bs)
  then show ?case by (cases i) (auto simp: nth_append)
qed simp

text \<open>
  Every example has the same layout. However many related records an example has, its
  encoding has one position for the target and k for each of the six relations, each position
  with the same number of numeric, categorical and datetime slots and categorical identifiers
  below the size of the vocabulary; position j of relation i holds the j-th record of that
  relation, in order, or padding, so that the records beyond the first k are dropped.
\<close>

theorem encoding_layout:
  assumes "encode_example cv str digest k vocab_size x = Inr ps" and "2 \<le> vocab_size"
  shows "length ps = 1 + 6 * k \<and> (\<forall>p \<in> set ps. position_ok vocab_size p) \<and>
    write_record cv str digest vocab_size (rx_target x) = Inr (ps ! 0) \<and>
    (\<forall>i < 6. \<forall>j < k. let rs = filter (\<lambda>r. rr_relationship r = relation_order ! i) (rx_related x)
       in if j < length rs then write_record cv str digest vocab_size (rs ! j) = Inr (ps ! (1 + i * k + j))
          else ps ! (1 + i * k + j) = padding)"
proof -
  have six: "length relation_order = 6" by code_simp
  from assms(1) obtain t blocks where t: "write_record cv str digest vocab_size (rx_target x) = Inr t"
      and blocks: "mapM_r (relation_block cv str digest vocab_size k (rx_related x)) relation_order = Inr blocks"
      and ps: "ps = t # concat blocks"
    by (auto simp: encode_example_def)
  have n: "length blocks = 6" using mapM_r_Inr_length [OF blocks] six by simp
  have block: "relation_block cv str digest vocab_size k (rx_related x) (relation_order ! i) = Inr (blocks ! i)" if "i < 6" for i
    using mapM_r_nth [OF blocks, of i] that n by simp
  have len: "\<forall>b \<in> set blocks. length b = k"
    using block n by (metis in_set_conv_nth relation_block_Inr)
  have "length (concat blocks) = 6 * k" using length_concat_const [OF len] n by simp
  moreover have "position_ok vocab_size p" if p: "p \<in> set ps" for p
  proof (cases "p = t")
    case False
    with p ps obtain b where "b \<in> set blocks" "p \<in> set b" by auto
    then obtain i where "i < 6" "p \<in> set (blocks ! i)" using n by (metis in_set_conv_nth)
    then show ?thesis using relation_block_ok [OF block assms(2)] by blast
  qed (use write_record_ok [OF t assms(2)] in simp)
  moreover have "let rs = filter (\<lambda>r. rr_relationship r = relation_order ! i) (rx_related x)
       in if j < length rs then write_record cv str digest vocab_size (rs ! j) = Inr (ps ! (1 + i * k + j))
          else ps ! (1 + i * k + j) = padding" if i: "i < 6" and j: "j < k" for i j
  proof (rule relation_block_Inr [OF block [OF i]])
    let ?rs = "filter (\<lambda>r. rr_relationship r = relation_order ! i) (rx_related x)"
    fix qs
    assume qs: "mapM_r (write_record cv str digest vocab_size) (take k ?rs) = Inr qs"
      and b: "blocks ! i = qs @ replicate (k - length qs) padding" and lq: "length qs = min k (length ?rs)"
    have at: "ps ! (1 + i * k + j) = blocks ! i ! j"
      using concat_blocks_nth [OF len, of i j] i j n ps by simp
    have "write_record cv str digest vocab_size (?rs ! j) = Inr (qs ! j)" if "j < length ?rs"
      using mapM_r_nth [OF qs, of j] that j lq by simp
    then show ?thesis using at b lq j by (simp add: Let_def nth_append)
  qed
  ultimately show ?thesis using t ps by simp
qed

subsection \<open>What the target record shows\<close>

lemma fetch_target_row_Some:
  assumes "fetch_target_row query iter e d reference needed schemas tables = Inr (Some row)"
  obtains idf idc cols ans rest where "identity_column d = Inr (idf, idc)"
    and "select_columns d (iter needed) [(idf, idc)] = Inr cols"
    and "query e \<lparr>qs_table = source_of d, qs_project = Columns cols, qs_where = [(idc, CmpEq, PStr reference)],
      qs_order = None, qs_limit = Some 1\<rparr> = Inr (ans # rest)"
    and "row = labelled cols ans"
proof -
  from assms obtain idf idc where id: "identity_column d = Inr (idf, idc)" by (auto simp: fetch_target_row_def)
  from assms id obtain cols where cols: "select_columns d (iter needed) [(idf, idc)] = Inr cols"
    by (auto simp: fetch_target_row_def)
  from assms id cols obtain rows where rows: "query e \<lparr>qs_table = source_of d, qs_project = Columns cols,
      qs_where = [(idc, CmpEq, PStr reference)], qs_order = None, qs_limit = Some 1\<rparr> = Inr rows"
      "(case rows of [] \<Rightarrow> None | r # _ \<Rightarrow> Some (labelled cols r)) = Some row"
    unfolding fetch_target_row_def rbind_Inr_iff by auto
  from rows(2) obtain ans rest where "rows = ans # rest" "row = labelled cols ans" by (cases rows) auto
  with that [OF id cols] rows(1) show ?thesis by simp
qed

lemma build_example_target:
  assumes "build_example env reference pt label ctx k db = (Inr ex, db')"
  obtains target eng conn db1 row where "resolve_target_mapping ''Trip'' ctx db = Inr target"
    and "engine_for target ctx db = (Inr (eng, conn), db1)"
    and "fetch_target_row (xe_query env) (xe_iter env) eng (rs_document target) reference (schema_fields ''Trip'')
      (cn_schemas conn) (cn_tables conn) = Inr (Some row)"
    and "rr_fields (rx_target ex) = row" and "rx_version ex = sm_active (rs_mapping target)"
    and "rx_target ex = \<lparr>rr_entity = ''Trip'', rr_relationship = ''__target__'', rr_fields = row\<rparr>"
proof -
  from assms obtain target where t: "resolve_target_mapping ''Trip'' ctx db = Inr target"
    by (auto simp: build_example_def)
  note run = assms [unfolded build_example_def t attempt_simps]
  obtain q db1 where ge: "engine_for target ctx db = (q, db1)" by (cases "engine_for target ctx db")
  with run obtain eng conn where "q = Inr (eng, conn)" by (cases q) auto
  with ge have ge': "engine_for target ctx db = (Inr (eng, conn), db1)" by simp
  note run = run [unfolded ge' prod.case sum.case]
  from run obtain found where f: "fetch_target_row (xe_query env) (xe_iter env) eng (rs_document target) reference
      (schema_fields ''Trip'') (cn_schemas conn) (cn_tables conn) = Inr found"
    unfolding attempt_Inr_iff by blast
  with run obtain row where row: "found = Some row" by (cases found) auto
  note run = run [unfolded f row attempt_simps option.case]
  from run have "rx_target ex = \<lparr>rr_entity = ''Trip'', rr_relationship = ''__target__'', rr_fields = row\<rparr>"
      "rx_version ex = sm_active (rs_mapping target)"
    by (auto split: prod.splits sum.splits)
  with that [OF t ge' f [unfolded row]] show ?thesis by simp
qed

text \<open>
  C29: the transformer is shown the outcome. The target record of an example is the row a
  statement without any condition on time returns, and it has every field of the trip schema
  that is mapped to a column, among them the status and the actual arrival from which the label
  is computed; it is the same record whatever the prediction time.
\<close>

theorem target_record_shows_the_outcome:
  assumes "build_example env reference pt label ctx k db = (Inr ex, db')"
    and "resolve_target_mapping ''Trip'' ctx db = Inr target" and "iterates (xe_iter env)"
    and "n \<in> schema_fields ''Trip''" and "resolve_column (rs_document target) n = Inr (Some c)"
  shows "(\<exists>eng cols idc row rest. xe_query env eng \<lparr>qs_table = source_of (rs_document target), qs_project = Columns cols,
        qs_where = [(idc, CmpEq, PStr reference)], qs_order = None, qs_limit = Some 1\<rparr> = Inr (row # rest) \<and>
      (n, c) \<in> set cols \<and> rr_fields (rx_target ex) = labelled cols row) \<and>
    (\<forall>pt' label' ex' db''. build_example env reference pt' label' ctx k db = (Inr ex', db'') \<longrightarrow> rx_target ex' = rx_target ex) \<and>
    {''status'', ''planned_arrival_at'', ''actual_arrival_at''} \<subseteq> schema_fields ''Trip''"
proof (intro conjI)
  show "{''status'', ''planned_arrival_at'', ''actual_arrival_at''} \<subseteq> schema_fields ''Trip''" by code_simp
  show "\<forall>pt' label' ex' db''. build_example env reference pt' label' ctx k db = (Inr ex', db'') \<longrightarrow> rx_target ex' = rx_target ex"
  proof (intro allI impI)
    fix pt' label' ex' db''
    assume "build_example env reference pt' label' ctx k db = (Inr ex', db'')"
    then show "rx_target ex' = rx_target ex"
      by (rule build_example_target, rule_tac build_example_target [OF assms(1)]) auto
  qed
  show "\<exists>eng cols idc row rest. xe_query env eng \<lparr>qs_table = source_of (rs_document target), qs_project = Columns cols,
        qs_where = [(idc, CmpEq, PStr reference)], qs_order = None, qs_limit = Some 1\<rparr> = Inr (row # rest) \<and>
      (n, c) \<in> set cols \<and> rr_fields (rx_target ex) = labelled cols row"
  proof (rule build_example_target [OF assms(1)])
    fix target' eng conn row
    assume t: "resolve_target_mapping ''Trip'' ctx db = Inr target'"
      and f: "fetch_target_row (xe_query env) (xe_iter env) eng (rs_document target') reference (schema_fields ''Trip'')
        (cn_schemas conn) (cn_tables conn) = Inr (Some row)"
      and r: "rr_fields (rx_target ex) = row"
    from t assms(2) have target: "target' = target" by simp
    from f [unfolded target] obtain idf idc cols ans rest where id: "identity_column (rs_document target) = Inr (idf, idc)"
        and cols: "select_columns (rs_document target) (xe_iter env (schema_fields ''Trip'')) [(idf, idc)] = Inr cols"
        and q: "xe_query env eng \<lparr>qs_table = source_of (rs_document target), qs_project = Columns cols,
          qs_where = [(idc, CmpEq, PStr reference)], qs_order = None, qs_limit = Some 1\<rparr> = Inr (ans # rest)"
        and row: "row = labelled cols ans"
      by (rule fetch_target_row_Some)
    have "finite (schema_fields ''Trip'')" by (simp add: schema_fields_def split: option.split)
    then have "n \<in> set (xe_iter env (schema_fields ''Trip''))" using assms(3,4) by (simp add: iterates_def)
    then have "(n, c) \<in> set cols"
      using select_columns_selects [OF cols] select_columns_keeps [OF cols, of "(idf, idc)"]
        identity_column_resolves [OF id] assms(5)
      by (cases "n = idf") auto
    with q row r show ?thesis by blast
  qed
qed

subsection \<open>An example\<close>

definition trip_mapping_db :: map_db where
  "trip_mapping_db = extraction_db\<lparr>db_versions := map (\<lambda>v. v\<lparr>mv_document := sample_document\<lparr>md_fields :=
       [(''status'', \<lparr>fm_sources = [column_source ''state''], fm_default = None\<rparr>)]\<rparr>\<rparr>) (db_versions extraction_db),
     db_mappings := map (\<lambda>m. m\<lparr>sm_entity := ''Trip''\<rparr>) (db_mappings extraction_db)\<rparr>"

definition sample_context_env :: context_env where
  "sample_context_env = extract_env.extend (sample_extract_env\<lparr>xe_query := (\<lambda>_ _. Inr [[PStr ''t1'', PStr ''completed'']]),
     xe_iter := sorted_list_of_set\<rparr>) \<lparr>ce_onto = vehicle_ontology\<rparr>"

definition done_example :: relational_example where
  "done_example = \<lparr>rx_reference = ''t1'', rx_time = 5, rx_label = None, rx_target = \<lparr>rr_entity = ''Trip'',
     rr_relationship = ''__target__'', rr_fields = [(''vehicle_id'', PStr ''t1''), (''status'', PStr ''completed'')]\<rparr>,
     rx_related = [], rx_version = Some 81\<rparr>"

lemma sample_example:
  obtains ex db' where "build_example sample_context_env ''t1'' 5 None sample_ctx 2 trip_mapping_db = (Inr ex, db')"
    and "rr_fields (rx_target ex) = [(''vehicle_id'', PStr ''t1''), (''status'', PStr ''completed'')]"
proof -
  let ?r = "build_example sample_context_env ''t1'' 5 None sample_ctx 2 trip_mapping_db"
  have "(case fst ?r of Inl _ \<Rightarrow> False | Inr x \<Rightarrow>
      rr_fields (rx_target x) = [(''vehicle_id'', PStr ''t1''), (''status'', PStr ''completed'')])"
    by code_simp
  then show ?thesis using that by (cases ?r) (auto split: sum.splits)
qed

theorem target_record_shows_the_outcome_witness:
  "\<exists>ex :: relational_example. rr_fields (rx_target ex) = [(''vehicle_id'', PStr ''t1''), (''status'', PStr ''completed'')] \<and>
    (\<exists>cols row. (''status'', ''state'') \<in> set cols \<and> rr_fields (rx_target ex) = labelled cols row)"
proof -
  obtain ex db' where b: "build_example sample_context_env ''t1'' 5 None sample_ctx 2 trip_mapping_db = (Inr ex, db')"
    and f: "rr_fields (rx_target ex) = [(''vehicle_id'', PStr ''t1''), (''status'', PStr ''completed'')]"
    by (rule sample_example)
  have "(case resolve_target_mapping ''Trip'' sample_ctx trip_mapping_db of Inl _ \<Rightarrow> False
      | Inr t \<Rightarrow> resolve_column (rs_document t) ''status'' = Inr (Some ''state''))"
    by code_simp
  then obtain t where t: "resolve_target_mapping ''Trip'' sample_ctx trip_mapping_db = Inr t"
      "resolve_column (rs_document t) ''status'' = Inr (Some ''state'')"
    by (auto split: sum.splits)
  have i: "iterates (xe_iter sample_context_env)"
    by (simp add: sample_context_env_def extract_env.defs sample_extract_env_def sorted_list_iterates)
  have n: "''status'' \<in> schema_fields ''Trip''" by code_simp
  from target_record_shows_the_outcome [OF b t(1) i n t(2)] f show ?thesis by blast
qed

theorem encoding_layout_witness:
  "\<exists>ps :: position list. encode_example no_conv text_of length 2 16 done_example = Inr ps \<and> length ps = 13"
proof -
  have "isl (encode_example no_conv text_of length 2 16 done_example) = False" by code_simp
  then obtain ps where ps: "encode_example no_conv text_of length 2 16 done_example = Inr ps"
    by (cases "encode_example no_conv text_of length 2 16 done_example") auto
  from encoding_layout [OF this] have "length ps = 1 + 6 * 2" by simp
  with ps show ?thesis by auto
qed

end
