(* ===== verification/Tenants.thy ===== *)
theory Tenants
  imports AuditTrail
begin

section \<open>Tenants, memberships and consent records\<close>

text \<open>
  \<open>hermes_rpt/tenants/service.py\<close>, \<open>repository.py\<close> and \<open>models.py\<close>, and the consent gate
  of \<open>models/transformer/pretraining_consent.py\<close>. Tenants, users and roles are platform
  rows (no tenant column), memberships and consents are tenant rows.
\<close>

record tenant_entity =
  tn_id :: uuid
  tn_name :: string
  tn_slug :: string
  tn_active :: bool
  tn_version :: int

record role_entity =
  ro_id :: uuid
  ro_name :: role_name

record membership = tenant_row +
  mb_user :: uuid
  mb_role :: uuid
  mb_active :: bool

record consent = tenant_row +
  co_type :: string
  co_status :: consent_status
  co_granted_by :: uuid

record tenancy_db = audit_db +
  ten_tenants :: "tenant_entity list"
  ten_roles :: "role_entity list"
  ten_memberships :: "membership list"
  ten_consents :: "consent list"

definition create_tenant :: "string \<Rightarrow> string \<Rightarrow> uuid \<Rightarrow> 'z tenancy_db_scheme \<Rightarrow>
    (exn + tenant_entity) \<times> 'z tenancy_db_scheme" where
  "create_tenant name slug fresh db =
     (let t = \<lparr>tn_id = fresh, tn_name = name, tn_slug = slug, tn_active = True, tn_version = 1\<rparr>
      in if fresh \<in> tn_id ` set (ten_tenants db) \<or> slug \<in> tn_slug ` set (ten_tenants db)
         then (Inl IntegrityError, db)
         else (Inr t, db\<lparr>ten_tenants := ten_tenants db @ [t]\<rparr>))"

definition get_tenant :: "'z tenancy_db_scheme \<Rightarrow> uuid \<Rightarrow> tenant_entity option" where
  "get_tenant db i = List.find (\<lambda>t. tn_id t = i) (ten_tenants db)"

text \<open>\<open>scalar_one_or_none\<close>: no row, the row, or an exception when there are several.\<close>

definition scalar_one_or_none :: "'a list \<Rightarrow> exn + 'a option" where
  "scalar_one_or_none xs =
     (case xs of [] \<Rightarrow> Inr None | [x] \<Rightarrow> Inr (Some x) | _ \<Rightarrow> Inl MultipleResultsFound)"

definition get_role_by_name :: "'z tenancy_db_scheme \<Rightarrow> role_name \<Rightarrow> exn + role_entity option" where
  "get_role_by_name db n = scalar_one_or_none (filter (\<lambda>r. ro_name r = n) (ten_roles db))"

definition add_membership :: "uuid \<Rightarrow> role_name \<Rightarrow> tenant_context \<Rightarrow> uuid \<Rightarrow> 'z tenancy_db_scheme \<Rightarrow>
    (exn + membership) \<times> 'z tenancy_db_scheme" where
  "add_membership user role ctx fresh db =
     attempt (get_role_by_name db role) db (\<lambda>found.
     (case found of
        None \<Rightarrow> (Inl (ValueError ''Unknown role''), db)
      | Some r \<Rightarrow>
          attempt (repo_add (ten_memberships db)
              \<lparr>row_id = fresh, row_tenant = Some (tc_tenant ctx), mb_user = user, mb_role = ro_id r,
               mb_active = True\<rparr> ctx) db
            (\<lambda>(m, t). (Inr m, db\<lparr>ten_memberships := t\<rparr>))))"

definition get_membership :: "uuid \<Rightarrow> tenant_context \<Rightarrow> 'z tenancy_db_scheme \<Rightarrow> exn + membership" where
  "get_membership i ctx db = repo_require (ten_memberships db) i ctx"

definition list_memberships :: "tenant_context \<Rightarrow> 'z tenancy_db_scheme \<Rightarrow> membership list" where
  "list_memberships ctx db = list_for_tenant (ten_memberships db) ctx"

definition list_for_user_in_tenant :: "uuid \<Rightarrow> tenant_context \<Rightarrow> 'z tenancy_db_scheme \<Rightarrow> membership list" where
  "list_for_user_in_tenant user ctx db =
     filter (\<lambda>m. row_tenant m = Some (tc_tenant ctx) \<and> mb_user m = user) (ten_memberships db)"

definition has_granted_consent :: "'z tenancy_db_scheme \<Rightarrow> uuid \<Rightarrow> string \<Rightarrow> exn + bool" where
  "has_granted_consent db tid ctype =
     rbind (scalar_one_or_none (filter (\<lambda>c. row_tenant c = Some tid \<and> co_type c = ctype \<and>
         co_status c = CONSENT_GRANTED) (ten_consents db)))
       (\<lambda>found. Inr (found \<noteq> None))"

fun require_shared_pretraining_consent :: "'z tenancy_db_scheme \<Rightarrow> uuid list \<Rightarrow> exn + unit" where
  "require_shared_pretraining_consent db [] = Inr ()"
| "require_shared_pretraining_consent db (t # ts) =
     rbind (has_granted_consent db t ''shared_pretraining'') (\<lambda>ok.
       if \<not> ok then Inl (SharedPretrainingConsentError t)
       else require_shared_pretraining_consent db ts)"

lemma has_granted_consent_two:
  assumes "filter (\<lambda>c. row_tenant c = Some t \<and> co_type c = ct \<and> co_status c = CONSENT_GRANTED)
    (ten_consents db) = a # b # cs"
  shows "has_granted_consent db t ct = Inl MultipleResultsFound"
  using assms by (simp add: has_granted_consent_def scalar_one_or_none_def)

text \<open>
  The consent gate is all or nothing. It passes exactly when every contributing tenant
  has one granted consent record for shared pretraining; in particular a single tenant
  without one stops the run. (A tenant with two granted records stops it as well, with the
  exception of \<open>scalar_one_or_none\<close>: nothing makes the pair of tenant and type unique.)
\<close>

theorem shared_pretraining_needs_every_consent:
  "require_shared_pretraining_consent db ts = Inr () \<longleftrightarrow>
    (\<forall>t \<in> set ts. length (filter (\<lambda>c. row_tenant c = Some t \<and> co_type c = ''shared_pretraining'' \<and>
       co_status c = CONSENT_GRANTED) (ten_consents db)) = 1)"
proof (induction ts)
  case (Cons t ts)
  have "has_granted_consent db t ct = Inr True \<longleftrightarrow>
      length (filter (\<lambda>c. row_tenant c = Some t \<and> co_type c = ct \<and> co_status c = CONSENT_GRANTED)
        (ten_consents db)) = 1" for ct
    by (auto simp: has_granted_consent_def scalar_one_or_none_def split: list.splits)
  with Cons show ?case by (auto split: if_splits)
qed simp

definition one_consent_db :: tenancy_db where
  "one_consent_db = \<lparr>audit_log = [], ten_tenants = [], ten_roles = [], ten_memberships = [],
     ten_consents = [\<lparr>row_id = 1, row_tenant = Some 7, co_type = ''shared_pretraining'',
       co_status = CONSENT_GRANTED, co_granted_by = 3\<rparr>]\<rparr>"

theorem shared_pretraining_needs_every_consent_witness:
  "require_shared_pretraining_consent one_consent_db [7] = Inr () \<and>
   require_shared_pretraining_consent one_consent_db [7, 8] \<noteq> Inr ()"
  unfolding shared_pretraining_needs_every_consent by (simp add: one_consent_db_def)

end
