(* ===== verification/Inference.thy ===== *)
theory Inference
  imports ModelLoading RelationalContext Tenants
begin

section \<open>Predictions\<close>

text \<open>
  \<open>hermes_rpt/inference/{enums,models,repository,risk,explanation,service}.py\<close>. A prediction is
  served over two states: the control plane, with the tables of tasks, requests, results and
  outcomes added, and the process-wide model loader. What a loaded model answers is a parameter:
  the probability of a baseline for a row of features (a missing one is None, NaN in the code)
  or of a transformer for an encoded example, and a linear baseline's coefficients. Floats are
  exact rationals, so a probability is a number; the metrics counters are left out.
\<close>

datatype prediction_status = PS_PENDING | PS_COMPLETED | PS_FAILED

record task_definition = tenant_row +
  td_key :: string
  td_name :: string
  td_description :: string
  td_contract :: string
  td_active :: bool

record prediction_request = tenant_row +
  pq_task :: uuid
  pq_reference :: string
  pq_time :: instant
  pq_status :: prediction_status
  pq_key :: "string option"
  pq_principal :: uuid
  pq_correlation :: "string option"

record explanation =
  xp_factor :: string
  xp_direction :: string

record prediction_result = tenant_row +
  pu_request :: uuid
  pu_model :: uuid
  pu_adapter :: "uuid option"
  pu_mapping :: uuid
  pu_features :: string
  pu_probability :: rat
  pu_risk :: string
  pu_explanations :: "explanation list"

record prediction_outcome = tenant_row +
  oc_result :: uuid
  oc_label :: bool
  oc_principal :: uuid

record pred_db = reg_db +
  db_tasks :: "task_definition list"
  db_requests :: "prediction_request list"
  db_results :: "prediction_result list"
  db_outcomes :: "prediction_outcome list"

subsection \<open>Repositories\<close>

definition get_by_task_key :: "string \<Rightarrow> 'z pred_db_scheme \<Rightarrow> exn + task_definition option" where
  "get_by_task_key key db = scalar_one_or_none (filter (\<lambda>t. td_key t = key) (db_tasks db))"

definition get_by_idempotency_key ::
  "string \<Rightarrow> tenant_context \<Rightarrow> 'z pred_db_scheme \<Rightarrow> exn + prediction_request option" where
  "get_by_idempotency_key key ctx db =
     scalar_one_or_none (filter (\<lambda>q. row_tenant q = Some (tc_tenant ctx) \<and> pq_key q = Some key) (db_requests db))"

definition get_by_request_id :: "uuid \<Rightarrow> tenant_context \<Rightarrow> 'z pred_db_scheme \<Rightarrow> exn + prediction_result option" where
  "get_by_request_id i ctx db =
     scalar_one_or_none (filter (\<lambda>u. row_tenant u = Some (tc_tenant ctx) \<and> pu_request u = i) (db_results db))"

text \<open>Inserting under the unique constraints: one request per key of a tenant, one result per request.\<close>

definition add_request ::
  "prediction_request \<Rightarrow> tenant_context \<Rightarrow> 'z pred_db_scheme \<Rightarrow> exn + prediction_request \<times> 'z pred_db_scheme" where
  "add_request q ctx db =
     rbind (repo_add (db_requests db) q ctx) (\<lambda>(q', t).
       if pq_key q' \<noteq> None \<and> (row_tenant q', pq_key q') \<in> (\<lambda>x. (row_tenant x, pq_key x)) ` set (db_requests db)
       then Inl IntegrityError else Inr (q', db\<lparr>db_requests := t\<rparr>))"

definition add_prediction ::
  "prediction_result \<Rightarrow> tenant_context \<Rightarrow> 'z pred_db_scheme \<Rightarrow> exn + prediction_result \<times> 'z pred_db_scheme" where
  "add_prediction u ctx db =
     rbind (repo_add (db_results db) u ctx) (\<lambda>(u', t).
       if pu_request u' \<in> pu_request ` set (db_results db)
       then Inl IntegrityError else Inr (u', db\<lparr>db_results := t\<rparr>))"

definition set_request :: "uuid \<Rightarrow> prediction_status \<Rightarrow> 'z pred_db_scheme \<Rightarrow> 'z pred_db_scheme" where
  "set_request i s db = db\<lparr>db_requests := row_set (db_requests db) i (\<lambda>q. q\<lparr>pq_status := s\<rparr>)\<rparr>"

subsection \<open>Risk levels and explanations\<close>

definition risk_level_for :: "rat \<Rightarrow> string" where
  "risk_level_for p = (if p \<ge> 6 / 10 then ''high'' else if p \<ge> 3 / 10 then ''medium'' else ''low'')"

definition max_explanations :: nat where "max_explanations = 3"

definition contribution :: "conv \<Rightarrow> (string, pyval) dict \<Rightarrow> string \<times> rat \<Rightarrow> exn + (string \<times> rat) option" where
  "contribution cv features nc =
     (case row_get features (fst nc) of
        PNone \<Rightarrow> Inr None
      | v \<Rightarrow> rbind (py_float cv v) (\<lambda>q. Inr (Some (fst nc, snd nc * q))))"

definition explain :: "string \<times> rat \<Rightarrow> explanation" where
  "explain nc = \<lparr>xp_factor = fst nc, xp_direction = (if snd nc > 0 then ''increases_risk'' else ''decreases_risk'')\<rparr>"

definition generate_explanations ::
  "conv \<Rightarrow> (string, rat) dict option \<Rightarrow> (string, pyval) dict \<Rightarrow> exn + explanation list" where
  "generate_explanations cv importance features =
     (case importance of
        None \<Rightarrow> Inr []
      | Some coefs \<Rightarrow>
          rbind (mapM_r (contribution cv features) coefs) (\<lambda>cs.
            Inr (map explain (filter (\<lambda>nc. snd nc \<noteq> 0)
              (take max_explanations (sort_key (\<lambda>nc. - \<bar>snd nc\<bar>) (map the (filter (\<lambda>c. c \<noteq> None) cs))))))))"

subsection \<open>Serving a model\<close>

record 'w predict_env = context_env +
  pe_str :: "pyval \<Rightarrow> string"
  pe_digest :: "string \<Rightarrow> nat"
  pe_proba :: "nat \<Rightarrow> rat option list \<Rightarrow> exn + rat"
  pe_coefs :: "nat \<Rightarrow> rat list option"
  pe_config :: "nat \<Rightarrow> nat \<times> int"
  pe_hermes :: "nat \<Rightarrow> position list \<Rightarrow> exn + rat"
  pe_store :: "'w model_store"
  pe_retries :: retry_config
  pe_limit :: int

definition feature_names :: "string list" where
  "feature_names = map fs_name (fc_features delivery_delay_risk_contract)"

definition feature_importance :: "rat list option \<Rightarrow> exn + (string, rat) dict option" where
  "feature_importance coefs =
     (case coefs of
        None \<Rightarrow> Inr None
      | Some cs \<Rightarrow> if length cs \<noteq> length feature_names then Inl (ValueError ''zip() argument 2'')
                   else Inr (Some (dict_of (zip feature_names cs))))"

definition feature_row :: "conv \<Rightarrow> (string, pyval) dict \<Rightarrow> exn + rat option list" where
  "feature_row cv features =
     mapM_r (\<lambda>n. case row_get features n of PNone \<Rightarrow> Inr None | v \<Rightarrow> rbind (py_float cv v) (\<lambda>q. Inr (Some q))) feature_names"

text \<open>What running a model gives: the probability, the explanations and the version of the target mapping.\<close>

definition run_hermes ::
  "'w predict_env \<Rightarrow> nat \<Rightarrow> tenant_context \<Rightarrow> string \<Rightarrow> instant \<Rightarrow> 'z map_db_scheme \<Rightarrow>
   (exn + rat \<times> explanation list \<times> uuid option) \<times> 'z map_db_scheme" where
  "run_hermes env h ctx reference pt db =
     (case pe_config env h of (k, vocab_size) \<Rightarrow>
      case build_example (context_env.truncate env) reference pt None ctx k db of
        (Inl e, db1) \<Rightarrow> (Inl e, db1)
      | (Inr x, db1) \<Rightarrow>
          (rbind (encode_example (xe_conv env) (pe_str env) (pe_digest env) k vocab_size x) (\<lambda>positions.
           rbind (pe_hermes env h positions) (\<lambda>p.
           rbind (generate_explanations (xe_conv env) None []) (\<lambda>xs. Inr (p, xs, rx_version x)))), db1))"

definition run_baseline ::
  "'w predict_env \<Rightarrow> nat \<Rightarrow> tenant_context \<Rightarrow> string \<Rightarrow> instant \<Rightarrow> 'z map_db_scheme \<Rightarrow>
   (exn + rat \<times> explanation list \<times> uuid option) \<times> 'z map_db_scheme" where
  "run_baseline env h ctx reference pt db =
     (case extract_batch (extract_env.truncate env) delivery_delay_risk_contract ctx reference pt db of
        (Inl e, db1) \<Rightarrow> (Inl e, db1)
      | (Inr b, db1) \<Rightarrow>
          (rbind (feature_row (xe_conv env) (fb_features b)) (\<lambda>row.
           rbind (pe_proba env h row) (\<lambda>p.
           rbind (feature_importance (pe_coefs env h)) (\<lambda>imp.
           rbind (generate_explanations (xe_conv env) imp (fb_features b)) (\<lambda>xs.
             Inr (p, xs, Some (ln_target_version (fb_lineage b))))))), db1))"

definition run_model ::
  "'w predict_env \<Rightarrow> loaded_model \<Rightarrow> tenant_context \<Rightarrow> string \<Rightarrow> instant \<Rightarrow> 'z map_db_scheme \<Rightarrow>
   (exn + rat \<times> explanation list \<times> uuid option) \<times> 'z map_db_scheme" where
  "run_model env l =
     (case l of LoadedHermesRPT _ h \<Rightarrow> run_hermes env h | LoadedModel _ h \<Rightarrow> run_baseline env h)"

subsection \<open>The prediction service\<close>

record response =
  px_id :: uuid
  px_reference :: string
  px_probability :: rat
  px_risk :: string
  px_model :: string
  px_features :: string
  px_time :: instant
  px_explanations :: "explanation list"

definition cached_response :: "string \<Rightarrow> tenant_context \<Rightarrow> 'z pred_db_scheme \<Rightarrow> exn + response option" where
  "cached_response key ctx db =
     rbind (get_by_idempotency_key key ctx db) (\<lambda>found.
     case found of
       None \<Rightarrow> Inr None
     | Some q \<Rightarrow>
         if pq_status q \<noteq> PS_COMPLETED then Inr None
         else rbind (get_by_request_id (row_id q) ctx db) (\<lambda>result.
           case result of
             None \<Rightarrow> Inr None
           | Some u \<Rightarrow> Inr (Some \<lparr>px_id = row_id u, px_reference = pq_reference q, px_probability = pu_probability u,
               px_risk = pu_risk u,
               px_model = (case session_get (db_models db) (pu_model u) of Some m \<Rightarrow> mo_name m | None \<Rightarrow> ''unknown''),
               px_features = pu_features u, px_time = pq_time q, px_explanations = pu_explanations u\<rparr>)))"

definition predict_event :: "tenant_context \<Rightarrow> audit_outcome \<Rightarrow> uuid \<Rightarrow> (string \<times> json) list \<Rightarrow> audit_event" where
  "predict_event ctx outcome rq details =
     (audit_for ctx ''prediction.execute'' outcome ''PredictionRequest'' rq details)\<lparr>ae_principal_type := tc_principal_type ctx\<rparr>"

definition new_request ::
  "uuid \<Rightarrow> uuid \<Rightarrow> tenant_context \<Rightarrow> string \<Rightarrow> instant \<Rightarrow> string option \<Rightarrow> prediction_request" where
  "new_request rq task ctx reference pt key =
     \<lparr>row_id = rq, row_tenant = None, pq_task = task, pq_reference = reference, pq_time = pt, pq_status = PS_PENDING,
      pq_key = key, pq_principal = tc_principal ctx, pq_correlation = tc_correlation ctx\<rparr>"

text \<open>The part of \<open>predict\<close> inside its \<open>try\<close>, for the request \<open>rq\<close> of a task.\<close>

definition serve ::
  "'w predict_env \<Rightarrow> uuid \<Rightarrow> uuid \<Rightarrow> uuid \<Rightarrow> tenant_context \<Rightarrow> string \<Rightarrow> instant \<Rightarrow> 'z pred_db_scheme \<times> 'w loader \<Rightarrow>
   (exn + response) \<times> 'z pred_db_scheme \<times> 'w loader" where
  "serve env task rq rs ctx reference pt s =
     (case s of (db, ld) \<Rightarrow>
      case get_production_model task ctx db of
        None \<Rightarrow> (Inl (NoProductionModelError (fc_task delivery_delay_risk_contract)), (db, ld))
      | Some m \<Rightarrow>
         (case load_model (pe_store env) (pe_retries env) (pe_limit env) m ld of
            (Inl e, ld1) \<Rightarrow> (Inl e, (db, ld1))
          | (Inr l, ld1) \<Rightarrow>
             (case run_model env l ctx reference pt db of
                (Inl e, db1) \<Rightarrow> (Inl e, (db1, ld1))
              | (Inr (p, xs, version), db1) \<Rightarrow>
                  attempt (ensure (version \<noteq> None) IntegrityError) (db1, ld1) (\<lambda>_.
                  attempt (add_prediction \<lparr>row_id = rs, row_tenant = None, pu_request = rq, pu_model = row_id m, pu_adapter = None,
                      pu_mapping = the version, pu_features = fc_version delivery_delay_risk_contract, pu_probability = p,
                      pu_risk = risk_level_for p, pu_explanations = xs\<rparr> ctx db1) (db1, ld1) (\<lambda>(u, db2).
                    (Inr \<lparr>px_id = row_id u, px_reference = reference, px_probability = p, px_risk = risk_level_for p,
                       px_model = mo_name m, px_features = fc_version delivery_delay_risk_contract, px_time = pt,
                       px_explanations = xs\<rparr>,
                     (audit_record (predict_event ctx SUCCESS rq [(''task_key'', JStr (fc_task delivery_delay_risk_contract)),
                        (''model_version_id'', JUuid (row_id m))]) (set_request rq PS_COMPLETED db2), ld1)))))))"

definition predict ::
  "'w predict_env \<Rightarrow> uuid \<Rightarrow> uuid \<Rightarrow> tenant_context \<Rightarrow> string \<Rightarrow> instant \<Rightarrow> string option \<Rightarrow>
   'z pred_db_scheme \<times> 'w loader \<Rightarrow> (exn + response) \<times> 'z pred_db_scheme \<times> 'w loader" where
  "predict env rq rs ctx reference pt key s =
     (case s of (db, ld) \<Rightarrow>
      attempt (if truthy key then cached_response (the key) ctx db else Inr None) s (\<lambda>cached.
      case cached of
        Some r \<Rightarrow> (Inr r, s)
      | None \<Rightarrow>
          attempt (get_by_task_key (fc_task delivery_delay_risk_contract) db) s (\<lambda>task.
          case task of
            None \<Rightarrow> (Inl (PredictionTaskNotConfiguredError (fc_task delivery_delay_risk_contract)), s)
          | Some t \<Rightarrow>
              attempt (add_request (new_request rq (row_id t) ctx reference pt key) ctx db) s (\<lambda>(q, db1).
              case serve env (row_id t) (row_id q) rs ctx reference pt (db1, ld) of
                (Inr r, s2) \<Rightarrow> (Inr r, s2)
              | (Inl e, (db2, ld2)) \<Rightarrow>
                  (Inl e, (audit_record (predict_event ctx ERROR_OUTCOME (row_id q) []) (set_request (row_id q) PS_FAILED db2), ld2))))))"

subsection \<open>Explanations\<close>

lemma take_sort_least:
  assumes "x \<in> set (take n (sort_key f xs))" and "y \<in> set xs" and "y \<notin> set (take n (sort_key f xs))"
  shows "f x \<le> f y"
proof -
  have "y \<in> set (take n (sort_key f xs)) \<union> set (drop n (sort_key f xs))"
    using assms(2) by (metis append_take_drop_id set_append set_sort)
  with assms(3) have "y \<in> set (drop n (sort_key f xs))" by simp
  moreover have "sorted (map f (take n (sort_key f xs) @ drop n (sort_key f xs)))" by simp
  ultimately show ?thesis using assms(1) by (simp only: map_append sorted_append) auto
qed

lemma contribution_name: "contribution cv features nc = Inr (Some y) \<Longrightarrow> fst y = fst nc"
  by (auto simp: contribution_def split: pyval.splits)

lemma given_names:
  assumes "mapM_r (contribution cv features) coefs = Inr cs" and "distinct (map fst coefs)"
  shows "distinct (map fst (map the (filter (\<lambda>c. c \<noteq> None) cs))) \<and>
    set (map the (filter (\<lambda>c. c \<noteq> None) cs)) = {y. \<exists>nc \<in> set coefs. contribution cv features nc = Inr (Some y)}"
  using assms
proof (induction coefs arbitrary: cs)
  case (Cons nc coefs)
  let ?G = "\<lambda>cs. map the (filter (\<lambda>c. c \<noteq> None) cs)" and ?S = "\<lambda>ncs. {y. \<exists>nc \<in> set ncs. contribution cv features nc = Inr (Some y)}"
  from Cons.prems obtain c ds where c: "contribution cv features nc = Inr c" and cs: "cs = c # ds"
      and ds: "mapM_r (contribution cv features) coefs = Inr ds" by auto
  from Cons.prems(2) have "distinct (map fst coefs)" and new: "fst nc \<notin> fst ` set coefs" by auto
  from Cons.IH [OF ds this(1)] have IH: "distinct (map fst (?G ds))" "set (?G ds) = ?S coefs" by blast+
  show ?case
  proof (cases c)
    case None
    have "?G cs = ?G ds" by (simp add: cs None)
    moreover have "?S (nc # coefs) = ?S coefs" using c None by auto
    ultimately show ?thesis using IH by metis
  next
    case (Some y)
    have G: "?G cs = y # ?G ds" by (simp add: cs Some)
    have y: "fst y = fst nc" using contribution_name c Some by metis
    have a: "fst y \<notin> fst ` ?S coefs"
    proof
      assume "fst y \<in> fst ` ?S coefs"
      then obtain z nc' where z: "fst y = fst z" "nc' \<in> set coefs" "contribution cv features nc' = Inr (Some z)" by blast
      from z(1) contribution_name [OF z(3)] y have "fst nc = fst nc'" by simp
      with z(2) new show False by simp
    qed
    have b: "insert y (?S coefs) = {y. \<exists>nc' \<in> insert nc (set coefs). contribution cv features nc' = Inr (Some y)}"
      using c Some by auto
    have d: "distinct (map fst (y # ?G ds)) = (fst y \<notin> fst ` set (?G ds) \<and> distinct (map fst (?G ds)))"
      by (simp only: list.map distinct.simps set_map)
    show ?thesis unfolding G d list.set(2) IH(2) by (intro conjI a IH(1) b)
  qed
qed simp

lemma generate_explanations_Some:
  assumes "generate_explanations cv (Some coefs) features = Inr xs" and "distinct (map fst coefs)"
  obtains given top where "distinct (map fst given)"
    and "set given = {y. \<exists>nc \<in> set coefs. contribution cv features nc = Inr (Some y)}"
    and "top = take max_explanations (sort_key (\<lambda>nc. - \<bar>snd nc\<bar>) given)"
    and "xs = map explain (filter (\<lambda>nc. snd nc \<noteq> 0) top)"
proof -
  from assms(1) obtain cs where cs: "mapM_r (contribution cv features) coefs = Inr cs"
    and xs: "xs = map explain (filter (\<lambda>nc. snd nc \<noteq> 0) (take max_explanations (sort_key (\<lambda>nc. - \<bar>snd nc\<bar>)
      (map the (filter (\<lambda>c. c \<noteq> None) cs)))))"
    by (auto simp: generate_explanations_def)
  with that given_names [OF cs assms(2)] show ?thesis by blast
qed

lemma xp_factor_explain [simp]: "xp_factor (explain nc) = fst nc" "xp_factor \<circ> explain = fst"
  by (simp_all add: explain_def fun_eq_iff)

lemma distinct_top:
  "distinct (map f xs) \<Longrightarrow> distinct (map f (filter P (take n (sort_key k xs))))"
  unfolding distinct_map by (auto intro!: distinct_filter distinct_take elim!: inj_on_subset dest: in_set_takeD)

text \<open>
  An explanation names what moved the score most. Of the features that have a coefficient and
  a value, at most three are named, each once, with the direction of its contribution and never
  one that contributed nothing; and a feature that contributed but is not named contributed no
  more, in absolute value, than each of the three that are.
\<close>

theorem explanations_name_the_strongest:
  assumes "generate_explanations cv (Some coefs) features = Inr xs" and "distinct (map fst coefs)"
  shows "length xs \<le> 3 \<and> distinct (map xp_factor xs) \<and>
    (\<forall>x \<in> set xs. \<exists>nc \<in> set coefs. \<exists>q. contribution cv features nc = Inr (Some (xp_factor x, q)) \<and> q \<noteq> 0 \<and>
      x = explain (xp_factor x, q)) \<and>
    (\<forall>nc \<in> set coefs. \<forall>n q. contribution cv features nc = Inr (Some (n, q)) \<and> q \<noteq> 0 \<and> n \<notin> xp_factor ` set xs \<longrightarrow>
      length xs = 3 \<and> (\<forall>nc' \<in> set coefs. \<forall>n' q'. contribution cv features nc' = Inr (Some (n', q')) \<and>
        n' \<in> xp_factor ` set xs \<longrightarrow> \<bar>q\<bar> \<le> \<bar>q'\<bar>))"
proof -
  obtain given top where d: "distinct (map fst given)"
    and g: "set given = {y. \<exists>nc \<in> set coefs. contribution cv features nc = Inr (Some y)}"
    and top: "top = take max_explanations (sort_key (\<lambda>nc. - \<bar>snd nc\<bar>) given)"
    and xs: "xs = map explain (filter (\<lambda>nc. snd nc \<noteq> 0) top)"
    by (rule generate_explanations_Some [OF assms])
  let ?named = "filter (\<lambda>nc. snd nc \<noteq> 0) top"
  have len: "length xs \<le> 3"
    using length_filter_le [of "\<lambda>nc. snd nc \<noteq> 0" top] by (simp add: xs top max_explanations_def)
  have dist: "distinct (map xp_factor xs)"
    using distinct_top [OF d] by (simp add: xs top)
  have sub: "set ?named \<subseteq> set given" by (auto simp: top dest: in_set_takeD)
  have sound: "\<exists>nc \<in> set coefs. \<exists>q. contribution cv features nc = Inr (Some (xp_factor x, q)) \<and> q \<noteq> 0 \<and> x = explain (xp_factor x, q)"
    if "x \<in> set xs" for x
  proof -
    from that obtain y where y: "x = explain y" "y \<in> set ?named" by (auto simp: xs)
    with sub g obtain nc where "nc \<in> set coefs" "contribution cv features nc = Inr (Some y)" by blast
    with y show ?thesis by (intro bexI [of _ nc] exI [of _ "snd y"]) simp_all
  qed
  have rest: "length xs = 3 \<and> (\<forall>nc' \<in> set coefs. \<forall>n' q'. contribution cv features nc' = Inr (Some (n', q')) \<and>
      n' \<in> xp_factor ` set xs \<longrightarrow> \<bar>q\<bar> \<le> \<bar>q'\<bar>)"
    if nc: "nc \<in> set coefs" "contribution cv features nc = Inr (Some (n, q))" and q: "q \<noteq> 0" "n \<notin> xp_factor ` set xs" for nc n q
  proof -
    from nc g have in_given: "(n, q) \<in> set given" by blast
    have out: "(n, q) \<notin> set top" using q by (force simp: xs)
    have least: "\<bar>q\<bar> \<le> \<bar>snd y\<bar>" if "y \<in> set top" for y
      using take_sort_least [of y max_explanations "\<lambda>nc. - \<bar>snd nc\<bar>" given "(n, q)"] that in_given out by (simp add: top)
    then have "snd y \<noteq> 0" if "y \<in> set top" for y using that q(1) by fastforce
    then have all: "?named = top" by (simp add: filter_id_conv)
    have "length top = 3"
    proof (rule ccontr)
      assume "length top \<noteq> 3"
      then have "length given \<le> max_explanations" by (simp add: top max_explanations_def min_def split: if_splits)
      then have "set top = set given" by (simp add: top)
      with in_given out show False by simp
    qed
    moreover have "\<bar>q\<bar> \<le> \<bar>q'\<bar>" if nc': "nc' \<in> set coefs" "contribution cv features nc' = Inr (Some (n', q'))" "n' \<in> xp_factor ` set xs"
      for nc' n' q'
    proof -
      from nc' g have "(n', q') \<in> set given" by blast
      moreover from nc'(3) obtain y where y: "y \<in> set top" "fst y = n'" by (auto simp: xs)
      ultimately have "y = (n', q')" using d sub all unfolding distinct_map by (metis fst_conv inj_onD subsetD)
      with least [OF y(1)] show ?thesis by simp
    qed
    ultimately show ?thesis using all by (auto simp: xs)
  qed
  from len dist sound rest show ?thesis by blast
qed

theorem explanations_name_the_strongest_witness:
  "\<exists>xs. generate_explanations no_conv (Some [(''a'', 1), (''b'', - 2), (''c'', 3), (''d'', 1 / 2), (''e'', 7)])
     [(''a'', PInt 1), (''b'', PInt 2), (''c'', PBool True), (''d'', PInt 1), (''e'', PNone)] = Inr xs \<and>
   map xp_factor xs = [''b'', ''c'', ''a''] \<and> length xs \<le> 3 \<and> distinct (map xp_factor xs)"
proof -
  let ?r = "generate_explanations no_conv (Some [(''a'', 1), (''b'', - 2), (''c'', 3), (''d'', 1 / 2), (''e'', 7)])
     [(''a'', PInt 1), (''b'', PInt 2), (''c'', PBool True), (''d'', PInt 1), (''e'', PNone)]"
  have "(case ?r of Inl _ \<Rightarrow> False | Inr xs \<Rightarrow> map xp_factor xs = [''b'', ''c'', ''a''])" by code_simp
  then obtain xs where xs: "?r = Inr xs" "map xp_factor xs = [''b'', ''c'', ''a'']" by (auto split: sum.splits)
  have "distinct (map fst [(''a'', 1 :: rat), (''b'', - 2), (''c'', 3), (''d'', 1 / 2), (''e'', 7)])" by simp
  from explanations_name_the_strongest [OF xs(1) this] have "length xs \<le> 3 \<and> distinct (map xp_factor xs)"
    by (elim conjE) (intro conjI)
  with xs show ?thesis by (intro exI [of _ xs] conjI) blast+
qed

subsection \<open>What serving a prediction leaves unchanged\<close>

lemma quiet_tables:
  assumes "quiet db (db' :: 'z pred_db_scheme)"
  shows "db_models db' = db_models db" and "db_mappings db' = db_mappings db" and "db_tasks db' = db_tasks db"
    and "db_requests db' = db_requests db" and "db_results db' = db_results db" and "db_outcomes db' = db_outcomes db"
    and "\<exists>es. audit_log db' = audit_log db @ es"
  using assms by (auto simp: quiet_def)

lemma engine_for_plane: "engine_for r ctx db = (x, db') \<Longrightarrow> same_plane db db'"
  using same_plane_engine [of db _ ctx]
  by (auto simp: engine_for_def attempt_def split: sum.splits prod.splits) (metis snd_conv)+

lemma relation_records_plane: "relation_records env row ctx pt k spec db = (x, db') \<Longrightarrow> same_plane db db'"
  by (auto simp: relation_records_def attempt_def Let_def split: if_splits sum.splits option.splits prod.splits
      dest: engine_for_plane)

lemma all_relation_records_plane: "all_relation_records env row ctx pt k specs db = (x, db') \<Longrightarrow> same_plane db db'"
proof (induction specs arbitrary: x db db')
  case (Cons spec specs)
  obtain y db1 where y: "relation_records env row ctx pt k spec db = (y, db1)"
    by (cases "relation_records env row ctx pt k spec db")
  obtain z db2 where z: "all_relation_records env row ctx pt k specs db1 = (z, db2)"
    by (cases "all_relation_records env row ctx pt k specs db1")
  from Cons.prems y z show ?case
    using relation_records_plane [OF y] Cons.IH [OF z] by (auto split: sum.splits intro: same_plane_trans)
qed simp

lemma build_example_plane:
  assumes "build_example env reference pt label ctx k db = (x, db')"
  shows "same_plane db db'"
proof (cases "resolve_target_mapping ''Trip'' ctx db")
  case (Inl e)
  with assms show ?thesis by (simp add: build_example_def)
next
  case (Inr target)
  obtain e db1 where e: "engine_for target ctx db = (e, db1)" by (cases "engine_for target ctx db")
  note p1 = engine_for_plane [OF e]
  have "same_plane db1 db'" if "e = Inr ec" for ec
    using assms Inr e that
    by (auto simp: build_example_def attempt_def split: sum.splits option.splits prod.splits dest: all_relation_records_plane)
  with p1 assms Inr e show ?thesis
    by (cases e) (auto simp: build_example_def intro: same_plane_trans)
qed

lemma run_model_quiet: "run_model env l ctx reference pt db = (x, db') \<Longrightarrow> quiet db db'"
  by (auto simp: run_model_def run_hermes_def run_baseline_def split: loaded_model.splits prod.splits sum.splits
      dest!: build_example_plane extract_batch_quiet intro: same_plane_quiet)

subsection \<open>What a prediction is\<close>

lemma scalar_one_or_none_Some: "scalar_one_or_none xs = Inr (Some x) \<longleftrightarrow> xs = [x]"
  by (auto simp: scalar_one_or_none_def split: list.splits)

lemma scalar_one_or_none_None: "scalar_one_or_none xs = Inr None \<longleftrightarrow> xs = []"
  by (auto simp: scalar_one_or_none_def split: list.splits)

lemma add_request_Inr:
  assumes "add_request q ctx db = Inr (q', db')"
  shows "db' = db\<lparr>db_requests := db_requests db @ [q']\<rparr> \<and> q' = q\<lparr>row_tenant := Some (tc_tenant ctx)\<rparr> \<and>
    row_id q \<notin> row_id ` set (db_requests db) \<and>
    (\<forall>k. pq_key q = Some k \<longrightarrow> filter (\<lambda>x. row_tenant x = Some (tc_tenant ctx) \<and> pq_key x = Some k) (db_requests db) = [])"
proof -
  from assms obtain t where t: "repo_add (db_requests db) q ctx = Inr (q', t)"
      and fresh: "\<not> (pq_key q' \<noteq> None \<and> (row_tenant q', pq_key q') \<in> (\<lambda>x. (row_tenant x, pq_key x)) ` set (db_requests db))"
      and db': "db' = db\<lparr>db_requests := t\<rparr>"
    by (auto simp: add_request_def split: if_splits)
  from repo_add_Inr [OF t] have q': "q' = q\<lparr>row_tenant := Some (tc_tenant ctx)\<rparr>" "t = db_requests db @ [q']"
      "row_id q \<notin> row_id ` set (db_requests db)" by auto
  with fresh db' show ?thesis by (auto simp: filter_empty_conv image_iff)
qed

lemma add_prediction_Inr:
  assumes "add_prediction u ctx db = Inr (u', db')"
  shows "db' = db\<lparr>db_results := db_results db @ [u']\<rparr> \<and> u' = u\<lparr>row_tenant := Some (tc_tenant ctx)\<rparr> \<and>
    pu_request u \<notin> pu_request ` set (db_results db)"
proof -
  from assms obtain t where t: "repo_add (db_results db) u ctx = Inr (u', t)"
      and fresh: "pu_request u' \<notin> pu_request ` set (db_results db)" and db': "db' = db\<lparr>db_results := t\<rparr>"
    by (auto simp: add_prediction_def split: if_splits)
  from repo_add_Inr [OF t] fresh db' show ?thesis by auto
qed

text \<open>A version of the target mapping that is in production for the tenant.\<close>

definition in_production :: "tenant_context \<Rightarrow> 'z map_db_scheme \<Rightarrow> uuid \<Rightarrow> bool" where
  "in_production ctx db vid \<longleftrightarrow> (\<exists>m \<in> set (db_mappings db). row_tenant m = Some (tc_tenant ctx) \<and> sm_entity m = ''Trip'' \<and>
     sm_state m = M_ACTIVE \<and> \<not> sm_suspended m \<and> sm_active m = Some vid)"

lemma resolve_target_production:
  assumes "resolve_target_mapping ''Trip'' ctx db = Inr target"
  shows "\<exists>vid. sm_active (rs_mapping target) = Some vid \<and> in_production ctx db vid"
proof -
  have "resolve_mapping ''Trip'' ctx db = Inr (Some target)"
    using assms by (auto simp: resolve_target_mapping_def split: option.splits)
  from resolve_mapping_Some [OF this] obtain m vid where m: "m \<in> set (db_mappings db)"
      "row_tenant m = Some (tc_tenant ctx) \<and> sm_entity m = ''Trip'' \<and> sm_state m = M_ACTIVE \<and> \<not> sm_suspended m \<and> sm_active m = Some vid"
      "rs_mapping target = m" by auto
  then have "in_production ctx db vid" unfolding in_production_def by blast
  with m show ?thesis by simp
qed

lemma build_example_version:
  assumes "build_example env reference pt label ctx k db = (Inr x, db')"
  shows "\<exists>vid. rx_version x = Some vid \<and> in_production ctx db vid"
proof -
  from assms obtain target where t: "resolve_target_mapping ''Trip'' ctx db = Inr target"
    by (auto simp: build_example_def attempt_def split: sum.splits)
  moreover have "rx_version x = sm_active (rs_mapping target)"
    using assms t by (auto simp: build_example_def attempt_def split: sum.splits prod.splits option.splits)
  ultimately show ?thesis using resolve_target_production by metis
qed

lemma extract_batch_version:
  assumes "extract_batch env delivery_delay_risk_contract ctx reference pt db = (Inr b, db')"
  shows "in_production ctx db (ln_target_version (fb_lineage b))"
proof -
  have "fc_target delivery_delay_risk_contract = ''Trip''" by (simp add: delivery_delay_risk_contract_def)
  with extract_batch_Inr [OF assms] obtain target where "resolve_target_mapping ''Trip'' ctx db = Inr target"
      "sm_active (rs_mapping target) = Some (ln_target_version (fb_lineage b))" by auto
  with resolve_target_production show ?thesis by fastforce
qed

lemma run_model_version:
  "run_model env l ctx reference pt db = (Inr (p, xs, version), db') \<Longrightarrow> \<exists>vid. version = Some vid \<and> in_production ctx db vid"
  by (auto simp: run_model_def run_hermes_def run_baseline_def split: loaded_model.splits prod.splits sum.splits
      dest!: build_example_version extract_batch_version)

lemma serve_Inr:
  assumes "serve env task rq rs ctx reference pt (db, ld) = (Inr r, (db', ld'))"
  obtains m l p xs vid db1 u where "get_production_model task ctx db = Some m"
    and "load_model (pe_store env) (pe_retries env) (pe_limit env) m ld = (Inr l, ld')"
    and "run_model env l ctx reference pt db = (Inr (p, xs, Some vid), db1)"
    and "u = \<lparr>row_id = rs, row_tenant = Some (tc_tenant ctx), pu_request = rq, pu_model = row_id m, pu_adapter = None,
      pu_mapping = vid, pu_features = fc_version delivery_delay_risk_contract, pu_probability = p,
      pu_risk = risk_level_for p, pu_explanations = xs\<rparr>"
    and "rq \<notin> pu_request ` set (db_results db1)"
    and "r = \<lparr>px_id = rs, px_reference = reference, px_probability = p, px_risk = risk_level_for p, px_model = mo_name m,
      px_features = fc_version delivery_delay_risk_contract, px_time = pt, px_explanations = xs\<rparr>"
    and "db' = audit_record (predict_event ctx SUCCESS rq [(''task_key'', JStr (fc_task delivery_delay_risk_contract)),
      (''model_version_id'', JUuid (row_id m))]) (set_request rq PS_COMPLETED (db1\<lparr>db_results := db_results db1 @ [u]\<rparr>))"
proof -
  note run = assms [unfolded serve_def prod.case]
  from run obtain m where m: "get_production_model task ctx db = Some m" by (auto split: option.splits)
  note run1 = run [unfolded m option.case]
  obtain x ld1 where x: "load_model (pe_store env) (pe_retries env) (pe_limit env) m ld = (x, ld1)"
    by (cases "load_model (pe_store env) (pe_retries env) (pe_limit env) m ld")
  from run1 x obtain l where l: "x = Inr l" by (cases x) auto
  note run2 = run1 [unfolded x l prod.case sum.case]
  obtain y db1 where y: "run_model env l ctx reference pt db = (y, db1)" by (cases "run_model env l ctx reference pt db")
  from run2 y obtain p xs version where pxs: "y = Inr (p, xs, version)" by (cases y) auto
  note run3 = run2 [unfolded y pxs prod.case sum.case attempt_Inr_iff ensure_iff]
  then obtain vid where vid: "version = Some vid" by auto
  from run3 vid obtain u db2 where u: "add_prediction \<lparr>row_id = rs, row_tenant = None, pu_request = rq, pu_model = row_id m,
        pu_adapter = None, pu_mapping = vid, pu_features = fc_version delivery_delay_risk_contract, pu_probability = p,
        pu_risk = risk_level_for p, pu_explanations = xs\<rparr> ctx db1 = Inr (u, db2)"
      and r: "r = \<lparr>px_id = row_id u, px_reference = reference, px_probability = p, px_risk = risk_level_for p, px_model = mo_name m,
        px_features = fc_version delivery_delay_risk_contract, px_time = pt, px_explanations = xs\<rparr>"
      and db': "db' = audit_record (predict_event ctx SUCCESS rq [(''task_key'', JStr (fc_task delivery_delay_risk_contract)),
        (''model_version_id'', JUuid (row_id m))]) (set_request rq PS_COMPLETED db2)"
      and ld': "ld' = ld1" by auto
  show ?thesis
    using add_prediction_Inr [OF u] x [unfolded l] y [unfolded pxs vid] r db' by (intro that [OF m]) (simp_all add: ld')
qed

lemma predict_Inr:
  assumes "predict env rq rs ctx reference pt key (db, ld) = (Inr r, s')"
  obtains (cached) "truthy key" "cached_response (the key) ctx db = Inr (Some r)" "s' = (db, ld)"
  | (served) t q where "get_by_task_key (fc_task delivery_delay_risk_contract) db = Inr (Some t)"
      "truthy key \<Longrightarrow> cached_response (the key) ctx db = Inr None"
      "q = (new_request rq (row_id t) ctx reference pt key)\<lparr>row_tenant := Some (tc_tenant ctx)\<rparr>"
      "rq \<notin> row_id ` set (db_requests db)"
      "\<And>k. key = Some k \<Longrightarrow> filter (\<lambda>x. row_tenant x = Some (tc_tenant ctx) \<and> pq_key x = Some k) (db_requests db) = []"
      "serve env (row_id t) rq rs ctx reference pt (db\<lparr>db_requests := db_requests db @ [q]\<rparr>, ld) = (Inr r, s')"
proof -
  note run = assms [unfolded predict_def prod.case attempt_Inr_iff]
  then obtain c where c: "(if truthy key then cached_response (the key) ctx db else Inr None) = Inr c"
    and rest: "(case c of Some r \<Rightarrow> (Inr r, (db, ld)) | None \<Rightarrow>
          attempt (get_by_task_key (fc_task delivery_delay_risk_contract) db) (db, ld) (\<lambda>task.
          case task of
            None \<Rightarrow> (Inl (PredictionTaskNotConfiguredError (fc_task delivery_delay_risk_contract)), (db, ld))
          | Some t \<Rightarrow>
              attempt (add_request (new_request rq (row_id t) ctx reference pt key) ctx db) (db, ld) (\<lambda>(q, db1).
              case serve env (row_id t) (row_id q) rs ctx reference pt (db1, ld) of
                (Inr r, s2) \<Rightarrow> (Inr r, s2)
              | (Inl e, (db2, ld2)) \<Rightarrow>
                  (Inl e, (audit_record (predict_event ctx ERROR_OUTCOME (row_id q) []) (set_request (row_id q) PS_FAILED db2), ld2))))) =
        (Inr r, s')" by blast
  show ?thesis
  proof (cases c)
    case (Some x)
    with c rest cached show ?thesis by (auto split: if_splits)
  next
    case None
    from rest [unfolded None option.case attempt_Inr_iff] obtain t where
        t: "get_by_task_key (fc_task delivery_delay_risk_contract) db = Inr (Some t)"
      and rest2: "attempt (add_request (new_request rq (row_id t) ctx reference pt key) ctx db) (db, ld) (\<lambda>(q, db1).
              case serve env (row_id t) (row_id q) rs ctx reference pt (db1, ld) of
                (Inr r, s2) \<Rightarrow> (Inr r, s2)
              | (Inl e, (db2, ld2)) \<Rightarrow>
                  (Inl e, (audit_record (predict_event ctx ERROR_OUTCOME (row_id q) []) (set_request (row_id q) PS_FAILED db2), ld2))) =
        (Inr r, s')" by (auto split: option.splits)
    then obtain qd where qd: "add_request (new_request rq (row_id t) ctx reference pt key) ctx db = Inr qd"
      unfolding attempt_Inr_iff by blast
    obtain q db1 where "qd = (q, db1)" by (cases qd)
    with qd have q: "add_request (new_request rq (row_id t) ctx reference pt key) ctx db = Inr (q, db1)" by simp
    obtain y db2 ld2 where y: "serve env (row_id t) (row_id q) rs ctx reference pt (db1, ld) = (y, (db2, ld2))"
      by (rule prod_cases3)
    have sv: "serve env (row_id t) (row_id q) rs ctx reference pt (db1, ld) = (Inr r, s')"
      using rest2 q y by (cases y) simp_all
    note a = add_request_Inr [OF q]
    then have q': "q = (new_request rq (row_id t) ctx reference pt key)\<lparr>row_tenant := Some (tc_tenant ctx)\<rparr>"
      and db1: "db1 = db\<lparr>db_requests := db_requests db @ [q]\<rparr>" by auto
    have id: "row_id q = rq" by (simp add: q' new_request_def)
    show ?thesis
    proof (rule served [OF t _ q'])
      show "cached_response (the key) ctx db = Inr None" if "truthy key" using c None that by simp
      show "rq \<notin> row_id ` set (db_requests db)" using a by (simp add: new_request_def)
      show "filter (\<lambda>x. row_tenant x = Some (tc_tenant ctx) \<and> pq_key x = Some k) (db_requests db) = []" if "key = Some k" for k
        using a that by (simp add: new_request_def)
      show "serve env (row_id t) rq rs ctx reference pt (db\<lparr>db_requests := db_requests db @ [q]\<rparr>, ld) = (Inr r, s')"
        using sv id db1 by simp
    qed
  qed
qed

lemma set_request_last:
  assumes "rq \<notin> row_id ` set qs" and "row_id q = rq"
  shows "row_set (qs @ [q]) rq f = qs @ [f q]"
  using assms unfolding row_set_def by (auto intro!: map_idI) (metis rev_image_eqI)

lemma set_request_frame [simp]:
  "db_results (set_request i st db) = db_results db" "db_models (set_request i st db) = db_models db"
  "db_mappings (set_request i st db) = db_mappings db" "db_tasks (set_request i st db) = db_tasks db"
  "db_outcomes (set_request i st db) = db_outcomes db" "audit_log (set_request i st db) = audit_log db"
  "db_requests (set_request i st db) = row_set (db_requests db) i (\<lambda>q. q\<lparr>pq_status := st\<rparr>)"
  by (simp_all add: set_request_def)

lemma audit_record_requests [simp]:
  "db_requests (audit_record e db) = db_requests db" "db_results (audit_record e db) = db_results db"
  "db_models (audit_record e (db' :: 'z pred_db_scheme)) = db_models db'" "db_tasks (audit_record e db) = db_tasks db"
  "db_outcomes (audit_record e db) = db_outcomes db"
  by (simp_all add: audit_record_def)

text \<open>The rows a served prediction adds.\<close>

definition done_request :: "uuid \<Rightarrow> uuid \<Rightarrow> tenant_context \<Rightarrow> string \<Rightarrow> instant \<Rightarrow> string option \<Rightarrow> prediction_request" where
  "done_request rq task ctx reference pt key =
     (new_request rq task ctx reference pt key)\<lparr>row_tenant := Some (tc_tenant ctx), pq_status := PS_COMPLETED\<rparr>"

definition result_row :: "uuid \<Rightarrow> uuid \<Rightarrow> tenant_context \<Rightarrow> uuid \<Rightarrow> uuid \<Rightarrow> rat \<Rightarrow> explanation list \<Rightarrow> prediction_result" where
  "result_row rs rq ctx mid vid p xs =
     \<lparr>row_id = rs, row_tenant = Some (tc_tenant ctx), pu_request = rq, pu_model = mid, pu_adapter = None, pu_mapping = vid,
      pu_features = fc_version delivery_delay_risk_contract, pu_probability = p, pu_risk = risk_level_for p, pu_explanations = xs\<rparr>"

definition response_of :: "prediction_request \<Rightarrow> prediction_result \<Rightarrow> string \<Rightarrow> response" where
  "response_of q u name = \<lparr>px_id = row_id u, px_reference = pq_reference q, px_probability = pu_probability u, px_risk = pu_risk u,
     px_model = name, px_features = pu_features u, px_time = pq_time q, px_explanations = pu_explanations u\<rparr>"

lemma predict_served:
  assumes "predict env rq rs ctx reference pt key (db, ld) = (Inr r, (db', ld'))"
    and "truthy key \<Longrightarrow> cached_response (the key) ctx db \<noteq> Inr (Some r) \<or> (db', ld') \<noteq> (db, ld)"
  obtains t m l p xs vid where "get_by_task_key (fc_task delivery_delay_risk_contract) db = Inr (Some t)"
    and "m \<in> set (db_models db)" and "may_serve (row_id t) ctx m"
    and "load_model (pe_store env) (pe_retries env) (pe_limit env) m ld = (Inr l, ld')" and "in_production ctx db vid"
    and "\<exists>db1. run_model env l ctx reference pt
      (db\<lparr>db_requests := db_requests db @ [(done_request rq (row_id t) ctx reference pt key)\<lparr>pq_status := PS_PENDING\<rparr>]\<rparr>) =
      (Inr (p, xs, Some vid), db1)"
    and "db_requests db' = db_requests db @ [done_request rq (row_id t) ctx reference pt key]"
    and "db_results db' = db_results db @ [result_row rs rq ctx (row_id m) vid p xs]"
    and "r = response_of (done_request rq (row_id t) ctx reference pt key) (result_row rs rq ctx (row_id m) vid p xs) (mo_name m)"
    and "\<exists>es. audit_log db' = audit_log db @ es @ [predict_event ctx SUCCESS rq
      [(''task_key'', JStr (fc_task delivery_delay_risk_contract)), (''model_version_id'', JUuid (row_id m))]]"
    and "db_models db' = db_models db" and "db_mappings db' = db_mappings db"
    and "rq \<notin> row_id ` set (db_requests db)" and "rq \<notin> pu_request ` set (db_results db)"
    and "\<And>k. key = Some k \<Longrightarrow> filter (\<lambda>x. row_tenant x = Some (tc_tenant ctx) \<and> pq_key x = Some k) (db_requests db) = []"
  using assms(1)
proof (cases rule: predict_Inr)
  case cached
  with assms show ?thesis by blast
next
  case (served t q)
  let ?db0 = "db\<lparr>db_requests := db_requests db @ [q]\<rparr>"
  from served(6) show ?thesis
  proof (cases rule: serve_Inr)
    case (1 m l p xs vid db1 u)
    note q = quiet_tables [OF run_model_quiet [OF 1(3)]]
    have m: "m \<in> set (db_models db)" "may_serve (row_id t) ctx m"
      using production_model_Some [OF 1(1)] by simp_all
    obtain w where w: "in_production ctx ?db0 vid" using run_model_version [OF 1(3)] by blast
    have u: "u = result_row rs rq ctx (row_id m) vid p xs" by (simp add: 1(4) result_row_def)
    have dq: "q\<lparr>pq_status := PS_COMPLETED\<rparr> = done_request rq (row_id t) ctx reference pt key" "row_id q = rq"
      by (simp_all add: served(3) done_request_def new_request_def)
    obtain es where es: "audit_log db1 = audit_log db @ es" using q(7) by auto
    show ?thesis
    proof (rule that [OF served(1) m 1(2), of vid p xs])
      show "in_production ctx db vid" using w by (simp add: in_production_def)
      have "(done_request rq (row_id t) ctx reference pt key)\<lparr>pq_status := PS_PENDING\<rparr> = q"
        by (simp add: served(3) done_request_def new_request_def)
      with 1(3) show "\<exists>db1. run_model env l ctx reference pt
          (db\<lparr>db_requests := db_requests db @ [(done_request rq (row_id t) ctx reference pt key)\<lparr>pq_status := PS_PENDING\<rparr>]\<rparr>) =
          (Inr (p, xs, Some vid), db1)" by auto
      show "db_requests db' = db_requests db @ [done_request rq (row_id t) ctx reference pt key]"
        using set_request_last [OF served(4) dq(2)] by (simp add: 1(7) q dq)
      show "db_results db' = db_results db @ [result_row rs rq ctx (row_id m) vid p xs]" by (simp add: 1(7) q u)
      show "r = response_of (done_request rq (row_id t) ctx reference pt key) (result_row rs rq ctx (row_id m) vid p xs) (mo_name m)"
        by (simp add: 1(6) response_of_def done_request_def new_request_def result_row_def)
      show "\<exists>es. audit_log db' = audit_log db @ es @ [predict_event ctx SUCCESS rq
          [(''task_key'', JStr (fc_task delivery_delay_risk_contract)), (''model_version_id'', JUuid (row_id m))]]"
        by (intro exI [of _ es]) (simp add: 1(7) es)
      show "db_models db' = db_models db" "db_mappings db' = db_mappings db" by (simp_all add: 1(7) q)
      show "rq \<notin> row_id ` set (db_requests db)" using served(4) .
      show "rq \<notin> pu_request ` set (db_results db)" using 1(5) by (simp add: q)
      show "filter (\<lambda>x. row_tenant x = Some (tc_tenant ctx) \<and> pq_key x = Some k) (db_requests db) = []" if "key = Some k" for k
        using served(5) [OF that] .
    qed
  qed
qed

subsection \<open>Idempotency\<close>

text \<open>
  The steps between two calls: predictions of any caller, operations of the registry, and any
  other work on the control plane that keeps the models, requests and results, among them a
  request that is rolled back.
\<close>

inductive serving_step :: "'z pred_db_scheme \<times> 'w loader \<Rightarrow> 'z pred_db_scheme \<times> 'w loader \<Rightarrow> bool" where
  ss_predict: "serving_step s (snd (predict env rq rs ctx reference pt key s))"
| ss_registry: "reg_step caller db db' \<Longrightarrow> serving_step (db, ld) (db', ld)"
| ss_other: "db_models db' = db_models db \<Longrightarrow> db_requests db' = db_requests db \<Longrightarrow> db_results db' = db_results db \<Longrightarrow>
    serving_step (db, ld) (db', ld')"

inductive serving_run :: "'z pred_db_scheme \<times> 'w loader \<Rightarrow> 'z pred_db_scheme \<times> 'w loader \<Rightarrow> bool" where
  sr_refl: "serving_run s s"
| sr_step: "serving_run s s' \<Longrightarrow> serving_step s' s'' \<Longrightarrow> serving_run s s''"

text \<open>What is stored for a key: one completed request with one result, of a model that exists.\<close>

definition stored_as :: "uuid \<Rightarrow> string \<Rightarrow> response \<Rightarrow> 'z pred_db_scheme \<Rightarrow> bool" where
  "stored_as c k r db \<longleftrightarrow> (\<exists>q u m.
     filter (\<lambda>x. row_tenant x = Some c \<and> pq_key x = Some k) (db_requests db) = [q] \<and> pq_status q = PS_COMPLETED \<and>
     filter (\<lambda>x. row_tenant x = Some c \<and> pu_request x = row_id q) (db_results db) = [u] \<and>
     session_get (db_models db) (pu_model u) = Some m \<and> r = response_of q u (mo_name m))"

lemma stored_as_cached: "stored_as (tc_tenant ctx) k r db \<Longrightarrow> cached_response k ctx db = Inr (Some r)"
  by (auto simp: stored_as_def cached_response_def get_by_idempotency_key_def get_by_request_id_def scalar_one_or_none_def
      response_of_def)

lemma stored_as_replayed:
  "stored_as (tc_tenant ctx) k r db \<Longrightarrow> k \<noteq> [] \<Longrightarrow> predict env rq rs ctx reference pt (Some k) (db, ld) = (Inr r, (db, ld))"
  by (simp add: predict_def truthy_def stored_as_cached)

lemma serve_failed:
  assumes "serve env task rq rs ctx reference pt (db, ld) = (Inl e, (db', ld'))"
  shows "quiet db db'"
  using assms
  by (auto simp: serve_def attempt_def split: option.splits prod.splits sum.splits dest: run_model_quiet)

text \<open>What any call of \<open>predict\<close> does to the tables.\<close>

definition adds_request ::
  "uuid \<Rightarrow> tenant_context \<Rightarrow> string option \<Rightarrow> 'z pred_db_scheme \<Rightarrow> 'z pred_db_scheme \<Rightarrow> bool" where
  "adds_request rq ctx key db db' \<longleftrightarrow> (\<exists>q us. db_requests db' = db_requests db @ [q] \<and> row_id q = rq \<and>
     row_tenant q = Some (tc_tenant ctx) \<and> pq_key q = key \<and> pq_status q \<in> {PS_COMPLETED, PS_FAILED} \<and>
     db_results db' = db_results db @ us \<and> (pq_status q = PS_FAILED \<longrightarrow> us = []) \<and>
     (\<forall>u \<in> set us. pu_request u = rq \<and> row_tenant u = Some (tc_tenant ctx) \<and> pu_model u \<in> row_id ` set (db_models db)) \<and>
     rq \<notin> row_id ` set (db_requests db) \<and>
     (\<forall>k. key = Some k \<longrightarrow> filter (\<lambda>x. row_tenant x = Some (tc_tenant ctx) \<and> pq_key x = Some k) (db_requests db) = []))"

lemma predict_Inl:
  assumes "predict env rq rs ctx reference pt key (db, ld) = (Inl e, (db', ld'))"
  shows "(db', ld') = (db, ld) \<or> (adds_request rq ctx key db db' \<and> db_results db' = db_results db \<and> db_models db' = db_models db \<and>
    (\<exists>q. db_requests db' = db_requests db @ [q] \<and> pq_status q = PS_FAILED) \<and>
    (\<exists>es. audit_log db' = audit_log db @ es \<and> es \<noteq> [] \<and> last es = predict_event ctx ERROR_OUTCOME rq []))"
proof (cases "(db', ld') = (db, ld)")
  case False
  from assms False obtain t :: task_definition and q db1 db2 ld2 where
      q: "add_request (new_request rq (row_id t) ctx reference pt key) ctx db = Inr (q, db1)"
    and sv: "serve env (row_id t) (row_id q) rs ctx reference pt (db1, ld) = (Inl e, (db2, ld2))"
    and db': "db' = audit_record (predict_event ctx ERROR_OUTCOME (row_id q) []) (set_request (row_id q) PS_FAILED db2)"
    by (auto simp: predict_def attempt_def split: if_splits option.splits prod.splits sum.splits)
  note a = add_request_Inr [OF q]
  then have q': "q = (new_request rq (row_id t) ctx reference pt key)\<lparr>row_tenant := Some (tc_tenant ctx)\<rparr>"
    and db1: "db1 = db\<lparr>db_requests := db_requests db @ [q]\<rparr>" by auto
  have fields: "row_id q = rq" "row_tenant q = Some (tc_tenant ctx)" "pq_key q = key" by (simp_all add: q' new_request_def)
  have fresh: "rq \<notin> row_id ` set (db_requests db)" and
    keys: "\<And>k. key = Some k \<Longrightarrow> filter (\<lambda>x. row_tenant x = Some (tc_tenant ctx) \<and> pq_key x = Some k) (db_requests db) = []"
    using a by (simp_all add: new_request_def)
  note t = quiet_tables [OF serve_failed [OF sv]]
  let ?q = "q\<lparr>pq_status := PS_FAILED\<rparr>"
  have req: "db_requests db' = db_requests db @ [?q]"
    using set_request_last [OF fresh fields(1)] by (simp add: db' t db1 fields(1))
  have res: "db_results db' = db_results db" and models: "db_models db' = db_models db" by (simp_all add: db' t db1)
  obtain es where "audit_log db2 = audit_log db @ es" using t(7) by (auto simp: db1)
  then have "\<exists>es. audit_log db' = audit_log db @ es \<and> es \<noteq> [] \<and> last es = predict_event ctx ERROR_OUTCOME rq []"
    by (intro exI [of _ "es @ [predict_event ctx ERROR_OUTCOME rq []]"]) (simp add: db' fields)
  moreover have "adds_request rq ctx key db db'" unfolding adds_request_def
    by (intro exI [of _ ?q] exI [of _ "[]"]) (use req res fields fresh keys in simp)
  moreover have "\<exists>q. db_requests db' = db_requests db @ [q] \<and> pq_status q = PS_FAILED"
    by (intro exI [of _ ?q]) (use req in simp)
  ultimately show ?thesis using res models by blast
qed simp

lemma predict_effect:
  assumes "predict env rq rs ctx reference pt key (db, ld) = (x, (db', ld'))"
  shows "db_models db' = db_models db \<and>
    ((db_requests db' = db_requests db \<and> db_results db' = db_results db) \<or> adds_request rq ctx key db db')"
proof (cases x)
  case (Inl e)
  with assms have "predict env rq rs ctx reference pt key (db, ld) = (Inl e, (db', ld'))" by simp
  from predict_Inl [OF this] show ?thesis by auto
next
  case (Inr r)
  with assms have p: "predict env rq rs ctx reference pt key (db, ld) = (Inr r, (db', ld'))" by simp
  show ?thesis
  proof (cases "(db', ld') = (db, ld)")
    case False
    then have nc: "truthy key \<Longrightarrow> cached_response (the key) ctx db \<noteq> Inr (Some r) \<or> (db', ld') \<noteq> (db, ld)" by simp
    show ?thesis
    proof (rule predict_served [OF p nc])
      fix t m l p xs vid
      assume "m \<in> set (db_models db)" "db_requests db' = db_requests db @ [done_request rq (row_id t) ctx reference pt key]"
        "db_results db' = db_results db @ [result_row rs rq ctx (row_id m) vid p xs]" "rq \<notin> row_id ` set (db_requests db)"
        "\<And>k. key = Some k \<Longrightarrow> filter (\<lambda>x. row_tenant x = Some (tc_tenant ctx) \<and> pq_key x = Some k) (db_requests db) = []"
      then have "adds_request rq ctx key db db'" unfolding adds_request_def
        by (intro exI [of _ "done_request rq (row_id t) ctx reference pt key"] exI [of _ "[result_row rs rq ctx (row_id m) vid p xs]"])
          (simp add: done_request_def new_request_def result_row_def)
      moreover assume "db_models db' = db_models db"
      ultimately show ?thesis by simp
    qed
  qed simp
qed

lemma scalar_one_or_none_single [simp]: "scalar_one_or_none [x] = Inr (Some x)"
  by (simp add: scalar_one_or_none_def)

lemma cached_response_Some:
  assumes "cached_response k ctx db = Inr (Some r)"
  obtains q u where "filter (\<lambda>x. row_tenant x = Some (tc_tenant ctx) \<and> pq_key x = Some k) (db_requests db) = [q]"
    and "pq_status q = PS_COMPLETED" and "filter (\<lambda>x. row_tenant x = Some (tc_tenant ctx) \<and> pu_request x = row_id q) (db_results db) = [u]"
    and "r = response_of q u (case session_get (db_models db) (pu_model u) of Some m \<Rightarrow> mo_name m | None \<Rightarrow> ''unknown'')"
proof -
  from assms obtain found where found: "get_by_idempotency_key k ctx db = Inr found" unfolding cached_response_def by auto
  note run = assms [unfolded cached_response_def found rbind_simps]
  then obtain q where q: "found = Some q" by (cases found) simp_all
  with run have dn: "pq_status q = PS_COMPLETED" by (cases "pq_status q = PS_COMPLETED") simp_all
  with run q obtain res where res: "get_by_request_id (row_id q) ctx db = Inr res" by auto
  from run q dn res obtain u where u: "res = Some u" by (cases res) simp_all
  show ?thesis
    by (rule that [of q u]) (use found q dn res u run in
        \<open>simp_all add: get_by_idempotency_key_def get_by_request_id_def scalar_one_or_none_Some response_of_def\<close>)
qed

lemma stored_as_cong:
  "db_models db' = db_models db \<Longrightarrow> db_requests db' = db_requests db \<Longrightarrow> db_results db' = db_results db \<Longrightarrow>
    stored_as c k r db' = stored_as c k r db"
  by (simp add: stored_as_def)

lemma stored_as_adds:
  assumes "stored_as c k r db" and "db_models db' = db_models db" and "adds_request rq ctx key db db'"
  shows "stored_as c k r db'"
proof -
  from assms(1) obtain q u m where q: "filter (\<lambda>x. row_tenant x = Some c \<and> pq_key x = Some k) (db_requests db) = [q]"
      "pq_status q = PS_COMPLETED" and u: "filter (\<lambda>x. row_tenant x = Some c \<and> pu_request x = row_id q) (db_results db) = [u]"
      and m: "session_get (db_models db) (pu_model u) = Some m" "r = response_of q u (mo_name m)"
    by (auto simp: stored_as_def)
  from assms(3) obtain p us where p: "db_requests db' = db_requests db @ [p]" "row_tenant p = Some (tc_tenant ctx)" "pq_key p = key"
      and us: "db_results db' = db_results db @ us" "\<And>x. x \<in> set us \<Longrightarrow> pu_request x = rq"
      and rq: "rq \<notin> row_id ` set (db_requests db)"
      and keys: "\<And>k. key = Some k \<Longrightarrow> filter (\<lambda>x. row_tenant x = Some (tc_tenant ctx) \<and> pq_key x = Some k) (db_requests db) = []"
    unfolding adds_request_def by blast
  from q(1) have "q \<in> set (filter (\<lambda>x. row_tenant x = Some c \<and> pq_key x = Some k) (db_requests db))" by simp
  then have "q \<in> set (db_requests db)" by simp
  with rq have "row_id q \<noteq> rq" by blast
  then have "filter (\<lambda>x. row_tenant x = Some c \<and> pu_request x = row_id q) us = []" using us(2) by (auto simp: filter_empty_conv)
  moreover have "\<not> (row_tenant p = Some c \<and> pq_key p = Some k)" using q(1) keys [of k] p by auto
  ultimately show ?thesis unfolding stored_as_def
    by (intro exI [of _ q] exI [of _ u] exI [of _ m]) (use q u m p us assms(2) in simp)
qed

text \<open>The registry keeps the names of models, and the tables of the prediction service.\<close>

lemma reg_effect_tables:
  fixes db :: "'z pred_db_scheme"
  assumes "reg_effect caller db db'"
  shows "db_requests db' = db_requests db \<and> db_results db' = db_results db"
  using assms by (cases rule: reg_effect.cases) (simp_all add: audit_record_def set_model_def set_adapter_def)

lemma reg_effect_names:
  assumes "reg_effect caller db db'" and "session_get (db_models db) i = Some m"
  shows "\<exists>m'. session_get (db_models db') i = Some m' \<and> mo_name m' = mo_name m"
  using assms
proof (cases rule: reg_effect.cases)
  case (re_register x e)
  with assms(2) show ?thesis by (simp add: audit_record_def session_get_extend)
next
  case (re_stage mid x t e)
  with assms(2) show ?thesis by (auto simp: audit_record_def set_model_def session_get_row_set)
next
  case (re_off mid x e)
  with assms(2) show ?thesis by (auto simp: audit_record_def set_model_def session_get_row_set)
qed (use assms(2) in \<open>simp_all add: audit_record_def set_adapter_def\<close>)

lemma reg_effect_ids:
  assumes "reg_effect caller db db'" and "distinct (map row_id (db_models db))"
  shows "distinct (map row_id (db_models db')) \<and> row_id ` set (db_models db) \<subseteq> row_id ` set (db_models db')"
proof -
  have ids: "row_id ` set (row_set t i f) = row_id ` set t" if "\<And>x :: model_version. row_id (f x) = row_id x" for t i f
    using row_set_ids [of f t i] that by (metis list.set_map)
  from assms(1) show ?thesis
    by (cases rule: reg_effect.cases) (use assms(2) in \<open>auto simp: audit_record_def set_model_def set_adapter_def ids\<close>)
qed

text \<open>The foreign key of results, and the primary key of models.\<close>

definition models_exist :: "'z pred_db_scheme \<Rightarrow> bool" where
  "models_exist db \<longleftrightarrow> distinct (map row_id (db_models db)) \<and> pu_model ` set (db_results db) \<subseteq> row_id ` set (db_models db)"

lemma serving_step_kept:
  assumes "serving_step (db, ld) (db', ld')" and "models_exist db"
  shows "models_exist db' \<and> (stored_as c k r db \<longrightarrow> stored_as c k r db')"
  using assms(1)
proof (cases rule: serving_step.cases)
  case (ss_predict env rq rs ctx reference pt key)
  obtain x where "predict env rq rs ctx reference pt key (db, ld) = (x, (db', ld'))"
    using ss_predict by (metis prod.collapse)
  note e = predict_effect [OF this]
  then have "models_exist db'"
    using assms(2) unfolding models_exist_def adds_request_def by (elim conjE disjE exE) (simp, auto)
  moreover have "stored_as c k r db'" if "stored_as c k r db"
    using e stored_as_cong [of db' db c k r] stored_as_adds [OF that] that by blast
  ultimately show ?thesis by blast
next
  case (ss_registry caller)
  note e = reg_step_effect [OF ss_registry(2)]
  have "stored_as c k r db'" if "stored_as c k r db"
  proof -
    from that obtain q u m where s: "filter (\<lambda>x. row_tenant x = Some c \<and> pq_key x = Some k) (db_requests db) = [q]"
        "pq_status q = PS_COMPLETED" "filter (\<lambda>x. row_tenant x = Some c \<and> pu_request x = row_id q) (db_results db) = [u]"
        "session_get (db_models db) (pu_model u) = Some m" "r = response_of q u (mo_name m)"
      by (auto simp: stored_as_def)
    with reg_effect_names [OF e] obtain m' where "session_get (db_models db') (pu_model u) = Some m'" "mo_name m' = mo_name m" by blast
    with s reg_effect_tables [OF e] show ?thesis unfolding stored_as_def
      by (intro exI [of _ q] exI [of _ u] exI [of _ m']) simp
  qed
  moreover have "models_exist db'"
    using reg_effect_ids [OF e] reg_effect_tables [OF e] assms(2) unfolding models_exist_def by (metis subset_trans)
  ultimately show ?thesis by blast
next
  case ss_other
  with assms(2) show ?thesis by (simp add: models_exist_def stored_as_def)
qed

lemma serving_run_kept:
  "serving_run s s' \<Longrightarrow> models_exist (fst s) \<Longrightarrow> models_exist (fst s') \<and> (stored_as c k r (fst s) \<longrightarrow> stored_as c k r (fst s'))"
proof (induction rule: serving_run.induct)
  case (sr_step s s' s'')
  then show ?case using serving_step_kept [of "fst s'" "snd s'" "fst s''" "snd s''"] by simp
qed simp

lemma predict_stores:
  assumes "predict env rq rs ctx reference pt (Some k) (db, ld) = (Inr r, (db', ld'))" and "k \<noteq> []" and "models_exist db"
  shows "stored_as (tc_tenant ctx) k r db'"
proof (cases "cached_response k ctx db = Inr (Some r) \<and> (db', ld') = (db, ld)")
  case True
  then have "cached_response k ctx db = Inr (Some r)" by blast
  then obtain q u where q: "filter (\<lambda>x. row_tenant x = Some (tc_tenant ctx) \<and> pq_key x = Some k) (db_requests db) = [q]"
      "pq_status q = PS_COMPLETED" and u: "filter (\<lambda>x. row_tenant x = Some (tc_tenant ctx) \<and> pu_request x = row_id q) (db_results db) = [u]"
      and r: "r = response_of q u (case session_get (db_models db) (pu_model u) of Some m \<Rightarrow> mo_name m | None \<Rightarrow> ''unknown'')"
    by (rule cached_response_Some)
  from u have "u \<in> set (filter (\<lambda>x. row_tenant x = Some (tc_tenant ctx) \<and> pu_request x = row_id q) (db_results db))" by simp
  then have "pu_model u \<in> row_id ` set (db_models db)" using assms(3) by (auto simp: models_exist_def)
  then obtain m where "session_get (db_models db) (pu_model u) = Some m" using session_get_None by (metis not_None_eq)
  with q u r True show ?thesis by (auto simp: stored_as_def)
next
  case False
  then have nc: "truthy (Some k) \<Longrightarrow> cached_response (the (Some k)) ctx db \<noteq> Inr (Some r) \<or> (db', ld') \<noteq> (db, ld)" by auto
  show ?thesis
  proof (rule predict_served [OF assms(1) nc])
    fix t :: task_definition and m :: model_version and l p xs vid
    let ?q = "done_request rq (row_id t) ctx reference pt (Some k)" and ?u = "result_row rs rq ctx (row_id m) vid p xs"
    assume m: "m \<in> set (db_models db)" and q: "db_requests db' = db_requests db @ [?q]" and u: "db_results db' = db_results db @ [?u]"
      and r: "r = response_of ?q ?u (mo_name m)" and kept: "db_models db' = db_models db" and fresh: "rq \<notin> pu_request ` set (db_results db)"
      and keys: "\<And>k'. Some k = Some k' \<Longrightarrow>
        filter (\<lambda>x. row_tenant x = Some (tc_tenant ctx) \<and> pq_key x = Some k') (db_requests db) = []"
    have f: "row_id ?q = rq" "row_tenant ?q = Some (tc_tenant ctx)" "pq_key ?q = Some k" "pq_status ?q = PS_COMPLETED"
        "row_tenant ?u = Some (tc_tenant ctx)" "pu_request ?u = rq" "pu_model ?u = row_id m"
      by (simp_all add: done_request_def new_request_def result_row_def)
    have "filter (\<lambda>x. row_tenant x = Some (tc_tenant ctx) \<and> pu_request x = rq) (db_results db) = []"
      using fresh by (auto simp: filter_empty_conv)
    moreover have "session_get (db_models db) (row_id m) = Some m"
      using session_get_distinct m assms(3) by (auto simp: models_exist_def)
    ultimately show ?thesis unfolding stored_as_def
      by (intro exI [of _ ?q] exI [of _ ?u] exI [of _ m]) (simp add: q u kept r f keys)
  qed
qed

text \<open>
  C13: answers are replayed for their key. Once a prediction with a nonempty key is answered, then
  after any number of further predictions by anyone, of operations of the registry, even ones
  that archive the model, and of other work, the same tenant asking again with that key gets
  the same answer, and the call changes nothing; the payload of the second call is not looked at.
\<close>

theorem answers_are_replayed:
  assumes "serving_run (db0, ld0) (db, ld)" and "db_models db0 = []" and "db_results db0 = []"
    and "predict env rq rs ctx reference pt (Some k) (db, ld) = (Inr r, s1)" and "k \<noteq> []"
    and "serving_run s1 (db2, ld2)" and "tc_tenant ctx' = tc_tenant ctx"
  shows "predict env' rq' rs' ctx' reference' pt' (Some k) (db2, ld2) = (Inr r, (db2, ld2))"
proof -
  have ok: "models_exist db" using serving_run_kept [OF assms(1)] assms(2,3) by (simp add: models_exist_def)
  obtain db1 ld1 where s1: "s1 = (db1, ld1)" by (cases s1)
  from assms(4) s1 have stored: "stored_as (tc_tenant ctx) k r db1" using predict_stores ok assms(5) by blast
  have "serving_run (db, ld) s1" using sr_step [OF sr_refl ss_predict, of "(db, ld)" env rq rs ctx reference pt "Some k"] assms(4) by simp
  from serving_run_kept [OF this] ok s1 have "models_exist db1" by simp
  with serving_run_kept [OF assms(6)] stored s1 have "stored_as (tc_tenant ctx') k r db2" using assms(7) by simp
  then show ?thesis using stored_as_replayed assms(5) by blast
qed

subsection \<open>A prediction is governed\<close>

text \<open>
  How an answer comes about: the target mapping resolved has the version \<open>vid\<close>; a baseline is
  given the features extracted for the reference at the time, each as a number or as missing, in
  the order of the contract, and a transformer the positions that encode the example read; the
  probability is what the loaded model says for that, and the explanations are of its own coefficients.
\<close>

definition answers_with ::
  "'w predict_env \<Rightarrow> loaded_model \<Rightarrow> tenant_context \<Rightarrow> string \<Rightarrow> instant \<Rightarrow> 'z map_db_scheme \<Rightarrow> uuid \<Rightarrow> rat \<Rightarrow>
   explanation list \<Rightarrow> bool" where
  "answers_with env l ctx reference pt db vid p xs \<longleftrightarrow>
     (\<exists>target. resolve_target_mapping ''Trip'' ctx db = Inr target \<and> sm_active (rs_mapping target) = Some vid) \<and>
     (case l of
        LoadedModel _ h \<Rightarrow> \<exists>b db1 row imp.
          extract_batch (extract_env.truncate env) delivery_delay_risk_contract ctx reference pt db = (Inr b, db1) \<and>
          ln_target_version (fb_lineage b) = vid \<and>
          list_all2 (\<lambda>n v. case v of None \<Rightarrow> row_get (fb_features b) n = PNone
            | Some q \<Rightarrow> py_float (xe_conv env) (row_get (fb_features b) n) = Inr q) feature_names row \<and>
          pe_proba env h row = Inr p \<and> feature_importance (pe_coefs env h) = Inr imp \<and>
          generate_explanations (xe_conv env) imp (fb_features b) = Inr xs
      | LoadedHermesRPT _ h \<Rightarrow> \<exists>x db1 positions.
          build_example (context_env.truncate env) reference pt None ctx (fst (pe_config env h)) db = (Inr x, db1) \<and>
          rx_version x = Some vid \<and>
          encode_example (xe_conv env) (pe_str env) (pe_digest env) (fst (pe_config env h)) (snd (pe_config env h)) x = Inr positions \<and>
          pe_hermes env h positions = Inr p \<and> xs = [])"

lemma mapM_r_list_all2: "mapM_r f xs = Inr ys \<longleftrightarrow> list_all2 (\<lambda>x y. f x = Inr y) xs ys"
proof (induction xs arbitrary: ys)
  case (Cons x xs)
  then show ?case by (cases ys) (auto simp: rbind_Inr_iff)
qed auto

lemma feature_row_values:
  assumes "feature_row cv features = Inr row"
  shows "list_all2 (\<lambda>n v. case v of None \<Rightarrow> row_get features n = PNone
    | Some q \<Rightarrow> py_float cv (row_get features n) = Inr q) feature_names row"
  using assms unfolding feature_row_def mapM_r_list_all2
  by (rule list_all2_mono) (auto split: pyval.splits option.splits)

lemma run_model_answers:
  assumes "run_model env l ctx reference pt db = (Inr (p, xs, Some vid), db')"
  shows "answers_with env l ctx reference pt db vid p xs"
proof (cases l)
  case (LoadedModel i h)
  with assms have run: "run_baseline env h ctx reference pt db = (Inr (p, xs, Some vid), db')" by (simp add: run_model_def)
  then obtain b db1 where x: "extract_batch (extract_env.truncate env) delivery_delay_risk_contract ctx reference pt db = (Inr b, db1)"
    by (auto simp: run_baseline_def split: prod.splits sum.splits)
  with run obtain row imp where r: "feature_row (xe_conv env) (fb_features b) = Inr row" "pe_proba env h row = Inr p"
      "feature_importance (pe_coefs env h) = Inr imp" "generate_explanations (xe_conv env) imp (fb_features b) = Inr xs"
      "ln_target_version (fb_lineage b) = vid"
    by (auto simp: run_baseline_def)
  have "fc_target delivery_delay_risk_contract = ''Trip''" by (simp add: delivery_delay_risk_contract_def)
  with extract_batch_Inr [OF x] r(5) have
      "\<exists>target. resolve_target_mapping ''Trip'' ctx db = Inr target \<and> sm_active (rs_mapping target) = Some vid"
    by auto
  with x r feature_row_values [OF r(1)] LoadedModel show ?thesis unfolding answers_with_def by auto
next
  case (LoadedHermesRPT i h)
  with assms have run: "run_hermes env h ctx reference pt db = (Inr (p, xs, Some vid), db')" by (simp add: run_model_def)
  obtain k vocab where c: "pe_config env h = (k, vocab)" by (cases "pe_config env h")
  from run c obtain x db1 where x: "build_example (context_env.truncate env) reference pt None ctx k db = (Inr x, db1)"
    by (auto simp: run_hermes_def split: prod.splits sum.splits)
  with run c obtain positions where e: "encode_example (xe_conv env) (pe_str env) (pe_digest env) k vocab x = Inr positions"
      "pe_hermes env h positions = Inr p" "xs = []" "rx_version x = Some vid"
    by (auto simp: run_hermes_def generate_explanations_def)
  from x obtain target where t: "resolve_target_mapping ''Trip'' ctx db = Inr target"
    by (auto simp: build_example_def attempt_def split: sum.splits)
  moreover have "rx_version x = sm_active (rs_mapping target)"
    using x t by (auto simp: build_example_def attempt_def split: sum.splits prod.splits option.splits)
  ultimately show ?thesis using x e c LoadedHermesRPT unfolding answers_with_def by auto
qed

text \<open>
  The life of a serving process: it starts with an empty cache on a database whose models have
  distinct identifiers; it answers predictions of anyone, with its own store, retries and
  limit; meanwhile the registry is operated on by anyone, the world changes, and so does
  the rest of the control plane. The worlds in which it was asked to predict are kept.
\<close>

inductive process_run ::
  "'w model_store \<Rightarrow> retry_config \<Rightarrow> int \<Rightarrow> 'w list \<Rightarrow> 'z pred_db_scheme \<Rightarrow> 'w loader \<Rightarrow> bool"
  for st :: "'w model_store" and cfg :: retry_config and limit :: int where
  pr_start: "distinct (map row_id (db_models db)) \<Longrightarrow> ld_cache ld = [] \<Longrightarrow> process_run st cfg limit [] db ld"
| pr_predict: "process_run st cfg limit ws db ld \<Longrightarrow> pe_store env = st \<Longrightarrow> pe_retries env = cfg \<Longrightarrow> pe_limit env = limit \<Longrightarrow>
    predict env rq rs ctx reference pt key (db, ld) = (x, (db', ld')) \<Longrightarrow> process_run st cfg limit (ws @ [ld_world ld]) db' ld'"
| pr_registry: "process_run st cfg limit ws db ld \<Longrightarrow> reg_step caller db db' \<Longrightarrow> process_run st cfg limit ws db' ld"
| pr_other: "process_run st cfg limit ws db ld \<Longrightarrow> db_models db' = db_models db \<Longrightarrow>
    process_run st cfg limit ws db' (ld\<lparr>ld_world := w\<rparr>)"

lemma serve_loader:
  assumes "serve env task rq rs ctx reference pt (db, ld) = (x, (db', ld'))"
  shows "ld' = ld \<or> (\<exists>m \<in> set (db_models db). ld' = snd (load_model (pe_store env) (pe_retries env) (pe_limit env) m ld))"
proof (cases "get_production_model task ctx db")
  case None
  with assms show ?thesis by (simp add: serve_def)
next
  case (Some m)
  then have m: "m \<in> set (db_models db)" using production_model_Some [OF Some] by blast
  obtain r ld1 where l: "load_model (pe_store env) (pe_retries env) (pe_limit env) m ld = (r, ld1)"
    by (cases "load_model (pe_store env) (pe_retries env) (pe_limit env) m ld")
  with assms Some have "ld' = ld1"
    by (auto simp: serve_def attempt_def split: sum.splits prod.splits)
  with l m show ?thesis by (intro disjI2 bexI [of _ m]) simp_all
qed

lemma predict_loader:
  assumes "predict env rq rs ctx reference pt key (db, ld) = (x, (db', ld'))"
  shows "ld' = ld \<or> (\<exists>m \<in> set (db_models db). ld' = snd (load_model (pe_store env) (pe_retries env) (pe_limit env) m ld))"
proof (rule ccontr)
  assume no: "\<not> ?thesis"
  then obtain t :: task_definition and q db1 y db2 ld2 where
      q: "add_request (new_request rq (row_id t) ctx reference pt key) ctx db = Inr (q, db1)"
    and sv: "serve env (row_id t) (row_id q) rs ctx reference pt (db1, ld) = (y, (db2, ld2))" and ld': "ld' = ld2"
    using assms by (auto simp: predict_def attempt_def split: if_splits option.splits prod.splits sum.splits)
  from add_request_Inr [OF q] have "db_models db1 = db_models db" by simp
  with serve_loader [OF sv] ld' no show False by simp
qed

lemma same_artifact_fields [simp]:
  "same_artifact m m" "same_artifact m (m\<lparr>mo_stage := t\<rparr>)" "same_artifact m (m\<lparr>mo_live := b\<rparr>)"
  by (simp_all add: same_artifact_def)

lemma reg_effect_artifacts:
  assumes "reg_effect caller db db'" and "m \<in> set (db_models db)"
  shows "\<exists>m' \<in> set (db_models db'). same_artifact m m'"
proof -
  have keep: "\<exists>m' \<in> set (row_set t i f). same_artifact m m'"
    if "m \<in> set t" "\<And>x. same_artifact x (f x)" for t i and f :: "model_version \<Rightarrow> model_version"
    using that by (auto simp: row_set_def same_artifact_def)
  show ?thesis
    using assms(1) by (cases rule: reg_effect.cases)
      (use assms(2) in \<open>auto simp: audit_record_def set_model_def set_adapter_def intro!: keep
        intro: bexI [of _ m]\<close>)
qed

text \<open>What a process was asked to load are versions the registry has, with the artifact they have now.\<close>

definition calls_known :: "'w list \<Rightarrow> model_version list \<Rightarrow> (model_version \<times> 'w) list \<Rightarrow> bool" where
  "calls_known ws ms calls \<longleftrightarrow> (\<forall>(m, w) \<in> set calls. w \<in> set ws \<and> (\<exists>m' \<in> set ms. same_artifact m m'))"

lemma calls_known_trans:
  assumes "calls_known ws ms calls" and "\<And>m. m \<in> set ms \<Longrightarrow> \<exists>m' \<in> set ms'. same_artifact m m'"
  shows "calls_known ws ms' calls"
  using assms unfolding calls_known_def same_artifact_def by fastforce

lemma process_run_calls:
  "process_run st cfg limit ws db ld \<Longrightarrow>
    distinct (map row_id (db_models db)) \<and> (\<exists>calls. loader_run st cfg limit calls ld \<and> calls_known ws (db_models db) calls)"
proof (induction rule: process_run.induct)
  case (pr_start db ld)
  then show ?case by (intro conjI exI [of _ "[]"]) (simp_all add: lr_new calls_known_def)
next
  case (pr_predict ws db ld env rq rs ctx reference pt key x db' ld')
  then obtain calls where c: "loader_run st cfg limit calls ld" "calls_known ws (db_models db) calls" by blast
  have models: "db_models db' = db_models db" using predict_effect [OF pr_predict.hyps(5)] by blast
  from predict_loader [OF pr_predict.hyps(5)] show ?case
  proof
    assume "ld' = ld"
    with c models pr_predict.IH show ?case by (auto simp: calls_known_def)
  next
    assume "\<exists>m \<in> set (db_models db). ld' = snd (load_model (pe_store env) (pe_retries env) (pe_limit env) m ld)"
    then obtain m where m: "m \<in> set (db_models db)" "ld' = snd (load_model st cfg limit m ld)" using pr_predict.hyps by auto
    have "calls_known (ws @ [ld_world ld]) (db_models db) (calls @ [(m, ld_world ld)])"
      using c(2) m(1) unfolding calls_known_def by (fastforce simp: same_artifact_def)
    with lr_load [OF c(1), of m] m(2) models pr_predict.IH show ?case by auto
  qed
next
  case (pr_registry ws db ld caller db')
  note e = reg_step_effect [OF pr_registry.hyps(2)]
  from pr_registry.IH reg_effect_ids [OF e] have "distinct (map row_id (db_models db'))" by blast
  with pr_registry.IH calls_known_trans reg_effect_artifacts [OF e] show ?case by metis
next
  case (pr_other ws db ld db' w)
  then show ?case using lr_world by fastforce
qed

text \<open>A model the process hands out for a version of the registry was verified for that row.\<close>

lemma process_load_verified:
  assumes "process_run st cfg limit ws db ld" and "m \<in> set (db_models db)"
    and "load_model st cfg limit m ld = (Inr l, ld')"
  shows "\<exists>w0 w. w0 \<in> set (ws @ [ld_world ld]) \<and> tried st m w0 w \<and> loaded_verified st limit m l w"
proof -
  from process_run_calls [OF assms(1)] obtain calls where d: "distinct (map row_id (db_models db))"
    and run: "loader_run st cfg limit calls ld" and known: "calls_known ws (db_models db) calls" by blast
  have same: "same_artifact m' m" if "(m', w) \<in> set calls" "row_id m' = row_id m" for m' w
  proof -
    from known that obtain x where x: "x \<in> set (db_models db)" "same_artifact m' x" by (auto simp: calls_known_def)
    with that(2) have "row_id x = row_id m" by (simp add: same_artifact_def)
    with d x(1) assms(2) have "x = m" by (metis distinct_map inj_onD)
    with x show ?thesis by simp
  qed
  from load_model_verified [OF assms(3)] show ?thesis
  proof (elim disjE conjE)
    assume "dict_get (ld_cache ld) (row_id m) = Some l"
    from loader_cache_verified [OF run this] obtain m' w0 w where m': "row_id m' = row_id m" "(m', w0) \<in> set calls"
        "tried st m' w0 w" "loaded_verified st limit m' l w"
      by (auto simp: loaded_by_call_def)
    note s = same_artifact_load [OF same [OF m'(2,1)]]
    from m'(2) known have "w0 \<in> set ws" by (auto simp: calls_known_def)
    with m' show ?thesis unfolding s by (intro exI [of _ w0] exI [of _ w]) simp
  qed auto
qed

text \<open>
  C3: a prediction is governed. When a process, whatever it lived through, serves a prediction, and
  does not replay it for its key: the model in the registry is in production, live, and shared or
  the caller's own. The model used was loaded, in one of the worlds the process was asked to predict
  in or one it retried in from there, after that very row's artifact had the registered checksum. The
  probability is what that model says of the data read through a version of the target mapping that is in
  production for the tenant. Exactly one request, completed, and one result for it are added,
  with that probability, its risk level, the model and the mapping version; the response says
  the same; the last audit event records it; and models and mappings stay as they are.
\<close>

theorem prediction_is_governed:
  assumes "process_run (pe_store env) (pe_retries env) (pe_limit env) ws db ld"
    and "predict env rq rs ctx reference pt key (db, ld) = (Inr r, (db', ld'))"
    and "\<not> truthy key \<or> cached_response (the key) ctx db = Inr None"
  shows "\<exists>t m l w0 w vid p xs q u es. get_by_task_key ''delivery-delay-risk'' db = Inr (Some t) \<and> m \<in> set (db_models db) \<and>
    may_serve (row_id t) ctx m \<and> w0 \<in> set (ws @ [ld_world ld]) \<and> tried (pe_store env) m w0 w \<and>
    loaded_verified (pe_store env) (pe_limit env) m l w \<and> in_production ctx db vid \<and>
    answers_with env l ctx reference pt (db\<lparr>db_requests := db_requests db @ [q\<lparr>pq_status := PS_PENDING\<rparr>]\<rparr>) vid p xs \<and>
    db_requests db' = db_requests db @ [q] \<and> row_tenant q = Some (tc_tenant ctx) \<and> pq_status q = PS_COMPLETED \<and>
    pq_principal q = tc_principal ctx \<and> pq_key q = key \<and>
    db_results db' = db_results db @ [u] \<and> row_tenant u = Some (tc_tenant ctx) \<and> pu_request u = row_id q \<and>
    pu_model u = row_id m \<and> pu_mapping u = vid \<and> pu_probability u = p \<and> pu_explanations u = xs \<and> pu_risk u = risk_level_for p \<and>
    r = response_of q u (mo_name m) \<and> px_probability r = p \<and> px_risk r = risk_level_for p \<and> px_explanations r = xs \<and>
    px_reference r = reference \<and> px_time r = pt \<and>
    audit_log db' = audit_log db @ es \<and> es \<noteq> [] \<and> ae_action (last es) = ''prediction.execute'' \<and>
    ae_outcome (last es) = SUCCESS \<and> ae_resource_id (last es) = Some (row_id q) \<and>
    db_models db' = db_models db \<and> db_mappings db' = db_mappings db"
proof -
  have k: "fc_task delivery_delay_risk_contract = ''delivery-delay-risk''" by (simp add: delivery_delay_risk_contract_def)
  have nc: "truthy key \<Longrightarrow> cached_response (the key) ctx db \<noteq> Inr (Some r) \<or> (db', ld') \<noteq> (db, ld)" using assms(3) by auto
  show ?thesis
  proof (rule predict_served [OF assms(2) nc])
    fix t m l p xs vid
    assume t: "get_by_task_key (fc_task delivery_delay_risk_contract) db = Inr (Some t)"
      and m: "m \<in> set (db_models db)" "may_serve (row_id t) ctx m"
      and load: "load_model (pe_store env) (pe_retries env) (pe_limit env) m ld = (Inr l, ld')" and vid: "in_production ctx db vid"
      and run: "\<exists>db1. run_model env l ctx reference pt
        (db\<lparr>db_requests := db_requests db @ [(done_request rq (row_id t) ctx reference pt key)\<lparr>pq_status := PS_PENDING\<rparr>]\<rparr>) =
        (Inr (p, xs, Some vid), db1)"
      and q: "db_requests db' = db_requests db @ [done_request rq (row_id t) ctx reference pt key]"
      and u: "db_results db' = db_results db @ [result_row rs rq ctx (row_id m) vid p xs]"
      and r: "r = response_of (done_request rq (row_id t) ctx reference pt key) (result_row rs rq ctx (row_id m) vid p xs) (mo_name m)"
      and log: "\<exists>es. audit_log db' = audit_log db @ es @ [predict_event ctx SUCCESS rq
        [(''task_key'', JStr (fc_task delivery_delay_risk_contract)), (''model_version_id'', JUuid (row_id m))]]"
      and kept: "db_models db' = db_models db" "db_mappings db' = db_mappings db"
    let ?q = "done_request rq (row_id t) ctx reference pt key" and ?u = "result_row rs rq ctx (row_id m) vid p xs"
    obtain w0 w where w: "w0 \<in> set (ws @ [ld_world ld])" "tried (pe_store env) m w0 w"
        "loaded_verified (pe_store env) (pe_limit env) m l w"
      using process_load_verified [OF assms(1) m(1) load] by blast
    from run have answer: "answers_with env l ctx reference pt (db\<lparr>db_requests := db_requests db @ [?q\<lparr>pq_status := PS_PENDING\<rparr>]\<rparr>) vid p xs"
      using run_model_answers by blast
    from log obtain es where es: "audit_log db' = audit_log db @ es" "es \<noteq> []" "ae_action (last es) = ''prediction.execute''"
        "ae_outcome (last es) = SUCCESS" "ae_resource_id (last es) = Some rq"
      by (auto simp: predict_event_def)
    have fields: "row_id ?q = rq" "row_tenant ?q = Some (tc_tenant ctx)" "pq_status ?q = PS_COMPLETED" "pq_principal ?q = tc_principal ctx"
        "pq_key ?q = key" "row_tenant ?u = Some (tc_tenant ctx)" "pu_request ?u = rq" "pu_model ?u = row_id m" "pu_mapping ?u = vid"
        "pu_probability ?u = p" "pu_explanations ?u = xs" "pu_risk ?u = risk_level_for p" "px_probability r = p" "px_explanations r = xs"
        "px_risk r = risk_level_for p" "px_reference r = reference" "px_time r = pt"
      by (simp_all add: r done_request_def new_request_def result_row_def response_of_def)
    show ?thesis
      by (intro exI [of _ t] exI [of _ m] exI [of _ l] exI [of _ w0] exI [of _ w] exI [of _ vid] exI [of _ p] exI [of _ xs]
          exI [of _ ?q] exI [of _ ?u] exI [of _ es])
        (simp only: fields t [unfolded k] m w answer vid q u r [symmetric] es kept, simp)
  qed
qed

subsection \<open>What is extracted can be served\<close>

text \<open>The features of an extraction are, one by one, those of the contract.\<close>

lemma extract_features_each:
  fixes db :: "'z map_db_scheme"
  assumes "extract_features env row related ctx pt fs x db = (Inr y, db')"
    and "distinct (map fst (ex_values x) @ map fs_name fs)"
  shows "\<exists>zs. ex_values y = ex_values x @ zs \<and> list_all2 (\<lambda>f z. fst z = fs_name f \<and>
    (\<exists>r db1 db2. extract_feature env row related ctx pt f db1 = (Inr r, db2 :: 'z map_db_scheme) \<and> snd z = fr_value r)) fs zs"
  using assms
proof (induction fs arbitrary: x db)
  case (Cons f fs)
  from Cons.prems(1) obtain r db1 where r: "extract_feature env row related ctx pt f db = (Inr r, db1)"
      and rest: "extract_features env row related ctx pt fs (add_result f r x) db1 = (Inr y, db')"
    by (auto split: prod.splits sum.splits)
  have "fs_name f \<notin> fst ` set (ex_values x)" using Cons.prems(2) by auto
  then have vals: "ex_values (add_result f r x) = ex_values x @ [(fs_name f, fr_value r)]" by (simp add: dict_put_append)
  with Cons.prems(2) have "distinct (map fst (ex_values (add_result f r x)) @ map fs_name fs)" by auto
  from Cons.IH [OF rest this] vals obtain zs where "ex_values y = ex_values x @ (fs_name f, fr_value r) # zs"
      "list_all2 (\<lambda>f z. fst z = fs_name f \<and> (\<exists>r db1 db2. extract_feature env row related ctx pt f db1 =
        (Inr r, db2 :: 'z map_db_scheme) \<and> snd z = fr_value r)) fs zs" by auto
  with r show ?case by (intro exI [of _ "(fs_name f, fr_value r) # zs"]) auto
qed simp

lemma extract_feature_normalized:
  "extract_feature env row related ctx pt f db = (Inr r, db') \<Longrightarrow> \<exists>raw. normalize (xe_conv env) f raw = Inr (fr_value r)"
  by (auto simp: extract_feature_def extract_related_feature_def extract_target_feature_def attempt_def Let_def
      some_value_def no_value_def split: if_splits sum.splits option.splits prod.splits)

lemma extract_feature_derived:
  assumes "extract_feature env row related ctx pt f db = (Inr r, db')" and "fs_kind f = DERIVED_FROM_TARGET"
    and "fs_type f = FT_INTEGER" and "fs_missing f = MV_NULL"
  shows "fs_derive f = Some ''hour_of_day'' \<Longrightarrow> fr_value r \<in> insert PNone (PInt ` {0..<24})"
    and "fs_derive f = Some ''day_of_week'' \<Longrightarrow> fr_value r \<in> insert PNone (PInt ` {0..<7})"
proof -
  from assms(1,2) obtain raw sec d where d: "apply_derive (xe_conv env) (the (fs_derive f)) raw sec pt = Inr d"
      and n: "normalize (xe_conv env) f d = Inr (fr_value r)"
    by (auto simp: extract_feature_def extract_target_feature_def is_related_def Let_def some_value_def)
  have hour: "hour_of_day v \<in> insert PNone (PInt ` {0..<24})" and day: "day_of_week v \<in> insert PNone (PInt ` {0..<7})" for v
    by (auto simp: hour_of_day_def day_of_week_def split: option.split)
  show "fr_value r \<in> insert PNone (PInt ` {0..<24})" if "fs_derive f = Some ''hour_of_day''"
  proof -
    from d that obtain v where "d = hour_of_day v" by (auto simp: apply_derive_def)
    with hour [of v] show ?thesis by (intro normalize_keeps_integers [OF n assms(3,4)]) simp
  qed
  show "fr_value r \<in> insert PNone (PInt ` {0..<7})" if "fs_derive f = Some ''day_of_week''"
  proof -
    from d that obtain v where "d = day_of_week v" by (auto simp: apply_derive_def)
    with day [of v] show ?thesis by (intro normalize_keeps_integers [OF n assms(3,4)]) simp
  qed
qed

definition number_of :: "pyval \<Rightarrow> rat option" where
  "number_of v = (case v of PInt i \<Rightarrow> Some (of_int i) | PFloat q \<Rightarrow> Some q | _ \<Rightarrow> None)"

text \<open>The input a feature may give a model: missing only if it is declared so, whole numbers for integers, hours and days in range.\<close>

definition model_input :: "feature_spec \<Rightarrow> rat option \<Rightarrow> bool" where
  "model_input f v \<longleftrightarrow> (v = None \<longrightarrow> fs_missing f = MV_NULL) \<and>
     (fs_type f = FT_INTEGER \<longrightarrow> v \<in> insert None ((\<lambda>i :: int. Some (of_int i)) ` UNIV)) \<and>
     (fs_derive f = Some ''hour_of_day'' \<longrightarrow> v \<in> insert None ((\<lambda>i :: int. Some (of_int i)) ` {0..<24})) \<and>
     (fs_derive f = Some ''day_of_week'' \<longrightarrow> v \<in> insert None ((\<lambda>i :: int. Some (of_int i)) ` {0..<7}))"

lemma shipped_features:
  "f \<in> set (fc_features delivery_delay_risk_contract) \<Longrightarrow> fs_type f \<noteq> FT_BOOLEAN \<and> fs_missing f \<noteq> MV_CONSTANT \<and>
    (fs_derive f = Some ''hour_of_day'' \<or> fs_derive f = Some ''day_of_week'' \<longrightarrow>
      fs_kind f = DERIVED_FROM_TARGET \<and> fs_type f = FT_INTEGER \<and> fs_missing f = MV_NULL)"
proof -
  have "list_all (\<lambda>f. fs_type f \<noteq> FT_BOOLEAN \<and> fs_missing f \<noteq> MV_CONSTANT \<and>
    (fs_derive f = Some ''hour_of_day'' \<or> fs_derive f = Some ''day_of_week'' \<longrightarrow>
      fs_kind f = DERIVED_FROM_TARGET \<and> fs_type f = FT_INTEGER \<and> fs_missing f = MV_NULL)) (fc_features delivery_delay_risk_contract)"
    by code_simp
  then show "f \<in> set (fc_features delivery_delay_risk_contract) \<Longrightarrow> ?thesis" by (simp add: list_all_iff)
qed

lemma shipped_names: "distinct (map fs_name (fc_features delivery_delay_risk_contract))"
  by code_simp

lemma feature_value_number:
  assumes "feature_value f v" and "fs_type f \<noteq> FT_BOOLEAN" and "fs_missing f \<noteq> MV_CONSTANT"
  shows "(case v of PNone \<Rightarrow> Inr None | v \<Rightarrow> rbind (py_float cv v) (\<lambda>q. Inr (Some q))) = Inr (number_of v)"
    and "number_of v = None \<Longrightarrow> fs_missing f = MV_NULL"
    and "fs_type f = FT_INTEGER \<Longrightarrow> number_of v \<in> insert None ((\<lambda>i :: int. Some (of_int i)) ` UNIV)"
  using assms by (auto simp: feature_value_def number_of_def py_float_def split: pyval.splits)

text \<open>
  C25: what is extracted can be served. Whatever a customer's database answered, the features of a
  successful extraction for the shipped contract make an input of a baseline: the conversion to
  numbers never fails, gives one entry per feature in the contract's order, each exactly the number
  extracted, missing just where the value is missing, and that only for features declared so; integer
  features give whole numbers, the hour of departure is one of 0 to 23, the day of the week one of 0 to 6.
\<close>

theorem extracted_features_can_be_served:
  fixes db :: "'z map_db_scheme"
  assumes "extract_batch env delivery_delay_risk_contract ctx reference pt db = (Inr b, db')"
  shows "\<exists>row. feature_row (xe_conv env) (fb_features b) = Inr row \<and>
    list_all2 model_input (fc_features delivery_delay_risk_contract) row \<and>
    list_all2 (\<lambda>n v. v = number_of (row_get (fb_features b) n) \<and> (v = None \<longleftrightarrow> row_get (fb_features b) n = PNone)) feature_names row"
proof -
  let ?fs = "fc_features delivery_delay_risk_contract"
  from extract_batch_Inr [OF assms] obtain row related x and db1 db2 :: "'z map_db_scheme" where
      fs: "extract_features env row related ctx pt ?fs \<lparr>ex_values = [], ex_missing = [], ex_versions = []\<rparr> db1 = (Inr x, db2)"
      and b: "fb_features b = ex_values x" by blast
  have "distinct (map fst (ex_values \<lparr>ex_values = [], ex_missing = [], ex_versions = []\<rparr>) @ map fs_name ?fs)"
    using shipped_names by simp
  from extract_features_each [OF fs this] obtain zs where zs: "ex_values x = zs" and each: "list_all2 (\<lambda>f z. fst z = fs_name f \<and>
      (\<exists>r db1 db2. extract_feature env row related ctx pt f db1 = (Inr r, db2 :: 'z map_db_scheme) \<and> snd z = fr_value r)) ?fs zs"
    by auto
  have names: "map fst zs = feature_names"
    using each unfolding feature_names_def by (induction rule: list_all2_induct) auto
  have get: "row_get zs (fst z) = snd z" if "z \<in> set zs" for z
  proof -
    have "distinct (map fst zs)" using shipped_names names by (simp add: feature_names_def)
    with that have "map_of zs (fst z) = Some (snd z)" by simp
    then show ?thesis by (simp add: row_get_def dict_get_def)
  qed
  have ok: "feature_value f (snd z) \<and> model_input f (number_of (snd z))"
    if f: "f \<in> set ?fs" and "\<exists>r db1 db2. extract_feature env row related ctx pt f db1 = (Inr r, db2 :: 'z map_db_scheme) \<and> snd z = fr_value r" for f z
  proof -
    from that(2) obtain r db1 db2 where r: "extract_feature env row related ctx pt f db1 = (Inr r, db2 :: 'z map_db_scheme)" and z: "snd z = fr_value r"
      by blast
    note sh = shipped_features [OF f]
    have v: "feature_value f (snd z)" using extract_feature_normalized [OF r] normalize_feature_value z by auto
    note num = feature_value_number [OF v conjunct1 [OF sh] conjunct1 [OF conjunct2 [OF sh]]]
    have "number_of (snd z) \<in> insert None ((\<lambda>i :: int. Some (of_int i)) ` {0..<24})" if "fs_derive f = Some ''hour_of_day''"
      using extract_feature_derived(1) [OF r] sh that z by (auto simp: number_of_def)
    moreover have "number_of (snd z) \<in> insert None ((\<lambda>i :: int. Some (of_int i)) ` {0..<7})" if "fs_derive f = Some ''day_of_week''"
      using extract_feature_derived(2) [OF r] sh that z by (auto simp: number_of_def)
    ultimately show ?thesis using v num(2,3) unfolding model_input_def by blast
  qed
  let ?row = "map (number_of \<circ> snd) zs"
  have typed: "list_all2 (\<lambda>f z. feature_value f (snd z) \<and> model_input f (number_of (snd z))) ?fs zs"
    using each by (rule list.rel_mono_strong) (use ok in blast)
  have num: "(case snd z of PNone \<Rightarrow> Inr None | v \<Rightarrow> rbind (py_float (xe_conv env) v) (\<lambda>q. Inr (Some q))) = Inr (number_of (snd z)) \<and>
      (number_of (snd z) = None \<longleftrightarrow> snd z = PNone)" if "z \<in> set zs" for z
  proof -
    from that obtain i where i: "i < length zs" "z = zs ! i" by (auto simp: in_set_conv_nth)
    with typed have "i < length ?fs" "feature_value (?fs ! i) (snd z)" by (simp_all add: list_all2_conv_all_nth)
    then obtain f where f: "f \<in> set ?fs" "feature_value f (snd z)" using nth_mem by blast
    note sh = shipped_features [OF f(1)]
    from feature_value_number(1) [OF f(2)] f(2) sh show ?thesis
      by (auto simp: feature_value_def number_of_def split: pyval.splits)
  qed
  have "feature_row (xe_conv env) zs = Inr ?row"
    unfolding feature_row_def names [symmetric] mapM_r_list_all2 list.rel_map
    by (rule list.rel_refl_strong) (use get num in simp)
  moreover have "list_all2 model_input ?fs ?row"
    unfolding list.rel_map comp_def by (rule list_all2_mono [OF typed]) simp
  moreover have "list_all2 (\<lambda>n v. v = number_of (row_get zs n) \<and> (v = None \<longleftrightarrow> row_get zs n = PNone)) feature_names ?row"
    unfolding names [symmetric] list.rel_map by (rule list.rel_refl_strong) (use get num in simp)
  ultimately show ?thesis unfolding b zs by blast
qed

subsection \<open>An example\<close>

definition trip_db :: map_db where
  "trip_db = extraction_db\<lparr>db_mappings := map (\<lambda>m. m\<lparr>sm_entity := ''Trip''\<rparr>) (db_mappings extraction_db)\<rparr>"

definition delay_task :: task_definition where
  "delay_task = \<lparr>row_id = 50, row_tenant = None, td_key = ''delivery-delay-risk'', td_name = ''delay'', td_description = [],
     td_contract = ''1'', td_active = True\<rparr>"

definition pred_db0 :: pred_db where
  "pred_db0 = reg_db.extend (map_db.extend trip_db \<lparr>db_models = [], db_adapters = [], db_aliases = []\<rparr>)
     \<lparr>db_tasks = [delay_task], db_requests = [], db_results = [], db_outcomes = []\<rparr>"

definition pred_db1 :: pred_db where
  "pred_db1 = snd (transition_stage 40 PRODUCTION None (snd (transition_stage 40 STAGING None
     (snd (register_candidate sample_model pred_db0)))))"

definition sample_predict_env :: "nat predict_env" where
  "sample_predict_env = \<lparr>xe_query = (\<lambda>_ _. Inr [[PStr ''v1'']]), xe_iter = (\<lambda>_. []), xe_conv = no_conv, xe_now = 9,
     ce_onto = (\<lambda>_. Inl (KeyError [])), pe_str = (\<lambda>_. []), pe_digest = (\<lambda>_. 0), pe_proba = (\<lambda>_ _. Inr (7 / 10)),
     pe_coefs = (\<lambda>_. None), pe_config = (\<lambda>_. (4, 1024)), pe_hermes = (\<lambda>_ _. Inr 0), pe_store = still_store,
     pe_retries = default_retries, pe_limit = 60\<rparr>"

definition pred_state2 :: "pred_db \<times> nat loader" where
  "pred_state2 = snd (predict sample_predict_env 70 80 sample_ctx ''v1'' 5 (Some ''k'') (pred_db1, new_loader))"

definition pred_db3 :: pred_db where
  "pred_db3 = snd (transition_stage 40 ARCHIVED None (fst pred_state2))"

definition sample_response :: response where
  "sample_response = \<lparr>px_id = 80, px_reference = ''v1'', px_probability = 7 / 10, px_risk = ''high'', px_model = ''delay'',
     px_features = ''1'', px_time = 5, px_explanations = []\<rparr>"

lemma sample_prediction:
  "predict sample_predict_env 70 80 sample_ctx ''v1'' 5 (Some ''k'') (pred_db1, new_loader) = (Inr sample_response, pred_state2)"
proof -
  have "fst (predict sample_predict_env 70 80 sample_ctx ''v1'' 5 (Some ''k'') (pred_db1, new_loader)) = Inr sample_response"
    by code_simp
  then show ?thesis unfolding pred_state2_def by (metis prod.collapse)
qed

lemma pred_db1_reachable: "serving_run (pred_db0, new_loader) (pred_db1, new_loader)"
  unfolding pred_db1_def by (intro sr_step [OF _ ss_registry [OF rs_transition]] sr_step [OF _ ss_registry [OF rs_register]] sr_refl)

lemma pred_db1_process: "process_run still_store default_retries 60 [] pred_db1 new_loader"
proof -
  have "process_run still_store default_retries 60 [] pred_db0 new_loader"
    by (rule pr_start) (simp_all add: pred_db0_def reg_db.defs map_db.defs new_loader_def)
  then show ?thesis unfolding pred_db1_def
    by (intro pr_registry [OF _ rs_transition] pr_registry [OF _ rs_register])
qed

theorem prediction_is_governed_witness:
  "\<exists>l p. loaded_verified still_store 60 (sample_model\<lparr>mo_stage := PRODUCTION\<rparr>) l 0 \<and> px_probability sample_response = p \<and>
   map pq_status (db_requests (fst pred_state2)) = [PS_COMPLETED] \<and> map pu_model (db_results (fst pred_state2)) = [40] \<and>
   map pu_probability (db_results (fst pred_state2)) = [p]"
proof -
  obtain db' ld' where s: "pred_state2 = (db', ld')" by (cases pred_state2)
  have none: "cached_response ''k'' sample_ctx pred_db1 = Inr None" by code_simp
  have env: "pe_store sample_predict_env = still_store" "pe_retries sample_predict_env = default_retries" "pe_limit sample_predict_env = 60"
    by (simp_all add: sample_predict_env_def)
  from prediction_is_governed [OF pred_db1_process [folded env] sample_prediction [unfolded s]] none
  obtain m :: model_version and l w p q u where
      g: "m \<in> set (db_models pred_db1)" "loaded_verified still_store 60 m l w" "db_requests db' = db_requests pred_db1 @ [q]"
      "pq_status q = PS_COMPLETED" "db_results db' = db_results pred_db1 @ [u]" "pu_model u = row_id m" "pu_probability u = p"
      "px_probability sample_response = p"
    unfolding env by auto
  have "db_models pred_db1 = [sample_model\<lparr>mo_stage := PRODUCTION\<rparr>]" "db_requests pred_db1 = []" "db_results pred_db1 = []"
    by code_simp+
  moreover have "row_id (sample_model\<lparr>mo_stage := PRODUCTION\<rparr>) = 40" by (simp add: sample_model_def)
  moreover have "loaded_verified still_store 60 m l 0" using g(2) by (auto simp: loaded_verified_def still_store_def split: if_splits)
  ultimately show ?thesis using g by (intro exI [of _ l] exI [of _ p]) (auto simp: s)
qed

theorem extracted_features_can_be_served_witness:
  "\<exists>b db' row. extract_batch sample_extract_env delivery_delay_risk_contract sample_ctx ''v1'' 5 trip_db = (Inr b, db') \<and>
    feature_row no_conv (fb_features b) = Inr row \<and> list_all2 model_input (fc_features delivery_delay_risk_contract) row"
proof -
  let ?r = "extract_batch sample_extract_env delivery_delay_risk_contract sample_ctx ''v1'' 5 trip_db"
  have "\<not> isl (fst ?r)" by code_simp
  then obtain b db' where b: "?r = (Inr b, db')" by (cases ?r; cases "fst ?r") auto
  have "xe_conv sample_extract_env = no_conv" by (simp add: sample_extract_env_def)
  with extracted_features_can_be_served [OF b] b show ?thesis by auto
qed

theorem answers_are_replayed_witness:
  "map mo_stage (db_models pred_db3) = [ARCHIVED] \<and>
   predict sample_predict_env 71 81 sample_ctx ''other'' 6 (Some ''k'') (pred_db3, new_loader) = (Inr sample_response, (pred_db3, new_loader))"
proof -
  obtain db2 ld2 where s: "pred_state2 = (db2, ld2)" by (cases pred_state2)
  have "serving_run pred_state2 (pred_db3, ld2)"
    unfolding pred_db3_def s fst_conv by (intro sr_step [OF _ ss_registry [OF rs_transition]] sr_refl)
  moreover have "serving_step (pred_db3, ld2) (pred_db3, new_loader)" by (rule ss_other) simp_all
  ultimately have run: "serving_run pred_state2 (pred_db3, new_loader)" by (rule sr_step)
  have "db_models pred_db0 = []" "db_results pred_db0 = []" by (simp_all add: pred_db0_def reg_db.defs map_db.defs)
  from answers_are_replayed [OF pred_db1_reachable this sample_prediction _ run refl]
  have "predict sample_predict_env 71 81 sample_ctx ''other'' 6 (Some ''k'') (pred_db3, new_loader) = (Inr sample_response, (pred_db3, new_loader))"
    by simp
  moreover have "map mo_stage (db_models pred_db3) = [ARCHIVED]" by code_simp
  ultimately show ?thesis by blast
qed

end
