(* ===== verification/Monitoring.thy ===== *)
theory Monitoring
  imports Inference
begin

section \<open>Monitoring\<close>

text \<open>
  \<open>hermes_rpt/monitoring/{drift,outcomes,service}.py\<close>: how far the statistics of two data sets
  are apart, the outcomes that become known after a prediction with the quality of a model they
  show, and a tenant's summary. The gauges and counters of \<open>metrics.py\<close> are left out. The order
  in which a join answers is that of the results.
\<close>

subsection \<open>Drift between data sets\<close>

record feature_drift_result =
  fd_name :: string
  fd_baseline :: "rat option"
  fd_current :: "rat option"
  fd_score :: rat
  fd_missing_delta :: rat
  fd_significant :: bool

record label_drift_result =
  ll_baseline :: rat
  ll_current :: rat
  ll_score :: rat
  ll_significant :: bool

definition default_significance_threshold :: rat where "default_significance_threshold = 1"

definition missing_rate :: "feature_statistic \<Rightarrow> rat" where
  "missing_rate s = (let total = st_count s + st_missing s in if total = 0 then 0 else of_nat (st_missing s) / of_nat total)"

definition drift_scale :: "feature_statistic \<Rightarrow> rat \<Rightarrow> rat" where
  "drift_scale base mean =
     (case st_std base of Some s \<Rightarrow> if s > 0 then s else max \<bar>mean\<bar> 1 | None \<Rightarrow> max \<bar>mean\<bar> 1)"

definition drift_score :: "feature_statistic \<Rightarrow> feature_statistic \<Rightarrow> rat" where
  "drift_score base cur =
     (case (st_mean base, st_mean cur) of
        (Some m, Some c) \<Rightarrow> \<bar>c - m\<bar> / drift_scale base m
      | _ \<Rightarrow> 0)"

definition feature_drift :: "rat \<Rightarrow> feature_statistic \<Rightarrow> feature_statistic \<Rightarrow> string \<Rightarrow> feature_drift_result" where
  "feature_drift threshold base cur name =
     \<lparr>fd_name = name, fd_baseline = st_mean base, fd_current = st_mean cur, fd_score = drift_score base cur,
      fd_missing_delta = missing_rate cur - missing_rate base, fd_significant = (drift_score base cur \<ge> threshold)\<rparr>"

definition by_name :: "feature_statistic list \<Rightarrow> (string, feature_statistic) dict" where
  "by_name ss = dict_of (map (\<lambda>s. (st_feature s, s)) ss)"

definition compute_feature_drift ::
  "rat \<Rightarrow> feature_statistic list \<Rightarrow> feature_statistic list \<Rightarrow> feature_drift_result list" where
  "compute_feature_drift threshold baseline current =
     (let b = by_name baseline; c = by_name current
      in map (\<lambda>n. feature_drift threshold (the (dict_get b n)) (the (dict_get c n)) n)
           (sort (filter (\<lambda>n. n \<in> fst ` set c) (map fst b))))"

definition compute_label_drift :: "rat \<Rightarrow> label_statistics \<Rightarrow> label_statistics \<Rightarrow> label_drift_result" where
  "compute_label_drift threshold baseline current =
     (let score = \<bar>positive_fraction current - positive_fraction baseline\<bar>
      in \<lparr>ll_baseline = positive_fraction baseline, ll_current = positive_fraction current, ll_score = score,
          ll_significant = (score \<ge> threshold)\<rparr>)"

subsection \<open>Outcomes\<close>

definition get_by_prediction_result_id ::
  "uuid \<Rightarrow> tenant_context \<Rightarrow> 'z pred_db_scheme \<Rightarrow> exn + prediction_outcome option" where
  "get_by_prediction_result_id i ctx db =
     scalar_one_or_none (filter (\<lambda>x. row_tenant x = Some (tc_tenant ctx) \<and> oc_result x = i) (db_outcomes db))"

definition list_labeled_results_for_model ::
  "uuid \<Rightarrow> tenant_context \<Rightarrow> 'z pred_db_scheme \<Rightarrow> (prediction_result \<times> prediction_outcome) list" where
  "list_labeled_results_for_model mid ctx db =
     concat (map (\<lambda>u. map (Pair u) (filter (\<lambda>x. oc_result x = row_id u \<and> row_tenant x = Some (tc_tenant ctx)) (db_outcomes db)))
       (filter (\<lambda>u. row_tenant u = Some (tc_tenant ctx) \<and> pu_model u = mid) (db_results db)))"

definition decision_threshold :: rat where "decision_threshold = 1 / 2"

record realized_metrics =
  rm_model :: uuid
  rm_count :: nat
  rm_precision :: rat
  rm_recall :: rat
  rm_calibration :: rat

record tally =
  tl_tp :: nat
  tl_fp :: nat
  tl_fn :: nat
  tl_sum :: rat
  tl_positive :: nat

definition count_pair :: "tally \<Rightarrow> prediction_result \<times> prediction_outcome \<Rightarrow> tally" where
  "count_pair t pair =
     (let p = pu_probability (fst pair); actual = oc_label (snd pair); predicted = (p \<ge> decision_threshold);
          t1 = t\<lparr>tl_sum := tl_sum t + p, tl_positive := tl_positive t + (if actual then 1 else 0)\<rparr>
      in if predicted \<and> actual then t1\<lparr>tl_tp := tl_tp t1 + 1\<rparr>
         else if predicted \<and> \<not> actual then t1\<lparr>tl_fp := tl_fp t1 + 1\<rparr>
         else if \<not> predicted \<and> actual then t1\<lparr>tl_fn := tl_fn t1 + 1\<rparr>
         else t1)"

definition no_pairs :: tally where
  "no_pairs = \<lparr>tl_tp = 0, tl_fp = 0, tl_fn = 0, tl_sum = 0, tl_positive = 0\<rparr>"

definition share :: "nat \<Rightarrow> nat \<Rightarrow> rat" where
  "share a b = (if a + b = 0 then 0 else of_nat a / of_nat (a + b))"

definition compute_realized_model_metrics ::
  "uuid \<Rightarrow> tenant_context \<Rightarrow> 'z pred_db_scheme \<Rightarrow> realized_metrics option" where
  "compute_realized_model_metrics mid ctx db =
     (let pairs = list_labeled_results_for_model mid ctx db
      in if pairs = [] then None
         else let t = foldl count_pair no_pairs pairs
              in Some \<lparr>rm_model = mid, rm_count = length pairs, rm_precision = share (tl_tp t) (tl_fp t),
                   rm_recall = share (tl_tp t) (tl_fn t),
                   rm_calibration = \<bar>tl_sum t / of_nat (length pairs) - of_nat (tl_positive t) / of_nat (length pairs)\<bar>\<rparr>)"

definition add_outcome ::
  "prediction_outcome \<Rightarrow> tenant_context \<Rightarrow> 'z pred_db_scheme \<Rightarrow> exn + prediction_outcome \<times> 'z pred_db_scheme" where
  "add_outcome x ctx db =
     rbind (repo_add (db_outcomes db) x ctx) (\<lambda>(x', t).
       if oc_result x' \<in> oc_result ` set (db_outcomes db) then Inl IntegrityError else Inr (x', db\<lparr>db_outcomes := t\<rparr>))"

definition upsert_outcome ::
  "uuid \<Rightarrow> bool \<Rightarrow> tenant_context \<Rightarrow> uuid \<Rightarrow> 'z pred_db_scheme \<Rightarrow> exn + prediction_outcome \<times> 'z pred_db_scheme" where
  "upsert_outcome rid label ctx fresh db =
     rbind (get_by_prediction_result_id rid ctx db) (\<lambda>existing.
     case existing of
       Some x \<Rightarrow> Inr (x\<lparr>oc_label := label\<rparr>, db\<lparr>db_outcomes := row_set (db_outcomes db) (row_id x) (\<lambda>x. x\<lparr>oc_label := label\<rparr>)\<rparr>)
     | None \<Rightarrow> add_outcome \<lparr>row_id = fresh, row_tenant = None, oc_result = rid, oc_label = label, oc_principal = tc_principal ctx\<rparr> ctx db)"

definition record_outcome ::
  "uuid \<Rightarrow> bool \<Rightarrow> tenant_context \<Rightarrow> uuid \<Rightarrow> 'z pred_db_scheme \<Rightarrow>
   (exn + prediction_outcome \<times> realized_metrics option) \<times> 'z pred_db_scheme" where
  "record_outcome rid label ctx fresh db =
     attempt (repo_require (db_results db) rid ctx) db (\<lambda>u.
     attempt (upsert_outcome rid label ctx fresh db) db (\<lambda>(x, db1).
       (let db2 = audit_record (audit_for ctx ''prediction.record_outcome'' SUCCESS ''PredictionResult'' rid
                    [(''actual_label'', JBool label)]) db1
        in (Inr (x, compute_realized_model_metrics (pu_model u) ctx db2), db2))))"

subsection \<open>The summary of a tenant\<close>

record tenant_monitoring_summary =
  ts_tenant :: uuid
  ts_total :: nat
  ts_completed :: nat
  ts_failed :: nat
  ts_denials :: nat
  ts_cross_tenant :: nat
  ts_active :: nat
  ts_suspended :: nat

definition count_if :: "('a \<Rightarrow> bool) \<Rightarrow> 'a list \<Rightarrow> nat" where
  "count_if p xs = length (filter p xs)"

definition tenant_summary :: "tenant_context \<Rightarrow> 'z pred_db_scheme \<Rightarrow> tenant_monitoring_summary" where
  "tenant_summary ctx db =
     (let requests = list_for_tenant (db_requests db) ctx; events = audit_list_for_tenant db ctx;
          mappings = list_for_tenant (db_mappings db) ctx
      in \<lparr>ts_tenant = tc_tenant ctx, ts_total = length requests,
          ts_completed = count_if (\<lambda>q. pq_status q = PS_COMPLETED) requests,
          ts_failed = count_if (\<lambda>q. pq_status q = PS_FAILED) requests,
          ts_denials = count_if (\<lambda>e. ae_action e = ''authz.check'') events,
          ts_cross_tenant = count_if (\<lambda>e. ae_action e = ''tenant.cross_tenant_access_attempt'') events,
          ts_active = count_if (\<lambda>m. sm_state m = M_ACTIVE \<and> \<not> sm_suspended m) mappings,
          ts_suspended = count_if sm_suspended mappings\<rparr>)"

subsection \<open>What the drift report says\<close>

lemma by_name_mem: "n \<in> fst ` set (by_name ss) \<longleftrightarrow> n \<in> st_feature ` set ss"
  by (force simp: by_name_def keys_dict_of)

lemma by_name_get:
  assumes "n \<in> st_feature ` set ss"
  shows "\<exists>s. dict_get (by_name ss) n = Some s \<and> s \<in> set ss \<and> st_feature s = n"
proof -
  have "n \<in> fst ` set (rev (map (\<lambda>s. (st_feature s, s)) ss))" using assms by force
  then obtain s where "map_of (rev (map (\<lambda>s. (st_feature s, s)) ss)) n = Some s"
    by (metis map_of_eq_None_iff not_None_eq)
  then show ?thesis using map_of_SomeD [of "rev (map (\<lambda>s. (st_feature s, s)) ss)" n s]
    by (auto simp: by_name_def dict_get_of)
qed

lemma missing_rate_range: "0 \<le> missing_rate s \<and> missing_rate s \<le> 1"
  by (simp add: missing_rate_def Let_def divide_le_eq_1)

lemma drift_scale_positive: "0 < drift_scale s m"
  by (auto simp: drift_scale_def split: option.split)

lemma drift_score_cases:
  "0 \<le> drift_score base cur"
  "st_mean base = Some m \<Longrightarrow> st_mean cur = Some c \<Longrightarrow> drift_score base cur \<ge> t \<longleftrightarrow> \<bar>c - m\<bar> \<ge> t * drift_scale base m"
  "st_mean base = st_mean cur \<Longrightarrow> drift_score base cur = 0"
  using drift_scale_positive [of base] by (auto simp: drift_score_def pos_le_divide_eq less_imp_le split: option.splits)

text \<open>
  What the drift report says. It compares exactly the features that both data sets have,
  each once and in the order of their names. No score is negative and no missing rate moves by
  more than one; where both means are known, a feature is flagged exactly when its mean moved by
  at least the threshold times the baseline's scale, which is positive, so that no division by
  zero is met; and comparing a data set with itself gives only zeros.
\<close>

theorem drift_report_exact:
  assumes "report = compute_feature_drift t baseline current"
  shows "sorted (map fd_name report) \<and> distinct (map fd_name report) \<and>
    set (map fd_name report) = st_feature ` set baseline \<inter> st_feature ` set current \<and>
    (\<forall>d \<in> set report. \<exists>b \<in> set baseline. \<exists>c \<in> set current. st_feature b = fd_name d \<and> st_feature c = fd_name d \<and>
      0 \<le> fd_score d \<and> \<bar>fd_missing_delta d\<bar> \<le> 1 \<and>
      (\<forall>m m'. st_mean b = Some m \<and> st_mean c = Some m' \<longrightarrow>
        0 < drift_scale b m \<and> (fd_significant d \<longleftrightarrow> \<bar>m' - m\<bar> \<ge> t * drift_scale b m))) \<and>
    (\<forall>d \<in> set (compute_feature_drift t baseline baseline). fd_score d = 0 \<and> fd_missing_delta d = 0)"
proof -
  have names: "map fd_name (compute_feature_drift t b c) = sort (filter (\<lambda>n. n \<in> fst ` set (by_name c)) (map fst (by_name b)))" for b c
    by (simp add: compute_feature_drift_def Let_def comp_def feature_drift_def)
  have dist: "distinct (map fst (by_name b))" for b by (simp add: by_name_def distinct_dict_of)
  have set_names: "set (map fd_name (compute_feature_drift t b c)) = st_feature ` set b \<inter> st_feature ` set c" for b c
  proof -
    have keys: "fst ` set (by_name x) = st_feature ` set x" for x using by_name_mem by blast
    show ?thesis unfolding names set_sort set_filter list.set_map keys by blast
  qed
  have entry: "\<exists>b \<in> set bs. \<exists>c \<in> set cs. st_feature b = fd_name d \<and> st_feature c = fd_name d \<and> d = feature_drift t b c (fd_name d) \<and>
      dict_get (by_name bs) (fd_name d) = Some b \<and> dict_get (by_name cs) (fd_name d) = Some c"
    if "d \<in> set (compute_feature_drift t bs cs)" for d bs cs
  proof -
    from that have n: "fd_name d \<in> st_feature ` set bs" "fd_name d \<in> st_feature ` set cs"
      using set_names [of bs cs] by (metis Int_iff imageI list.set_map)+
    have "d = feature_drift t (the (dict_get (by_name bs) (fd_name d))) (the (dict_get (by_name cs) (fd_name d))) (fd_name d)"
      using that by (auto simp: compute_feature_drift_def Let_def feature_drift_def)
    with by_name_get [OF n(1)] by_name_get [OF n(2)] show ?thesis by force
  qed
  have rates: "\<bar>missing_rate x - missing_rate y\<bar> \<le> 1" for x y
    using missing_rate_range [of x] missing_rate_range [of y] by linarith
  have "\<exists>b \<in> set baseline. \<exists>c \<in> set current. st_feature b = fd_name d \<and> st_feature c = fd_name d \<and>
      0 \<le> fd_score d \<and> \<bar>fd_missing_delta d\<bar> \<le> 1 \<and>
      (\<forall>m m'. st_mean b = Some m \<and> st_mean c = Some m' \<longrightarrow>
        0 < drift_scale b m \<and> (fd_significant d \<longleftrightarrow> \<bar>m' - m\<bar> \<ge> t * drift_scale b m))" if d: "d \<in> set report" for d
  proof -
    from entry [of d baseline current] d assms obtain b c where b: "b \<in> set baseline" "c \<in> set current" "st_feature b = fd_name d"
        "st_feature c = fd_name d" and eq: "d = feature_drift t b c (fd_name d)" by blast
    have "fd_score d = drift_score b c" "fd_missing_delta d = missing_rate c - missing_rate b"
        "fd_significant d \<longleftrightarrow> drift_score b c \<ge> t"
      by (subst eq, simp add: feature_drift_def)+
    with b rates drift_score_cases drift_scale_positive show ?thesis
      by (intro bexI [OF _ b(1)] bexI [OF _ b(2)] conjI allI impI) simp_all
  qed
  moreover have "fd_score d = 0 \<and> fd_missing_delta d = 0" if "d \<in> set (compute_feature_drift t baseline baseline)" for d
  proof -
    from entry [OF that] obtain b where "d = feature_drift t b b (fd_name d)" by force
    then show ?thesis using drift_score_cases(3) [of b b] by (metis feature_drift_def feature_drift_result.select_convs(4,5) diff_self)
  qed
  moreover have "sorted (map fd_name report)" "distinct (map fd_name report)"
    unfolding assms names using dist by simp_all
  ultimately show ?thesis using set_names assms by blast
qed

definition sample_statistic :: "string \<Rightarrow> nat \<Rightarrow> rat \<Rightarrow> feature_statistic" where
  "sample_statistic name missing mean = \<lparr>st_feature = name, st_count = 2, st_missing = missing, st_mean = Some mean,
     st_std = Some 0, st_min = None, st_max = None\<rparr>"

theorem drift_report_exact_witness:
  "map fd_score (compute_feature_drift 1 [sample_statistic ''x'' 0 1, sample_statistic ''y'' 0 1] [sample_statistic ''x'' 2 3]) = [2] \<and>
   set (map fd_name (compute_feature_drift 1 [sample_statistic ''x'' 0 1, sample_statistic ''y'' 0 1] [sample_statistic ''x'' 2 3])) = {''x''}"
proof -
  have "map fd_score (compute_feature_drift 1 [sample_statistic ''x'' 0 1, sample_statistic ''y'' 0 1] [sample_statistic ''x'' 2 3]) = [2]"
    by code_simp
  moreover have "st_feature ` set [sample_statistic ''x'' 0 1, sample_statistic ''y'' 0 1] \<inter> st_feature ` set [sample_statistic ''x'' 2 3] = {''x''}"
    by (auto simp: sample_statistic_def)
  moreover note drift_report_exact [OF refl, of 1 "[sample_statistic ''x'' 0 1, sample_statistic ''y'' 0 1]" "[sample_statistic ''x'' 2 3]"]
  ultimately show ?thesis by metis
qed

subsection \<open>What realised metrics mean\<close>

definition predicted_late :: "prediction_result \<times> prediction_outcome \<Rightarrow> bool" where
  "predicted_late pair \<longleftrightarrow> pu_probability (fst pair) \<ge> decision_threshold"

definition was_late :: "prediction_result \<times> prediction_outcome \<Rightarrow> bool" where
  "was_late pair \<longleftrightarrow> oc_label (snd pair)"

lemma foldl_count_pair:
  "foldl count_pair t pairs =
    \<lparr>tl_tp = tl_tp t + count_if (\<lambda>x. predicted_late x \<and> was_late x) pairs,
     tl_fp = tl_fp t + count_if (\<lambda>x. predicted_late x \<and> \<not> was_late x) pairs,
     tl_fn = tl_fn t + count_if (\<lambda>x. \<not> predicted_late x \<and> was_late x) pairs,
     tl_sum = tl_sum t + sum_list (map (\<lambda>x. pu_probability (fst x)) pairs),
     tl_positive = tl_positive t + count_if was_late pairs\<rparr>"
  by (induction pairs arbitrary: t) (simp_all add: count_if_def count_pair_def predicted_late_def was_late_def Let_def)

lemma count_split: "count_if P xs = count_if (\<lambda>x. Q x \<and> P x) xs + count_if (\<lambda>x. \<not> Q x \<and> P x) xs"
  by (induction xs) (simp_all add: count_if_def)

lemma sum_list_range:
  assumes "\<And>x. x \<in> set xs \<Longrightarrow> 0 \<le> f x \<and> f x \<le> (1 :: rat)"
  shows "0 \<le> sum_list (map f xs) \<and> sum_list (map f xs) \<le> of_nat (length xs)"
  using assms
proof (induction xs)
  case (Cons x xs)
  from Cons.IH Cons.prems have "0 \<le> sum_list (map f xs) \<and> sum_list (map f xs) \<le> of_nat (length xs)" by simp
  with Cons.prems [of x] show ?case by simp
qed simp

text \<open>
  C35: what realised metrics mean. None are given exactly when no prediction of the model has an
  outcome for this tenant. Otherwise, over the labelled predictions of the tenant, the precision
  is the share of late ones among those predicted late, the recall the share of those predicted
  late among the late ones, each 0 when there are none, and the calibration drift is the distance
  of the mean prediction from the rate of late ones; all of them lie between 0 and 1, the drift
  whenever the stored probabilities do.
\<close>

theorem realized_metrics_exact:
  assumes "pairs = list_labeled_results_for_model mid ctx db"
  shows "(compute_realized_model_metrics mid ctx db = None \<longleftrightarrow> pairs = []) \<and>
    (\<forall>r. compute_realized_model_metrics mid ctx db = Some r \<longrightarrow>
      rm_model r = mid \<and> rm_count r = length pairs \<and>
      rm_precision r = (if count_if predicted_late pairs = 0 then 0
        else of_nat (count_if (\<lambda>x. predicted_late x \<and> was_late x) pairs) / of_nat (count_if predicted_late pairs)) \<and>
      rm_recall r = (if count_if was_late pairs = 0 then 0
        else of_nat (count_if (\<lambda>x. predicted_late x \<and> was_late x) pairs) / of_nat (count_if was_late pairs)) \<and>
      rm_calibration r = \<bar>sum_list (map (\<lambda>x. pu_probability (fst x)) pairs) - of_nat (count_if was_late pairs)\<bar> / of_nat (length pairs) \<and>
      0 \<le> rm_precision r \<and> rm_precision r \<le> 1 \<and> 0 \<le> rm_recall r \<and> rm_recall r \<le> 1 \<and> 0 \<le> rm_calibration r \<and>
      ((\<forall>x \<in> set pairs. 0 \<le> pu_probability (fst x) \<and> pu_probability (fst x) \<le> 1) \<longrightarrow> rm_calibration r \<le> 1)) \<and>
    set pairs = {(u, x). u \<in> set (db_results db) \<and> x \<in> set (db_outcomes db) \<and> oc_result x = row_id u \<and> pu_model u = mid \<and>
      row_tenant u = Some (tc_tenant ctx) \<and> row_tenant x = Some (tc_tenant ctx)}"
proof (intro conjI)
  show "compute_realized_model_metrics mid ctx db = None \<longleftrightarrow> pairs = []"
    by (simp add: compute_realized_model_metrics_def assms Let_def)
  show "set pairs = {(u, x). u \<in> set (db_results db) \<and> x \<in> set (db_outcomes db) \<and> oc_result x = row_id u \<and> pu_model u = mid \<and>
      row_tenant u = Some (tc_tenant ctx) \<and> row_tenant x = Some (tc_tenant ctx)}"
    by (auto simp: assms list_labeled_results_for_model_def)
  let ?tp = "count_if (\<lambda>x. predicted_late x \<and> was_late x) pairs" and ?n = "length pairs"
    and ?sum = "sum_list (map (\<lambda>x. pu_probability (fst x)) pairs)" and ?late = "count_if was_late pairs"
  have late: "?late = ?tp + count_if (\<lambda>x. \<not> predicted_late x \<and> was_late x) pairs" by (rule count_split)
  have pred: "count_if predicted_late pairs = ?tp + count_if (\<lambda>x. predicted_late x \<and> \<not> was_late x) pairs"
    using count_split [of predicted_late pairs was_late] by (simp add: conj_commute)
  have le: "?late \<le> ?n" by (simp add: count_if_def)
  show "\<forall>r. compute_realized_model_metrics mid ctx db = Some r \<longrightarrow>
      rm_model r = mid \<and> rm_count r = length pairs \<and>
      rm_precision r = (if count_if predicted_late pairs = 0 then 0 else of_nat ?tp / of_nat (count_if predicted_late pairs)) \<and>
      rm_recall r = (if ?late = 0 then 0 else of_nat ?tp / of_nat ?late) \<and>
      rm_calibration r = \<bar>?sum - of_nat ?late\<bar> / of_nat ?n \<and>
      0 \<le> rm_precision r \<and> rm_precision r \<le> 1 \<and> 0 \<le> rm_recall r \<and> rm_recall r \<le> 1 \<and> 0 \<le> rm_calibration r \<and>
      ((\<forall>x \<in> set pairs. 0 \<le> pu_probability (fst x) \<and> pu_probability (fst x) \<le> 1) \<longrightarrow> rm_calibration r \<le> 1)"
  proof (intro allI impI)
    fix r
    assume run: "compute_realized_model_metrics mid ctx db = Some r"
    then have nonempty: "pairs \<noteq> []" by (auto simp: compute_realized_model_metrics_def assms)
    then have n: "0 < (of_nat ?n :: rat)" by simp
    have "r = \<lparr>rm_model = mid, rm_count = ?n, rm_precision = share ?tp (count_if (\<lambda>x. predicted_late x \<and> \<not> was_late x) pairs),
        rm_recall = share ?tp (count_if (\<lambda>x. \<not> predicted_late x \<and> was_late x) pairs),
        rm_calibration = \<bar>?sum / of_nat ?n - of_nat ?late / of_nat ?n\<bar>\<rparr>"
      using run nonempty unfolding compute_realized_model_metrics_def assms [symmetric] Let_def foldl_count_pair no_pairs_def by simp
    then have r: "rm_model r = mid" "rm_count r = ?n"
        "rm_precision r = (if count_if predicted_late pairs = 0 then 0 else of_nat ?tp / of_nat (count_if predicted_late pairs))"
        "rm_recall r = (if ?late = 0 then 0 else of_nat ?tp / of_nat ?late)"
        "rm_calibration r = \<bar>?sum / of_nat ?n - of_nat ?late / of_nat ?n\<bar>"
      by (simp_all only: realized_metrics.select_convs share_def late [symmetric] pred [symmetric])
    have cal: "rm_calibration r = \<bar>?sum - of_nat ?late\<bar> / of_nat ?n"
      using n by (simp add: r diff_divide_distrib [symmetric] abs_divide)
    have share: "0 \<le> of_nat a / (of_nat b :: rat) \<and> of_nat a / (of_nat b :: rat) \<le> 1" if "a \<le> b" "b \<noteq> 0" for a b :: nat
      using that by (simp add: divide_le_eq_1)
    have "rm_calibration r \<le> 1" if "\<forall>x \<in> set pairs. 0 \<le> pu_probability (fst x) \<and> pu_probability (fst x) \<le> 1"
    proof -
      from sum_list_range [of pairs "\<lambda>x. pu_probability (fst x)"] that have "0 \<le> ?sum \<and> ?sum \<le> of_nat ?n" by blast
      moreover have "(of_nat ?late :: rat) \<le> of_nat ?n" using le by simp
      ultimately have "\<bar>?sum - of_nat ?late\<bar> \<le> of_nat ?n" by linarith
      then show ?thesis unfolding cal using n by (simp add: divide_le_eq_1)
    qed
    moreover have "0 \<le> rm_precision r \<and> rm_precision r \<le> 1" using share [of ?tp "count_if predicted_late pairs"] pred by (simp add: r)
    moreover have "0 \<le> rm_recall r \<and> rm_recall r \<le> 1" using share [of ?tp ?late] late by (simp add: r)
    moreover have "0 \<le> rm_calibration r" by (simp add: r)
    ultimately show "rm_model r = mid \<and> rm_count r = length pairs \<and>
      rm_precision r = (if count_if predicted_late pairs = 0 then 0 else of_nat ?tp / of_nat (count_if predicted_late pairs)) \<and>
      rm_recall r = (if ?late = 0 then 0 else of_nat ?tp / of_nat ?late) \<and>
      rm_calibration r = \<bar>?sum - of_nat ?late\<bar> / of_nat ?n \<and>
      0 \<le> rm_precision r \<and> rm_precision r \<le> 1 \<and> 0 \<le> rm_recall r \<and> rm_recall r \<le> 1 \<and> 0 \<le> rm_calibration r \<and>
      ((\<forall>x \<in> set pairs. 0 \<le> pu_probability (fst x) \<and> pu_probability (fst x) \<le> 1) \<longrightarrow> rm_calibration r \<le> 1)"
      using r cal by blast
  qed
qed

subsection \<open>Outcomes\<close>

text \<open>The primary key and the unique constraint of the outcomes.\<close>

definition outcomes_ok :: "'z pred_db_scheme \<Rightarrow> bool" where
  "outcomes_ok db \<longleftrightarrow> distinct (map row_id (db_outcomes db)) \<and> distinct (map oc_result (db_outcomes db))"

lemma filter_row_set: "(\<And>r. P (f r) = P r) \<Longrightarrow> filter P (row_set t i f) = row_set (filter P t) i f"
  by (induction t) (auto simp: row_set_def)

lemma row_set_absent: "i \<notin> row_id ` set t \<Longrightarrow> row_set t i f = t"
  by (auto simp: row_set_def intro!: map_idI)

definition relabel :: "bool \<Rightarrow> prediction_outcome \<Rightarrow> prediction_outcome" where
  "relabel label x = x\<lparr>oc_label := label\<rparr>"

lemma relabel_sel [simp]:
  "row_id (relabel l x) = row_id x" "row_tenant (relabel l x) = row_tenant x" "oc_result (relabel l x) = oc_result x"
  "oc_label (relabel l x) = l"
  by (simp_all add: relabel_def)

lemma relabel_fun: "relabel l = (\<lambda>x. x\<lparr>oc_label := l\<rparr>)"
  by (simp add: fun_eq_iff relabel_def)

lemma upsert_outcome_Inr:
  assumes "upsert_outcome rid label ctx fresh db = Inr (x, db')" and "outcomes_ok db"
  shows "outcomes_ok db' \<and> filter (\<lambda>y. row_tenant y = Some (tc_tenant ctx) \<and> oc_result y = rid) (db_outcomes db') = [x] \<and>
    oc_label x = label \<and> (\<exists>t. db' = db\<lparr>db_outcomes := t\<rparr>) \<and>
    filter (\<lambda>y. oc_result y \<noteq> rid) (db_outcomes db') = filter (\<lambda>y. oc_result y \<noteq> rid) (db_outcomes db)"
proof -
  let ?mine = "\<lambda>y. row_tenant y = Some (tc_tenant ctx) \<and> oc_result y = rid"
  from assms(1) obtain existing where e: "get_by_prediction_result_id rid ctx db = Inr existing"
    by (auto simp: upsert_outcome_def)
  note run = assms(1) [unfolded upsert_outcome_def e rbind_simps]
  show ?thesis
  proof (cases existing)
    case None
    with run obtain t where add: "repo_add (db_outcomes db) \<lparr>row_id = fresh, row_tenant = None, oc_result = rid, oc_label = label,
          oc_principal = tc_principal ctx\<rparr> ctx = Inr (x, t)"
        and u: "oc_result x \<notin> oc_result ` set (db_outcomes db)" and db': "db' = db\<lparr>db_outcomes := t\<rparr>"
      by (auto simp: add_outcome_def split: if_splits)
    from repo_add_Inr [OF add] have t: "t = db_outcomes db @ [x]" "row_id x \<notin> row_id ` set (db_outcomes db)"
        "row_tenant x = Some (tc_tenant ctx)" "oc_result x = rid" "oc_label x = label" by auto
    have "filter ?mine (db_outcomes db) = []" using u t(4) by (auto simp: filter_empty_conv image_iff)
    with t u assms(2) db' show ?thesis by (auto simp: outcomes_ok_def)
  next
    case (Some y)
    let ?f = "relabel label"
    from e Some have y: "filter ?mine (db_outcomes db) = [y]"
      by (simp add: get_by_prediction_result_id_def scalar_one_or_none_Some)
    then have "y \<in> set (filter ?mine (db_outcomes db))" by simp
    then have mem: "y \<in> set (db_outcomes db)" "oc_result y = rid" by simp_all
    from run Some have x: "x = ?f y" and db': "db' = db\<lparr>db_outcomes := row_set (db_outcomes db) (row_id y) ?f\<rparr>"
      by (auto simp: relabel_fun)
    have "map oc_result (row_set (db_outcomes db) (row_id y) ?f) = map oc_result (db_outcomes db)"
      by (rule map_row_set) simp
    then have ok: "outcomes_ok db'" using assms(2) unfolding db' outcomes_ok_def by simp
    have "filter ?mine (db_outcomes db') = row_set [y] (row_id y) ?f"
      unfolding db' using filter_row_set [of ?mine ?f] y by simp
    then have mine: "filter ?mine (db_outcomes db') = [x]" by (simp add: row_set_def x)
    have others: "filter (\<lambda>y. oc_result y \<noteq> rid) (db_outcomes db') = filter (\<lambda>y. oc_result y \<noteq> rid) (db_outcomes db)"
    proof -
      have "row_id y \<notin> row_id ` set (filter (\<lambda>y. oc_result y \<noteq> rid) (db_outcomes db))"
        using assms(2) mem by (auto simp: outcomes_ok_def distinct_map dest: inj_onD)
      from row_set_absent [OF this] show ?thesis
        unfolding db' using filter_row_set [of "\<lambda>y. oc_result y \<noteq> rid" ?f] by simp
    qed
    with ok mine x db' show ?thesis by auto
  qed
qed

text \<open>
  C34: outcomes never rewrite history. Recording an outcome succeeds for a prediction of the
  tenant only; it changes no request, no result, no model and no other prediction's outcome;
  afterwards the prediction has exactly one outcome, with the given label, and one event tells
  of it; and recording again changes the label of that outcome and adds none.
\<close>

theorem outcomes_never_rewrite_predictions:
  assumes "record_outcome rid label ctx fresh db = (Inr (x, rm), db')" and "outcomes_ok db"
  shows "(\<exists>u \<in> set (db_results db). row_id u = rid \<and> row_tenant u = Some (tc_tenant ctx)) \<and> outcomes_ok db' \<and>
    db_results db' = db_results db \<and> db_requests db' = db_requests db \<and> db_models db' = db_models db \<and>
    filter (\<lambda>y. row_tenant y = Some (tc_tenant ctx) \<and> oc_result y = rid) (db_outcomes db') = [x] \<and> oc_label x = label \<and>
    filter (\<lambda>y. oc_result y \<noteq> rid) (db_outcomes db') = filter (\<lambda>y. oc_result y \<noteq> rid) (db_outcomes db) \<and>
    audit_log db' = audit_log db @ [audit_for ctx ''prediction.record_outcome'' SUCCESS ''PredictionResult'' rid
      [(''actual_label'', JBool label)]] \<and>
    (\<exists>rm' db''. record_outcome rid label' ctx fresh' db' = (Inr (relabel label' x, rm'), db'') \<and>
      map row_id (db_outcomes db'') = map row_id (db_outcomes db'))"
proof -
  let ?e = "\<lambda>l. audit_for ctx ''prediction.record_outcome'' SUCCESS ''PredictionResult'' rid [(''actual_label'', JBool l)]"
  from assms(1) obtain u db1 where u: "repo_require (db_results db) rid ctx = Inr u"
      and up: "upsert_outcome rid label ctx fresh db = Inr (x, db1)" and db': "db' = audit_record (?e label) db1"
    by (auto simp: record_outcome_def Let_def)
  from upsert_outcome_Inr [OF up assms(2)] obtain t where ok: "outcomes_ok db1" and db1: "db1 = db\<lparr>db_outcomes := t\<rparr>"
      and mine: "filter (\<lambda>y. row_tenant y = Some (tc_tenant ctx) \<and> oc_result y = rid) (db_outcomes db1) = [x]" "oc_label x = label"
      and others: "filter (\<lambda>y. oc_result y \<noteq> rid) (db_outcomes db1) = filter (\<lambda>y. oc_result y \<noteq> rid) (db_outcomes db)" by blast
  have res: "db_results db' = db_results db" by (simp add: db' db1)
  let ?db2 = "db'\<lparr>db_outcomes := row_set (db_outcomes db') (row_id x) (\<lambda>x. x\<lparr>oc_label := label'\<rparr>)\<rparr>"
  have "upsert_outcome rid label' ctx fresh' db' = Inr (relabel label' x, ?db2)"
    using mine by (simp add: upsert_outcome_def get_by_prediction_result_id_def db' relabel_def)
  then have again: "\<exists>rm'. record_outcome rid label' ctx fresh' db' = (Inr (relabel label' x, rm'), audit_record (?e label') ?db2)"
    using u by (simp add: record_outcome_def res Let_def)
  have "map row_id (db_outcomes (audit_record (?e label') ?db2)) = map row_id (db_outcomes db')" by simp
  with again have "\<exists>rm' db''. record_outcome rid label' ctx fresh' db' = (Inr (relabel label' x, rm'), db'') \<and>
      map row_id (db_outcomes db'') = map row_id (db_outcomes db')" by blast
  moreover have "\<exists>u \<in> set (db_results db). row_id u = rid \<and> row_tenant u = Some (tc_tenant ctx)"
    using u by (auto simp: repo_require_Inr_iff dest: session_get_Some)
  ultimately show ?thesis using ok mine others res
    by (simp add: db' db1 outcomes_ok_def)
qed

subsection \<open>An example\<close>

definition answered_db :: pred_db where
  "answered_db = \<lparr>audit_log = [], db_connections = [], db_credential_refs = [], db_pools = \<lparr>po_engines = [], po_disposed = []\<rparr>,
     db_secrets = [], db_snapshots = [], db_mappings = [], db_versions = [], db_models = [], db_adapters = [], db_aliases = [],
     db_tasks = [], db_requests = [],
     db_results = [\<lparr>row_id = 80, row_tenant = Some 1, pu_request = 70, pu_model = 40, pu_adapter = None, pu_mapping = 30,
       pu_features = ''1'', pu_probability = 7 / 10, pu_risk = ''high'', pu_explanations = []\<rparr>],
     db_outcomes = []\<rparr>"

definition outcome_db :: pred_db where
  "outcome_db = snd (record_outcome 80 True sample_ctx 90 answered_db)"

lemma sample_outcome:
  "record_outcome 80 True sample_ctx 90 answered_db =
    (Inr (\<lparr>row_id = 90, row_tenant = Some 1, oc_result = 80, oc_label = True, oc_principal = 10\<rparr>,
      Some \<lparr>rm_model = 40, rm_count = 1, rm_precision = 1, rm_recall = 1, rm_calibration = 3 / 10\<rparr>), outcome_db)"
proof -
  have "fst (record_outcome 80 True sample_ctx 90 answered_db) =
    Inr (\<lparr>row_id = 90, row_tenant = Some 1, oc_result = 80, oc_label = True, oc_principal = 10\<rparr>,
      Some \<lparr>rm_model = 40, rm_count = 1, rm_precision = 1, rm_recall = 1, rm_calibration = 3 / 10\<rparr>)"
    by code_simp
  then show ?thesis unfolding outcome_db_def by (metis prod.collapse)
qed

theorem outcomes_never_rewrite_predictions_witness:
  "db_results outcome_db = db_results answered_db \<and> map oc_label (db_outcomes outcome_db) = [True] \<and>
   (\<exists>rm db''. record_outcome 80 False sample_ctx 91 outcome_db =
     (Inr (\<lparr>row_id = 90, row_tenant = Some 1, oc_result = 80, oc_label = False, oc_principal = 10\<rparr>, rm), db''))"
proof -
  have "db_outcomes answered_db = []" by code_simp
  then have "outcomes_ok answered_db" by (simp add: outcomes_ok_def)
  note t = outcomes_never_rewrite_predictions [OF sample_outcome this, of False 91]
  have "map oc_label (db_outcomes outcome_db) = [True]" by code_simp
  with t show ?thesis by (auto simp: relabel_def)
qed

theorem realized_metrics_exact_witness:
  "\<exists>r. compute_realized_model_metrics 40 sample_ctx outcome_db = Some r \<and> rm_precision r = 1 \<and> rm_calibration r = 3 / 10 \<and>
     rm_count r = length (list_labeled_results_for_model 40 sample_ctx outcome_db) \<and> rm_recall r \<le> 1"
proof -
  have "compute_realized_model_metrics 40 sample_ctx outcome_db =
      Some \<lparr>rm_model = 40, rm_count = 1, rm_precision = 1, rm_recall = 1, rm_calibration = 3 / 10\<rparr>"
    by code_simp
  then obtain r where r: "compute_realized_model_metrics 40 sample_ctx outcome_db = Some r" "rm_precision r = 1" "rm_calibration r = 3 / 10"
    by auto
  with realized_metrics_exact [OF refl, of 40 sample_ctx outcome_db] show ?thesis by blast
qed

end
