(* ===== verification/Suggest.thy ===== *)
theory Suggest
  imports MappingDocument Profiling
begin

section \<open>Mapping suggestions\<close>

text \<open>
  \<open>hermes_rpt/mappings/suggest.py\<close>: the similarity of names, the score of a column for a field
  and the greedy assignment. \<open>difflib.SequenceMatcher.ratio\<close> is written out as the standard
  library computes it (the longest common block, found with one row of run lengths, then the
  same on both sides of it), its rule for popular characters included. Scores are exact
  rationals. An explanation is the list of its reasons.
\<close>

subsection \<open>The similarity of two names\<close>

definition normalize_name :: "string \<Rightarrow> string" where
  "normalize_name name = filter (\<lambda>c. is_lower_ascii c \<or> is_digit_ascii c) (str_lower name)"

text \<open>A character that is left out of the index of a long second string.\<close>

definition popular :: "string \<Rightarrow> char \<Rightarrow> bool" where
  "popular b c \<longleftrightarrow> length b \<ge> 200 \<and> count_list b c > length b div 100 + 1"

text \<open>A common block: where it starts in the one and in the other string, and its size.\<close>

type_synonym block = "nat \<times> nat \<times> nat"

definition block_size :: "block \<Rightarrow> nat" where
  "block_size x = snd (snd x)"

definition next_row :: "(char \<Rightarrow> bool) \<Rightarrow> char \<Rightarrow> string \<Rightarrow> nat list \<Rightarrow> nat list" where
  "next_row pop c bs row = map (\<lambda>(b, k). if c = b \<and> \<not> pop b then k + 1 else 0) (zip bs (0 # row))"

fun best_in_row :: "nat \<Rightarrow> nat \<Rightarrow> nat list \<Rightarrow> block \<Rightarrow> block" where
  "best_in_row i j [] best = best"
| "best_in_row i j (k # ks) best =
     best_in_row i (j + 1) ks (if k > block_size best then (i + 1 - k, j + 1 - k, k) else best)"

fun scan_rows :: "(char \<Rightarrow> bool) \<Rightarrow> nat \<Rightarrow> nat list \<Rightarrow> string \<Rightarrow> string \<Rightarrow> block \<Rightarrow> block" where
  "scan_rows pop i row [] bs best = best"
| "scan_rows pop i row (c # cs) bs best =
     (let row' = next_row pop c bs row in scan_rows pop (i + 1) row' cs bs (best_in_row i 0 row' best))"

fun extend_left :: "string \<Rightarrow> string \<Rightarrow> nat \<Rightarrow> nat \<Rightarrow> nat \<Rightarrow> block" where
  "extend_left as bs (Suc i) (Suc j) k =
     (if as ! i = bs ! j then extend_left as bs i j (Suc k) else (Suc i, Suc j, k))"
| "extend_left as bs i j k = (i, j, k)"

fun common_prefix :: "string \<Rightarrow> string \<Rightarrow> nat" where
  "common_prefix (a # as) (b # bs) = (if a = b then Suc (common_prefix as bs) else 0)"
| "common_prefix _ _ = 0"

definition find_longest :: "(char \<Rightarrow> bool) \<Rightarrow> string \<Rightarrow> string \<Rightarrow> block" where
  "find_longest pop as bs =
     (case scan_rows pop 0 (replicate (length bs) 0) as bs (0, 0, 0) of (i, j, k) \<Rightarrow>
      case extend_left as bs i j k of (i, j, k) \<Rightarrow>
      (i, j, k + common_prefix (drop (i + k) as) (drop (j + k) bs)))"

text \<open>The run that ends before two positions, which the rows hold.\<close>

fun run_length :: "(char \<Rightarrow> bool) \<Rightarrow> string \<Rightarrow> string \<Rightarrow> nat \<Rightarrow> nat \<Rightarrow> nat" where
  "run_length pop as bs (Suc i) (Suc j) =
     (if as ! i = bs ! j \<and> \<not> pop (bs ! j) then Suc (run_length pop as bs i j) else 0)"
| "run_length pop as bs _ _ = 0"

definition run_row :: "(char \<Rightarrow> bool) \<Rightarrow> string \<Rightarrow> string \<Rightarrow> nat \<Rightarrow> nat list" where
  "run_row pop as bs i = map (\<lambda>j. run_length pop as bs i (Suc j)) [0..<length bs]"

definition is_block :: "string \<Rightarrow> string \<Rightarrow> block \<Rightarrow> bool" where
  "is_block as bs x \<longleftrightarrow> (case x of (i, j, k) \<Rightarrow> i + k \<le> length as \<and> j + k \<le> length bs \<and>
     take k (drop i as) = take k (drop j bs))"

lemma run_row_0: "run_row pop as bs 0 = replicate (length bs) 0"
  by (rule nth_equalityI) (simp_all add: run_row_def)

lemma run_row_Suc:
  "i < length as \<Longrightarrow> next_row pop (as ! i) bs (run_row pop as bs i) = run_row pop as bs (Suc i)"
proof (rule nth_equalityI)
  fix j assume "j < length (next_row pop (as ! i) bs (run_row pop as bs i))"
  then have j: "j < length bs" by (simp add: next_row_def run_row_def)
  have "(0 # run_row pop as bs i) ! j = run_length pop as bs i j"
    using j by (cases j) (cases i, simp_all add: run_row_def)
  with j show "next_row pop (as ! i) bs (run_row pop as bs i) ! j = run_row pop as bs (Suc i) ! j"
    by (simp add: next_row_def run_row_def)
qed (simp add: next_row_def run_row_def)

lemma run_length_block:
  "i \<le> length as \<Longrightarrow> j \<le> length bs \<Longrightarrow> k \<le> run_length pop as bs i j \<Longrightarrow>
    k \<le> i \<and> k \<le> j \<and> is_block as bs (i - k, j - k, k)"
proof (induction pop as bs i j arbitrary: k rule: run_length.induct)
  case (1 pop as bs i j)
  show ?case
  proof (cases k)
    case (Suc k')
    with 1(4) have eq: "as ! i = bs ! j" and k': "k' \<le> run_length pop as bs i j"
      by (auto split: if_splits)
    from 1(4) Suc have "as ! i = bs ! j \<and> \<not> pop (bs ! j)" by (auto split: if_splits)
    from 1(1) [OF this] 1(2,3) k' have IH: "k' \<le> i" "k' \<le> j" "is_block as bs (i - k', j - k', k')" by auto
    have "take (Suc k') (drop (i - k') as) = take k' (drop (i - k') as) @ [as ! i]"
      using IH 1(2) by (subst take_Suc_conv_app_nth) auto
    moreover have "take (Suc k') (drop (j - k') bs) = take k' (drop (j - k') bs) @ [bs ! j]"
      using IH 1(3) by (subst take_Suc_conv_app_nth) auto
    ultimately show ?thesis using IH eq Suc 1(2,3) by (simp add: is_block_def)
  qed (use 1 in \<open>simp add: is_block_def\<close>)
qed (auto simp: is_block_def)

lemma run_length_ge:
  "is_block as bs (i, j, k) \<Longrightarrow> (\<And>b. b \<in> set bs \<Longrightarrow> \<not> pop b) \<Longrightarrow> k \<le> run_length pop as bs (i + k) (j + k)"
proof (induction k)
  case (Suc k)
  have len: "i + Suc k \<le> length as" "j + Suc k \<le> length bs" and t: "take (Suc k) (drop i as) = take (Suc k) (drop j bs)"
    using Suc(2) by (simp_all add: is_block_def)
  have "take k (drop i as) = take k (drop j bs)"
    using arg_cong [OF t, of "take k"] by (simp add: min_def)
  then have "is_block as bs (i, j, k)" using len by (simp add: is_block_def)
  with Suc have IH: "k \<le> run_length pop as bs (i + k) (j + k)" by simp
  have "as ! (i + k) = bs ! (j + k)"
    using arg_cong [OF t, of "\<lambda>l. l ! k"] len by simp
  moreover have "\<not> pop (bs ! (j + k))" using Suc(3) len by simp
  ultimately show ?case using IH by simp
qed simp

lemma best_in_row_spec:
  assumes "\<And>d. d < length ks \<Longrightarrow> ks ! d = run_length pop as bs (Suc i) (Suc (j + d))"
    and "i < length as" "j + length ks = length bs" "is_block as bs best"
  shows "is_block as bs (best_in_row i j ks best) \<and> block_size best \<le> block_size (best_in_row i j ks best) \<and>
    (\<forall>k \<in> set ks. k \<le> block_size (best_in_row i j ks best))"
  using assms
proof (induction ks arbitrary: j best)
  case (Cons k ks)
  let ?best = "if k > block_size best then (i + 1 - k, j + 1 - k, k) else best"
  have k: "k = run_length pop as bs (Suc i) (Suc j)" using Cons(2) [of 0] by simp
  then have "is_block as bs (Suc i - k, Suc j - k, k)"
    using run_length_block [of "Suc i" as "Suc j" bs k pop] Cons(3,4) by simp
  then have "is_block as bs ?best" using Cons(5) by simp
  moreover have "ks ! d = run_length pop as bs (Suc i) (Suc (j + 1 + d))" if "d < length ks" for d
    using Cons(2) [of "Suc d"] that by simp
  ultimately have "is_block as bs (best_in_row i (j + 1) ks ?best) \<and> block_size ?best \<le> block_size (best_in_row i (j + 1) ks ?best) \<and>
    (\<forall>k \<in> set ks. k \<le> block_size (best_in_row i (j + 1) ks ?best))"
    using Cons(1) [of "j + 1" ?best] Cons(3,4) by simp
  moreover have "block_size best \<le> block_size ?best \<and> k \<le> block_size ?best" by (auto simp: block_size_def)
  ultimately show ?case by (auto simp del: split_paired_All)
qed simp

lemma scan_rows_spec:
  assumes "cs = drop i as" and "is_block as bs best"
  shows "is_block as bs (scan_rows pop i (run_row pop as bs i) cs bs best) \<and>
    block_size best \<le> block_size (scan_rows pop i (run_row pop as bs i) cs bs best) \<and>
    (\<forall>i' j. i < i' \<longrightarrow> i' \<le> length as \<longrightarrow> j < length bs \<longrightarrow>
      run_length pop as bs i' (Suc j) \<le> block_size (scan_rows pop i (run_row pop as bs i) cs bs best))"
  using assms
proof (induction cs arbitrary: i best)
  case Nil
  then show ?case by auto
next
  case (Cons c cs)
  have i: "i < length as" "c = as ! i" "cs = drop (Suc i) as"
    using Cons(2) by (metis drop_all linorder_not_le neq_Nil_conv list.discI)
      (metis Cons(2) Cons_nth_drop_Suc drop_all linorder_not_le list.discI list.inject)+
  let ?row = "run_row pop as bs (Suc i)" and ?best = "best_in_row i 0 (run_row pop as bs (Suc i)) best"
  have best: "is_block as bs ?best \<and> block_size best \<le> block_size ?best \<and> (\<forall>k \<in> set ?row. k \<le> block_size ?best)"
  proof (rule best_in_row_spec)
    show "?row ! d = run_length pop as bs (Suc i) (Suc (0 + d))" if "d < length ?row" for d
      using that by (simp add: run_row_def del: run_length.simps)
  qed (use i(1) Cons(3) in \<open>simp_all add: run_row_def\<close>)
  have rest: "is_block as bs (scan_rows pop (Suc i) ?row cs bs ?best) \<and>
      block_size ?best \<le> block_size (scan_rows pop (Suc i) ?row cs bs ?best) \<and>
      (\<forall>i' j. Suc i < i' \<longrightarrow> i' \<le> length as \<longrightarrow> j < length bs \<longrightarrow>
        run_length pop as bs i' (Suc j) \<le> block_size (scan_rows pop (Suc i) ?row cs bs ?best))"
    using Cons(1) [OF i(3)] best by blast
  have step: "scan_rows pop i (run_row pop as bs i) (c # cs) bs best = scan_rows pop (Suc i) ?row cs bs ?best"
    using i(1,2) run_row_Suc [of i as pop bs] by (simp add: Let_def)
  have "run_length pop as bs i' (Suc j) \<le> block_size (scan_rows pop (Suc i) ?row cs bs ?best)"
    if "i < i'" "i' \<le> length as" "j < length bs" for i' j
  proof (cases "i' = Suc i")
    case True
    then have "run_length pop as bs i' (Suc j) \<in> set ?row" using that(3) by (auto simp: run_row_def)
    with best rest show ?thesis by (meson le_trans)
  next
    case False
    with that(1) have "Suc i < i'" by simp
    with that rest show ?thesis by blast
  qed
  with best rest show ?case unfolding step by (meson le_trans)
qed

lemma extend_left_block:
  "is_block as bs (i, j, k) \<Longrightarrow> is_block as bs (extend_left as bs i j k) \<and> k \<le> block_size (extend_left as bs i j k)"
proof (induction as bs i j k rule: extend_left.induct)
  case (1 as bs i j k)
  show ?case
  proof (cases "as ! i = bs ! j")
    case True
    have "take (Suc k) (drop i as) = as ! i # take k (drop (Suc i) as)"
        "take (Suc k) (drop j bs) = bs ! j # take k (drop (Suc j) bs)"
      using 1(2) by (simp_all add: is_block_def Cons_nth_drop_Suc [symmetric])
    then have "is_block as bs (i, j, Suc k)" using 1(2) True by (simp add: is_block_def)
    from 1(1) [OF True this] True show ?thesis by simp
  qed (use 1(2) in \<open>simp add: block_size_def\<close>)
qed (simp_all add: block_size_def)

lemma common_prefix_eq:
  "common_prefix as bs \<le> length as \<and> common_prefix as bs \<le> length bs \<and>
    take (common_prefix as bs) as = take (common_prefix as bs) bs"
  by (induction as bs rule: common_prefix.induct) auto

lemma find_longest_spec:
  "is_block as bs (find_longest pop as bs) \<and>
    ((\<forall>b \<in> set bs. \<not> pop b) \<longrightarrow> (\<forall>y. is_block as bs y \<longrightarrow> block_size y \<le> block_size (find_longest pop as bs)))"
proof -
  let ?s = "scan_rows pop 0 (replicate (length bs) 0) as bs (0, 0, 0)"
  obtain i0 j0 k0 where s: "?s = (i0, j0, k0)" by (metis prod_cases3)
  obtain i j k where e: "extend_left as bs i0 j0 k0 = (i, j, k)" by (metis prod_cases3)
  have s_ok: "is_block as bs (i0, j0, k0)" and s_max: "\<forall>i' j. 0 < i' \<longrightarrow> i' \<le> length as \<longrightarrow> j < length bs \<longrightarrow>
      run_length pop as bs i' (Suc j) \<le> k0"
    using scan_rows_spec [of as 0 as bs "(0, 0, 0)" pop] s
    by (simp_all add: run_row_0 is_block_def block_size_def)
  from extend_left_block [OF s_ok] e have blk: "is_block as bs (i, j, k)" "k0 \<le> k" by (simp_all add: block_size_def)
  let ?x = "common_prefix (drop (i + k) as) (drop (j + k) bs)"
  have fl: "find_longest pop as bs = (i, j, k + ?x)" by (simp add: find_longest_def s e)
  have "take (k + ?x) (drop i as) = take (k + ?x) (drop j bs)"
    using blk(1) common_prefix_eq [of "drop (i + k) as" "drop (j + k) bs"]
    by (simp add: is_block_def take_add add.commute)
  then have "is_block as bs (find_longest pop as bs)"
    using blk(1) common_prefix_eq [of "drop (i + k) as" "drop (j + k) bs"] by (auto simp: fl is_block_def)
  moreover have "block_size y \<le> block_size (find_longest pop as bs)" if "\<forall>b \<in> set bs. \<not> pop b" "is_block as bs y" for y
  proof -
    obtain i' j' k' where y: "y = (i', j', k')" by (metis prod_cases3)
    show ?thesis
    proof (cases k')
      case (Suc n)
      from run_length_ge [of as bs i' j' k' pop] that y
      have "k' \<le> run_length pop as bs (i' + k') (j' + k')" by simp
      also have "\<dots> \<le> k0" using s_max that(2) y Suc by (simp add: is_block_def del: run_length.simps)
      finally show ?thesis using blk(2) y by (simp add: block_size_def fl)
    qed (simp add: y block_size_def)
  qed
  ultimately show ?thesis by blast
qed

lemma find_longest_fits:
  "find_longest pop as bs = (i, j, k) \<Longrightarrow> i + k \<le> length as \<and> j + k \<le> length bs"
  using find_longest_spec [of as bs pop] by (simp add: is_block_def)

text \<open>The characters in matching blocks.\<close>

function matched :: "(char \<Rightarrow> bool) \<Rightarrow> string \<Rightarrow> string \<Rightarrow> nat" where
  "matched pop as bs =
     (case find_longest pop as bs of (i, j, k) \<Rightarrow>
        if k = 0 then 0
        else k + (if 0 < i \<and> 0 < j then matched pop (take i as) (take j bs) else 0) +
          (if i + k < length as \<and> j + k < length bs then matched pop (drop (i + k) as) (drop (j + k) bs) else 0))"
  by pat_completeness auto
termination
  by (relation "measure (\<lambda>(pop, as, bs). length as)") (auto dest!: find_longest_fits [OF sym])

declare matched.simps [simp del]

lemma matched_le: "matched pop as bs \<le> length as \<and> matched pop as bs \<le> length bs"
proof (induction pop as bs rule: matched.induct)
  case (1 pop as bs)
  obtain i j k where f: "find_longest pop as bs = (i, j, k)" by (metis prod_cases3)
  note fit = find_longest_fits [OF f]
  note l = 1(1) [OF f [symmetric] refl] and r = 1(2) [OF f [symmetric] refl]
  define x where "x = (if 0 < i \<and> 0 < j then matched pop (take i as) (take j bs) else 0)"
  define y where "y = (if i + k < length as \<and> j + k < length bs then matched pop (drop (i + k) as) (drop (j + k) bs) else 0)"
  have m: "matched pop as bs = (if k = 0 then 0 else k + x + y)"
    unfolding x_def y_def by (subst matched.simps) (simp add: f)
  show ?case
  proof (cases "k = 0")
    case False
    have "x \<le> i \<and> x \<le> j" using l [OF False] fit by (auto simp: x_def)
    moreover have "y \<le> length as - (i + k) \<and> y \<le> length bs - (j + k)" using r [OF False] by (auto simp: y_def)
    ultimately show ?thesis unfolding m using fit False by arith
  qed (simp add: m)
qed

definition ratio :: "string \<Rightarrow> string \<Rightarrow> rat" where
  "ratio a b =
     (if length a + length b = 0 then 1
      else 2 * of_nat (matched (popular b) a b) / of_nat (length a + length b))"

lemma ratio_bounds: "0 \<le> ratio a b \<and> ratio a b \<le> 1"
proof -
  have "2 * matched (popular b) a b \<le> length a + length b" using matched_le [of "popular b" a b] by simp
  then have "of_nat (2 * matched (popular b) a b) \<le> (of_nat (length a + length b) :: rat)" by (rule of_nat_mono)
  then show ?thesis by (simp add: ratio_def divide_le_eq)
qed

lemma ratio_self: "length a < 200 \<Longrightarrow> ratio a a = 1"
proof (cases "a = []")
  case False
  assume "length a < 200"
  then have "\<forall>b \<in> set a. \<not> popular a b" by (simp add: popular_def)
  with find_longest_spec [of a a "popular a"] have "block_size (0, 0, length a) \<le> block_size (find_longest (popular a) a a)"
    by (auto simp: is_block_def simp del: split_paired_All)
  moreover obtain i j k where f: "find_longest (popular a) a a = (i, j, k)" by (metis prod_cases3)
  ultimately have "i = 0" "j = 0" "k = length a" using find_longest_fits [OF f] by (auto simp: block_size_def)
  then have "matched (popular a) a a = length a" using False f by (simp add: matched.simps)
  then show ?thesis using False by (simp add: ratio_def)
qed (simp add: ratio_def)

definition name_similarity :: "string \<Rightarrow> string \<Rightarrow> rat" where
  "name_similarity field column =
     (let tokens_a = set (split_on (CHR ''_'') (str_lower field)); tokens_b = set (split_on (CHR ''_'') (str_lower column));
          token_score = (if tokens_a \<noteq> {} \<or> tokens_b \<noteq> {}
            then of_nat (card (tokens_a \<inter> tokens_b)) / of_nat (card (tokens_a \<union> tokens_b)) else 0)
      in (ratio (normalize_name field) (normalize_name column) + token_score) / 2)"

subsection \<open>The score of a column\<close>

datatype reason =
    NameSimilarity rat | TypeCompatible | TypeNotCompatible | IsPrimaryKey | CommentMentionsField
  | LooksUnique | MostlyNull

record column_score =
  cs_column :: column_meta
  cs_score :: rat
  cs_reasons :: "reason list"

fun type_compatibility :: "logical_type \<Rightarrow> string list" where
  "type_compatibility T_STRING =
     [''character varying'', ''character'', ''text'', ''uuid'', ''name'', ''citext'', ''integer'', ''bigint'', ''smallint'']"
| "type_compatibility T_INTEGER = [''integer'', ''bigint'', ''smallint'', ''numeric'']"
| "type_compatibility T_FLOAT = [''numeric'', ''real'', ''double precision'', ''integer'', ''bigint'']"
| "type_compatibility T_BOOLEAN = [''boolean'']"
| "type_compatibility T_DATE = [''date'']"
| "type_compatibility T_DATETIME = [''timestamp without time zone'', ''timestamp with time zone'', ''date'']"
| "type_compatibility T_ENUM = [''character varying'', ''character'', ''text'']"
| "type_compatibility T_MONEY = [''numeric'', ''money'', ''real'', ''double precision'']"

definition comment_text :: "string option \<Rightarrow> string option \<Rightarrow> string" where
  "comment_text t c =
     str_lower (join_with '' '' (filter (\<lambda>s. s \<noteq> []) (map (\<lambda>x. case x of Some s \<Rightarrow> s | None \<Rightarrow> []) [t, c])))"

text \<open>A reason with the weight it adds, when it applies.\<close>

definition weigh :: "bool \<Rightarrow> rat \<Rightarrow> reason \<Rightarrow> (rat \<times> reason) list" where
  "weigh b w r = (if b then [(w, r)] else [])"

definition profile_reasons :: "ontology_field \<Rightarrow> column_meta \<Rightarrow> table_profile \<Rightarrow> (rat \<times> reason) list" where
  "profile_reasons f c p =
     (case List.find (\<lambda>x. cp_name x = cm_name c) (tp_columns p) of
        None \<Rightarrow> []
      | Some x \<Rightarrow>
          (case cp_distinct x of
             None \<Rightarrow> []
           | Some n \<Rightarrow> weigh (of_identifier f \<and> n \<noteq> 0 \<and> of_nat n / of_nat (max (tp_rows p) 1) > (19 / 20 :: rat)) (1 / 20) LooksUnique) @
          weigh (of_required f \<and> (case cp_null_fraction x of Some q \<Rightarrow> q | None \<Rightarrow> 0) > 1 / 2) (- 1 / 10) MostlyNull)"

definition score_column :: "ontology_field \<Rightarrow> column_meta \<Rightarrow> table_meta \<Rightarrow> table_profile option \<Rightarrow> column_score" where
  "score_column f c t profile =
     (let name_score = name_similarity (of_name f) (cm_name c);
          compatible = cm_sql_type c \<in> set (type_compatibility (of_type f));
          comments = comment_text (tm_comment t) (cm_comment c);
          reasons =
            [(name_score / 2, NameSimilarity name_score)] @
            [if compatible then (3 / 10, TypeCompatible) else (0, TypeNotCompatible)] @
            weigh (of_identifier f \<and> cm_name c \<in> set (tm_primary_key t)) (1 / 10) IsPrimaryKey @
            weigh (comments \<noteq> [] \<and> contains (normalize_name (of_name f)) (normalize_name comments)) (1 / 10) CommentMentionsField @
            (case profile of None \<Rightarrow> [] | Some p \<Rightarrow> profile_reasons f c p)
      in \<lparr>cs_column = c, cs_score = min (sum_list (map fst reasons)) 1, cs_reasons = map snd reasons\<rparr>)"

subsection \<open>The assignment\<close>

definition min_confidence :: rat where "min_confidence = 7 / 20"

definition column_source :: "string \<Rightarrow> field_mapping" where
  "column_source c =
     \<lparr>fm_sources = [\<lparr>vs_column = Some c, vs_static = None, vs_derived = None, vs_unit = None, vs_timezone = None,
        vs_value_map = None, vs_null_values = []\<rparr>], fm_default = None\<rparr>"

record assignment =
  as_columns :: "string set"
  as_fields :: "string set"
  as_explanations :: "(string \<times> string \<times> reason list) list"
  as_identity :: "(string, field_mapping) dict"
  as_mapped :: "(string, field_mapping) dict"
  as_confidences :: "rat list"

definition no_assignment :: assignment where
  "no_assignment = \<lparr>as_columns = {}, as_fields = {}, as_explanations = [], as_identity = [], as_mapped = [], as_confidences = []\<rparr>"

type_synonym candidate = "ontology_field \<times> column_score"

definition claim :: "candidate \<Rightarrow> field_mapping \<Rightarrow> assignment \<Rightarrow> assignment" where
  "claim p m a =
     (case p of (f, s) \<Rightarrow>
        a\<lparr>as_columns := insert (cm_name (cs_column s)) (as_columns a), as_fields := insert (of_name f) (as_fields a),
          as_explanations := as_explanations a @ [(of_name f, cm_name (cs_column s), cs_reasons s)],
          as_identity := (if of_identifier f then dict_put (of_name f) m (as_identity a) else as_identity a),
          as_mapped := (if of_identifier f then as_mapped a else dict_put (of_name f) m (as_mapped a)),
          as_confidences := as_confidences a @ [cs_score s]\<rparr>)"

fun assign :: "candidate list \<Rightarrow> assignment \<Rightarrow> exn + assignment" where
  "assign [] a = Inr a"
| "assign ((f, s) # rest) a =
     (if cs_score s < min_confidence then Inr a
      else if of_name f \<in> as_fields a \<or> cm_name (cs_column s) \<in> as_columns a then assign rest a
      else rbind (make_field_mapping (column_source (cm_name (cs_column s)))) (\<lambda>m. assign rest (claim (f, s) m a)))"

definition all_scores :: "ontology_entity \<Rightarrow> table_meta \<Rightarrow> table_profile option \<Rightarrow> candidate list" where
  "all_scores e t profile =
     concat (map (\<lambda>f. map (\<lambda>c. (f, score_column f c t profile)) (tm_columns t)) (oe_fields e))"

record suggestion =
  sg_document :: mapping_document
  sg_confidence :: rat
  sg_explanation :: "(string \<times> string \<times> reason list) list"

definition suggest_mapping :: "ontology_entity \<Rightarrow> table_meta \<Rightarrow> table_profile option \<Rightarrow> exn + suggestion" where
  "suggest_mapping e t profile =
     rbind (assign (sort_key (\<lambda>p. - cs_score (snd p)) (all_scores e t profile)) no_assignment) (\<lambda>a.
       if as_identity a = [] then Inl (ValueError ''Could not confidently suggest any identifier field mapping'')
       else rbind (make_document
           \<lparr>md_entity = oe_name e, md_source = \<lparr>st_schema = tm_schema t, st_table = tm_name t\<rparr>,
            md_identity = as_identity a, md_fields = as_mapped a, md_filters = [], md_joins = []\<rparr>) (\<lambda>d.
         Inr \<lparr>sg_document = d,
              sg_confidence = (if as_confidences a \<noteq> [] then sum_list (as_confidences a) / of_nat (length (as_confidences a)) else 0),
              sg_explanation = as_explanations a\<rparr>))"

subsection \<open>Scores\<close>

lemma name_similarity_bounds: "0 \<le> name_similarity f c \<and> name_similarity f c \<le> 1"
proof -
  define A where "A = set (split_on (CHR ''_'') (str_lower f))"
  define B where "B = set (split_on (CHR ''_'') (str_lower c))"
  have "card (A \<inter> B) \<le> card (A \<union> B)" by (rule card_mono) (auto simp: A_def B_def)
  then have "of_nat (card (A \<inter> B)) / of_nat (card (A \<union> B)) \<le> (1 :: rat)" by (simp add: divide_le_eq)
  with ratio_bounds [of "normalize_name f" "normalize_name c"] show ?thesis
    by (simp add: name_similarity_def Let_def flip: A_def B_def)
qed

lemma split_on_not_Nil: "split_on c s \<noteq> []"
  by (induction s) (auto split: list.splits)

lemma name_similarity_self: "length (normalize_name n) < 200 \<Longrightarrow> name_similarity n n = 1"
  by (simp add: name_similarity_def ratio_self split_on_not_Nil)

lemma score_le_1: "cs_score (score_column f c t p) \<le> 1"
  by (simp add: score_column_def Let_def)

lemma score_column_column [simp]: "cs_column (score_column f c t p) = c"
  by (simp add: score_column_def Let_def)

subsection \<open>The greedy choice as a function of its own\<close>

fun greedy :: "candidate list \<Rightarrow> string set \<Rightarrow> string set \<Rightarrow> candidate list" where
  "greedy [] fs cs = []"
| "greedy ((f, s) # rest) fs cs =
     (if cs_score s < min_confidence then []
      else if of_name f \<in> fs \<or> cm_name (cs_column s) \<in> cs then greedy rest fs cs
      else (f, s) # greedy rest (insert (of_name f) fs) (insert (cm_name (cs_column s)) cs))"

abbreviation field_of :: "candidate \<Rightarrow> string" where "field_of p \<equiv> of_name (fst p)"
abbreviation column_of :: "candidate \<Rightarrow> string" where "column_of p \<equiv> cm_name (cs_column (snd p))"
abbreviation score_of :: "candidate \<Rightarrow> rat" where "score_of p \<equiv> cs_score (snd p)"

lemma greedy_distinct:
  "distinct (map field_of (greedy ps fs cs)) \<and> distinct (map column_of (greedy ps fs cs)) \<and>
    field_of ` set (greedy ps fs cs) \<inter> fs = {} \<and> column_of ` set (greedy ps fs cs) \<inter> cs = {}"
proof (induction ps fs cs rule: greedy.induct)
  case (2 f s rest fs cs)
  consider "cs_score s < min_confidence"
    | "\<not> cs_score s < min_confidence" "of_name f \<in> fs \<or> cm_name (cs_column s) \<in> cs"
    | "\<not> cs_score s < min_confidence" "\<not> (of_name f \<in> fs \<or> cm_name (cs_column s) \<in> cs)" by blast
  then show ?case
  proof cases
    case 3
    let ?g = "greedy rest (insert (of_name f) fs) (insert (cm_name (cs_column s)) cs)"
    have apart: "x \<notin> A \<and> A \<inter> B = {}" if "A \<inter> insert x B = {}" for x :: string and A B using that by blast
    from 2(2) [OF 3] have "distinct (map field_of ?g)" "distinct (map column_of ?g)"
        "field_of ` set ?g \<inter> insert (of_name f) fs = {}" "column_of ` set ?g \<inter> insert (cm_name (cs_column s)) cs = {}"
      by blast+
    note IH = this(1,2) apart [OF this(3)] apart [OF this(4)]
    have "greedy ((f, s) # rest) fs cs = (f, s) # ?g" using 3 by simp
    with 3 IH show ?thesis by (simp add: image_iff) 
  qed (use 2(1) in simp_all)
qed simp

lemma greedy_subset: "set (greedy ps fs cs) \<subseteq> {p \<in> set ps. min_confidence \<le> score_of p}"
  by (induction ps fs cs rule: greedy.induct) auto

lemma greedy_blocks:
  assumes "sorted_wrt (\<lambda>p q. score_of q \<le> score_of p) ps" and "p \<in> set ps" "min_confidence \<le> score_of p"
  shows "field_of p \<in> fs \<or> column_of p \<in> cs \<or>
    (\<exists>q \<in> set (greedy ps fs cs). (field_of q = field_of p \<or> column_of q = column_of p) \<and> score_of p \<le> score_of q)"
  using assms
proof (induction ps fs cs rule: greedy.induct)
  case (2 f s rest fs cs)
  have le: "score_of p \<le> cs_score s" using 2(3,4) by (cases "p = (f, s)") simp_all
  then have conf: "\<not> cs_score s < min_confidence" using 2(5) by simp
  show ?case
  proof (cases "p = (f, s)")
    case True
    then show ?thesis using conf by simp
  next
    case False
    then have p: "p \<in> set rest" "sorted_wrt (\<lambda>p q. score_of q \<le> score_of p) rest" using 2(3,4) by simp_all
    show ?thesis
    proof (cases "of_name f \<in> fs \<or> cm_name (cs_column s) \<in> cs")
      case True
      with 2(1) [OF conf True p(2,1) 2(5)] conf show ?thesis by simp
    next
      case free: False
      let ?g = "greedy rest (insert (of_name f) fs) (insert (cm_name (cs_column s)) cs)"
      have g: "set (greedy ((f, s) # rest) fs cs) = insert (f, s) (set ?g)" using conf free by simp
      from 2(2) [OF conf free p(2,1) 2(5)]
      consider "field_of p = of_name f \<or> column_of p = cm_name (cs_column s)" | "field_of p \<in> fs \<or> column_of p \<in> cs"
        | q where "q \<in> set ?g" "field_of q = field_of p \<or> column_of q = column_of p" "score_of p \<le> score_of q" by blast
      then show ?thesis
      proof cases
        case 1
        then show ?thesis using le unfolding g by (intro disjI2 bexI [of _ "(f, s)"]) auto
      qed (unfold g, blast+)
    qed
  qed
qed simp

subsection \<open>The assignment is the greedy choice\<close>

definition mapping_of :: "candidate \<Rightarrow> string \<times> field_mapping" where
  "mapping_of p = (field_of p, column_source (column_of p))"

lemma dict_put_fresh: "k \<notin> fst ` set d \<Longrightarrow> dict_put k v d = d @ [(k, v)]"
  by (induction k v d rule: dict_put.induct) auto

lemma make_field_mapping_same: "make_field_mapping m = Inr m' \<Longrightarrow> m' = m"
  by (auto simp: make_field_mapping_def split: if_splits)

lemma claim_fresh:
  assumes "fst ` set (as_identity a) \<subseteq> as_fields a" "fst ` set (as_mapped a) \<subseteq> as_fields a" and "of_name f \<notin> as_fields a"
  shows "claim (f, s) (column_source (cm_name (cs_column s))) a =
    a\<lparr>as_columns := insert (cm_name (cs_column s)) (as_columns a), as_fields := insert (of_name f) (as_fields a),
      as_explanations := as_explanations a @ [(of_name f, cm_name (cs_column s), cs_reasons s)],
      as_identity := as_identity a @ (if of_identifier f then [mapping_of (f, s)] else []),
      as_mapped := as_mapped a @ (if of_identifier f then [] else [mapping_of (f, s)]),
      as_confidences := as_confidences a @ [cs_score s]\<rparr>"
proof -
  have "of_name f \<notin> fst ` set (as_identity a)" "of_name f \<notin> fst ` set (as_mapped a)" using assms by blast+
  then show ?thesis by (simp add: claim_def mapping_of_def dict_put_fresh)
qed

lemma assign_greedy:
  assumes "assign ps a = Inr b" "fst ` set (as_identity a) \<subseteq> as_fields a" "fst ` set (as_mapped a) \<subseteq> as_fields a"
    and "cl = greedy ps (as_fields a) (as_columns a)"
  shows "as_identity b = as_identity a @ map mapping_of (filter (\<lambda>p. of_identifier (fst p)) cl) \<and>
    as_mapped b = as_mapped a @ map mapping_of (filter (\<lambda>p. \<not> of_identifier (fst p)) cl) \<and>
    as_confidences b = as_confidences a @ map score_of cl"
  using assms
proof (induction ps a arbitrary: cl rule: assign.induct)
  case (2 f s rest a)
  consider "cs_score s < min_confidence"
    | "\<not> cs_score s < min_confidence" "of_name f \<in> as_fields a \<or> cm_name (cs_column s) \<in> as_columns a"
    | "\<not> cs_score s < min_confidence" "\<not> (of_name f \<in> as_fields a \<or> cm_name (cs_column s) \<in> as_columns a)" by blast
  then show ?case
  proof cases
    case 3
    let ?m = "column_source (cm_name (cs_column s))"
    from 2(3) 3 obtain m where m: "make_field_mapping ?m = Inr m" and rest: "assign rest (claim (f, s) m a) = Inr b" by auto
    have eq: "m = ?m" using m by (rule make_field_mapping_same)
    note c = claim_fresh [OF 2(4,5), of f s]
    from 3(2) have c: "claim (f, s) m a =
      a\<lparr>as_columns := insert (cm_name (cs_column s)) (as_columns a), as_fields := insert (of_name f) (as_fields a),
        as_explanations := as_explanations a @ [(of_name f, cm_name (cs_column s), cs_reasons s)],
        as_identity := as_identity a @ (if of_identifier f then [mapping_of (f, s)] else []),
        as_mapped := as_mapped a @ (if of_identifier f then [] else [mapping_of (f, s)]),
        as_confidences := as_confidences a @ [cs_score s]\<rparr>"
      unfolding eq using c by blast
    have keys: "fst ` set (as_identity (claim (f, s) m a)) \<subseteq> as_fields (claim (f, s) m a)"
        "fst ` set (as_mapped (claim (f, s) m a)) \<subseteq> as_fields (claim (f, s) m a)"
      unfolding c using 2(4,5) by (auto simp: mapping_of_def)
    have cl: "cl = (f, s) # greedy rest (as_fields (claim (f, s) m a)) (as_columns (claim (f, s) m a))"
      unfolding c using 3 2(6) by simp
    from 2(2) [OF 3 rest keys refl] show ?thesis unfolding cl by (simp add: c)
  qed (use 2 in simp_all)
qed simp

lemma sum_list_le: "(\<And>x. x \<in> set xs \<Longrightarrow> x \<le> (c :: rat)) \<Longrightarrow> sum_list xs \<le> of_nat (length xs) * c"
  by (induction xs) (auto simp: algebra_simps intro: add_mono)

lemma sum_list_ge: "(\<And>x. x \<in> set xs \<Longrightarrow> (c :: rat) \<le> x) \<Longrightarrow> of_nat (length xs) * c \<le> sum_list xs"
  by (induction xs) (auto simp: algebra_simps intro: add_mono)

lemma mean_bounds:
  assumes "xs \<noteq> []" and "\<And>x. x \<in> set xs \<Longrightarrow> (lo :: rat) \<le> x \<and> x \<le> hi"
  shows "lo \<le> sum_list xs / of_nat (length xs) \<and> sum_list xs / of_nat (length xs) \<le> hi"
  using assms sum_list_le [of xs hi] sum_list_ge [of xs lo]
  by (simp add: le_divide_eq divide_le_eq mult.commute)

lemma all_scores_set: "p \<in> set (all_scores e t pr) \<longleftrightarrow>
    (\<exists>f \<in> set (oe_fields e). \<exists>c \<in> set (tm_columns t). p = (f, score_column f c t pr))"
  by (auto simp: all_scores_def)

lemma make_document_same: "make_document d = Inr d' \<Longrightarrow> d' = d \<and> md_identity d \<noteq> []"
  by (auto simp: make_document_def split: if_splits)

lemma suggest_mapping_Inr:
  assumes "suggest_mapping e t profile = Inr r"
  defines "ps \<equiv> sort_key (\<lambda>p. - score_of p) (all_scores e t profile)"
  defines "cl \<equiv> greedy ps {} {}"
  shows "sg_document r = \<lparr>md_entity = oe_name e, md_source = \<lparr>st_schema = tm_schema t, st_table = tm_name t\<rparr>,
      md_identity = map mapping_of (filter (\<lambda>p. of_identifier (fst p)) cl),
      md_fields = map mapping_of (filter (\<lambda>p. \<not> of_identifier (fst p)) cl), md_filters = [], md_joins = []\<rparr> \<and>
    make_document (sg_document r) = Inr (sg_document r) \<and> md_identity (sg_document r) \<noteq> [] \<and>
    sg_confidence r = sum_list (map score_of cl) / of_nat (length cl)"
proof -
  from assms(1) obtain a d where a: "assign ps no_assignment = Inr a" and id: "as_identity a \<noteq> []"
      and d: "make_document \<lparr>md_entity = oe_name e, md_source = \<lparr>st_schema = tm_schema t, st_table = tm_name t\<rparr>,
            md_identity = as_identity a, md_fields = as_mapped a, md_filters = [], md_joins = []\<rparr> = Inr d"
      and r: "r = \<lparr>sg_document = d,
              sg_confidence = (if as_confidences a \<noteq> [] then sum_list (as_confidences a) / of_nat (length (as_confidences a)) else 0),
              sg_explanation = as_explanations a\<rparr>"
    unfolding suggest_mapping_def ps_def by (auto split: if_splits)
  have g: "as_identity a = map mapping_of (filter (\<lambda>p. of_identifier (fst p)) cl)"
      "as_mapped a = map mapping_of (filter (\<lambda>p. \<not> of_identifier (fst p)) cl)" "as_confidences a = map score_of cl"
    using assign_greedy [OF a _ _ refl] by (simp_all add: no_assignment_def cl_def)
  from make_document_same [OF d] d g id r show ?thesis by simp
qed

lemma column_source_inject [simp]: "column_source c = column_source c' \<longleftrightarrow> c = c'"
  by (simp add: column_source_def)

lemma distinct_partition: "distinct (map g xs) \<Longrightarrow> distinct (map g (filter P xs @ filter (\<lambda>x. \<not> P x) xs))"
  by (auto simp: distinct_map inj_on_def)

text \<open>
  C33: a suggested document names the entity and the table it was made for, is one that the
  document's own validation accepts and identifies the entity. No field and no column appears
  twice, every entry is a field of the ontology with a column of the table that scores at least
  the minimal confidence, identifier fields under \<open>identity\<close>. The choice is stable: of any pair
  that scores enough, the field or the column is in the document in a pair that scores at least
  as much. The confidence lies between the minimum and one.
\<close>

theorem suggestions_are_stable:
  assumes "suggest_mapping e t profile = Inr r"
  shows "md_entity (sg_document r) = oe_name e \<and> md_source (sg_document r) = \<lparr>st_schema = tm_schema t, st_table = tm_name t\<rparr> \<and>
    make_document (sg_document r) = Inr (sg_document r) \<and> md_identity (sg_document r) \<noteq> [] \<and>
    distinct (map fst (md_identity (sg_document r) @ md_fields (sg_document r))) \<and>
    distinct (map snd (md_identity (sg_document r) @ md_fields (sg_document r))) \<and>
    (\<forall>(n, m) \<in> set (md_identity (sg_document r) @ md_fields (sg_document r)).
      \<exists>f \<in> set (oe_fields e). \<exists>c \<in> set (tm_columns t). of_name f = n \<and> m = column_source (cm_name c) \<and>
        min_confidence \<le> cs_score (score_column f c t profile) \<and>
        (of_identifier f \<longleftrightarrow> (n, m) \<in> set (md_identity (sg_document r)))) \<and>
    (\<forall>f \<in> set (oe_fields e). \<forall>c \<in> set (tm_columns t). min_confidence \<le> cs_score (score_column f c t profile) \<longrightarrow>
      (\<exists>f' \<in> set (oe_fields e). \<exists>c' \<in> set (tm_columns t).
        (of_name f', column_source (cm_name c')) \<in> set (md_identity (sg_document r) @ md_fields (sg_document r)) \<and>
        (of_name f' = of_name f \<or> cm_name c' = cm_name c) \<and>
        cs_score (score_column f c t profile) \<le> cs_score (score_column f' c' t profile))) \<and>
    min_confidence \<le> sg_confidence r \<and> sg_confidence r \<le> 1"
proof -
  define ps where "ps = sort_key (\<lambda>p. - score_of p) (all_scores e t profile)"
  define cl where "cl = greedy ps {} {}"
  let ?ids = "filter (\<lambda>p. of_identifier (fst p)) cl" and ?rest = "filter (\<lambda>p. \<not> of_identifier (fst p)) cl"
  note r = suggest_mapping_Inr [OF assms, folded ps_def, folded cl_def]
  have entries: "md_identity (sg_document r) @ md_fields (sg_document r) = map mapping_of (?ids @ ?rest)" using r by simp
  have set_entries: "set (md_identity (sg_document r) @ md_fields (sg_document r)) = mapping_of ` set cl"
    unfolding entries by auto
  note dist = greedy_distinct [of ps "{}" "{}", folded cl_def]
  have fst: "map fst (map mapping_of xs) = map field_of xs"
    and snd: "map snd (map mapping_of xs) = map column_source (map column_of xs)" for xs
    by (simp_all add: mapping_of_def comp_def)
  have d1: "distinct (map fst (map mapping_of (?ids @ ?rest)))" unfolding fst
    by (rule distinct_partition) (use dist in blast)
  have "distinct (map column_of (?ids @ ?rest))" by (rule distinct_partition) (use dist in blast)
  then have d2: "distinct (map snd (map mapping_of (?ids @ ?rest)))" unfolding snd
    by (subst distinct_map) (simp add: inj_on_def)
  have mem: "p \<in> set cl \<Longrightarrow> \<exists>f \<in> set (oe_fields e). \<exists>c \<in> set (tm_columns t). p = (f, score_column f c t profile) \<and>
      min_confidence \<le> score_of p" for p
    using greedy_subset [of ps "{}" "{}", folded cl_def] all_scores_set [of p e t profile] by (auto simp: ps_def)
  have uniq: "p = q" if "p \<in> set cl" "q \<in> set cl" "mapping_of p = mapping_of q" for p q
  proof -
    from that(3) have "field_of p = field_of q" by (simp add: mapping_of_def)
    with dist that show ?thesis by (simp add: distinct_map inj_on_def)
  qed
  have all: "\<exists>f \<in> set (oe_fields e). \<exists>c \<in> set (tm_columns t). of_name f = fst x \<and> snd x = column_source (cm_name c) \<and>
      min_confidence \<le> cs_score (score_column f c t profile) \<and> (of_identifier f \<longleftrightarrow> x \<in> set (md_identity (sg_document r)))"
    if "x \<in> mapping_of ` set cl" for x
  proof -
    from that obtain p where p: "p \<in> set cl" "x = mapping_of p" by blast
    from mem [OF p(1)] obtain f c where f: "f \<in> set (oe_fields e)" "c \<in> set (tm_columns t)"
        "p = (f, score_column f c t profile)" "min_confidence \<le> score_of p" by blast
    have "x \<in> mapping_of ` set ?ids \<longleftrightarrow> p \<in> set ?ids"
      unfolding p(2) using uniq [OF p(1)] by (metis (no_types, lifting) filter_is_subset image_iff subsetD)
    then have "x \<in> mapping_of ` set ?ids \<longleftrightarrow> of_identifier f" using p(1) f(3) by simp
    then have "of_identifier f \<longleftrightarrow> x \<in> set (md_identity (sg_document r))" using r by simp
    with f p show ?thesis by (intro bexI [of _ f] bexI [of _ c]) (simp_all add: mapping_of_def)
  qed
  have sorted: "sorted_wrt (\<lambda>p q. score_of q \<le> score_of p) ps"
    using sorted_sort_key [of "\<lambda>p. - score_of p" "all_scores e t profile"] by (simp add: ps_def sorted_map)
  have stable: "\<exists>f' \<in> set (oe_fields e). \<exists>c' \<in> set (tm_columns t). (of_name f', column_source (cm_name c')) \<in> mapping_of ` set cl \<and>
      (of_name f' = of_name f \<or> cm_name c' = cm_name c) \<and>
      cs_score (score_column f c t profile) \<le> cs_score (score_column f' c' t profile)"
    if f: "f \<in> set (oe_fields e)" "c \<in> set (tm_columns t)" "min_confidence \<le> cs_score (score_column f c t profile)" for f c
  proof -
    have "(f, score_column f c t profile) \<in> set ps" unfolding ps_def using f(1,2) by (auto simp: all_scores_set)
    from greedy_blocks [OF sorted this, of "{}" "{}", folded cl_def] f(3)
    obtain q where q: "q \<in> set cl" "field_of q = of_name f \<or> column_of q = cm_name c"
        "cs_score (score_column f c t profile) \<le> score_of q" by auto
    from mem [OF q(1)] obtain f' c' where "f' \<in> set (oe_fields e)" "c' \<in> set (tm_columns t)" "q = (f', score_column f' c' t profile)"
      by blast
    with q show ?thesis by (intro bexI [of _ f'] bexI [of _ c']) (force simp: mapping_of_def)+
  qed
  have "map score_of cl \<noteq> []" using r by auto
  then have conf: "min_confidence \<le> sg_confidence r \<and> sg_confidence r \<le> 1"
    using mean_bounds [of "map score_of cl" min_confidence 1] mem score_le_1 r by fastforce
  have doc: "md_entity (sg_document r) = oe_name e" "md_source (sg_document r) = \<lparr>st_schema = tm_schema t, st_table = tm_name t\<rparr>"
    using r by simp_all
  have each: "\<forall>(n, m) \<in> mapping_of ` set cl. \<exists>f \<in> set (oe_fields e). \<exists>c \<in> set (tm_columns t). of_name f = n \<and>
      m = column_source (cm_name c) \<and> min_confidence \<le> cs_score (score_column f c t profile) \<and>
      (of_identifier f \<longleftrightarrow> (n, m) \<in> set (md_identity (sg_document r)))"
  proof (rule ballI)
    fix x assume "x \<in> mapping_of ` set cl"
    from all [OF this] show "case x of (n, m) \<Rightarrow> \<exists>f \<in> set (oe_fields e). \<exists>c \<in> set (tm_columns t). of_name f = n \<and>
      m = column_source (cm_name c) \<and> min_confidence \<le> cs_score (score_column f c t profile) \<and>
      (of_identifier f \<longleftrightarrow> (n, m) \<in> set (md_identity (sg_document r)))"
      by (cases x) simp
  qed
  note keys = d1 [folded entries] d2 [folded entries]
  from r have ok: "make_document (sg_document r) = Inr (sg_document r)" "md_identity (sg_document r) \<noteq> []" by blast+
  show ?thesis unfolding set_entries using stable by (intro conjI doc ok keys each conf [THEN conjunct1] conf [THEN conjunct2]) blast
qed

subsection \<open>An example\<close>

definition plain_column :: "string \<Rightarrow> string \<Rightarrow> int \<Rightarrow> column_meta" where
  "plain_column n ty i = \<lparr>cm_name = n, cm_sql_type = ty, cm_nullable = True, cm_position = i, cm_comment = None\<rparr>"

definition fleet_table :: table_meta where
  "fleet_table =
     \<lparr>tm_schema = ''public'', tm_name = ''fleet'', tm_kind = ''table'', tm_comment = None,
      tm_columns = [plain_column ''vid'' ''integer'' 1, plain_column ''fuel'' ''text'' 2],
      tm_primary_key = [''vid''], tm_foreign_keys = [], tm_uniques = [], tm_indexes = [], tm_row_count = None\<rparr>"

definition plain_field :: "string \<Rightarrow> bool \<Rightarrow> ontology_field" where
  "plain_field n i =
     \<lparr>of_name = n, of_type = T_STRING, of_unit = None, of_enum = None, of_classification = PUBLIC,
      of_required = i, of_identifier = i\<rparr>"

definition fleet_entity :: ontology_entity where
  "fleet_entity =
     \<lparr>oe_name = ''Vehicle'', oe_domain = ''fleet'', oe_fields = [plain_field ''id'' True, plain_field ''fuel'' False],
      oe_relationships = []\<rparr>"

definition fleet_suggestion :: suggestion where
  "fleet_suggestion = projr (suggest_mapping fleet_entity fleet_table None)"

lemma fleet_suggested:
  "suggest_mapping fleet_entity fleet_table None = Inr fleet_suggestion \<and>
   map fst (md_identity (sg_document fleet_suggestion)) = [''id''] \<and>
   map (\<lambda>(n, m). (n, map vs_column (fm_sources m))) (md_fields (sg_document fleet_suggestion)) = [(''fuel'', [Some ''fuel''])]"
proof -
  have "(case suggest_mapping fleet_entity fleet_table None of Inl _ \<Rightarrow> None
    | Inr r \<Rightarrow> Some (map fst (md_identity (sg_document r)),
        map (\<lambda>(n, m). (n, map vs_column (fm_sources m))) (md_fields (sg_document r)))) =
    Some ([''id''], [(''fuel'', [Some ''fuel''])])" by code_simp
  then show ?thesis unfolding fleet_suggestion_def by (simp split: sum.splits)
qed

theorem suggestions_are_stable_witness:
  "map fst (md_identity (sg_document fleet_suggestion)) = [''id''] \<and>
   map (\<lambda>(n, m). (n, map vs_column (fm_sources m))) (md_fields (sg_document fleet_suggestion)) = [(''fuel'', [Some ''fuel''])] \<and>
   min_confidence \<le> sg_confidence fleet_suggestion \<and> sg_confidence fleet_suggestion \<le> 1"
  using fleet_suggested suggestions_are_stable [OF fleet_suggested [THEN conjunct1]] by simp

text \<open>
  The block that the similarity of two names is built from is one of their longest common
  blocks: it is common to both, and no common block is longer when no character is popular
  (which needs a name of 200 characters). So a name is as similar to itself as can be.
\<close>

theorem longest_block_is_longest:
  assumes "length bs < 200"
  shows "is_block as bs (find_longest (popular bs) as bs) \<and>
    (\<forall>y. is_block as bs y \<longrightarrow> block_size y \<le> block_size (find_longest (popular bs) as bs)) \<and> ratio bs bs = 1"
  using assms find_longest_spec [of as bs "popular bs"] ratio_self [of bs] by (simp add: popular_def)

theorem longest_block_is_longest_witness:
  "find_longest (popular ''vehicleno'') ''vehicleid'' ''vehicleno'' = (0, 0, 7) \<and> ratio ''vehicleno'' ''vehicleno'' = 1"
proof -
  have "find_longest (popular ''vehicleno'') ''vehicleid'' ''vehicleno'' = (0, 0, 7)" by code_simp
  with longest_block_is_longest [of "''vehicleno''" "''vehicleid''"] show ?thesis by simp
qed

end
