(* ===== verification/Routes.thy ===== *)
theory Routes
  imports Monitoring Suggest Credentials
begin

section \<open>The HTTP interface\<close>

text \<open>
  \<open>apps/api/routers\<close> and \<open>apps/api/exception_handlers.py\<close>. A route is a record of what its
  declaration and its handler say: the dependencies that guard it, the status of its answer, the
  exceptions its handler turns into an answer, whether it commits, and what it does. \<open>respond\<close>
  runs a route for a request. An answer that is not committed is forgotten with its session; what
  lives in the process (engine pools, the development secrets, the model cache) stays. New row
  ids, random parts and the time are arguments; column timestamps are left out of the answers,
  and a request whose body does not parse never gets here. The event of a refusal is written in a
  session of its own, which fails silently when the control plane cannot be reached.
\<close>

subsection \<open>Requests, answers and exceptions\<close>

record 'tok http =
  ht_request :: "'tok request"
  ht_path :: string
  ht_audit_up :: bool

datatype 'b reply = Reply nat 'b | Problem nat

text \<open>\<open>exception_handlers.py\<close>: the status and the event of an exception, for a caller's tenant.\<close>

definition denied_event ::
  "uuid option \<Rightarrow> uuid option \<Rightarrow> string option \<Rightarrow> string \<Rightarrow> (string \<times> json) list \<Rightarrow> audit_event" where
  "denied_event tenant who corr action details =
     \<lparr>ae_tenant = tenant, ae_principal = who, ae_principal_type = ''unknown'', ae_action = action,
      ae_resource_type = None, ae_resource_id = None, ae_outcome = DENIED, ae_correlation = corr, ae_details = details\<rparr>"

fun refusal :: "uuid option \<Rightarrow> string option \<Rightarrow> string \<Rightarrow> exn \<Rightarrow> (nat \<times> audit_event) option" where
  "refusal caller corr path (AuthenticationError reason) = Some (401, auth_failure_event corr reason path)"
| "refusal caller corr path (AuthorizationError reason tenant who) =
     Some (403, denied_event (Some tenant) (Some who) corr ''authz.check''
       [(''reason'', JStr reason), (''path'', JStr path)])"
| "refusal caller corr path TenantMismatchError =
     Some (404, denied_event caller None corr ''tenant.cross_tenant_access_attempt'' [(''path'', JStr path)])"
| "refusal caller corr path e = None"

subsection \<open>Sessions and routes\<close>

text \<open>
  What a session means for a state: \<open>keep old new\<close> is what is left of \<open>new\<close> when the session is
  not committed, \<open>log\<close> writes one event.
\<close>

record 'd session =
  se_keep :: "'d \<Rightarrow> 'd \<Rightarrow> 'd"
  se_log :: "audit_event \<Rightarrow> 'd \<Rightarrow> 'd"

text \<open>What a handler raises: an exception of a service, or an \<open>HTTPException\<close> of its own.\<close>

datatype failure = Raised exn | Http nat

definition catch :: "(exn \<Rightarrow> nat option) \<Rightarrow> exn \<Rightarrow> failure" where
  "catch caught e = (case caught e of Some status \<Rightarrow> Http status | None \<Rightarrow> Raised e)"

definition uncaught :: "exn \<Rightarrow> nat option" where
  "uncaught e = None"

type_synonym guard = "tenant_context \<Rightarrow> exn + tenant_context"

record ('d, 'b) route =
  ro_guards :: "guard list"
  ro_status :: nat
  ro_commits :: bool
  ro_body :: "tenant_context \<Rightarrow> 'd \<Rightarrow> (failure + 'b) \<times> 'd"

fun pass_guards :: "guard list \<Rightarrow> tenant_context \<Rightarrow> exn + unit" where
  "pass_guards [] ctx = Inr ()"
| "pass_guards (g # gs) ctx = rbind (g ctx) (\<lambda>_. pass_guards gs ctx)"

definition handle_exception ::
  "'d session \<Rightarrow> 'tok http \<Rightarrow> uuid option \<Rightarrow> exn \<Rightarrow> 'd \<Rightarrow> 'b reply \<times> 'd" where
  "handle_exception se h caller e d =
     (case refusal caller (req_correlation (ht_request h)) (ht_path h) e of
        None \<Rightarrow> (Problem 500, d)
      | Some (status, ev) \<Rightarrow> (Problem status, if ht_audit_up h then se_log se ev d else d))"

definition respond ::
  "'d session \<Rightarrow> 'tok jwt_decoder \<Rightarrow> settings \<Rightarrow> int \<Rightarrow> 'tok http \<Rightarrow> ('d, 'b) route \<Rightarrow> 'd \<Rightarrow> 'b reply \<times> 'd" where
  "respond se dec s now h r d =
     (case get_tenant_context dec s now (ht_request h) of
        Inl e \<Rightarrow> handle_exception se h None e d
      | Inr b \<Rightarrow>
          (let ctx = bc_context b; refuse = handle_exception se h (Some (bc_request_tenant b))
           in case pass_guards (ro_guards r) ctx of
                Inl e \<Rightarrow> refuse e d
              | Inr _ \<Rightarrow>
                  (case ro_body r ctx d of
                     (Inr x, d') \<Rightarrow> (Reply (ro_status r) x, if ro_commits r then d' else se_keep se d d')
                   | (Inl (Http status), d') \<Rightarrow> (Problem status, se_keep se d d')
                   | (Inl (Raised e), d') \<Rightarrow> refuse e (se_keep se d d'))))"

subsection \<open>The state of the process\<close>

text \<open>A discovery that was accepted waits as a background job.\<close>

record discovery_job =
  dj_snapshot :: uuid
  dj_context :: tenant_context
  dj_profiling :: "profiling_config option"

record 'w process =
  pc_db :: pred_db
  pc_loader :: "'w loader"
  pc_jobs :: "discovery_job list"

definition process_session :: "'w process session" where
  "process_session =
     \<lparr>se_keep = (\<lambda>old new. old\<lparr>pc_db := (pc_db old)\<lparr>db_pools := db_pools (pc_db new), db_secrets := db_secrets (pc_db new)\<rparr>,
        pc_loader := pc_loader new\<rparr>),
      se_log = (\<lambda>e d. d\<lparr>pc_db := audit_record e (pc_db d)\<rparr>)\<rparr>"

definition plain_session :: "'z audit_db_scheme session" where
  "plain_session = \<lparr>se_keep = (\<lambda>old new. old), se_log = audit_record\<rparr>"

text \<open>Operations of the services on the database of the process, and queries.\<close>

definition on_db ::
  "(exn \<Rightarrow> nat option) \<Rightarrow> (pred_db \<Rightarrow> (exn + 'a) \<times> pred_db) \<Rightarrow> ('a \<Rightarrow> 'b) \<Rightarrow> 'w process \<Rightarrow> (failure + 'b) \<times> 'w process" where
  "on_db caught op f d =
     (case op (pc_db d) of
        (Inr x, db) \<Rightarrow> (Inr (f x), d\<lparr>pc_db := db\<rparr>)
      | (Inl e, db) \<Rightarrow> (Inl (catch caught e), d\<lparr>pc_db := db\<rparr>))"

definition from_db :: "(exn \<Rightarrow> nat option) \<Rightarrow> (pred_db \<Rightarrow> exn + 'b) \<Rightarrow> 'w process \<Rightarrow> (failure + 'b) \<times> 'w process" where
  "from_db caught q d = (case q (pc_db d) of Inr x \<Rightarrow> (Inr x, d) | Inl e \<Rightarrow> (Inl (catch caught e), d))"

subsection \<open>Connections\<close>

record connection_response =
  cx_id :: uuid
  cx_tenant :: "uuid option"
  cx_name :: string
  cx_engine :: database_engine
  cx_host :: string
  cx_port :: int
  cx_database :: string
  cx_username :: string
  cx_tls_mode :: string
  cx_status :: connection_status
  cx_schemas :: "string list"
  cx_tables :: "string list"
  cx_validated_at :: "instant option"
  cx_last_error :: "string option"

definition connection_response_of :: "connection \<Rightarrow> connection_response" where
  "connection_response_of c =
     \<lparr>cx_id = row_id c, cx_tenant = row_tenant c, cx_name = cn_name c, cx_engine = cn_engine c, cx_host = cn_host c,
      cx_port = cn_port c, cx_database = cn_database c, cx_username = cn_username c, cx_tls_mode = cn_tls_mode c,
      cx_status = cn_status c, cx_schemas = cn_schemas c, cx_tables = cn_tables c,
      cx_validated_at = cn_validated_at c, cx_last_error = cn_last_error c\<rparr>"

record snapshot_summary =
  sy_id :: uuid
  sy_connection :: uuid
  sy_sequence :: int
  sy_status :: discovery_status
  sy_fingerprint :: "string option"
  sy_unacknowledged :: bool

record snapshot_detail = snapshot_summary +
  sy_metadata :: "introspection option"
  sy_table_fingerprints :: "(string, string) dict"
  sy_drift :: "drift_event list option"
  sy_ack_at :: "instant option"
  sy_error :: "string option"

record mapping_response =
  my_id :: uuid
  my_tenant :: "uuid option"
  my_entity :: string
  my_snapshot :: uuid
  my_ontology :: string
  my_state :: mapping_state
  my_active :: "uuid option"
  my_suspended :: bool

record prediction_answer =
  pa_prediction :: uuid
  pa_trip :: string
  pa_probability :: rat
  pa_risk :: string
  pa_model :: string
  pa_features :: string
  pa_time :: instant
  pa_explanations :: "explanation list"

text \<open>The bodies the routes of the process answer with.\<close>

datatype answer =
    ConnectionBody connection_response
  | ConnectionsBody "connection_response list"
  | SnapshotBody snapshot_summary
  | SnapshotsBody "snapshot_summary list"
  | SnapshotDetailBody snapshot_detail
  | DriftBody "drift_event list"
  | SuggestionBody suggestion
  | MappingBody mapping_response
  | MappingsBody "mapping_response list"
  | PlanBody plan_report
  | BatchBody feature_batch
  | PredictionBody prediction_answer
  | SummaryBody tenant_monitoring_summary
  | RealizedBody "realized_metrics option"
  | ScrapeBody
  | NoBody

definition manage_connections :: "guard list" where
  "manage_connections = [require_scopes [CONNECTION_MANAGE]]"

definition register_route :: "connection_spec \<Rightarrow> string \<Rightarrow> uuid \<Rightarrow> uuid \<Rightarrow> ('w process, answer) route" where
  "register_route sp u ref cn =
     \<lparr>ro_guards = manage_connections, ro_status = 201, ro_commits = True,
      ro_body = (\<lambda>ctx. on_db uncaught (register_connection ctx sp u ref cn) (ConnectionBody \<circ> connection_response_of))\<rparr>"

definition list_connections_route :: "('w process, answer) route" where
  "list_connections_route =
     \<lparr>ro_guards = manage_connections, ro_status = 200, ro_commits = False,
      ro_body = (\<lambda>ctx. from_db uncaught (\<lambda>db. Inr (ConnectionsBody (map connection_response_of (list_connections ctx db)))))\<rparr>"

definition get_connection_route :: "uuid \<Rightarrow> ('w process, answer) route" where
  "get_connection_route i =
     \<lparr>ro_guards = manage_connections, ro_status = 200, ro_commits = False,
      ro_body = (\<lambda>ctx. from_db uncaught (\<lambda>db. rbind (get_connection i ctx db) (\<lambda>c. Inr (ConnectionBody (connection_response_of c)))))\<rparr>"

definition validate_route :: "(engine \<Rightarrow> string option) \<Rightarrow> instant \<Rightarrow> uuid \<Rightarrow> ('w process, answer) route" where
  "validate_route probe now i =
     \<lparr>ro_guards = manage_connections, ro_status = 200, ro_commits = True,
      ro_body = (\<lambda>ctx. on_db uncaught (validate_connection probe i ctx now) (ConnectionBody \<circ> connection_response_of))\<rparr>"

definition enable_route :: "uuid \<Rightarrow> ('w process, answer) route" where
  "enable_route i =
     \<lparr>ro_guards = manage_connections, ro_status = 200, ro_commits = True,
      ro_body = (\<lambda>ctx. on_db uncaught (enable_connection i ctx) (ConnectionBody \<circ> connection_response_of))\<rparr>"

definition disable_route :: "uuid \<Rightarrow> ('w process, answer) route" where
  "disable_route i =
     \<lparr>ro_guards = manage_connections, ro_status = 200, ro_commits = True,
      ro_body = (\<lambda>ctx. on_db uncaught (disable_connection i ctx) (ConnectionBody \<circ> connection_response_of))\<rparr>"

definition rotate_route :: "instant \<Rightarrow> uuid \<Rightarrow> string \<Rightarrow> string \<Rightarrow> uuid \<Rightarrow> ('w process, answer) route" where
  "rotate_route now i secret u ref =
     \<lparr>ro_guards = manage_connections, ro_status = 200, ro_commits = True,
      ro_body = (\<lambda>ctx. on_db uncaught (rotate_secret i ctx secret u ref now) (ConnectionBody \<circ> connection_response_of))\<rparr>"

definition delete_route :: "uuid \<Rightarrow> ('w process, answer) route" where
  "delete_route i =
     \<lparr>ro_guards = manage_connections, ro_status = 204, ro_commits = True,
      ro_body = (\<lambda>ctx. on_db uncaught (delete_connection i ctx) (\<lambda>_. NoBody))\<rparr>"

subsection \<open>Schema discovery\<close>

definition has_unacknowledged_drift :: "snapshot \<Rightarrow> bool" where
  "has_unacknowledged_drift s \<longleftrightarrow> truthy_list (ss_drift s) \<and> ss_ack_at s = None"

definition snapshot_summary_of :: "snapshot \<Rightarrow> snapshot_summary" where
  "snapshot_summary_of s =
     \<lparr>sy_id = row_id s, sy_connection = ss_connection s, sy_sequence = ss_sequence s, sy_status = ss_status s,
      sy_fingerprint = ss_fingerprint s, sy_unacknowledged = has_unacknowledged_drift s\<rparr>"

definition snapshot_detail_of :: "snapshot \<Rightarrow> snapshot_detail" where
  "snapshot_detail_of s =
     \<lparr>sy_id = row_id s, sy_connection = ss_connection s, sy_sequence = ss_sequence s, sy_status = ss_status s,
      sy_fingerprint = ss_fingerprint s, sy_unacknowledged = has_unacknowledged_drift s,
      sy_metadata = ss_metadata s, sy_table_fingerprints = ss_table_fingerprints s, sy_drift = ss_drift s,
      sy_ack_at = ss_ack_at s, sy_error = ss_error s\<rparr>"

definition discover_schema :: "guard list" where
  "discover_schema = [require_scopes [SCHEMA_DISCOVER]]"

definition start_discovery_route :: "uuid \<Rightarrow> profiling_config \<Rightarrow> uuid \<Rightarrow> ('w process, answer) route" where
  "start_discovery_route cid prof fresh =
     \<lparr>ro_guards = discover_schema, ro_status = 202, ro_commits = True,
      ro_body = (\<lambda>ctx d.
        (case on_db uncaught (start_discovery cid ctx fresh) id d of
           (Inr s, d') \<Rightarrow>
             (Inr (SnapshotBody (snapshot_summary_of s)),
              d'\<lparr>pc_jobs := pc_jobs d' @ [\<lparr>dj_snapshot = row_id s, dj_context = ctx,
                dj_profiling = (if pc_enabled prof then Some prof else None)\<rparr>]\<rparr>)
         | (Inl e, d') \<Rightarrow> (Inl e, d')))\<rparr>"

definition list_snapshots_route :: "uuid \<Rightarrow> ('w process, answer) route" where
  "list_snapshots_route cid =
     \<lparr>ro_guards = discover_schema, ro_status = 200, ro_commits = False,
      ro_body = (\<lambda>ctx. from_db uncaught (\<lambda>db. Inr (SnapshotsBody (map snapshot_summary_of (list_for_connection cid ctx db)))))\<rparr>"

definition get_snapshot_route :: "uuid \<Rightarrow> ('w process, answer) route" where
  "get_snapshot_route i =
     \<lparr>ro_guards = discover_schema, ro_status = 200, ro_commits = False,
      ro_body = (\<lambda>ctx. from_db uncaught (\<lambda>db. rbind (get_snapshot i ctx db) (\<lambda>s. Inr (SnapshotDetailBody (snapshot_detail_of s)))))\<rparr>"

definition compare_route :: "discovery_env \<Rightarrow> uuid \<Rightarrow> uuid \<Rightarrow> ('w process, answer) route" where
  "compare_route env i against =
     \<lparr>ro_guards = discover_schema, ro_status = 200, ro_commits = False,
      ro_body = (\<lambda>ctx. from_db uncaught (\<lambda>db. rbind (compare_stored env i against ctx db) (\<lambda>es. Inr (DriftBody es))))\<rparr>"

definition acknowledge_route :: "instant \<Rightarrow> uuid \<Rightarrow> ('w process, answer) route" where
  "acknowledge_route now i =
     \<lparr>ro_guards = discover_schema, ro_status = 200, ro_commits = True,
      ro_body = (\<lambda>ctx. on_db uncaught (acknowledge_drift i ctx now) (SnapshotDetailBody \<circ> snapshot_detail_of))\<rparr>"

text \<open>A background job, in a session of its own, and then no longer waiting.\<close>

definition run_job :: "discovery_env \<Rightarrow> 'w process \<Rightarrow> 'w process" where
  "run_job env d =
     (case pc_jobs d of
        [] \<Rightarrow> d
      | j # js \<Rightarrow> d\<lparr>pc_db := run_discovery_job env (dj_snapshot j) (dj_context j) (dj_profiling j) (pc_db d), pc_jobs := js\<rparr>)"

subsection \<open>Mappings\<close>

definition mapping_response_of :: "schema_mapping \<Rightarrow> mapping_response" where
  "mapping_response_of m =
     \<lparr>my_id = row_id m, my_tenant = row_tenant m, my_entity = sm_entity m, my_snapshot = sm_snapshot m,
      my_ontology = sm_ontology m, my_state = sm_state m, my_active = sm_active m, my_suspended = sm_suspended m\<rparr>"

definition manage_mappings :: "guard list" where
  "manage_mappings = [require_scopes [MAPPING_MANAGE]]"

definition administer :: "guard list" where
  "administer = [require_scopes [TENANT_ADMIN]]"

text \<open>The handler of the suggestion turns each failure into an answer where it happens.\<close>

definition suggest_body ::
  "ontology_loader \<Rightarrow> uuid \<Rightarrow> string \<Rightarrow> string \<Rightarrow> string \<Rightarrow> tenant_context \<Rightarrow> pred_db \<Rightarrow> failure + answer" where
  "suggest_body onto i entity schema table ctx db =
     (case repo_require (db_snapshots db) i ctx of
        Inl e \<Rightarrow> Inl (Raised e)
      | Inr s \<Rightarrow>
          (case ss_metadata s of
             None \<Rightarrow> Inl (Raised (ValidationError ''schemas''))
           | Some m \<Rightarrow>
               (case List.find (\<lambda>t. tm_schema t = schema \<and> tm_name t = table) (in_tables m) of
                  None \<Rightarrow> Inl (Http 404)
                | Some t \<Rightarrow>
                    (case rbind (onto ''1'') (\<lambda>o1. get_entity o1 entity) of
                       Inl (KeyError _) \<Rightarrow> Inl (Http 404)
                     | Inl e \<Rightarrow> Inl (Raised e)
                     | Inr e \<Rightarrow>
                         (case suggest_mapping e t None of
                            Inl (ValueError _) \<Rightarrow> Inl (Http 422)
                          | Inl (ValidationError _) \<Rightarrow> Inl (Http 422)
                          | Inl x \<Rightarrow> Inl (Raised x)
                          | Inr r \<Rightarrow> Inr (SuggestionBody r))))))"

definition suggest_route :: "ontology_loader \<Rightarrow> uuid \<Rightarrow> string \<Rightarrow> string \<Rightarrow> string \<Rightarrow> ('w process, answer) route" where
  "suggest_route onto i entity schema table =
     \<lparr>ro_guards = discover_schema, ro_status = 200, ro_commits = False,
      ro_body = (\<lambda>ctx d. (suggest_body onto i entity schema table ctx (pc_db d), d))\<rparr>"

definition create_draft_route :: "uuid \<Rightarrow> mapping_document \<Rightarrow> string \<Rightarrow> uuid \<Rightarrow> uuid \<Rightarrow> ('w process, answer) route" where
  "create_draft_route snap doc version fresh_m fresh_v =
     \<lparr>ro_guards = manage_mappings, ro_status = 201, ro_commits = True,
      ro_body = (\<lambda>ctx. on_db uncaught
        (\<lambda>db. attempt (make_document doc) db (\<lambda>d. create_draft ctx snap d version
           \<lparr>di_ai_suggested = False, di_confidence = None, di_explanation = None\<rparr> fresh_m fresh_v db))
        (MappingBody \<circ> mapping_response_of \<circ> fst))\<rparr>"

definition list_mappings_route :: "('w process, answer) route" where
  "list_mappings_route =
     \<lparr>ro_guards = manage_mappings, ro_status = 200, ro_commits = False,
      ro_body = (\<lambda>ctx. from_db uncaught
        (\<lambda>db. Inr (MappingsBody (map mapping_response_of (list_for_tenant (db_mappings db) ctx)))))\<rparr>"

definition get_mapping_route :: "uuid \<Rightarrow> ('w process, answer) route" where
  "get_mapping_route i =
     \<lparr>ro_guards = manage_mappings, ro_status = 200, ro_commits = False,
      ro_body = (\<lambda>ctx. from_db uncaught
        (\<lambda>db. rbind (repo_require (db_mappings db) i ctx) (\<lambda>m. Inr (MappingBody (mapping_response_of m)))))\<rparr>"

definition submit_route :: "(string set \<Rightarrow> string list) \<Rightarrow> ontology_loader \<Rightarrow> uuid \<Rightarrow> ('w process, answer) route" where
  "submit_route iter onto i =
     \<lparr>ro_guards = manage_mappings, ro_status = 200, ro_commits = True,
      ro_body = (\<lambda>ctx. on_db uncaught (submit_for_validation iter onto i ctx) (MappingBody \<circ> mapping_response_of))\<rparr>"

definition approve_route :: "uuid \<Rightarrow> ('w process, answer) route" where
  "approve_route i =
     \<lparr>ro_guards = administer, ro_status = 200, ro_commits = True,
      ro_body = (\<lambda>ctx. on_db uncaught (approve i ctx) (MappingBody \<circ> mapping_response_of))\<rparr>"

definition activate_route :: "uuid \<Rightarrow> ('w process, answer) route" where
  "activate_route i =
     \<lparr>ro_guards = administer, ro_status = 200, ro_commits = True,
      ro_body = (\<lambda>ctx. on_db uncaught (activate i ctx) (MappingBody \<circ> mapping_response_of))\<rparr>"

definition deprecate_route :: "uuid \<Rightarrow> ('w process, answer) route" where
  "deprecate_route i =
     \<lparr>ro_guards = manage_mappings, ro_status = 200, ro_commits = True,
      ro_body = (\<lambda>ctx. on_db uncaught (deprecate i ctx) (MappingBody \<circ> mapping_response_of))\<rparr>"

definition reject_route :: "uuid \<Rightarrow> ('w process, answer) route" where
  "reject_route i =
     \<lparr>ro_guards = manage_mappings, ro_status = 200, ro_commits = True,
      ro_body = (\<lambda>ctx. on_db uncaught (reject i ctx) (MappingBody \<circ> mapping_response_of))\<rparr>"

subsection \<open>Features and predictions\<close>

definition execute_predictions :: "guard list" where
  "execute_predictions = [require_scopes [PREDICTION_EXECUTE]]"

definition get_contract :: "string \<Rightarrow> failure + feature_contract" where
  "get_contract task =
     (if task = fc_task delivery_delay_risk_contract then Inr delivery_delay_risk_contract else Inl (Http 404))"

definition plan_route :: "(string set \<Rightarrow> string list) \<Rightarrow> string \<Rightarrow> ('w process, answer) route" where
  "plan_route iter task =
     \<lparr>ro_guards = execute_predictions, ro_status = 200, ro_commits = False,
      ro_body = (\<lambda>ctx d. attempt (get_contract task) d (\<lambda>c.
        from_db uncaught (\<lambda>db. rbind (extraction_plan iter c ctx db) (\<lambda>r. Inr (PlanBody r))) d))\<rparr>"

fun extract_caught :: "exn \<Rightarrow> nat option" where
  "extract_caught (TargetMappingUnavailableError _) = Some 409"
| "extract_caught (TargetRowNotFoundError _) = Some 404"
| "extract_caught e = None"

definition extract_route :: "extract_env \<Rightarrow> string \<Rightarrow> string \<Rightarrow> instant \<Rightarrow> ('w process, answer) route" where
  "extract_route env task reference pt =
     \<lparr>ro_guards = execute_predictions, ro_status = 200, ro_commits = False,
      ro_body = (\<lambda>ctx d. attempt (get_contract task) d (\<lambda>c.
        on_db extract_caught (extract_batch env c ctx reference pt) BatchBody d))\<rparr>"

definition answer_of :: "response \<Rightarrow> prediction_answer" where
  "answer_of r =
     \<lparr>pa_prediction = px_id r, pa_trip = px_reference r, pa_probability = px_probability r, pa_risk = px_risk r,
      pa_model = px_model r, pa_features = px_features r, pa_time = px_time r, pa_explanations = px_explanations r\<rparr>"

text \<open>
  The statuses of the prediction router. A target record that the relational context does not
  find is an error of \<open>models/transformer\<close>, named by its class; nothing raises the
  \<open>UnsupportedModelFamilyError\<close> that the router would turn into 500.
\<close>

fun predict_caught :: "exn \<Rightarrow> nat option" where
  "predict_caught (TargetRowNotFoundError _) = Some 404"
| "predict_caught (ExternalError c) = (if c = ''TargetRecordNotFoundError'' then Some 404 else None)"
| "predict_caught (TargetMappingUnavailableError _) = Some 409"
| "predict_caught (NoProductionModelError _) = Some 503"
| "predict_caught (PredictionTaskNotConfiguredError _) = Some 503"
| "predict_caught (ArtifactIntegrityError _) = Some 503"
| "predict_caught CircuitOpenError = Some 503"
| "predict_caught TimeoutExceededError = Some 504"
| "predict_caught e = None"

definition predict_route ::
  "'w predict_env \<Rightarrow> string \<Rightarrow> instant \<Rightarrow> string option \<Rightarrow> uuid \<Rightarrow> uuid \<Rightarrow> ('w process, answer) route" where
  "predict_route env trip pt key rq rs =
     \<lparr>ro_guards = execute_predictions, ro_status = 200, ro_commits = True,
      ro_body = (\<lambda>ctx d.
        (case predict env rq rs ctx trip pt key (pc_db d, pc_loader d) of
           (Inr r, (db, ld)) \<Rightarrow> (Inr (PredictionBody (answer_of r)), d\<lparr>pc_db := db, pc_loader := ld\<rparr>)
         | (Inl e, (db, ld)) \<Rightarrow> (Inl (catch predict_caught e), d\<lparr>pc_db := db, pc_loader := ld\<rparr>)))\<rparr>"

subsection \<open>Monitoring\<close>

definition read_monitoring :: "guard list" where
  "read_monitoring = [require_scopes [MONITORING_READ]]"

definition scrape_route :: "('w process, answer) route" where
  "scrape_route =
     \<lparr>ro_guards = [require_scopes [MONITORING_READ], require_service], ro_status = 200, ro_commits = False,
      ro_body = (\<lambda>ctx d. (Inr ScrapeBody, d))\<rparr>"

definition summary_route :: "('w process, answer) route" where
  "summary_route =
     \<lparr>ro_guards = read_monitoring, ro_status = 200, ro_commits = False,
      ro_body = (\<lambda>ctx. from_db uncaught (\<lambda>db. Inr (SummaryBody (tenant_summary ctx db))))\<rparr>"

definition outcome_caught :: "exn \<Rightarrow> nat option" where
  "outcome_caught e = (if e = TenantMismatchError then Some 404 else None)"

definition outcome_route :: "uuid \<Rightarrow> bool \<Rightarrow> uuid \<Rightarrow> ('w process, answer) route" where
  "outcome_route i label fresh =
     \<lparr>ro_guards = execute_predictions, ro_status = 200, ro_commits = True,
      ro_body = (\<lambda>ctx. on_db outcome_caught (record_outcome i label ctx fresh) (RealizedBody \<circ> snd))\<rparr>"

subsection \<open>Memberships\<close>

record membership_response =
  mr_id :: uuid
  mr_tenant :: "uuid option"
  mr_user :: uuid
  mr_role :: "role_name option"
  mr_active :: bool

definition membership_response_of :: "'z tenancy_db_scheme \<Rightarrow> membership \<Rightarrow> membership_response" where
  "membership_response_of db m =
     \<lparr>mr_id = row_id m, mr_tenant = row_tenant m, mr_user = mb_user m,
      mr_role = map_option ro_name (List.find (\<lambda>r. ro_id r = mb_role m) (ten_roles db)), mr_active = mb_active m\<rparr>"

definition list_memberships_route :: "('z tenancy_db_scheme, membership_response list) route" where
  "list_memberships_route =
     \<lparr>ro_guards = [require_scopes [TENANT_READ]], ro_status = 200, ro_commits = False,
      ro_body = (\<lambda>ctx db. (Inr (map (membership_response_of db) (list_memberships ctx db)), db))\<rparr>"

definition get_membership_route :: "uuid \<Rightarrow> ('z tenancy_db_scheme, membership_response) route" where
  "get_membership_route i =
     \<lparr>ro_guards = [require_scopes [TENANT_READ]], ro_status = 200, ro_commits = False,
      ro_body = (\<lambda>ctx db.
        (case get_membership i ctx db of
           Inr m \<Rightarrow> (Inr (membership_response_of db m), db)
         | Inl e \<Rightarrow> (Inl (Raised e), db)))\<rparr>"

definition create_membership_route :: "uuid \<Rightarrow> role_name \<Rightarrow> uuid \<Rightarrow> ('z tenancy_db_scheme, membership_response) route" where
  "create_membership_route user role fresh =
     \<lparr>ro_guards = [require_scopes [TENANT_ADMIN], require_human], ro_status = 201, ro_commits = True,
      ro_body = (\<lambda>ctx db.
        (case add_membership user role ctx fresh db of
           (Inr m, db') \<Rightarrow> (Inr (membership_response_of db' m), db')
         | (Inl e, db') \<Rightarrow> (Inl (Raised e), db')))\<rparr>"

subsection \<open>Service credentials\<close>

record credential_summary =
  cy_id :: uuid
  cy_tenant :: "uuid option"
  cy_name :: string
  cy_client_id :: string
  cy_scopes :: "string list"
  cy_active :: bool
  cy_expires :: "instant option"
  cy_last_used :: "instant option"
  cy_revoked :: "instant option"

definition credential_summary_of :: "service_credential \<Rightarrow> credential_summary" where
  "credential_summary_of c =
     \<lparr>cy_id = row_id c, cy_tenant = row_tenant c, cy_name = sc_name c, cy_client_id = sc_client_id c,
      cy_scopes = sc_scopes c, cy_active = sc_active c, cy_expires = sc_expires c, cy_last_used = sc_last_used c,
      cy_revoked = sc_revoked c\<rparr>"

record credential_created =
  cd_id :: uuid
  cd_tenant :: "uuid option"
  cd_name :: string
  cd_client_id :: string
  cd_client_secret :: string
  cd_scopes :: "string list"
  cd_expires :: "instant option"

definition manage_credentials :: "guard list" where
  "manage_credentials = [require_scopes [SERVICE_CREDENTIAL_MANAGE]]"

fun create_credential_caught :: "exn \<Rightarrow> nat option" where
  "create_credential_caught (UngrantableScopeError _) = Some 400"
| "create_credential_caught (ExpiryInThePastError _) = Some 400"
| "create_credential_caught e = None"

definition create_credential_route ::
  "(string \<Rightarrow> string) \<Rightarrow> string \<Rightarrow> string list \<Rightarrow> (instant \<times> int option) option \<Rightarrow> instant \<Rightarrow> uuid \<Rightarrow> string \<Rightarrow> string \<Rightarrow>
   ('z auth_db_scheme, credential_created) route" where
  "create_credential_route h name scopes expires now fresh secret token =
     \<lparr>ro_guards = manage_credentials, ro_status = 201, ro_commits = True,
      ro_body = (\<lambda>ctx db.
        (case issue_credential h ctx name scopes expires now fresh secret token db of
           (Inr (c, plain), db') \<Rightarrow>
             (Inr \<lparr>cd_id = row_id c, cd_tenant = row_tenant c, cd_name = sc_name c, cd_client_id = sc_client_id c,
                 cd_client_secret = plain, cd_scopes = sc_scopes c, cd_expires = sc_expires c\<rparr>, db')
         | (Inl e, db') \<Rightarrow> (Inl (catch create_credential_caught e), db')))\<rparr>"

definition list_credentials_route :: "('z auth_db_scheme, credential_summary list) route" where
  "list_credentials_route =
     \<lparr>ro_guards = manage_credentials, ro_status = 200, ro_commits = False,
      ro_body = (\<lambda>ctx db. (Inr (map credential_summary_of (list_credentials db ctx)), db))\<rparr>"

definition revoke_credential_route :: "uuid \<Rightarrow> instant \<Rightarrow> ('z auth_db_scheme, unit) route" where
  "revoke_credential_route i now =
     \<lparr>ro_guards = manage_credentials, ro_status = 204, ro_commits = True,
      ro_body = (\<lambda>ctx db.
        (case revoke_credential i ctx now db of
           (Inr _, db') \<Rightarrow> (Inr (), db')
         | (Inl e, db') \<Rightarrow> (Inl (Raised e), db')))\<rparr>"

end
