(* ===== verification/Api.thy ===== *)
theory Api
  imports Routes
begin

section \<open>What the interface guarantees\<close>

text \<open>
  The calls of the API as one datatype, the steps of a process that serves them, and what holds
  of every call: who may make it, what a failure leaves behind, whose rows it can touch.
\<close>

subsection \<open>Calls and steps of the process\<close>

text \<open>The parameters of one call: the time, and the customer databases and the model store as they answer.\<close>

record 'w api_env =
  av_now :: instant
  av_probe :: "engine \<Rightarrow> string option"
  av_discovery :: discovery_env
  av_predict :: "'w predict_env"

datatype api_call =
    RegisterConnection connection_spec string uuid uuid
  | ListConnections
  | GetConnection uuid
  | ValidateConnection uuid
  | EnableConnection uuid
  | DisableConnection uuid
  | RotateSecret uuid string string uuid
  | DeleteConnection uuid
  | StartDiscovery uuid profiling_config uuid
  | ListSnapshots uuid
  | GetSnapshot uuid
  | CompareSnapshots uuid uuid
  | AcknowledgeDrift uuid
  | SuggestMapping uuid string string string
  | CreateDraft uuid mapping_document string uuid uuid
  | ListMappings
  | GetMapping uuid
  | SubmitMapping uuid
  | ApproveMapping uuid
  | ActivateMapping uuid
  | DeprecateMapping uuid
  | RejectMapping uuid
  | PlanFeatures string
  | ExtractFeatures string string instant
  | PredictDelay string instant "string option" uuid uuid
  | ScrapeMetrics
  | TenantSummary
  | RecordOutcome uuid bool uuid

fun route_of :: "'w api_env \<Rightarrow> api_call \<Rightarrow> ('w process, answer) route" where
  "route_of v (RegisterConnection sp u ref cn) = register_route sp u ref cn"
| "route_of v ListConnections = list_connections_route"
| "route_of v (GetConnection i) = get_connection_route i"
| "route_of v (ValidateConnection i) = validate_route (av_probe v) (av_now v) i"
| "route_of v (EnableConnection i) = enable_route i"
| "route_of v (DisableConnection i) = disable_route i"
| "route_of v (RotateSecret i secret u ref) = rotate_route (av_now v) i secret u ref"
| "route_of v (DeleteConnection i) = delete_route i"
| "route_of v (StartDiscovery c prof fresh) = start_discovery_route c prof fresh"
| "route_of v (ListSnapshots c) = list_snapshots_route c"
| "route_of v (GetSnapshot i) = get_snapshot_route i"
| "route_of v (CompareSnapshots i against) = compare_route (av_discovery v) i against"
| "route_of v (AcknowledgeDrift i) = acknowledge_route (av_now v) i"
| "route_of v (SuggestMapping i entity schema table) = suggest_route (ce_onto (av_predict v)) i entity schema table"
| "route_of v (CreateDraft snap doc version m mv) = create_draft_route snap doc version m mv"
| "route_of v ListMappings = list_mappings_route"
| "route_of v (GetMapping i) = get_mapping_route i"
| "route_of v (SubmitMapping i) = submit_route (xe_iter (av_predict v)) (ce_onto (av_predict v)) i"
| "route_of v (ApproveMapping i) = approve_route i"
| "route_of v (ActivateMapping i) = activate_route i"
| "route_of v (DeprecateMapping i) = deprecate_route i"
| "route_of v (RejectMapping i) = reject_route i"
| "route_of v (PlanFeatures task) = plan_route (xe_iter (av_predict v)) task"
| "route_of v (ExtractFeatures task reference pt) = extract_route (extract_env.truncate (av_predict v)) task reference pt"
| "route_of v (PredictDelay trip pt key rq rs) = predict_route (av_predict v) trip pt key rq rs"
| "route_of v ScrapeMetrics = scrape_route"
| "route_of v TenantSummary = summary_route"
| "route_of v (RecordOutcome i label fresh) = outcome_route i label fresh"

definition call_api ::
  "'tok jwt_decoder \<Rightarrow> settings \<Rightarrow> int \<Rightarrow> 'tok http \<Rightarrow> 'w api_env \<Rightarrow> api_call \<Rightarrow> 'w process \<Rightarrow> answer reply \<times> 'w process" where
  "call_api dec s now h v c d = respond process_session dec s now h (route_of v c) d"

text \<open>
  The steps of the process: it answers a call, or it runs the oldest background job. A step is
  taken for the tenant of a token, or of the job, or for nobody.
\<close>

definition caller_of :: "'tok jwt_decoder \<Rightarrow> settings \<Rightarrow> int \<Rightarrow> 'tok http \<Rightarrow> uuid option" where
  "caller_of dec s now h =
     (case get_tenant_context dec s now (ht_request h) of Inr b \<Rightarrow> Some (tc_tenant (bc_context b)) | Inl _ \<Rightarrow> None)"

definition job_owner :: "'w process \<Rightarrow> uuid option" where
  "job_owner d = (case pc_jobs d of [] \<Rightarrow> None | j # _ \<Rightarrow> Some (tc_tenant (dj_context j)))"

inductive process_step :: "'tok jwt_decoder \<Rightarrow> settings \<Rightarrow> uuid option \<Rightarrow> 'w process \<Rightarrow> 'w process \<Rightarrow> bool"
  for dec :: "'tok jwt_decoder" and s :: settings where
  ps_call: "process_step dec s (caller_of dec s now h) d (snd (call_api dec s now h v c d))"
| ps_job: "process_step dec s (job_owner d) d (run_job env d)"

inductive process_run :: "'tok jwt_decoder \<Rightarrow> settings \<Rightarrow> uuid option list \<Rightarrow> 'w process \<Rightarrow> 'w process \<Rightarrow> bool"
  for dec :: "'tok jwt_decoder" and s :: settings where
  pr_refl: "process_run dec s [] d d"
| pr_step: "process_run dec s as d d' \<Longrightarrow> process_step dec s a d' d'' \<Longrightarrow> process_run dec s (as @ [a]) d d''"

subsection \<open>What a session promises\<close>

text \<open>
  What the routes rely on: a refusal is one more event and touches no table, and a session that is
  not committed leaves the events and the tables as they were. \<open>tables\<close> is what is stored, the
  events aside.
\<close>

locale session_laws =
  fixes se :: "'d session" and events :: "'d \<Rightarrow> audit_event list" and tables :: "'d \<Rightarrow> 't"
  assumes events_log: "events (se_log se e d) = events d @ [e]"
    and tables_log: "tables (se_log se e d) = tables d"
    and events_keep: "events (se_keep se d d') = events d"
    and tables_keep: "tables (se_keep se d d') = tables d"
begin

lemma handle_exception_cases:
  assumes "handle_exception se h caller e d = (r, d')"
  shows "(\<exists>st. r = Problem st) \<and> tables d' = tables d \<and>
    (events d' = events d \<or> (\<exists>ev. events d' = events d @ [ev] \<and> ae_outcome ev = DENIED))"
  using assms
  by (cases "refusal caller (req_correlation (ht_request h)) (ht_path h) e" rule: option.exhaust)
    (auto simp: handle_exception_def events_log tables_log denied_event_def auth_failure_event_def
      elim!: refusal.elims split: if_splits)

lemma respond_problem:
  assumes "respond se dec s now h r d = (Problem st, d')"
  shows "tables d' = tables d \<and>
    (events d' = events d \<or> (\<exists>ev. events d' = events d @ [ev] \<and> ae_outcome ev = DENIED))"
  using assms
  by (auto simp: respond_def Let_def tables_keep events_keep dest!: handle_exception_cases
      split: sum.splits prod.splits failure.splits if_splits)

lemma respond_reply:
  assumes "respond se dec s now h r d = (Reply st x, d')"
  obtains b dd where "get_tenant_context dec s now (ht_request h) = Inr b" "pass_guards (ro_guards r) (bc_context b) = Inr ()"
    "ro_body r (bc_context b) d = (Inr x, dd)" "d' = (if ro_commits r then dd else se_keep se d dd)" "st = ro_status r"
  using assms
  by (auto simp: respond_def Let_def dest!: handle_exception_cases split: sum.splits prod.splits failure.splits)

lemma respond_uncommitted:
  assumes "respond se dec s now h r d = (Reply st x, d')" and "\<not> ro_commits r"
  shows "tables d' = tables d \<and> events d' = events d"
  using assms by (auto elim!: respond_reply simp: tables_keep events_keep)

lemma respond_denied:
  assumes "get_tenant_context dec s now (ht_request h) = Inr b"
    and "pass_guards (ro_guards r) (bc_context b) = Inl (AuthorizationError reason t p)"
  shows "\<exists>ev. respond se dec s now h r d = (Problem 403, if ht_audit_up h then se_log se ev d else d) \<and>
    ae_tenant ev = Some t \<and> ae_principal ev = Some p \<and> ae_action ev = ''authz.check'' \<and> ae_outcome ev = DENIED"
  using assms
  by (intro exI [of _ "denied_event (Some t) (Some p) (req_correlation (ht_request h)) ''authz.check''
      [(''reason'', JStr reason), (''path'', JStr (ht_path h))]"])
    (simp add: respond_def Let_def handle_exception_def denied_event_def)

end

text \<open>What is stored for the process: the rows of all tables and the jobs that wait.\<close>

definition durable :: "'w process \<Rightarrow> pred_db \<times> discovery_job list" where
  "durable d =
     ((pc_db d)\<lparr>audit_log := [], db_pools := \<lparr>po_engines = [], po_disposed = []\<rparr>, db_secrets := []\<rparr>, pc_jobs d)"

interpretation serving: session_laws process_session "\<lambda>d. audit_log (pc_db d)" durable
  by unfold_locales (simp_all add: process_session_def audit_record_def durable_def)

interpretation plain: session_laws plain_session audit_log "\<lambda>db. db\<lparr>audit_log := []\<rparr>"
  by unfold_locales (simp_all add: plain_session_def audit_record_def)

subsection \<open>Who may call what\<close>

text \<open>The scope the routers ask for.\<close>

fun needed_scope :: "api_call \<Rightarrow> scope_name" where
  "needed_scope (RegisterConnection _ _ _ _) = CONNECTION_MANAGE"
| "needed_scope ListConnections = CONNECTION_MANAGE"
| "needed_scope (GetConnection _) = CONNECTION_MANAGE"
| "needed_scope (ValidateConnection _) = CONNECTION_MANAGE"
| "needed_scope (EnableConnection _) = CONNECTION_MANAGE"
| "needed_scope (DisableConnection _) = CONNECTION_MANAGE"
| "needed_scope (RotateSecret _ _ _ _) = CONNECTION_MANAGE"
| "needed_scope (DeleteConnection _) = CONNECTION_MANAGE"
| "needed_scope (StartDiscovery _ _ _) = SCHEMA_DISCOVER"
| "needed_scope (ListSnapshots _) = SCHEMA_DISCOVER"
| "needed_scope (GetSnapshot _) = SCHEMA_DISCOVER"
| "needed_scope (CompareSnapshots _ _) = SCHEMA_DISCOVER"
| "needed_scope (AcknowledgeDrift _) = SCHEMA_DISCOVER"
| "needed_scope (SuggestMapping _ _ _ _) = SCHEMA_DISCOVER"
| "needed_scope (CreateDraft _ _ _ _ _) = MAPPING_MANAGE"
| "needed_scope ListMappings = MAPPING_MANAGE"
| "needed_scope (GetMapping _) = MAPPING_MANAGE"
| "needed_scope (SubmitMapping _) = MAPPING_MANAGE"
| "needed_scope (ApproveMapping _) = TENANT_ADMIN"
| "needed_scope (ActivateMapping _) = TENANT_ADMIN"
| "needed_scope (DeprecateMapping _) = MAPPING_MANAGE"
| "needed_scope (RejectMapping _) = MAPPING_MANAGE"
| "needed_scope (PlanFeatures _) = PREDICTION_EXECUTE"
| "needed_scope (ExtractFeatures _ _ _) = PREDICTION_EXECUTE"
| "needed_scope (PredictDelay _ _ _ _ _) = PREDICTION_EXECUTE"
| "needed_scope ScrapeMetrics = MONITORING_READ"
| "needed_scope TenantSummary = MONITORING_READ"
| "needed_scope (RecordOutcome _ _ _) = PREDICTION_EXECUTE"

lemmas route_defs =
  register_route_def list_connections_route_def get_connection_route_def validate_route_def enable_route_def
  disable_route_def rotate_route_def delete_route_def start_discovery_route_def list_snapshots_route_def
  get_snapshot_route_def compare_route_def acknowledge_route_def suggest_route_def create_draft_route_def
  list_mappings_route_def get_mapping_route_def submit_route_def approve_route_def activate_route_def
  deprecate_route_def reject_route_def plan_route_def extract_route_def predict_route_def scrape_route_def
  summary_route_def outcome_route_def

lemmas guard_defs =
  manage_connections_def discover_schema_def manage_mappings_def administer_def execute_predictions_def read_monitoring_def

lemma route_guards:
  "ro_guards (route_of v c) =
    require_scopes [needed_scope c] # (if c = ScrapeMetrics then [require_service] else [])"
  by (cases c) (simp_all add: route_defs guard_defs)

lemma require_scope_iff:
  "require_scopes [sc] ctx =
    (if scope_value sc \<in> tc_scopes ctx then Inr ctx
     else Inl (AuthorizationError (''missing_scope:'' @ scope_value sc) (tc_tenant ctx) (tc_principal ctx)))"
  by (simp add: require_scopes_def)

text \<open>
  C2: nobody gets an answer without the scope its route asks for. A call is answered only for a
  valid token that carries the scope (for the metrics of all tenants also only for a service
  token); when the scope is missing the answer is 403, no table changes, and the one thing that
  is written, if the control plane can be reached, is a denial in the trail of the caller's tenant.
\<close>

theorem calls_need_their_scope:
  "(fst (call_api dec s now h v c d) = Reply st x \<longrightarrow>
     (\<exists>b. get_tenant_context dec s now (ht_request h) = Inr b \<and> scope_value (needed_scope c) \<in> tc_scopes (bc_context b) \<and>
       (c = ScrapeMetrics \<longrightarrow> tc_principal_type (bc_context b) = principal_type_value SERVICE))) \<and>
   (get_tenant_context dec s now (ht_request h) = Inr b \<and> scope_value (needed_scope c) \<notin> tc_scopes (bc_context b) \<longrightarrow>
     (\<exists>ev. call_api dec s now h v c d =
        (Problem 403, if ht_audit_up h then d\<lparr>pc_db := audit_record ev (pc_db d)\<rparr> else d) \<and>
       ae_tenant ev = Some (tc_tenant (bc_context b)) \<and> ae_action ev = ''authz.check'' \<and> ae_outcome ev = DENIED))"
proof (intro conjI impI)
  assume "fst (call_api dec s now h v c d) = Reply st x"
  then obtain d' where "respond process_session dec s now h (route_of v c) d = (Reply st x, d')"
    unfolding call_api_def by (metis prod.collapse)
  then obtain b where "get_tenant_context dec s now (ht_request h) = Inr b"
      "pass_guards (ro_guards (route_of v c)) (bc_context b) = Inr ()"
    by (rule serving.respond_reply)
  then show "\<exists>b. get_tenant_context dec s now (ht_request h) = Inr b \<and> scope_value (needed_scope c) \<in> tc_scopes (bc_context b) \<and>
       (c = ScrapeMetrics \<longrightarrow> tc_principal_type (bc_context b) = principal_type_value SERVICE)"
    by (auto simp: route_guards require_scope_iff require_service_def split: if_splits)
next
  assume b: "get_tenant_context dec s now (ht_request h) = Inr b \<and> scope_value (needed_scope c) \<notin> tc_scopes (bc_context b)"
  then have "pass_guards (ro_guards (route_of v c)) (bc_context b) =
      Inl (AuthorizationError (''missing_scope:'' @ scope_value (needed_scope c)) (tc_tenant (bc_context b)) (tc_principal (bc_context b)))"
    by (simp add: route_guards require_scope_iff)
  from serving.respond_denied [OF conjunct1 [OF b] this, of d]
  show "\<exists>ev. call_api dec s now h v c d =
        (Problem 403, if ht_audit_up h then d\<lparr>pc_db := audit_record ev (pc_db d)\<rparr> else d) \<and>
       ae_tenant ev = Some (tc_tenant (bc_context b)) \<and> ae_action ev = ''authz.check'' \<and> ae_outcome ev = DENIED"
    by (auto simp: call_api_def process_session_def)
qed

text \<open>
  C14: a failed call leaves no trace but its refusal. Whatever went wrong, and whatever the service
  had written before, the rows of every table and the waiting jobs are those from before the call,
  and the audit trail has at most one event more, a denial; so the FAILED mark and the ERROR event
  that the prediction service writes for a failed prediction are lost with the session.
\<close>

theorem failed_calls_leave_no_trace:
  assumes "call_api dec s now h v c d = (Problem st, d')"
  shows "durable d' = durable d \<and>
    (audit_log (pc_db d') = audit_log (pc_db d) \<or>
     (\<exists>ev. audit_log (pc_db d') = audit_log (pc_db d) @ [ev] \<and> ae_outcome ev = DENIED))"
  using assms unfolding call_api_def by (rule serving.respond_problem)

subsection \<open>Steps on the rows of one tenant\<close>

text \<open>What a repository bound to a tenant can do to a table: add a row, assign to one, delete one, of that tenant.\<close>

inductive own_table :: "uuid \<Rightarrow> 'z table \<Rightarrow> 'z table \<Rightarrow> bool" for tn :: uuid where
  ow_refl: "own_table tn t t"
| ow_add: "own_table tn t u \<Longrightarrow> row_tenant e = Some tn \<Longrightarrow> row_id e \<notin> row_id ` set u \<Longrightarrow> own_table tn t (u @ [e])"
| ow_set: "own_table tn t u \<Longrightarrow> r \<in> set u \<Longrightarrow> row_id r = i \<Longrightarrow> row_tenant r = Some tn \<Longrightarrow>
    (\<And>x. row_id (f x) = row_id x) \<Longrightarrow> (\<And>x. row_tenant (f x) = row_tenant x) \<Longrightarrow> own_table tn t (row_set u i f)"
| ow_delete: "own_table tn t u \<Longrightarrow> r \<in> set u \<Longrightarrow> row_tenant r = Some tn \<Longrightarrow> own_table tn t (session_delete u r)"

lemma own_table_trans: "own_table tn u v \<Longrightarrow> own_table tn t u \<Longrightarrow> own_table tn t v"
  by (induction rule: own_table.induct) (auto intro: own_table.intros)

lemma own_table_others:
  "own_table tn t u \<Longrightarrow> distinct (map row_id t) \<Longrightarrow>
    distinct (map row_id u) \<and> (\<forall>c. c \<noteq> tn \<longrightarrow> rows_of c u = rows_of c t)"
proof (induction rule: own_table.induct)
  case (ow_add t u e)
  then show ?case by auto
next
  case (ow_set t u r i f)
  then have d: "distinct (map row_id u)" and same: "\<forall>c. c \<noteq> tn \<longrightarrow> rows_of c u = rows_of c t" by blast+
  have "row_tenant x = Some tn" if "x \<in> set u" "row_id x = i" for x
  proof -
    have "x = r" using d that ow_set(2,3) by (auto simp: distinct_map inj_on_def)
    then show ?thesis using ow_set(4) by simp
  qed
  then have "rows_of c (row_set u i f) = rows_of c u" if "c \<noteq> tn" for c
    using that ow_set(6) by (intro rows_of_row_set_other) auto
  moreover have "map row_id (row_set u i f) = map row_id u" using ow_set(5) by (rule row_set_ids)
  ultimately show ?case using d same by simp
next
  case (ow_delete t u r)
  then have d: "distinct (map row_id u)" and same: "\<forall>c. c \<noteq> tn \<longrightarrow> rows_of c u = rows_of c t" by blast+
  have "rows_of c (session_delete u r) = rows_of c u" if "c \<noteq> tn" for c
  proof -
    have "row_tenant x = Some tn" if "x \<in> set u" "row_id x = row_id r" for x
      using d that ow_delete(2,3) by (auto simp: distinct_map inj_on_def)
    then show ?thesis unfolding rows_of_def session_delete_def filter_filter
      by (intro filter_cong refl) (use that in auto)
  qed
  with d same show ?case by (simp add: session_delete_def distinct_map_filter)
qed simp

text \<open>
  What a call may do to the database: own steps on the tables of the tenants, events in the
  tenant's own trail, nothing to the tables of tasks, models and adapters, which it only reads.
\<close>

definition own_step :: "uuid \<Rightarrow> pred_db \<Rightarrow> pred_db \<Rightarrow> bool" where
  "own_step tn a b \<longleftrightarrow>
     own_table tn (db_connections a) (db_connections b) \<and> own_table tn (db_credential_refs a) (db_credential_refs b) \<and>
     own_table tn (db_snapshots a) (db_snapshots b) \<and> own_table tn (db_mappings a) (db_mappings b) \<and>
     own_table tn (db_versions a) (db_versions b) \<and> own_table tn (db_requests a) (db_requests b) \<and>
     own_table tn (db_results a) (db_results b) \<and> own_table tn (db_outcomes a) (db_outcomes b) \<and>
     db_tasks b = db_tasks a \<and> db_models b = db_models a \<and> db_adapters b = db_adapters a \<and> db_aliases b = db_aliases a \<and>
     (\<exists>es. audit_log b = audit_log a @ es \<and> (\<forall>e \<in> set es. ae_tenant e = Some tn))"

lemma own_step_refl [simp, intro]: "own_step tn a a"
  by (simp add: own_step_def ow_refl)

lemma own_step_trans: "own_step tn a b \<Longrightarrow> own_step tn b c \<Longrightarrow> own_step tn a c"
  unfolding own_step_def by (elim conjE exE, intro conjI) (auto intro: own_table_trans)

lemma own_record: "ae_tenant e = Some tn \<Longrightarrow> own_step tn a (audit_record e a)"
  by (simp add: own_step_def ow_refl audit_record_def)

lemma own_memory [simp]: "own_step tn a (b\<lparr>db_pools := p\<rparr>) = own_step tn a b"
    "own_step tn a (b\<lparr>db_secrets := s\<rparr>) = own_step tn a b"
  by (simp_all add: own_step_def)

lemma own_step_recorded: "own_step tn a b \<Longrightarrow> ae_tenant e = Some tn \<Longrightarrow> own_step tn a (audit_record e b)"
  by (rule own_step_trans [OF _ own_record])

lemma event_tenants [simp]:
  "ae_tenant (audit_for ctx action outcome rtype rid details) = Some (tc_tenant ctx)"
  "ae_tenant (connection_event ctx action outcome rid details) = Some (tc_tenant ctx)"
  "ae_tenant (mapping_event ctx action rid details) = Some (tc_tenant ctx)"
  "ae_tenant (predict_event ctx outcome rid details) = Some (tc_tenant ctx)"
  by (simp_all add: audit_for_def connection_event_def mapping_event_def predict_event_def)

lemma own_set_connection:
  assumes "repo_require (db_connections a) i ctx = Inr c" and "\<And>x. row_id (f x) = row_id x" "\<And>x. row_tenant (f x) = row_tenant x"
  shows "own_step (tc_tenant ctx) a (set_connection i f a)"
  using assms ow_set [OF ow_refl, of c "db_connections a" i "tc_tenant ctx" f]
  by (auto simp: own_step_def set_connection_def repo_require_Inr_iff ow_refl dest: session_get_Some)

lemma own_add:
  "repo_add t e ctx = Inr (e', t') \<Longrightarrow> own_table (tc_tenant ctx) t t'"
  using repo_add_Inr [of t e ctx e' t'] ow_add [OF ow_refl, of e' "tc_tenant ctx" t] by simp

lemma own_set:
  assumes "repo_require t i ctx = Inr r" and "\<And>x. row_id (f x) = row_id x" "\<And>x. row_tenant (f x) = row_tenant x"
  shows "own_table (tc_tenant ctx) t (row_set t i f)"
  using assms by (auto simp: repo_require_Inr_iff intro: ow_set [OF ow_refl] dest: session_get_Some)

lemma own_delete: "repo_require t i ctx = Inr r \<Longrightarrow> repo_delete t r ctx = Inr t' \<Longrightarrow> own_table (tc_tenant ctx) t t'"
  by (auto simp: repo_require_Inr_iff repo_delete_def split: if_splits intro: ow_delete [OF ow_refl] dest: session_get_Some)

lemmas own_intros = own_table.ow_refl own_add own_set own_delete

lemma required_id: "repo_require t i ctx = Inr r \<Longrightarrow> row_id r = i"
  by (auto simp: repo_require_Inr_iff dest: session_get_Some)

named_theorems step_simps

lemmas [step_simps] = own_step_def attempt_def Let_def audit_record_def set_connection_def

lemma register_own: "register_connection ctx sp u i j db = (r, db') \<Longrightarrow> own_step (tc_tenant ctx) db db'"
  by (auto simp: register_connection_def step_simps split: sum.splits prod.splits intro!: own_set intro: own_intros)

lemma validate_own: "validate_connection probe i ctx now db = (r, db') \<Longrightarrow> own_step (tc_tenant ctx) db db'"
  by (auto simp: validate_connection_def step_simps apply_health_def required_id
      split: sum.splits prod.splits if_splits intro!: own_set intro: own_intros)

lemma enable_own: "enable_connection i ctx db = (r, db') \<Longrightarrow> own_step (tc_tenant ctx) db db'"
  by (auto simp: enable_connection_def step_simps required_id split: sum.splits if_splits intro!: own_set intro: own_intros)

lemma disable_own: "disable_connection i ctx db = (r, db') \<Longrightarrow> own_step (tc_tenant ctx) db db'"
  by (auto simp: disable_connection_def step_simps required_id split: sum.splits if_splits intro!: own_set intro: own_intros)

lemma start_own: "start_discovery i ctx fresh db = (r, db') \<Longrightarrow> own_step (tc_tenant ctx) db db'"
  by (auto simp: start_discovery_def add_snapshot_def step_simps split: sum.splits prod.splits if_splits intro!: own_set intro: own_intros)

lemma acknowledge_own: "acknowledge_drift i ctx now db = (r, db') \<Longrightarrow> own_step (tc_tenant ctx) db db'"
  by (auto simp: acknowledge_drift_def set_snapshot_def step_simps split: sum.splits if_splits intro!: own_set intro: own_intros)

lemma latest_version_mem:
  "latest_version_for m ctx db = Inr v \<Longrightarrow> v \<in> set (db_versions db) \<and> row_tenant v = Some (tc_tenant ctx)"
  by (auto simp: latest_version_for_def versions_of_def list_for_tenant_def dest!: first_max_Some split: option.splits)

lemma own_set_latest:
  "latest_version_for m ctx db = Inr v \<Longrightarrow> (\<And>x. row_id (f x) = row_id x) \<Longrightarrow> (\<And>x. row_tenant (f x) = row_tenant x) \<Longrightarrow>
    own_table (tc_tenant ctx) (db_versions db) (row_set (db_versions db) (row_id v) f)"
  using latest_version_mem [of m ctx db v] by (auto intro: ow_set [OF ow_refl])

lemma approve_own: "approve i ctx db = (r, db') \<Longrightarrow> own_step (tc_tenant ctx) db db'"
  by (auto simp: approve_def set_mapping_def set_version_def step_simps required_id
      split: sum.splits if_splits intro!: own_set own_set_latest intro: own_intros)

lemma activate_own: "activate i ctx db = (r, db') \<Longrightarrow> own_step (tc_tenant ctx) db db'"
  by (auto simp: activate_def set_mapping_def step_simps required_id split: sum.splits if_splits intro!: own_set intro: own_intros)

lemma deprecate_own: "deprecate i ctx db = (r, db') \<Longrightarrow> own_step (tc_tenant ctx) db db'"
  by (auto simp: deprecate_def set_mapping_def step_simps required_id split: sum.splits if_splits intro!: own_set intro: own_intros)

lemma reject_own: "reject i ctx db = (r, db') \<Longrightarrow> own_step (tc_tenant ctx) db db'"
  by (auto simp: reject_def set_mapping_def step_simps required_id split: sum.splits if_splits intro!: own_set intro: own_intros)

lemma submit_own: "submit_for_validation iter onto i ctx db = (r, db') \<Longrightarrow> own_step (tc_tenant ctx) db db'"
  by (auto simp: submit_for_validation_def set_mapping_def step_simps required_id split: sum.splits if_splits intro!: own_set intro: own_intros)

lemma create_draft_own: "create_draft ctx snap doc ver info i j db = (r, db') \<Longrightarrow> own_step (tc_tenant ctx) db db'"
  by (auto simp: create_draft_def add_version_def step_simps split: sum.splits prod.splits if_splits intro!: own_set intro: own_intros)

lemma own_set_outcome:
  "get_by_prediction_result_id i ctx db = Inr (Some x) \<Longrightarrow> (\<And>y. row_id (f y) = row_id y) \<Longrightarrow> (\<And>y. row_tenant (f y) = row_tenant y) \<Longrightarrow>
    own_table (tc_tenant ctx) (db_outcomes db) (row_set (db_outcomes db) (row_id x) f)"
proof -
  assume "get_by_prediction_result_id i ctx db = Inr (Some x)"
  then have "x \<in> set (filter (\<lambda>x. row_tenant x = Some (tc_tenant ctx) \<and> oc_result x = i) (db_outcomes db))"
    by (simp add: get_by_prediction_result_id_def scalar_one_or_none_Some)
  then show "(\<And>y. row_id (f y) = row_id y) \<Longrightarrow> (\<And>y. row_tenant (f y) = row_tenant y) \<Longrightarrow>
    own_table (tc_tenant ctx) (db_outcomes db) (row_set (db_outcomes db) (row_id x) f)"
    by (intro ow_set [OF ow_refl, of x]) auto
qed

lemma outcome_own: "record_outcome i l ctx fresh db = (r, db') \<Longrightarrow> own_step (tc_tenant ctx) db db'"
  by (auto simp: record_outcome_def upsert_outcome_def add_outcome_def step_simps
      split: sum.splits prod.splits option.splits if_splits intro!: own_set_outcome intro: own_table.ow_refl own_add)

lemma rotate_own:
  assumes "rotate_secret i ctx secret u fresh now db = (r, db')"
  shows "own_step (tc_tenant ctx) db db'"
proof (cases r)
  case (Inl e)
  with assms show ?thesis
    by (auto simp: rotate_secret_def step_simps split: sum.splits prod.splits intro: own_intros)
next
  case (Inr c')
  with assms obtain conn old new refs where conn: "repo_require (db_connections db) i ctx = Inr conn"
      and old: "repo_require (db_credential_refs db) (cn_credential conn) ctx = Inr old"
      and add: "repo_add (db_credential_refs db) \<lparr>row_id = fresh, row_tenant = None, cr_provider = cr_provider old,
          cr_key = fst (local_store u secret (db_secrets db)), cr_active = True, cr_rotated = None\<rparr> ctx = Inr (new, refs)"
      and db': "db_connections db' = row_set (db_connections db) i (\<lambda>c. c\<lparr>cn_credential := row_id new, cn_status := PENDING_VALIDATION\<rparr>)"
        "db_credential_refs db' = row_set refs (row_id old) (\<lambda>r. r\<lparr>cr_active := False, cr_rotated := Some now\<rparr>)"
        "db_snapshots db' = db_snapshots db" "db_mappings db' = db_mappings db" "db_versions db' = db_versions db"
        "db_requests db' = db_requests db" "db_results db' = db_results db" "db_outcomes db' = db_outcomes db"
        "db_tasks db' = db_tasks db" "db_models db' = db_models db" "db_adapters db' = db_adapters db" "db_aliases db' = db_aliases db"
        "\<exists>es. audit_log db' = audit_log db @ es \<and> (\<forall>e \<in> set es. ae_tenant e = Some (tc_tenant ctx))"
    by (auto simp: rotate_secret_def attempt_def Let_def audit_record_def set_connection_def required_id
        split: sum.splits prod.splits)
  have "old \<in> set refs" "row_tenant old = Some (tc_tenant ctx)"
    using old repo_add_Inr [OF add] by (auto simp: repo_require_Inr_iff dest: session_get_Some)
  then have "own_table (tc_tenant ctx) (db_credential_refs db) (db_credential_refs db')"
    unfolding db'(2) by (intro ow_set [OF own_add [OF add]]) simp_all
  with db' conn show ?thesis unfolding own_step_def by (auto intro!: own_set intro: own_intros)
qed

lemma own_delete_required: "repo_require t i ctx = Inr r \<Longrightarrow> own_table (tc_tenant ctx) t (session_delete t r)"
  by (auto simp: repo_require_Inr_iff intro: ow_delete [OF ow_refl] dest: session_get_Some)

lemma own_delete_got: "repo_get t i ctx = Some r \<Longrightarrow> own_table (tc_tenant ctx) t (session_delete t r)"
  by (auto simp: repo_get_Some_iff intro: ow_delete [OF ow_refl] dest: session_get_Some)

lemma delete_own: "delete_connection i ctx db = (r, db') \<Longrightarrow> own_step (tc_tenant ctx) db db'"
  by (auto simp: delete_connection_def step_simps repo_delete_def rbind_def required_id
      split: sum.splits prod.splits option.splits if_splits intro!: own_delete_required own_delete_got intro: own_intros)

lemma body_plane:
  "discovery_body env snap ctx prof db = (x, db') \<Longrightarrow>
    db' = db\<lparr>db_pools := db_pools db', audit_log := audit_log db'\<rparr> \<and>
    (\<exists>es. audit_log db' = audit_log db @ es \<and> (\<forall>e \<in> set es. ae_tenant e = Some (tc_tenant ctx)))"
  by (auto simp: discovery_body_def get_or_create_engine_def attempt_def Let_def audit_record_def
      split: sum.splits prod.splits option.splits if_splits)

lemma run_discovery_own:
  assumes "run_discovery env i ctx prof db = (r, db')"
  shows "own_step (tc_tenant ctx) db db'"
proof (cases "repo_require (db_snapshots db) i ctx")
  case (Inl e)
  with assms show ?thesis by (simp add: run_discovery_def)
next
  case (Inr snap)
  let ?db1 = "set_snapshot i (\<lambda>s. s\<lparr>ss_status := RUNNING\<rparr>) db"
  obtain x db2 where body: "discovery_body env (snap\<lparr>ss_status := RUNNING\<rparr>) ctx prof ?db1 = (x, db2)" by (cases "discovery_body env (snap\<lparr>ss_status := RUNNING\<rparr>) ctx prof ?db1")
  from body_plane [OF body] obtain p l where db2: "db2 = ?db1\<lparr>db_pools := p, audit_log := l\<rparr>"
      and es: "\<exists>es. l = audit_log ?db1 @ es \<and> (\<forall>e \<in> set es. ae_tenant e = Some (tc_tenant ctx))" by auto
  have twice: "own_table (tc_tenant ctx) (db_snapshots db) (row_set (row_set (db_snapshots db) i (\<lambda>s. s\<lparr>ss_status := RUNNING\<rparr>)) i f)"
    if f: "\<And>s. row_id (f s) = row_id s" "\<And>s. row_tenant (f s) = row_tenant s" for f :: "snapshot \<Rightarrow> snapshot"
  proof -
    have "row_set (row_set (db_snapshots db) i (\<lambda>s. s\<lparr>ss_status := RUNNING\<rparr>)) i f =
        row_set (db_snapshots db) i (\<lambda>s. f (s\<lparr>ss_status := RUNNING\<rparr>))" by (simp add: row_set_def)
    then show ?thesis using own_set [OF Inr, of "\<lambda>s. f (s\<lparr>ss_status := RUNNING\<rparr>)"] f by simp
  qed
  from assms Inr body db2 es show ?thesis
    by (cases x) (auto simp: run_discovery_def own_step_def Let_def audit_record_def set_snapshot_def complete_snapshot_def
        intro!: twice intro: own_intros)
qed

lemma job_own: "own_step (tc_tenant ctx) db (run_discovery_job env i ctx prof db)"
  using run_discovery_own [of env i ctx prof db]
  by (cases "run_discovery env i ctx prof db") (auto simp: run_discovery_job_def split: sum.splits)

lemma quiet_own:
  assumes "quiet a b" and "\<exists>es. audit_log b = audit_log a @ es \<and> (\<forall>e \<in> set es. ae_tenant e = Some tn)"
  shows "own_step tn a b"
  using assms by (auto simp: quiet_def own_step_def ow_refl)

lemma same_plane_own: "same_plane a b \<Longrightarrow> own_step tn a b"
proof -
  assume "same_plane a b"
  then have "b = a\<lparr>db_pools := db_pools b\<rparr>" by (simp add: same_plane_def)
  then show ?thesis by (metis own_memory(1) own_step_refl)
qed

lemma extract_batch_own:
  assumes "extract_batch env c ctx reference pt db = (x, db')"
  shows "own_step (tc_tenant ctx) db db'"
proof -
  have eng: "get_or_create_engine i ctx db = (r, db1) \<Longrightarrow> own_step (tc_tenant ctx) db db1" for i r db1
    using same_plane_engine [of db i ctx] by (simp add: same_plane_own)
  have fs: "extract_features env row related ctx pt fs z db1 = (r, db2) \<Longrightarrow> own_step (tc_tenant ctx) db1 db2" for row related fs z db1 r db2
    using same_plane_features [of db1 env row related ctx pt fs z] by (simp add: same_plane_own)
  have ev: "ae_tenant (extract_event ctx c reference n) = Some (tc_tenant ctx)" for n by (simp add: extract_event_def)
  from assms show ?thesis
    by (auto simp: extract_batch_def attempt_def Let_def split: sum.splits prod.splits option.splits
        dest!: eng fs intro: own_step_trans own_step_recorded ev)
qed

lemma run_model_own:
  assumes "run_model env l ctx reference pt db = (x, db')"
  shows "own_step (tc_tenant ctx) db db'"
  using assms
  by (auto simp: run_model_def run_hermes_def run_baseline_def attempt_def split: loaded_model.splits sum.splits prod.splits
      dest!: build_example_plane extract_batch_own intro: same_plane_own)

lemma add_request_own: "add_request q ctx db = Inr (q', db') \<Longrightarrow> own_step (tc_tenant ctx) db db'"
  by (auto simp: add_request_def own_step_def split: if_splits intro: own_intros)

lemma add_prediction_own: "add_prediction u ctx db = Inr (u', db') \<Longrightarrow> own_step (tc_tenant ctx) db db'"
  by (auto simp: add_prediction_def own_step_def split: if_splits intro: own_intros)

lemma set_request_own:
  assumes "q \<in> set (db_requests db)" "row_id q = i" "row_tenant q = Some tn"
  shows "own_step tn db (set_request i st db)"
proof -
  have "own_table tn (db_requests db) (row_set (db_requests db) i (\<lambda>x. x\<lparr>pq_status := st\<rparr>))"
    using assms by (intro ow_set [OF ow_refl, of q]) simp_all
  then show ?thesis by (simp add: own_step_def set_request_def ow_refl)
qed

lemma serve_own:
  assumes "serve env task rq rs ctx reference pt (db, ld) = (Inr r, (db', ld'))"
    and q: "q \<in> set (db_requests db)" "row_id q = rq" "row_tenant q = Some (tc_tenant ctx)"
  shows "own_step (tc_tenant ctx) db db'"
proof -
  from assms(1) obtain m l y db1 u0 u db2 where run: "run_model env l ctx reference pt db = (Inr y, db1)"
      and add: "add_prediction u0 ctx db1 = Inr (u, db2)"
      and db': "db' = audit_record (predict_event ctx SUCCESS rq [(''task_key'', JStr (fc_task delivery_delay_risk_contract)),
        (''model_version_id'', JUuid (row_id (m :: model_version)))]) (set_request rq PS_COMPLETED db2)"
    by (auto simp: serve_def attempt_def ensure_def split: option.splits sum.splits prod.splits if_splits)
  have "db_requests db2 = db_requests db"
    using quiet_tables(4) [OF run_model_quiet [OF run]] add_prediction_Inr [OF add] by simp
  with q have "own_step (tc_tenant ctx) db2 (set_request rq PS_COMPLETED db2)" by (intro set_request_own) simp_all
  with run_model_own [OF run] add_prediction_own [OF add]
  have "own_step (tc_tenant ctx) db (set_request rq PS_COMPLETED db2)" by (blast intro: own_step_trans)
  then show ?thesis unfolding db' by (intro own_step_recorded) simp_all
qed

lemma predict_own:
  assumes "predict env rq rs ctx reference pt key (db, ld) = (Inr r, (db', ld'))"
  shows "own_step (tc_tenant ctx) db db'"
  using assms
proof (cases rule: predict_Inr)
  case cached
  then show ?thesis by simp
next
  case (served t q)
  let ?db0 = "db\<lparr>db_requests := db_requests db @ [q]\<rparr>"
  have q: "row_tenant q = Some (tc_tenant ctx)" "row_id q = rq" using served(3) by (simp_all add: new_request_def)
  have "own_table (tc_tenant ctx) (db_requests db) (db_requests db @ [q])" using served(4) q by (intro ow_add ow_refl) auto
  then have "own_step (tc_tenant ctx) db ?db0" by (simp add: own_step_def ow_refl)
  moreover have "own_step (tc_tenant ctx) ?db0 db'" using serve_own [OF served(6), of q] q by simp
  ultimately show ?thesis by (rule own_step_trans)
qed

lemma on_db_Inr:
  "on_db caught op f d = (Inr x, d') \<Longrightarrow> \<exists>y db. op (pc_db d) = (Inr y, db) \<and> x = f y \<and> d' = d\<lparr>pc_db := db\<rparr>"
  by (auto simp: on_db_def split: prod.splits sum.splits)

lemma create_draft_checked_own:
  "attempt (make_document doc) db (\<lambda>dd. create_draft ctx snap dd ver info i j db) = (r, db') \<Longrightarrow> own_step (tc_tenant ctx) db db'"
  by (cases "make_document doc") (auto dest: create_draft_own)

lemma body_own:
  assumes "ro_body (route_of v c) ctx d = (Inr x, dd)" and "ro_commits (route_of v c)"
  shows "own_step (tc_tenant ctx) (pc_db d) (pc_db dd)"
  using assms
  by (cases c)
    (auto simp: route_defs split: sum.splits prod.splits dest!: on_db_Inr
      dest: register_own validate_own enable_own disable_own rotate_own delete_own start_own acknowledge_own
        create_draft_checked_own submit_own approve_own activate_own deprecate_own reject_own predict_own outcome_own)

text \<open>The rows of a tenant, in every table that a call can write.\<close>

definition tenant_rows where
  "tenant_rows c db =
     (rows_of c (db_connections db), rows_of c (db_credential_refs db), rows_of c (db_snapshots db), rows_of c (db_mappings db),
      rows_of c (db_versions db), rows_of c (db_requests db), rows_of c (db_results db), rows_of c (db_outcomes db))"

text \<open>The primary keys of these tables.\<close>

definition keys_ok :: "pred_db \<Rightarrow> bool" where
  "keys_ok db \<longleftrightarrow>
     distinct (map row_id (db_connections db)) \<and> distinct (map row_id (db_credential_refs db)) \<and>
     distinct (map row_id (db_snapshots db)) \<and> distinct (map row_id (db_mappings db)) \<and>
     distinct (map row_id (db_versions db)) \<and> distinct (map row_id (db_requests db)) \<and>
     distinct (map row_id (db_results db)) \<and> distinct (map row_id (db_outcomes db))"

lemma own_step_rows:
  assumes "own_step tn a b" and "keys_ok a"
  shows "keys_ok b \<and> (c \<noteq> tn \<longrightarrow> tenant_rows c b = tenant_rows c a)"
proof -
  note t = own_table_others
  from assms t [of tn "db_connections a" "db_connections b"] t [of tn "db_credential_refs a" "db_credential_refs b"]
    t [of tn "db_snapshots a" "db_snapshots b"] t [of tn "db_mappings a" "db_mappings b"]
    t [of tn "db_versions a" "db_versions b"] t [of tn "db_requests a" "db_requests b"]
    t [of tn "db_results a" "db_results b"] t [of tn "db_outcomes a" "db_outcomes b"]
  show ?thesis by (simp add: own_step_def keys_ok_def tenant_rows_def)
qed

text \<open>What a call that was answered did, and what a call that was not: everything below rests on these two.\<close>

lemma answered_call:
  assumes "call_api dec s now h v c d = (Reply st x, d')"
  obtains b dd where "get_tenant_context dec s now (ht_request h) = Inr b" "pass_guards (ro_guards (route_of v c)) (bc_context b) = Inr ()"
    "ro_body (route_of v c) (bc_context b) d = (Inr x, dd)" "ro_commits (route_of v c)" "d' = dd"
  | b dd where "get_tenant_context dec s now (ht_request h) = Inr b" "pass_guards (ro_guards (route_of v c)) (bc_context b) = Inr ()"
    "ro_body (route_of v c) (bc_context b) d = (Inr x, dd)" "\<not> ro_commits (route_of v c)"
    "durable d' = durable d" "audit_log (pc_db d') = audit_log (pc_db d)"
  using assms unfolding call_api_def
  by (elim serving.respond_reply) (metis serving.tables_keep serving.events_keep)

lemma call_cases:
  obtains (unchanged) "durable (snd (call_api dec s now h v c d)) = durable d"
  | (changed) b :: bound_context and x :: answer where "get_tenant_context dec s now (ht_request h) = Inr b"
    "pass_guards (ro_guards (route_of v c)) (bc_context b) = Inr ()" "ro_commits (route_of v c)"
    "ro_body (route_of v c) (bc_context b) d = (Inr x, snd (call_api dec s now h v c d))"
proof (cases "call_api dec s now h v c d")
  case (Pair r d')
  show thesis
  proof (cases r)
    case (Reply st x)
    from Pair Reply have call: "call_api dec s now h v c d = (Reply st x, d')" by simp
    then show thesis
    proof (rule answered_call)
      fix b dd
      assume "get_tenant_context dec s now (ht_request h) = Inr b" "pass_guards (ro_guards (route_of v c)) (bc_context b) = Inr ()"
        "ro_body (route_of v c) (bc_context b) d = (Inr x, dd)" "ro_commits (route_of v c)" "d' = dd"
      then show thesis using call by (intro that(2) [of b x]) simp_all
    next
      assume "durable d' = durable d"
      then show thesis using call by (intro that(1)) simp
    qed
  next
    case (Problem st)
    with Pair serving.respond_problem show thesis unfolding call_api_def by (metis that(1) snd_conv call_api_def)
  qed
qed

lemma durable_sel:
  "db_connections (fst (durable x)) = db_connections (pc_db x)" "db_credential_refs (fst (durable x)) = db_credential_refs (pc_db x)"
  "db_snapshots (fst (durable x)) = db_snapshots (pc_db x)" "db_mappings (fst (durable x)) = db_mappings (pc_db x)"
  "db_versions (fst (durable x)) = db_versions (pc_db x)" "db_requests (fst (durable x)) = db_requests (pc_db x)"
  "db_results (fst (durable x)) = db_results (pc_db x)" "db_outcomes (fst (durable x)) = db_outcomes (pc_db x)"
  "snd (durable x) = pc_jobs x"
  by (simp_all add: durable_def)

lemma durable_rows:
  assumes "durable d' = durable d"
  shows "keys_ok (pc_db d') = keys_ok (pc_db d)" and "tenant_rows c (pc_db d') = tenant_rows c (pc_db d)"
    and "db_requests (pc_db d') = db_requests (pc_db d)" and "db_mappings (pc_db d') = db_mappings (pc_db d)"
    and "pc_jobs d' = pc_jobs d"
proof -
  from durable_sel [of d] durable_sel [of d'] have t: "db_connections (pc_db d') = db_connections (pc_db d)"
      "db_credential_refs (pc_db d') = db_credential_refs (pc_db d)"
      "db_snapshots (pc_db d') = db_snapshots (pc_db d)" "db_mappings (pc_db d') = db_mappings (pc_db d)"
      "db_versions (pc_db d') = db_versions (pc_db d)" "db_requests (pc_db d') = db_requests (pc_db d)"
      "db_results (pc_db d') = db_results (pc_db d)" "db_outcomes (pc_db d') = db_outcomes (pc_db d)" "pc_jobs d' = pc_jobs d"
    unfolding assms by simp_all
  then show "keys_ok (pc_db d') = keys_ok (pc_db d)" "tenant_rows c (pc_db d') = tenant_rows c (pc_db d)"
    "db_requests (pc_db d') = db_requests (pc_db d)" "db_mappings (pc_db d') = db_mappings (pc_db d)" "pc_jobs d' = pc_jobs d"
    by (simp_all add: keys_ok_def tenant_rows_def)
qed

text \<open>Every step is one of the caller's tenant, or changes no row.\<close>

lemma step_rows:
  assumes "process_step dec s a d d'" and "keys_ok (pc_db d)"
  shows "keys_ok (pc_db d') \<and> (a \<noteq> Some c \<longrightarrow> tenant_rows c (pc_db d') = tenant_rows c (pc_db d))"
  using assms(1)
proof (cases rule: process_step.cases)
  case (ps_call now h v call)
  show ?thesis
  proof (cases rule: call_cases [of dec s now h v call d])
    case unchanged
    from durable_rows [OF this] show ?thesis using assms(2) by (simp add: ps_call)
  next
    case (changed b x)
    from own_step_rows [OF body_own [OF changed(4,3)] assms(2)] changed(1) show ?thesis by (auto simp: ps_call caller_of_def)
  qed
next
  case (ps_job env)
  show ?thesis
  proof (cases "pc_jobs d")
    case Nil
    then show ?thesis using assms(2) by (simp add: ps_job run_job_def)
  next
    case (Cons j js)
    from own_step_rows [OF job_own assms(2)] show ?thesis by (auto simp: ps_job run_job_def Cons job_owner_def)
  qed
qed

text \<open>
  C1: the tenants of one process do not touch each other's rows. Over any sequence of calls and
  background jobs, whatever they are asked for, whatever ids they name, and whatever the customer
  databases, the model store and the tokens are, the rows of a tenant in all eight tables that
  calls write stay as they are unless a step is taken for that tenant, and primary keys stay unique.
\<close>

theorem processes_isolate_tenants:
  assumes "process_run dec s as d d'" and "keys_ok (pc_db d)" and "Some c \<notin> set as"
  shows "keys_ok (pc_db d') \<and> tenant_rows c (pc_db d') = tenant_rows c (pc_db d)"
  using assms
proof (induction rule: process_run.induct)
  case (pr_step as d d' a d'')
  then have "keys_ok (pc_db d') \<and> tenant_rows c (pc_db d') = tenant_rows c (pc_db d)" by simp
  with step_rows [OF pr_step(2), of c] pr_step(5) show ?case by auto
qed simp

text \<open>What the operations leave alone: predictions all but one of them, mappings those that are not about mappings.\<close>

lemma register_frame: "register_connection ctx sp u i j db = (r, db' :: pred_db) \<Longrightarrow> db_requests db' = db_requests db \<and> db_mappings db' = db_mappings db"
  by (auto simp: register_connection_def attempt_def Let_def audit_record_def split: sum.splits prod.splits option.splits if_splits)

lemma validate_frame: "validate_connection probe i ctx now db = (r, db' :: pred_db) \<Longrightarrow> db_requests db' = db_requests db \<and> db_mappings db' = db_mappings db"
  by (auto simp: validate_connection_def set_connection_def attempt_def Let_def audit_record_def split: sum.splits prod.splits option.splits if_splits)

lemma enable_frame: "enable_connection i ctx db = (r, db' :: pred_db) \<Longrightarrow> db_requests db' = db_requests db \<and> db_mappings db' = db_mappings db"
  by (auto simp: enable_connection_def set_connection_def attempt_def Let_def audit_record_def split: sum.splits prod.splits option.splits if_splits)

lemma disable_frame: "disable_connection i ctx db = (r, db' :: pred_db) \<Longrightarrow> db_requests db' = db_requests db \<and> db_mappings db' = db_mappings db"
  by (auto simp: disable_connection_def set_connection_def attempt_def Let_def audit_record_def split: sum.splits prod.splits option.splits if_splits)

lemma rotate_frame: "rotate_secret i ctx secret u fresh now db = (r, db' :: pred_db) \<Longrightarrow> db_requests db' = db_requests db \<and> db_mappings db' = db_mappings db"
  by (auto simp: rotate_secret_def set_connection_def attempt_def Let_def audit_record_def split: sum.splits prod.splits option.splits if_splits)

lemma delete_frame: "delete_connection i ctx db = (r, db' :: pred_db) \<Longrightarrow> db_requests db' = db_requests db \<and> db_mappings db' = db_mappings db"
  by (auto simp: delete_connection_def rbind_def attempt_def Let_def audit_record_def split: sum.splits prod.splits option.splits if_splits)

lemma start_frame: "start_discovery i ctx fresh db = (r, db' :: pred_db) \<Longrightarrow> db_requests db' = db_requests db \<and> db_mappings db' = db_mappings db"
  by (auto simp: start_discovery_def add_snapshot_def rbind_def attempt_def Let_def audit_record_def split: sum.splits prod.splits option.splits if_splits)

lemma acknowledge_frame: "acknowledge_drift i ctx now db = (r, db' :: pred_db) \<Longrightarrow> db_requests db' = db_requests db \<and> db_mappings db' = db_mappings db"
  by (auto simp: acknowledge_drift_def set_snapshot_def attempt_def Let_def audit_record_def split: sum.splits prod.splits option.splits if_splits)

lemma outcome_frame: "record_outcome i l ctx fresh db = (r, db' :: pred_db) \<Longrightarrow> db_requests db' = db_requests db \<and> db_mappings db' = db_mappings db"
  by (auto simp: record_outcome_def upsert_outcome_def add_outcome_def rbind_def attempt_def Let_def audit_record_def split: sum.splits prod.splits option.splits if_splits)

lemma create_draft_checked_frame: "attempt (make_document doc) db (\<lambda>dd. create_draft ctx snap dd ver info i j db) = (r, db' :: pred_db) \<Longrightarrow> db_requests db' = db_requests db"
  by (auto simp: create_draft_def add_version_def rbind_def attempt_def Let_def audit_record_def split: sum.splits prod.splits option.splits if_splits)

lemma submit_frame: "submit_for_validation iter onto i ctx db = (r, db' :: pred_db) \<Longrightarrow> db_requests db' = db_requests db"
  by (auto simp: submit_for_validation_def set_mapping_def attempt_def Let_def audit_record_def split: sum.splits prod.splits option.splits if_splits)

lemma approve_frame: "approve i ctx db = (r, db' :: pred_db) \<Longrightarrow> db_requests db' = db_requests db"
  by (auto simp: approve_def set_mapping_def set_version_def attempt_def Let_def audit_record_def split: sum.splits prod.splits option.splits if_splits)

lemma activate_frame: "activate i ctx db = (r, db' :: pred_db) \<Longrightarrow> db_requests db' = db_requests db"
  by (auto simp: activate_def set_mapping_def attempt_def Let_def audit_record_def split: sum.splits prod.splits option.splits if_splits)

lemma deprecate_frame: "deprecate i ctx db = (r, db' :: pred_db) \<Longrightarrow> db_requests db' = db_requests db"
  by (auto simp: deprecate_def set_mapping_def attempt_def Let_def audit_record_def split: sum.splits prod.splits option.splits if_splits)

lemma reject_frame: "reject i ctx db = (r, db' :: pred_db) \<Longrightarrow> db_requests db' = db_requests db"
  by (auto simp: reject_def set_mapping_def attempt_def Let_def audit_record_def split: sum.splits prod.splits option.splits if_splits)

lemma job_frame:
  "db_requests (run_discovery_job env i ctx prof db) = db_requests (db :: pred_db) \<and>
   db_mappings (run_discovery_job env i ctx prof db) = db_mappings db"
proof -
  obtain r db' where run: "run_discovery env i ctx prof db = (r, db')" by (cases "run_discovery env i ctx prof db")
  have body: "db_requests db2 = db_requests db \<and> db_mappings db2 = db_mappings db"
    if "discovery_body env snap ctx prof (set_snapshot i f db) = (x, db2)" for snap f x db2
  proof -
    from body_plane [OF that] obtain p l where "db2 = (set_snapshot i f db)\<lparr>db_pools := p, audit_log := l\<rparr>" by blast
    then show ?thesis by (simp add: set_snapshot_def)
  qed
  have "db_requests db' = db_requests db \<and> db_mappings db' = db_mappings db"
    using run by (auto simp: run_discovery_def attempt_def Let_def audit_record_def set_snapshot_def
        split: sum.splits prod.splits dest!: body [unfolded set_snapshot_def])
  then show ?thesis using run by (auto simp: run_discovery_job_def split: sum.splits)
qed

lemma predict_frame:
  assumes "predict env rq rs ctx reference pt key (db, ld) = (Inr r, (db', ld'))"
  shows "db_mappings db' = db_mappings (db :: pred_db) \<and>
    (db_requests db' = db_requests db \<or> (\<exists>q. db_requests db' = db_requests db @ [q] \<and> pq_status q = PS_COMPLETED))"
proof (cases "(db', ld') = (db, ld)")
  case False
  then have "truthy key \<Longrightarrow> cached_response (the key) ctx db \<noteq> Inr (Some r) \<or> (db', ld') \<noteq> (db, ld)" by blast
  with assms show ?thesis
  proof (rule predict_served)
    fix t :: task_definition
    assume "db_requests db' = db_requests db @ [done_request rq (row_id t) ctx reference pt key]" "db_mappings db' = db_mappings db"
    then show ?thesis by (simp add: done_request_def)
  qed
qed simp

subsection \<open>What the interface forgets\<close>

lemma body_requests:
  assumes "ro_body (route_of v c) ctx d = (Inr x, dd)" and "ro_commits (route_of v c)"
  shows "db_requests (pc_db dd) = db_requests (pc_db d) \<or>
    (\<exists>q. db_requests (pc_db dd) = db_requests (pc_db d) @ [q] \<and> pq_status q = PS_COMPLETED)"
  using assms
  by (cases c)
    (auto simp: route_defs split: sum.splits prod.splits dest!: on_db_Inr
      dest: register_frame validate_frame enable_frame disable_frame rotate_frame delete_frame start_frame acknowledge_frame
        create_draft_checked_frame submit_frame approve_frame activate_frame deprecate_frame reject_frame predict_frame outcome_frame)

lemma step_requests:
  assumes "process_step dec s a d d'"
  shows "db_requests (pc_db d') = db_requests (pc_db d) \<or>
    (\<exists>q. db_requests (pc_db d') = db_requests (pc_db d) @ [q] \<and> pq_status q = PS_COMPLETED)"
  using assms
proof (cases rule: process_step.cases)
  case (ps_call now h v call)
  show ?thesis
  proof (cases rule: call_cases [of dec s now h v call d])
    case unchanged
    from durable_rows [OF this] show ?thesis by (simp add: ps_call)
  next
    case (changed b x)
    from body_requests [OF changed(4,3)] show ?thesis by (simp add: ps_call)
  qed
next
  case (ps_job env)
  then show ?thesis by (auto simp: run_job_def job_frame split: list.splits)
qed

text \<open>
  C30: the interface never shows a failed prediction. The service marks a failed prediction FAILED
  and writes an ERROR event, and the tenant's monitoring summary counts the FAILED requests; but
  the router answers a failure with an error and no commit, so no run of a process ever adds a
  FAILED request, and starting from none the summary's failure count stays zero for every tenant.
\<close>

theorem failed_predictions_are_never_counted:
  assumes "process_run dec s as d d'" and "\<forall>q \<in> set (db_requests (pc_db d)). pq_status q \<noteq> PS_FAILED"
  shows "ts_failed (tenant_summary ctx (pc_db d')) = 0"
proof -
  from assms have "\<forall>q \<in> set (db_requests (pc_db d')). pq_status q \<noteq> PS_FAILED"
  proof (induction rule: process_run.induct)
    case (pr_step as d d' a d'')
    with step_requests [OF pr_step(2)] show ?case by auto
  qed simp
  then show ?thesis by (auto simp: tenant_summary_def Let_def count_if_def list_for_tenant_def filter_empty_conv)
qed

subsection \<open>Who puts a mapping into production, and what drift does\<close>

text \<open>What a call leaves behind as a mapping that was not there before.\<close>

definition mapping_change :: "api_call \<Rightarrow> uuid \<Rightarrow> schema_mapping list \<Rightarrow> schema_mapping list \<Rightarrow> bool" where
  "mapping_change c tn old new \<longleftrightarrow> (\<forall>m' \<in> set new. m' \<in> set old \<or>
     (sm_suspended m' \<longrightarrow> (\<exists>m \<in> set old. row_id m = row_id m' \<and> sm_suspended m)) \<and>
     (sm_state m' = M_ACTIVE \<longrightarrow> c = ActivateMapping (row_id m') \<and> row_tenant m' = Some tn))"

lemma mapping_change_refl: "mapping_change c tn ms ms"
  by (simp add: mapping_change_def)

lemma mapping_change_add: "\<not> sm_suspended m \<Longrightarrow> sm_state m \<noteq> M_ACTIVE \<Longrightarrow> mapping_change c tn ms (ms @ [m])"
  by (simp add: mapping_change_def)

lemma row_set_source: "x \<in> set (row_set t i f) \<Longrightarrow> x \<in> set t \<or> (\<exists>y \<in> set t. row_id y = i \<and> x = f y)"
  by (auto simp: row_set_def)

lemma mapping_change_set:
  assumes "\<And>m. row_id (f m) = row_id m" "\<And>m. sm_suspended (f m) \<Longrightarrow> sm_suspended m"
    and "\<And>m. m \<in> set ms \<Longrightarrow> row_id m = i \<Longrightarrow> sm_state (f m) = M_ACTIVE \<Longrightarrow> c = ActivateMapping i \<and> row_tenant (f m) = Some tn"
  shows "mapping_change c tn ms (row_set ms i f)"
  unfolding mapping_change_def
proof
  fix x assume "x \<in> set (row_set ms i f)"
  then consider "x \<in> set ms" | y where "y \<in> set ms" "row_id y = i" "x = f y" using row_set_source by blast
  then show "x \<in> set ms \<or> (sm_suspended x \<longrightarrow> (\<exists>m \<in> set ms. row_id m = row_id x \<and> sm_suspended m)) \<and>
     (sm_state x = M_ACTIVE \<longrightarrow> c = ActivateMapping (row_id x) \<and> row_tenant x = Some tn)"
  proof cases
    case (2 y)
    with assms(1) [of y] assms(2) [of y] assms(3) [of y] show ?thesis by auto
  qed simp
qed

lemma add_version_frame: "add_version i m n doc info ctx db = Inr (v, db' :: pred_db) \<Longrightarrow> db_mappings db' = db_mappings db"
  by (auto simp: add_version_def split: if_splits)

lemma create_draft_mappings:
  assumes "attempt (make_document doc) db (\<lambda>dd. create_draft ctx snap dd ver info i j db) = (Inr y, db' :: pred_db)"
  shows "mapping_change c tn (db_mappings db) (db_mappings db')"
proof -
  from assms obtain dd m ms v db2 where add: "repo_add (db_mappings db) \<lparr>row_id = i, row_tenant = None, sm_entity = md_entity dd,
        sm_snapshot = snap, sm_ontology = ver, sm_state = M_DRAFT, sm_active = None, sm_suspended = False\<rparr> ctx = Inr (m, ms)"
      and ver: "add_version j (row_id m) 1 dd info ctx (db\<lparr>db_mappings := ms\<rparr>) = Inr (v, db2)"
      and db': "db_mappings db' = db_mappings db2"
    by (auto simp: create_draft_def Let_def)
  from repo_add_Inr [OF add] have "ms = db_mappings db @ [m]" "\<not> sm_suspended m" "sm_state m \<noteq> M_ACTIVE" by auto
  then show ?thesis using add_version_frame [OF ver] db' mapping_change_add by simp
qed

lemma submit_mappings:
  "submit_for_validation iter onto i ctx db = (Inr y, db' :: pred_db) \<Longrightarrow> mapping_change c tn (db_mappings db) (db_mappings db')"
  by (auto simp: submit_for_validation_def set_mapping_def attempt_def audit_record_def
      split: sum.splits if_splits intro!: mapping_change_set)

lemma approve_mappings:
  "approve i ctx db = (Inr y, db' :: pred_db) \<Longrightarrow> mapping_change c tn (db_mappings db) (db_mappings db')"
  by (auto simp: approve_def set_mapping_def set_version_def attempt_def audit_record_def
      split: sum.splits if_splits intro!: mapping_change_set)

lemma deprecate_mappings:
  "deprecate i ctx db = (Inr y, db' :: pred_db) \<Longrightarrow> mapping_change c tn (db_mappings db) (db_mappings db')"
  by (auto simp: deprecate_def set_mapping_def attempt_def audit_record_def
      split: sum.splits if_splits intro!: mapping_change_set)

lemma reject_mappings:
  "reject i ctx db = (Inr y, db' :: pred_db) \<Longrightarrow> mapping_change c tn (db_mappings db) (db_mappings db')"
  by (auto simp: reject_def set_mapping_def attempt_def audit_record_def
      split: sum.splits if_splits intro!: mapping_change_set)

lemma activate_mappings:
  assumes "activate i ctx db = (Inr y, db' :: pred_db)" and "keys_ok db"
  shows "mapping_change (ActivateMapping i) (tc_tenant ctx) (db_mappings db) (db_mappings db')"
proof -
  from assms(1) obtain m v where m: "repo_require (db_mappings db) i ctx = Inr m"
      and db': "db_mappings db' = row_set (db_mappings db) (row_id m)
        (\<lambda>x. x\<lparr>sm_active := Some (row_id (v :: mapping_version)), sm_state := M_ACTIVE, sm_suspended := False\<rparr>)"
    by (auto simp: activate_def set_mapping_def attempt_def audit_record_def Let_def split: sum.splits if_splits)
  from m have m': "m \<in> set (db_mappings db)" "row_id m = i" "row_tenant m = Some (tc_tenant ctx)"
    by (auto simp: repo_require_Inr_iff dest: session_get_Some)
  have "row_tenant x = Some (tc_tenant ctx)" if "x \<in> set (db_mappings db)" "row_id x = i" for x
  proof -
    have "inj_on row_id (set (db_mappings db))" using assms(2) by (simp add: keys_ok_def distinct_map)
    then have "x = m" using that m'(1,2) by (simp add: inj_on_def)
    then show ?thesis using m'(3) by simp
  qed
  then show ?thesis unfolding db' m'(2) by (intro mapping_change_set) simp_all
qed

lemma body_other_mappings:
  assumes "ro_body (route_of v c) ctx d = (Inr x, dd)" and "ro_commits (route_of v c)"
    and "needed_scope c \<noteq> MAPPING_MANAGE" "needed_scope c \<noteq> TENANT_ADMIN"
  shows "db_mappings (pc_db dd) = db_mappings (pc_db d)"
  using assms
  by (cases c)
    (auto simp: route_defs split: sum.splits prod.splits dest!: on_db_Inr
        register_frame validate_frame enable_frame disable_frame rotate_frame delete_frame start_frame acknowledge_frame
        predict_frame outcome_frame)

lemma body_mappings:
  assumes "ro_body (route_of v c) ctx d = (Inr x, dd)" and "ro_commits (route_of v c)" and "keys_ok (pc_db d)"
  shows "mapping_change c (tc_tenant ctx) (db_mappings (pc_db d)) (db_mappings (pc_db dd))"
proof (cases c)
  case (CreateDraft snap doc ver i j)
  with assms(1) show ?thesis by (auto simp: route_defs dest!: on_db_Inr create_draft_mappings)
next
  case (SubmitMapping i)
  with assms(1) show ?thesis by (auto simp: route_defs dest!: on_db_Inr submit_mappings)
next
  case (ApproveMapping i)
  with assms(1) show ?thesis by (auto simp: route_defs dest!: on_db_Inr approve_mappings)
next
  case (ActivateMapping i)
  with assms(1) show ?thesis by (auto simp: route_defs dest!: on_db_Inr activate_mappings [OF _ assms(3)])
next
  case (DeprecateMapping i)
  with assms(1) show ?thesis by (auto simp: route_defs dest!: on_db_Inr deprecate_mappings)
next
  case (RejectMapping i)
  with assms(1) show ?thesis by (auto simp: route_defs dest!: on_db_Inr reject_mappings)
qed (use body_other_mappings [OF assms(1,2)] assms(2) in \<open>simp_all add: mapping_change_refl route_defs\<close>)

text \<open>
  C8: only an administrator of the tenant puts a mapping into production. When a call leaves an
  active mapping that was not there before, the call was the activation of that very mapping, with
  a token of the mapping's tenant that carries \<open>tenant:admin\<close>.
\<close>

theorem only_admins_activate_mappings:
  assumes "call_api dec s now h v c d = (r, d')" and "keys_ok (pc_db d)"
    and "m \<in> set (db_mappings (pc_db d'))" "m \<notin> set (db_mappings (pc_db d))" "sm_state m = M_ACTIVE"
  shows "c = ActivateMapping (row_id m) \<and> (\<exists>b. get_tenant_context dec s now (ht_request h) = Inr b \<and>
    row_tenant m = Some (tc_tenant (bc_context b)) \<and> scope_value TENANT_ADMIN \<in> tc_scopes (bc_context b))"
proof (cases rule: call_cases [of dec s now h v c d])
  case unchanged
  from durable_rows(4) [OF this] assms show ?thesis by simp
next
  case (changed b x)
  from body_mappings [OF changed(4,3) assms(2)] assms
  have c: "c = ActivateMapping (row_id m)" "row_tenant m = Some (tc_tenant (bc_context b))"
    by (auto simp: mapping_change_def)
  have "scope_value TENANT_ADMIN \<in> tc_scopes (bc_context b)"
    using changed(2) [unfolded route_guards] c(1) by (auto simp: require_scope_iff split: if_splits)
  with c changed(1) show ?thesis by blast
qed

lemma step_suspended:
  assumes "process_step dec s a d d'" and "keys_ok (pc_db d)" and "m' \<in> set (db_mappings (pc_db d'))" "sm_suspended m'"
  shows "\<exists>m \<in> set (db_mappings (pc_db d)). row_id m = row_id m' \<and> sm_suspended m"
  using assms(1)
proof (cases rule: process_step.cases)
  case (ps_call now h v call)
  show ?thesis
  proof (cases rule: call_cases [of dec s now h v call d])
    case unchanged
    from durable_rows(4) [OF this] assms(3,4) show ?thesis by (auto simp: ps_call)
  next
    case (changed b x)
    from body_mappings [OF changed(4,3) assms(2)] assms(3,4) show ?thesis
      unfolding mapping_change_def ps_call by blast
  qed
next
  case (ps_job env)
  then show ?thesis using assms(3,4) by (auto simp: run_job_def job_frame split: list.splits)
qed

text \<open>
  C31: no process ever suspends a mapping because of drift. The architecture has schema drift
  suspend the mappings it affects; the operation that does it exists, but no route and no
  background job calls it: over any run, a mapping that is suspended was so before.
\<close>

theorem drift_never_suspends_in_service:
  assumes "process_run dec s as d d'" and "keys_ok (pc_db d)" and "m' \<in> set (db_mappings (pc_db d'))" "sm_suspended m'"
  shows "\<exists>m \<in> set (db_mappings (pc_db d)). row_id m = row_id m' \<and> sm_suspended m"
  using assms
proof (induction arbitrary: m' rule: process_run.induct)
  case (pr_step as d d' a d'')
  have "keys_ok (pc_db d')"
    using pr_step(1,4)
  proof (induction rule: process_run.induct)
    case (pr_step as d d' a d'')
    then show ?case using step_rows [OF pr_step(2)] by blast
  qed
  from step_suspended [OF pr_step(2) this pr_step(5,6)] obtain m1 where
    m1: "m1 \<in> set (db_mappings (pc_db d'))" "row_id m1 = row_id m'" "sm_suspended m1" by blast
  from pr_step(3) [OF pr_step(4) m1(1,3)] m1(2) show ?case by auto
qed auto

text \<open>
  An attempt on another tenant's prediction goes unseen. The handler of the exceptions
  writes an event for every attempt on another tenant's resource, as reading another tenant's
  connection shows; but the route that records an outcome turns the exception into its own 404
  first: the caller sees the same answer, and nothing is written.
\<close>

theorem attempt_on_outcome_goes_unseen:
  assumes "get_tenant_context dec s now (ht_request h) = Inr b" and "ht_audit_up h"
    and "scope_value PREDICTION_EXECUTE \<in> tc_scopes (bc_context b)" "scope_value CONNECTION_MANAGE \<in> tc_scopes (bc_context b)"
    and "u \<in> set (db_results (pc_db d))" "row_tenant u \<noteq> Some (tc_tenant (bc_context b))"
    and "cn \<in> set (db_connections (pc_db d))" "row_tenant cn \<noteq> Some (tc_tenant (bc_context b))" and "keys_ok (pc_db d)"
  shows "call_api dec s now h v (RecordOutcome (row_id u) label fresh) d = (Problem 404, d) \<and>
    (\<exists>ev. call_api dec s now h v (GetConnection (row_id cn)) d = (Problem 404, d\<lparr>pc_db := audit_record ev (pc_db d)\<rparr>) \<and>
      ae_action ev = ''tenant.cross_tenant_access_attempt'' \<and> ae_tenant ev = Some (bc_request_tenant b))"
proof -
  have foreign: "repo_require t (row_id r) (bc_context b) = Inl TenantMismatchError"
    if "r \<in> set t" "distinct (map row_id t)" "row_tenant r \<noteq> Some (tc_tenant (bc_context b))" for r :: "'z tenant_row_scheme" and t
    using session_get_distinct [OF that(2,1)] that(3) by (simp add: repo_require_def repo_get_def)
  have u: "repo_require (db_results (pc_db d)) (row_id u) (bc_context b) = Inl TenantMismatchError"
    and cn: "repo_require (db_connections (pc_db d)) (row_id cn) (bc_context b) = Inl TenantMismatchError"
    using assms by (auto intro: foreign simp: keys_ok_def)
  show ?thesis using assms(1-4) u cn
    by (intro conjI exI [of _ "denied_event (Some (bc_request_tenant b)) None (req_correlation (ht_request h))
        ''tenant.cross_tenant_access_attempt'' [(''path'', JStr (ht_path h))]"])
      (simp_all add: call_api_def respond_def route_defs guard_defs require_scope_iff on_db_def from_db_def record_outcome_def
        get_connection_def catch_def outcome_caught_def uncaught_def handle_exception_def process_session_def denied_event_def
        Let_def)
qed

lemma same_plane_log: "same_plane a b \<Longrightarrow> audit_log b = audit_log a"
proof -
  assume "same_plane a b"
  then have "audit_log b = audit_log (a\<lparr>db_pools := db_pools b\<rparr>)" by (subst (1) same_plane_def [THEN iffD1]) auto
  then show ?thesis by simp
qed

lemma extract_batch_logs:
  assumes "extract_batch env c ctx reference pt db = (Inr x, db')"
  shows "\<exists>es. audit_log db' = audit_log db @ es \<and> es \<noteq> []"
proof -
  have eng: "audit_log db1 = audit_log db" if "get_or_create_engine i ctx db = (r, db1)" for i r db1
    using same_plane_log [OF same_plane_engine [of db i ctx]] that by simp
  have fs: "audit_log db2 = audit_log db1"
    if "extract_features env row related ctx pt fs z db1 = (r, db2)" for row related fs z db1 r db2
    using same_plane_log [OF same_plane_features [of db1 env row related ctx pt fs z]] that by simp
  from assms show ?thesis
    by (auto simp: extract_batch_def attempt_def audit_record_def Let_def split: sum.splits prod.splits option.splits
        dest!: eng fs)
qed

text \<open>
  Extracting features leaves no event. The extraction service records every extraction, but
  its route never commits: after an extraction that was answered with a batch, the audit trail and
  all tables are as before, although the service had written its event.
\<close>

theorem extraction_leaves_no_event:
  assumes "call_api dec s now h v (ExtractFeatures task reference pt) d = (Reply st x, d')"
  shows "durable d' = durable d \<and> audit_log (pc_db d') = audit_log (pc_db d) \<and>
    (\<exists>b batch db. get_tenant_context dec s now (ht_request h) = Inr b \<and> x = BatchBody batch \<and>
      extract_batch (extract_env.truncate (av_predict v)) delivery_delay_risk_contract (bc_context b) reference pt (pc_db d) = (Inr batch, db) \<and>
      audit_log db \<noteq> audit_log (pc_db d))"
  using assms
proof (rule answered_call)
  fix b dd
  assume "ro_commits (route_of v (ExtractFeatures task reference pt))"
  then show ?thesis by (simp add: route_defs)
next
  fix b dd
  assume b: "get_tenant_context dec s now (ht_request h) = Inr b"
    and body: "ro_body (route_of v (ExtractFeatures task reference pt)) (bc_context b) d = (Inr x, dd)"
    and same: "durable d' = durable d" "audit_log (pc_db d') = audit_log (pc_db d)"
  from body obtain batch db where e: "extract_batch (extract_env.truncate (av_predict v)) delivery_delay_risk_contract (bc_context b) reference pt (pc_db d) = (Inr batch, db)"
      and x: "x = BatchBody batch"
    by (auto simp: route_defs get_contract_def split: if_splits dest!: on_db_Inr)
  from extract_batch_logs [OF e] have "audit_log db \<noteq> audit_log (pc_db d)" by auto
  with b e x same show ?thesis by blast
qed

subsection \<open>Examples\<close>

definition sample_http :: "uuid \<Rightarrow> scope_name list \<Rightarrow> (payload \<times> string \<times> string) http" where
  "sample_http t scopes =
     \<lparr>ht_request = \<lparr>req_headers = [],
        req_bearer = Some (build_signed_token sample_enc sample_settings t 10 [] (map scope_value scopes) HUMAN (Some 900) None None 1000 ''j''),
        req_correlation = None\<rparr>, ht_path = ''/v1'', ht_audit_up = True\<rparr>"

definition sample_bound :: "uuid \<Rightarrow> scope_name list \<Rightarrow> bound_context" where
  "sample_bound t scopes =
     \<lparr>bc_context = \<lparr>tc_tenant = t, tc_principal = 10, tc_roles = {}, tc_scopes = set (map scope_value scopes),
        tc_correlation = None, tc_principal_type = ''human''\<rparr>, bc_rls_tenant = t, bc_request_tenant = t\<rparr>"

lemma sample_caller: "get_tenant_context sample_dec sample_settings 1500 (ht_request (sample_http t scopes)) = Inr (sample_bound t scopes)"
proof -
  have t: "(1000::int) \<le> 1500 + set_jwt_leeway sample_settings" "1500 - set_jwt_leeway sample_settings < 1000 + (900::int)"
    by (simp_all add: sample_settings_def)
  show ?thesis
    using verify_signed_token [OF sample_jwt_contract t]
    by (simp add: get_tenant_context_def get_bearer_token_def sample_http_def context_of_claims_def sample_bound_def Let_def)
qed

definition sample_api_env :: "nat api_env" where
  "sample_api_env = \<lparr>av_now = 9, av_probe = (\<lambda>_. None), av_discovery = sample_env, av_predict = sample_predict_env\<rparr>"

definition sample_process :: "pred_db \<Rightarrow> nat process" where
  "sample_process db = \<lparr>pc_db = db, pc_loader = new_loader, pc_jobs = []\<rparr>"

abbreviation "sample_call t scopes c d \<equiv> call_api sample_dec sample_settings 1500 (sample_http t scopes) sample_api_env c d"

theorem calls_need_their_scope_witness:
  "\<exists>ev. sample_call 1 [] ListConnections (sample_process pred_db1) =
      (Problem 403, (sample_process pred_db1)\<lparr>pc_db := audit_record ev (pc_db (sample_process pred_db1))\<rparr>) \<and>
    ae_tenant ev = Some 1 \<and> ae_action ev = ''authz.check'' \<and> ae_outcome ev = DENIED"
  using calls_need_their_scope [of sample_dec sample_settings 1500 "sample_http 1 []" sample_api_env ListConnections
      "sample_process pred_db1" _ _ "sample_bound 1 []"] sample_caller [of 1 "[]"]
  by (simp add: sample_bound_def sample_http_def)

definition lost_trip :: "nat api_env" where
  "lost_trip = sample_api_env\<lparr>av_predict := sample_predict_env\<lparr>xe_query := (\<lambda>_ _. Inr [])\<rparr>\<rparr>"

definition after_failure :: "nat process" where
  "after_failure = snd (call_api sample_dec sample_settings 1500 (sample_http 1 [PREDICTION_EXECUTE]) lost_trip
     (PredictDelay ''v1'' 5 (Some ''k'') 70 80) (sample_process pred_db1))"

lemma failed_prediction:
  "call_api sample_dec sample_settings 1500 (sample_http 1 [PREDICTION_EXECUTE]) lost_trip
     (PredictDelay ''v1'' 5 (Some ''k'') 70 80) (sample_process pred_db1) = (Problem 404, after_failure)"
proof -
  have "(case fst (call_api sample_dec sample_settings 1500 (sample_http 1 [PREDICTION_EXECUTE]) lost_trip
     (PredictDelay ''v1'' 5 (Some ''k'') 70 80) (sample_process pred_db1)) of Problem n \<Rightarrow> n | Reply _ _ \<Rightarrow> 0) = 404"
    by code_simp
  then show ?thesis unfolding after_failure_def by (simp split: reply.splits) (metis prod.collapse)
qed

theorem failed_calls_leave_no_trace_witness:
  "durable after_failure = durable (sample_process pred_db1)"
  using failed_calls_leave_no_trace [OF failed_prediction] by simp

theorem failed_predictions_are_never_counted_witness:
  "ts_failed (tenant_summary sample_ctx (pc_db after_failure)) = 0"
proof -
  have "process_run sample_dec sample_settings ([] @ [caller_of sample_dec sample_settings 1500 (sample_http 1 [PREDICTION_EXECUTE])])
      (sample_process pred_db1) after_failure"
    unfolding after_failure_def by (intro pr_step [OF pr_refl] ps_call)
  moreover have "db_requests pred_db1 = []" by code_simp
  then have "\<forall>q \<in> set (db_requests (pc_db (sample_process pred_db1))). pq_status q \<noteq> PS_FAILED" by (simp add: sample_process_def)
  ultimately show ?thesis by (rule failed_predictions_are_never_counted)
qed

lemma pred_db1_keys: "keys_ok pred_db1"
  unfolding keys_ok_def by code_simp

definition after_prediction :: "nat process" where
  "after_prediction = snd (sample_call 1 [PREDICTION_EXECUTE] (PredictDelay ''v1'' 5 (Some ''k'') 70 80) (sample_process pred_db1))"

theorem processes_isolate_tenants_witness:
  "map row_id (db_results (pc_db after_prediction)) = [80] \<and> keys_ok (pc_db after_prediction) \<and>
   tenant_rows 2 (pc_db after_prediction) = tenant_rows 2 pred_db1"
proof -
  have "caller_of sample_dec sample_settings 1500 (sample_http 1 [PREDICTION_EXECUTE]) = Some 1"
    by (simp add: caller_of_def sample_caller sample_bound_def)
  moreover have "process_run sample_dec sample_settings ([] @ [caller_of sample_dec sample_settings 1500 (sample_http 1 [PREDICTION_EXECUTE])])
      (sample_process pred_db1) after_prediction"
    unfolding after_prediction_def by (intro pr_step [OF pr_refl] ps_call)
  moreover have "map row_id (db_results (pc_db after_prediction)) = [80]" by code_simp
  ultimately show ?thesis
    using processes_isolate_tenants [of sample_dec sample_settings _ "sample_process pred_db1" after_prediction 2] pred_db1_keys
    by (simp add: sample_process_def)
qed

definition approved_process :: "nat process" where
  "approved_process = sample_process (reg_db.extend (map_db.extend map_db3 \<lparr>db_models = [], db_adapters = [], db_aliases = []\<rparr>)
     \<lparr>db_tasks = [], db_requests = [], db_results = [], db_outcomes = []\<rparr>)"

theorem only_admins_activate_mappings_witness:
  "\<exists>m. db_mappings (pc_db (snd (sample_call 1 [TENANT_ADMIN] (ActivateMapping 80) approved_process))) = [m] \<and>
     sm_state m = M_ACTIVE \<and> row_id m = 80 \<and> row_tenant m = Some 1"
proof -
  let ?r = "sample_call 1 [TENANT_ADMIN] (ActivateMapping 80) approved_process"
  have "map sm_state (db_mappings (pc_db (snd ?r))) = [M_ACTIVE]" by code_simp
  then obtain m where m: "db_mappings (pc_db (snd ?r)) = [m]" "sm_state m = M_ACTIVE" by (cases "db_mappings (pc_db (snd ?r))") auto
  have "map sm_state (db_mappings (pc_db approved_process)) = [M_APPROVED]" by code_simp
  with m(2) have new: "m \<notin> set (db_mappings (pc_db approved_process))" by (auto simp: map_eq_Cons_conv)
  have keys: "keys_ok (pc_db approved_process)" unfolding keys_ok_def by code_simp
  obtain r d' where r: "?r = (r, d')" by (cases ?r)
  with m have "m \<in> set (db_mappings (pc_db d'))" by simp
  from only_admins_activate_mappings [OF r keys this new m(2)] m sample_caller [of 1 "[TENANT_ADMIN]"]
  show ?thesis by (intro exI [of _ m]) (auto simp: sample_bound_def)
qed

definition suspended_process :: "nat process" where
  "suspended_process = sample_process (pred_db1\<lparr>db_mappings := map (\<lambda>m. m\<lparr>sm_suspended := True\<rparr>) (db_mappings pred_db1)\<rparr>)"

theorem drift_never_suspends_in_service_witness:
  "\<exists>m. db_mappings (pc_db suspended_process) = [m] \<and> sm_suspended m \<and>
    db_mappings (pc_db (run_job sample_env suspended_process)) = [m]"
proof -
  have "map sm_suspended (db_mappings (pc_db suspended_process)) = [True]" by code_simp
  then obtain m where m: "db_mappings (pc_db suspended_process) = [m]" "sm_suspended m"
    by (cases "db_mappings (pc_db suspended_process)") auto
  have same: "run_job sample_env suspended_process = suspended_process"
    by (simp add: run_job_def suspended_process_def sample_process_def)
  have run: "process_run sample_dec sample_settings ([] @ [job_owner suspended_process]) suspended_process (run_job sample_env suspended_process)"
    by (intro pr_step [OF pr_refl] ps_job)
  have keys: "keys_ok (pc_db suspended_process)" unfolding keys_ok_def by code_simp
  from drift_never_suspends_in_service [OF run keys, of m] m same show ?thesis by auto
qed

theorem attempt_on_outcome_goes_unseen_witness:
  "sample_call 2 [PREDICTION_EXECUTE, CONNECTION_MANAGE] (RecordOutcome 80 True 90) (sample_process (fst pred_state2)) =
     (Problem 404, sample_process (fst pred_state2)) \<and>
   (\<exists>ev d'. sample_call 2 [PREDICTION_EXECUTE, CONNECTION_MANAGE] (GetConnection 60) (sample_process (fst pred_state2)) = (Problem 404, d') \<and>
     audit_log (pc_db d') = audit_log (fst pred_state2) @ [ev] \<and> ae_tenant ev = Some 2)"
proof -
  have "map (\<lambda>u. (row_id u, row_tenant u)) (db_results (fst pred_state2)) = [(80, Some 1)]" by code_simp
  then obtain u where u: "u \<in> set (db_results (fst pred_state2))" "row_id u = 80" "row_tenant u = Some 1"
    by (cases "db_results (fst pred_state2)") auto
  have "map (\<lambda>u. (row_id u, row_tenant u)) (db_connections (fst pred_state2)) = [(60, Some 1)]" by code_simp
  then obtain c where c: "c \<in> set (db_connections (fst pred_state2))" "row_id c = 60" "row_tenant c = Some 1"
    by (cases "db_connections (fst pred_state2)") auto
  have keys: "keys_ok (fst pred_state2)" unfolding keys_ok_def by code_simp
  from attempt_on_outcome_goes_unseen [OF sample_caller, of 2 "[PREDICTION_EXECUTE, CONNECTION_MANAGE]" u "sample_process (fst pred_state2)" c
      sample_api_env True 90] u c keys
  show ?thesis by (auto simp: sample_bound_def sample_http_def sample_process_def audit_record_def)
qed

theorem extraction_leaves_no_event_witness:
  "\<exists>x d'. sample_call 1 [PREDICTION_EXECUTE] (ExtractFeatures (fc_task delivery_delay_risk_contract) ''v1'' 5) (sample_process pred_db1) =
      (Reply 200 x, d') \<and> audit_log (pc_db d') = audit_log pred_db1"
proof -
  let ?r = "sample_call 1 [PREDICTION_EXECUTE] (ExtractFeatures (fc_task delivery_delay_risk_contract) ''v1'' 5) (sample_process pred_db1)"
  have "(case fst ?r of Reply n _ \<Rightarrow> n | Problem _ \<Rightarrow> 0) = 200" by code_simp
  then obtain x d' where r: "?r = (Reply 200 x, d')" by (cases ?r; cases "fst ?r") auto
  from extraction_leaves_no_event [OF r] r show ?thesis by (intro exI [of _ x] exI [of _ d']) (simp add: sample_process_def)
qed

end
