(* ===== verification/Training.thy ===== *)
theory Training
  imports Inference
begin

section \<open>Training, comparison and promotion of models\<close>

text \<open>
  \<open>hermes_rpt/models/{config,dataset_adapter,baselines,metrics,training,comparison}.py\<close>,
  \<open>models/transformer/training.py\<close> and the two tasks of \<open>apps/trainer/main.py\<close> that train and
  promote. Parameters are what scikit-learn, torch and MLflow do: fitting (an operation of the
  world that gives a handle), the probabilities of a fitted model, the metrics, and logging a
  model, which gives the id of its run. NaN is none, floats are exact rationals, and the draws of
  numpy's generator for a fixed seed are a sequence of numbers.
\<close>

subsection \<open>Configuration\<close>

datatype baseline_model_type = LOGISTIC_REGRESSION | GRADIENT_BOOSTED_TREES | MLP

fun model_type_value :: "baseline_model_type \<Rightarrow> string" where
  "model_type_value LOGISTIC_REGRESSION = ''logistic_regression''"
| "model_type_value GRADIENT_BOOSTED_TREES = ''gradient_boosted_trees''"
| "model_type_value MLP = ''mlp''"

definition baseline_model_types :: "baseline_model_type list" where
  "baseline_model_types = [LOGISTIC_REGRESSION, GRADIENT_BOOSTED_TREES, MLP]"

datatype threshold_strategy = FIXED | MAX_F1

fun strategy_value :: "threshold_strategy \<Rightarrow> string" where
  "strategy_value FIXED = ''fixed''"
| "strategy_value MAX_F1 = ''max_f1''"

record training_config =
  tg_type :: baseline_model_type
  tg_seed :: int
  tg_strategy :: threshold_strategy
  tg_value :: rat
  tg_hyper :: "(string, pyval) dict"

definition default_training :: "baseline_model_type \<Rightarrow> training_config" where
  "default_training t = \<lparr>tg_type = t, tg_seed = 42, tg_strategy = MAX_F1, tg_value = 1 / 2, tg_hyper = []\<rparr>"

subsection \<open>Feature matrices\<close>

type_synonym matrix = "rat option list list"

definition feature_cell :: "conv \<Rightarrow> dataset_row \<Rightarrow> string \<Rightarrow> exn + rat option" where
  "feature_cell cv row n =
     (case row_get (dr_features row) n of PNone \<Rightarrow> Inr None | v \<Rightarrow> rbind (py_float cv v) (\<lambda>q. Inr (Some q)))"

definition build_feature_matrix :: "conv \<Rightarrow> string list \<Rightarrow> dataset_row list \<Rightarrow> exn + matrix \<times> int list" where
  "build_feature_matrix cv names rows =
     rbind (mapM_r (\<lambda>row. mapM_r (feature_cell cv row) names) rows) (\<lambda>x. Inr (x, map dr_label rows))"

subsection \<open>The baselines\<close>

definition typed_hyperparameters :: "training_config \<Rightarrow> string list \<Rightarrow> (string, pyval) dict" where
  "typed_hyperparameters cfg allowed = filter (\<lambda>kv. fst kv \<in> set allowed) (tg_hyper cfg)"

text \<open>A baseline that is built but not fitted: what its estimator is made with.\<close>

datatype baseline =
    LogisticRegressionBaseline int "(string, pyval) dict"
  | GradientBoostedTreesBaseline int "(string, pyval) dict"
  | MLPBaseline int "int list"

definition parse_int :: "conv \<Rightarrow> string \<Rightarrow> exn + int" where
  "parse_int cv s = (case cv_int cv s of None \<Rightarrow> Inl (ValueError ''invalid literal for int()'') | Some i \<Rightarrow> Inr i)"

definition hidden_layer_sizes :: "conv \<Rightarrow> (pyval \<Rightarrow> string) \<Rightarrow> training_config \<Rightarrow> exn + int list" where
  "hidden_layer_sizes cv str cfg =
     mapM_r (parse_int cv) (split_on (CHR '','')
       (case dict_get (tg_hyper cfg) ''hidden_layer_sizes'' of None \<Rightarrow> ''32,16'' | Some v \<Rightarrow> str v))"

definition build_baseline :: "conv \<Rightarrow> (pyval \<Rightarrow> string) \<Rightarrow> training_config \<Rightarrow> exn + baseline" where
  "build_baseline cv str cfg =
     (case tg_type cfg of
        LOGISTIC_REGRESSION \<Rightarrow>
          Inr (LogisticRegressionBaseline (tg_seed cfg) (typed_hyperparameters cfg [''C'', ''penalty'', ''solver'']))
      | GRADIENT_BOOSTED_TREES \<Rightarrow>
          Inr (GradientBoostedTreesBaseline (tg_seed cfg)
            (typed_hyperparameters cfg [''max_iter'', ''max_depth'', ''learning_rate'', ''l2_regularization'']))
      | MLP \<Rightarrow> rbind (hidden_layer_sizes cv str cfg) (\<lambda>sizes. Inr (MLPBaseline (tg_seed cfg) sizes)))"

text \<open>
  The guard against degenerate columns. The generator is the sequence of its draws and the
  number of those already taken.
\<close>

definition normal :: "(nat \<Rightarrow> rat) \<Rightarrow> nat \<Rightarrow> nat \<Rightarrow> rat list \<times> nat" where
  "normal draw n k = (map draw [k..<k + n], k + n)"

fun add_to_present :: "rat option list \<Rightarrow> rat list \<Rightarrow> rat option list" where
  "add_to_present (Some v # vs) (n # ns) = Some (v + n) # add_to_present vs ns"
| "add_to_present (None # vs) ns = None # add_to_present vs ns"
| "add_to_present vs ns = vs"

definition present :: "rat option list \<Rightarrow> rat list" where
  "present col = map the (filter (\<lambda>v. v \<noteq> None) col)"

definition break_column :: "(nat \<Rightarrow> rat) \<Rightarrow> rat option list \<Rightarrow> nat \<Rightarrow> rat option list \<times> nat" where
  "break_column draw col k =
     (if present col = []
      then (let seed_count = min 2 (length col)
            in case normal draw seed_count k of (ns, k') \<Rightarrow> (map Some ns @ drop seed_count col, k'))
      else if length (remdups (present col)) < 2
      then (case normal draw (length (present col)) k of (ns, k') \<Rightarrow> (add_to_present col ns, k'))
      else (col, k))"

fun break_columns :: "(nat \<Rightarrow> rat) \<Rightarrow> rat option list list \<Rightarrow> nat \<Rightarrow> rat option list list" where
  "break_columns draw [] k = []"
| "break_columns draw (col # cols) k =
     (case break_column draw col k of (col', k') \<Rightarrow> col' # break_columns draw cols k')"

definition column :: "matrix \<Rightarrow> nat \<Rightarrow> rat option list" where
  "column x j = map (\<lambda>row. row ! j) x"

definition break_degenerate_columns :: "(nat \<Rightarrow> rat) \<Rightarrow> nat \<Rightarrow> matrix \<Rightarrow> matrix" where
  "break_degenerate_columns draw width x =
     (let cols = break_columns draw (map (column x) [0..<width]) 0
      in map (\<lambda>i. map (\<lambda>col. col ! i) cols) [0..<length x])"

subsection \<open>Metrics and thresholds\<close>

text \<open>What scikit-learn answers, for labels and predictions or for labels and probabilities.\<close>

record sk_metrics =
  sk_f1 :: "int list \<Rightarrow> int list \<Rightarrow> exn + rat"
  sk_precision :: "int list \<Rightarrow> int list \<Rightarrow> exn + rat"
  sk_recall :: "int list \<Rightarrow> int list \<Rightarrow> exn + rat"
  sk_confusion :: "int list \<Rightarrow> int list \<Rightarrow> exn + nat \<times> nat \<times> nat \<times> nat"
  sk_roc_auc :: "int list \<Rightarrow> rat list \<Rightarrow> exn + rat"
  sk_pr_auc :: "int list \<Rightarrow> rat list \<Rightarrow> exn + rat"
  sk_brier :: "int list \<Rightarrow> rat list \<Rightarrow> exn + rat"
  sk_calibration :: "int list \<Rightarrow> rat list \<Rightarrow> exn + rat list \<times> rat list"

definition predicted_at :: "rat \<Rightarrow> rat list \<Rightarrow> int list" where
  "predicted_at t proba = map (\<lambda>p. if p \<ge> t then 1 else 0) proba"

fun threshold_loop :: "sk_metrics \<Rightarrow> int list \<Rightarrow> rat list \<Rightarrow> rat list \<Rightarrow> rat \<Rightarrow> rat \<Rightarrow> exn + rat" where
  "threshold_loop sk y proba [] best_t best_f1 = Inr best_t"
| "threshold_loop sk y proba (c # cs) best_t best_f1 =
     rbind (sk_f1 sk y (predicted_at c proba)) (\<lambda>score.
       if score > best_f1 then threshold_loop sk y proba cs c score
       else threshold_loop sk y proba cs best_t best_f1)"

definition select_threshold :: "sk_metrics \<Rightarrow> int list \<Rightarrow> rat list \<Rightarrow> string \<Rightarrow> rat \<Rightarrow> exn + rat" where
  "select_threshold sk y proba strategy fixed_value =
     (if strategy = ''fixed'' then Inr fixed_value
      else if strategy \<noteq> ''max_f1'' then Inl (ValueError ''Unknown threshold strategy'')
      else (case remdups (sort proba) of
              [] \<Rightarrow> Inr fixed_value
            | c # cs \<Rightarrow> threshold_loop sk y proba (c # cs) c (- 1)))"

record evaluation_metrics =
  em_threshold :: rat
  em_roc_auc :: rat
  em_pr_auc :: rat
  em_precision :: rat
  em_recall :: rat
  em_f1 :: rat
  em_brier :: rat
  em_confusion :: "nat \<times> nat \<times> nat \<times> nat"
  em_calibration :: "(rat \<times> rat) list"

definition compute_metrics :: "sk_metrics \<Rightarrow> int list \<Rightarrow> rat list \<Rightarrow> rat \<Rightarrow> exn + evaluation_metrics" where
  "compute_metrics sk y proba t =
     (let predicted = predicted_at t proba; both = length (remdups y) > 1
      in rbind (if both then sk_roc_auc sk y proba else Inr 0) (\<lambda>roc.
         rbind (if both then sk_pr_auc sk y proba else Inr 0) (\<lambda>pr.
         rbind (sk_confusion sk y predicted) (\<lambda>confusion.
         rbind (if both
                then rbind (sk_calibration sk y proba) (\<lambda>(observed, prob).
                  if length prob = length observed then Inr (zip prob observed) else Inl (ValueError ''zip() argument 2''))
                else Inr []) (\<lambda>bins.
         rbind (sk_precision sk y predicted) (\<lambda>precision.
         rbind (sk_recall sk y predicted) (\<lambda>recall.
         rbind (sk_f1 sk y predicted) (\<lambda>f1.
         rbind (sk_brier sk y proba) (\<lambda>brier.
           Inr \<lparr>em_threshold = t, em_roc_auc = roc, em_pr_auc = pr, em_precision = precision, em_recall = recall, em_f1 = f1,
             em_brier = brier, em_confusion = confusion, em_calibration = bins\<rparr>)))))))))"

subsection \<open>Training and registering\<close>

record training_result =
  tr_type :: string
  tr_metrics :: evaluation_metrics
  tr_importance :: "(string, rat) dict option"
  tr_run :: string
  tr_model :: uuid
  tr_checksum :: string

text \<open>
  The outside of a training run. Logging covers the parameters, the metrics, the tags and the
  artifact of a run and answers with its id.
\<close>

record 'w training_env =
  tv_conv :: conv
  tv_str :: "pyval \<Rightarrow> string"
  tv_draw :: "nat \<Rightarrow> rat"
  tv_sk :: sk_metrics
  tv_fit :: "baseline \<Rightarrow> matrix \<Rightarrow> int list \<Rightarrow> ('w, nat) operation"
  tv_proba :: "nat \<Rightarrow> matrix \<Rightarrow> exn + rat list"
  tv_coefs :: "nat \<Rightarrow> rat list"
  tv_log :: "nat \<Rightarrow> ('w, string) operation"
  tv_store :: "'w model_store"

definition fit_baseline :: "'w training_env \<Rightarrow> baseline \<Rightarrow> nat \<Rightarrow> matrix \<Rightarrow> int list \<Rightarrow> ('w, nat) operation" where
  "fit_baseline tv b width x y =
     tv_fit tv b (case b of GradientBoostedTreesBaseline _ _ \<Rightarrow> break_degenerate_columns (tv_draw tv) width x | _ \<Rightarrow> x) y"

definition baseline_importance :: "'w training_env \<Rightarrow> baseline \<Rightarrow> nat \<Rightarrow> string list \<Rightarrow> exn + (string, rat) dict option" where
  "baseline_importance tv b h names =
     (case b of
        LogisticRegressionBaseline _ _ \<Rightarrow>
          if length (tv_coefs tv h) \<noteq> length names then Inl (ValueError ''zip() argument 2'')
          else Inr (Some (dict_of (zip names (tv_coefs tv h))))
      | _ \<Rightarrow> Inr None)"

definition evaluate_model ::
  "sk_metrics \<Rightarrow> string \<Rightarrow> rat \<Rightarrow> int list \<Rightarrow> exn + rat list \<Rightarrow> int list \<Rightarrow> exn + rat list \<Rightarrow> exn + evaluation_metrics" where
  "evaluate_model sk strategy fixed_value y_val val_proba y_test test_proba =
     rbind val_proba (\<lambda>pv.
     rbind (select_threshold sk y_val pv strategy fixed_value) (\<lambda>t.
     rbind test_proba (\<lambda>pt. compute_metrics sk y_test pt t)))"

text \<open>
  Publishing a run: log it, hash what was stored, register the model. The row is made from the
  id of the run and the checksum; a name is known before.
\<close>

definition publish_model ::
  "'w model_store \<Rightarrow> ('w, string) operation \<Rightarrow> string \<Rightarrow> (string \<Rightarrow> string \<Rightarrow> model_version) \<Rightarrow>
   'z reg_db_scheme \<times> 'w \<Rightarrow> (exn + string \<times> string \<times> model_version) \<times> ('z reg_db_scheme \<times> 'w)" where
  "publish_model st log_run path row dbw =
     (case dbw of (db, w) \<Rightarrow>
      case log_run w of
        (Inl e, w1) \<Rightarrow> (Inl e, (db, w1))
      | (Inr run, w1) \<Rightarrow>
          (case compute_artifact_checksum st (''runs:/'' @ run @ ''/'' @ path) w1 of
             (Inl e, w2) \<Rightarrow> (Inl e, (db, w2))
           | (Inr digest_sum, w2) \<Rightarrow>
               (case register_candidate (row run digest_sum) db of
                  (Inl e, db') \<Rightarrow> (Inl e, (db', w2))
                | (Inr m, db') \<Rightarrow> (Inr (run, digest_sum, m), (db', w2)))))"

definition trained_row ::
  "uuid \<Rightarrow> uuid option \<Rightarrow> string \<Rightarrow> uuid \<Rightarrow> string \<Rightarrow> string \<Rightarrow> string \<Rightarrow> string \<Rightarrow> string \<Rightarrow> model_version" where
  "trained_row fresh tenant name task onto version path run digest_sum =
     \<lparr>row_id = fresh, row_tenant = tenant, mo_name = name, mo_label = take 12 run, mo_task = task, mo_stage = CANDIDATE,
       mo_uri = ''runs:/'' @ run @ ''/'' @ path, mo_checksum = digest_sum, mo_run = Some run, mo_ontology = onto,
       mo_contract = version, mo_live = True\<rparr>"

definition require_task :: "string \<Rightarrow> 'z pred_db_scheme \<Rightarrow> exn + task_definition" where
  "require_task key db =
     rbind (get_by_task_key key db) (\<lambda>t. case t of
       None \<Rightarrow> Inl (ValueError ''No PredictionTaskDefinition registered'') | Some td \<Rightarrow> Inr td)"

definition train_baseline ::
  "'w training_env \<Rightarrow> feature_contract \<Rightarrow> training_config \<Rightarrow> tenant_context option \<Rightarrow> uuid \<Rightarrow> built_dataset \<Rightarrow>
   'z pred_db_scheme \<times> 'w \<Rightarrow> (exn + training_result) \<times> ('z pred_db_scheme \<times> 'w)" where
  "train_baseline tv contract cfg caller fresh bd dbw =
     (case dbw of (db, w) \<Rightarrow>
      let names = map fs_name (fc_features contract); matrix_of = build_feature_matrix (tv_conv tv) names; dl = dm_lineage (bd_manifest bd)
      in attempt (matrix_of (sl_train (bd_splits bd))) dbw (\<lambda>(x, y).
         attempt (matrix_of (sl_validation (bd_splits bd))) dbw (\<lambda>(x_val, y_val).
         attempt (matrix_of (sl_test (bd_splits bd))) dbw (\<lambda>(x_test, y_test).
         attempt (build_baseline (tv_conv tv) (tv_str tv) cfg) dbw (\<lambda>b.
         (case fit_baseline tv b (length names) x y w of
            (Inl e, w1) \<Rightarrow> (Inl e, (db, w1))
          | (Inr h, w1) \<Rightarrow>
              attempt (evaluate_model (tv_sk tv) (strategy_value (tg_strategy cfg)) (tg_value cfg)
                y_val (tv_proba tv h x_val) y_test (tv_proba tv h x_test)) (db, w1) (\<lambda>metrics.
              attempt (baseline_importance tv b h names) (db, w1) (\<lambda>importance.
              attempt (require_task (fc_task contract) db) (db, w1) (\<lambda>td.
              (case publish_model (tv_store tv) (tv_log tv h) ''model''
                  (trained_row fresh (map_option tc_tenant caller) (fc_task contract @ ''-'' @ model_type_value (tg_type cfg))
                    (row_id td) (dl_ontology dl) (fc_version contract) ''model'') (db, w1) of
                 (Inl e, s) \<Rightarrow> (Inl e, s)
               | (Inr (run, digest_sum, m), s) \<Rightarrow>
                   (Inr \<lparr>tr_type = model_type_value (tg_type cfg), tr_metrics = metrics, tr_importance = importance,
                      tr_run = run, tr_model = row_id m, tr_checksum = digest_sum\<rparr>, s)))))))))))"

subsection \<open>The transformer\<close>

record hermes_config =
  hc_name :: string
  hc_vocab :: int
  hc_records :: nat

definition tiny :: hermes_config where
  "tiny = \<lparr>hc_name = ''tiny'', hc_vocab = 1024, hc_records = 4\<rparr>"

text \<open>Every example of a split, and the batch with its labels; building may open an engine, so the control plane is threaded.\<close>

fun build_examples ::
  "context_env \<Rightarrow> dataset_row list \<Rightarrow> tenant_context \<Rightarrow> nat \<Rightarrow> 'z map_db_scheme \<Rightarrow>
   (exn + relational_example list) \<times> 'z map_db_scheme" where
  "build_examples env [] ctx k db = (Inr [], db)"
| "build_examples env (row # rows) ctx k db =
     (case build_example env (dr_reference row) (dr_time row) (Some (dr_label row)) ctx k db of
        (Inl e, db1) \<Rightarrow> (Inl e, db1)
      | (Inr x, db1) \<Rightarrow>
          (case build_examples env rows ctx k db1 of
             (Inl e, db2) \<Rightarrow> (Inl e, db2)
           | (Inr xs, db2) \<Rightarrow> (Inr (x # xs), db2)))"

record encoded_batch =
  eb_examples :: "position list list"
  eb_labels :: "int list option"

definition encode_batch ::
  "conv \<Rightarrow> (pyval \<Rightarrow> string) \<Rightarrow> (string \<Rightarrow> nat) \<Rightarrow> nat \<Rightarrow> int \<Rightarrow> relational_example list \<Rightarrow> exn + encoded_batch" where
  "encode_batch cv str digest k vocab xs =
     rbind (mapM_r (encode_example cv str digest k vocab) xs) (\<lambda>ps.
       Inr \<lparr>eb_examples = ps, eb_labels = (if list_all (\<lambda>x. rx_label x \<noteq> None) xs then Some (map (the \<circ> rx_label) xs) else None)\<rparr>)"

record 'w hermes_env = context_env +
  hv_str :: "pyval \<Rightarrow> string"
  hv_digest :: "string \<Rightarrow> nat"
  hv_sk :: sk_metrics
  hv_fit :: "hermes_config \<Rightarrow> nat option \<Rightarrow> position list list \<Rightarrow> int list \<Rightarrow> ('w, nat) operation"
  hv_proba :: "nat \<Rightarrow> position list list \<Rightarrow> exn + rat list"
  hv_log :: "nat \<Rightarrow> string \<Rightarrow> ('w, string) operation"
  hv_store :: "'w model_store"

definition hermes_model_type :: "hermes_config \<Rightarrow> nat option \<Rightarrow> string" where
  "hermes_model_type hc backbone =
     ''hermes-rpt-0.1-'' @ hc_name hc @ ''-'' @ (if backbone \<noteq> None then ''pretrained'' else ''scratch'')"

definition checkpoint_name :: "hermes_config \<Rightarrow> string" where
  "checkpoint_name hc = ''hermes_rpt_'' @ hc_name hc @ ''.pt''"

definition labels_of :: "encoded_batch \<Rightarrow> exn + int list" where
  "labels_of b = (case eb_labels b of None \<Rightarrow> Inl AssertionError | Some ys \<Rightarrow> Inr ys)"

text \<open>The batches of the three splits, with the labels of the first.\<close>

definition split_batches ::
  "'w hermes_env \<Rightarrow> hermes_config \<Rightarrow> tenant_context \<Rightarrow> built_dataset \<Rightarrow> 'z map_db_scheme \<Rightarrow>
   (exn + encoded_batch \<times> encoded_batch \<times> encoded_batch \<times> int list) \<times> 'z map_db_scheme" where
  "split_batches hv hc ctx bd db0 =
     (let examples = (\<lambda>rows. build_examples (context_env.truncate hv) rows ctx (hc_records hc));
          encode = encode_batch (xe_conv hv) (hv_str hv) (hv_digest hv) (hc_records hc) (hc_vocab hc)
      in case examples (sl_train (bd_splits bd)) db0 of (Inl e, db1) \<Rightarrow> (Inl e, db1) | (Inr train, db1) \<Rightarrow>
         (case examples (sl_validation (bd_splits bd)) db1 of (Inl e, db2) \<Rightarrow> (Inl e, db2) | (Inr val, db2) \<Rightarrow>
         (case examples (sl_test (bd_splits bd)) db2 of (Inl e, db) \<Rightarrow> (Inl e, db) | (Inr test, db) \<Rightarrow>
           (rbind (encode train) (\<lambda>train_batch. rbind (encode val) (\<lambda>val_batch. rbind (encode test) (\<lambda>test_batch.
            rbind (labels_of train_batch) (\<lambda>y. Inr (train_batch, val_batch, test_batch, y))))), db))))"

definition evaluate_batches ::
  "sk_metrics \<Rightarrow> encoded_batch \<Rightarrow> exn + rat list \<Rightarrow> encoded_batch \<Rightarrow> exn + rat list \<Rightarrow> exn + evaluation_metrics" where
  "evaluate_batches sk val_batch val_proba test_batch test_proba =
     rbind val_proba (\<lambda>pv. rbind test_proba (\<lambda>pt.
     rbind (labels_of val_batch) (\<lambda>y_val. rbind (labels_of test_batch) (\<lambda>y_test.
       evaluate_model sk ''max_f1'' (1 / 2) y_val (Inr pv) y_test (Inr pt)))))"

definition train_hermes ::
  "'w hermes_env \<Rightarrow> hermes_config \<Rightarrow> tenant_context \<Rightarrow> string \<Rightarrow> nat option \<Rightarrow> uuid \<Rightarrow> built_dataset \<Rightarrow>
   'z pred_db_scheme \<times> 'w \<Rightarrow> (exn + training_result) \<times> ('z pred_db_scheme \<times> 'w)" where
  "train_hermes hv hc ctx task_key backbone fresh bd dbw =
     (case dbw of (db0, w) \<Rightarrow>
      let dl = dm_lineage (bd_manifest bd); model_type = hermes_model_type hc backbone
      in case split_batches hv hc ctx bd db0 of (Inl e, db) \<Rightarrow> (Inl e, (db, w)) | (Inr (train_batch, val_batch, test_batch, y), db) \<Rightarrow>
         (case hv_fit hv hc backbone (eb_examples train_batch) y w of
            (Inl e, w1) \<Rightarrow> (Inl e, (db, w1))
          | (Inr h, w1) \<Rightarrow>
              attempt (evaluate_batches (hv_sk hv) val_batch (hv_proba hv h (eb_examples val_batch))
                test_batch (hv_proba hv h (eb_examples test_batch))) (db, w1) (\<lambda>metrics.
              attempt (require_task task_key db) (db, w1) (\<lambda>td.
              (case publish_model (hv_store hv) (hv_log hv h (checkpoint_name hc)) (checkpoint_name hc)
                  (trained_row fresh (Some (tc_tenant ctx)) (task_key @ ''-'' @ model_type) (row_id td) (dl_ontology dl)
                    (dl_contract dl) (checkpoint_name hc)) (db, w1) of
                 (Inl e, s) \<Rightarrow> (Inl e, s)
               | (Inr (run, digest_sum, m), s) \<Rightarrow>
                   (Inr \<lparr>tr_type = model_type, tr_metrics = metrics, tr_importance = None, tr_run = run,
                      tr_model = row_id m, tr_checksum = digest_sum\<rparr>, s))))))"

subsection \<open>Comparison and promotion\<close>

record comparison_report =
  cp_results :: "training_result list"
  cp_selected :: string

text \<open>Python's \<open>max\<close> keeps the first of the greatest.\<close>

fun best_result :: "training_result \<Rightarrow> training_result list \<Rightarrow> training_result" where
  "best_result b [] = b"
| "best_result b (r # rs) = best_result (if em_pr_auc (tr_metrics r) > em_pr_auc (tr_metrics b) then r else b) rs"

definition build_comparison_report :: "training_result list \<Rightarrow> exn + comparison_report" where
  "build_comparison_report results =
     (case results of
        [] \<Rightarrow> Inl (ValueError ''Cannot build a comparison report from zero training results'')
      | r # rs \<Rightarrow> Inr \<lparr>cp_results = results, cp_selected = tr_type (best_result r rs)\<rparr>)"

text \<open>A session that is left by an exception is rolled back, so a failed promotion changes nothing; the exception ends the process.\<close>

definition promote :: "uuid \<Rightarrow> 'z reg_db_scheme \<Rightarrow> (exn + unit) \<times> 'z reg_db_scheme" where
  "promote mid db =
     (case transition_stage mid STAGING None db of
        (Inl e, _) \<Rightarrow> (Inl e, db)
      | (Inr _, db1) \<Rightarrow>
          (case transition_stage mid PRODUCTION None db1 of
             (Inl e, _) \<Rightarrow> (Inl e, db)
           | (Inr _, db2) \<Rightarrow> (Inr (), db2)))"

definition promote_if_winner ::
  "bool \<Rightarrow> comparison_report \<Rightarrow> training_result \<Rightarrow> 'z reg_db_scheme \<Rightarrow> (exn + unit) \<times> 'z reg_db_scheme" where
  "promote_if_winner flag report r db =
     (if flag \<and> cp_selected report = tr_type r then promote (tr_model r) db else (Inr (), db))"

text \<open>The three baselines, each committed once it is trained; an exception rolls the last one back.\<close>

fun train_baselines ::
  "'w training_env \<Rightarrow> tenant_context \<Rightarrow> built_dataset \<Rightarrow> (baseline_model_type \<times> uuid) list \<Rightarrow>
   'z pred_db_scheme \<times> 'w \<Rightarrow> (exn + training_result list) \<times> ('z pred_db_scheme \<times> 'w)" where
  "train_baselines tv ctx bd [] dbw = (Inr [], dbw)"
| "train_baselines tv ctx bd ((t, fresh) # todo) dbw =
     (case train_baseline tv delivery_delay_risk_contract (default_training t) (Some ctx) fresh bd dbw of
        (Inl e, (_, w1)) \<Rightarrow> (Inl e, (fst dbw, w1))
      | (Inr r, s1) \<Rightarrow>
          (case train_baselines tv ctx bd todo s1 of
             (Inl e, s2) \<Rightarrow> (Inl e, s2) | (Inr rs, s2) \<Rightarrow> (Inr (r # rs), s2)))"

definition run_hermes_rpt ::
  "bool \<Rightarrow> 'w training_env \<Rightarrow> 'w hermes_env \<Rightarrow> tenant_context \<Rightarrow> built_dataset \<Rightarrow> (baseline_model_type \<Rightarrow> uuid) \<Rightarrow> uuid \<Rightarrow>
   'z pred_db_scheme \<times> 'w \<Rightarrow> (exn + comparison_report) \<times> ('z pred_db_scheme \<times> 'w)" where
  "run_hermes_rpt promote_flag tv hv ctx bd fresh_of fresh dbw =
     (case train_baselines tv ctx bd (map (\<lambda>t. (t, fresh_of t)) baseline_model_types) dbw of
        (Inl e, s) \<Rightarrow> (Inl e, s)
      | (Inr results, s1) \<Rightarrow>
          (case train_hermes hv tiny ctx (fc_task delivery_delay_risk_contract) None fresh bd s1 of
             (Inl e, (_, w2)) \<Rightarrow> (Inl e, (fst s1, w2))
           | (Inr r, (db2, w2)) \<Rightarrow>
               attempt (build_comparison_report (results @ [r])) (db2, w2) (\<lambda>report.
               (case promote_if_winner promote_flag report r db2 of
                  (Inl e, db3) \<Rightarrow> (Inl e, (db3, w2)) | (Inr _, db3) \<Rightarrow> (Inr report, (db3, w2))))))"

subsection \<open>The chosen threshold is the best one\<close>

definition f1_at :: "sk_metrics \<Rightarrow> int list \<Rightarrow> rat list \<Rightarrow> rat \<Rightarrow> exn + rat" where
  "f1_at sk y proba t = sk_f1 sk y (predicted_at t proba)"

lemma threshold_loop_result:
  assumes "threshold_loop sk y proba cs t0 f0 = Inr t" and "sorted cs" and "distinct cs"
  shows "(t = t0 \<and> (\<forall>c \<in> set cs. \<exists>s. f1_at sk y proba c = Inr s \<and> s \<le> f0)) \<or>
    (t \<in> set cs \<and> (\<exists>s. f1_at sk y proba t = Inr s \<and> f0 < s \<and>
      (\<forall>c \<in> set cs. \<exists>s'. f1_at sk y proba c = Inr s' \<and> s' \<le> s \<and> (s' = s \<longrightarrow> t \<le> c))))"
  using assms
proof (induction cs arbitrary: t0 f0)
  case (Cons c cs)
  from Cons.prems(1) obtain s where s: "f1_at sk y proba c = Inr s" by (auto simp: f1_at_def)
  show ?case
  proof (cases "s > f0")
    case True
    with Cons.prems(1) s have "threshold_loop sk y proba cs c s = Inr t" by (simp add: f1_at_def)
    from Cons.IH [OF this] Cons.prems(2,3) consider
        "t = c" "\<forall>c' \<in> set cs. \<exists>s'. f1_at sk y proba c' = Inr s' \<and> s' \<le> s"
      | s1 where "t \<in> set cs" "f1_at sk y proba t = Inr s1" "s < s1"
          "\<forall>c' \<in> set cs. \<exists>s'. f1_at sk y proba c' = Inr s' \<and> s' \<le> s1 \<and> (s' = s1 \<longrightarrow> t \<le> c')"
      by auto
    then show ?thesis
    proof cases
      case 1
      have "\<forall>c' \<in> set (c # cs). \<exists>s'. f1_at sk y proba c' = Inr s' \<and> s' \<le> s \<and> (s' = s \<longrightarrow> c \<le> c')"
        using 1(2) s Cons.prems(2) by auto
      with 1(1) True s show ?thesis by (metis list.set_intros(1))
    next
      case 2
      have "\<forall>c' \<in> set (c # cs). \<exists>s'. f1_at sk y proba c' = Inr s' \<and> s' \<le> s1 \<and> (s' = s1 \<longrightarrow> t \<le> c')"
        using 2(3,4) s by auto
      with 2(1-3) True show ?thesis by (metis list.set_intros(2) less_trans)
    qed
  next
    case False
    with Cons.prems(1) s have "threshold_loop sk y proba cs t0 f0 = Inr t" by (simp add: f1_at_def)
    from Cons.IH [OF this] Cons.prems(2,3) consider
        "t = t0" "\<forall>c' \<in> set cs. \<exists>s'. f1_at sk y proba c' = Inr s' \<and> s' \<le> f0"
      | s1 where "t \<in> set cs" "f1_at sk y proba t = Inr s1" "f0 < s1"
          "\<forall>c' \<in> set cs. \<exists>s'. f1_at sk y proba c' = Inr s' \<and> s' \<le> s1 \<and> (s' = s1 \<longrightarrow> t \<le> c')"
      by auto
    then show ?thesis
    proof cases
      case 1
      with False s show ?thesis by auto
    next
      case 2
      have "\<forall>c' \<in> set (c # cs). \<exists>s'. f1_at sk y proba c' = Inr s' \<and> s' \<le> s1 \<and> (s' = s1 \<longrightarrow> t \<le> c')"
        using 2(3,4) s False by auto
      with 2(1-3) show ?thesis by (metis list.set_intros(2))
    qed
  qed
qed simp

text \<open>Any threshold that some row reaches predicts what the least probability above it predicts.\<close>

lemma predicted_at_candidate:
  assumes "p \<in> set proba" and "q \<le> p"
  shows "\<exists>c \<in> set proba. predicted_at q proba = predicted_at c proba"
proof -
  let ?A = "{x \<in> set proba. q \<le> x}"
  have A: "finite ?A" "?A \<noteq> {}" using assms by auto
  have c: "Min ?A \<in> set proba" "q \<le> Min ?A" using Min_in [OF A] by auto
  have "q \<le> x \<longleftrightarrow> Min ?A \<le> x" if "x \<in> set proba" for x
    using that c(2) Min_le [OF A(1), of x] by (cases "q \<le> x") auto
  then have "predicted_at q proba = predicted_at (Min ?A) proba" by (simp add: predicted_at_def)
  with c(1) show ?thesis by blast
qed

text \<open>
  C37: the chosen threshold is the best one. With the strategy that maximises F1, the threshold is
  one of the validation probabilities; no threshold whatsoever that predicts some row late has
  a greater F1, and among the probabilities with the same F1 it is the least.
\<close>

theorem chosen_threshold_is_best:
  assumes "select_threshold sk y proba (strategy_value MAX_F1) v = Inr t" and "proba \<noteq> []"
    and "\<And>l s. sk_f1 sk y l = Inr s \<Longrightarrow> 0 \<le> s"
  shows "t \<in> set proba \<and> (\<exists>s. sk_f1 sk y (predicted_at t proba) = Inr s \<and>
    (\<forall>p \<in> set proba. \<exists>s'. sk_f1 sk y (predicted_at p proba) = Inr s' \<and> s' \<le> s \<and> (s' = s \<longrightarrow> t \<le> p)) \<and>
    (\<forall>q. (\<exists>p \<in> set proba. q \<le> p) \<longrightarrow> (\<exists>s'. sk_f1 sk y (predicted_at q proba) = Inr s' \<and> s' \<le> s)))"
proof -
  let ?cs = "remdups (sort proba)"
  have "set ?cs = set proba" by simp
  with assms(2) have ne: "?cs \<noteq> []" by (metis list.set(1) set_empty)
  with assms(1) have loop: "threshold_loop sk y proba ?cs (hd ?cs) (- 1) = Inr t"
    by (simp add: select_threshold_def split: list.splits)
  have "\<not> (\<forall>c \<in> set ?cs. \<exists>s. f1_at sk y proba c = Inr s \<and> s \<le> - 1)"
    using assms(2,3) ne by (fastforce simp: f1_at_def neq_Nil_conv)
  with threshold_loop_result [OF loop] obtain s where t: "t \<in> set proba" "f1_at sk y proba t = Inr s"
      and best: "\<forall>c \<in> set proba. \<exists>s'. f1_at sk y proba c = Inr s' \<and> s' \<le> s \<and> (s' = s \<longrightarrow> t \<le> c)"
    by (auto simp: sorted_remdups)
  have "\<exists>s'. f1_at sk y proba q = Inr s' \<and> s' \<le> s" if "p \<in> set proba" "q \<le> p" for p q
    using predicted_at_candidate [OF that] best by (metis f1_at_def)
  with t best show ?thesis unfolding f1_at_def by blast
qed

text \<open>A count of hits in place of the library's F1.\<close>

definition counting_sk :: sk_metrics where
  "counting_sk = \<lparr>sk_f1 = (\<lambda>y l. Inr (of_nat (length (filter (\<lambda>(a, b). a = b) (zip y l))))), sk_precision = (\<lambda>_ _. Inr 0),
     sk_recall = (\<lambda>_ _. Inr 0), sk_confusion = (\<lambda>_ _. Inr (0, 0, 0, 0)), sk_roc_auc = (\<lambda>_ _. Inr 0),
     sk_pr_auc = (\<lambda>_ ps. Inr (sum_list ps)), sk_brier = (\<lambda>_ _. Inr 0), sk_calibration = (\<lambda>_ _. Inr ([], []))\<rparr>"

theorem chosen_threshold_is_best_witness:
  "select_threshold counting_sk [0, 1, 1] [1 / 5, 3 / 5, 2 / 5] (strategy_value MAX_F1) 0 = Inr (2 / 5) \<and>
    (\<exists>s'. sk_f1 counting_sk [0, 1, 1] (predicted_at (1 / 2) [1 / 5, 3 / 5, 2 / 5]) = Inr s' \<and> s' \<le> 3)"
proof -
  have run: "select_threshold counting_sk [0, 1, 1] [1 / 5, 3 / 5, 2 / 5] (strategy_value MAX_F1) 0 = Inr (2 / 5)" by code_simp
  have pos: "\<And>l s. sk_f1 counting_sk [0, 1, 1] l = Inr s \<Longrightarrow> 0 \<le> s" by (auto simp: counting_sk_def)
  have three: "sk_f1 counting_sk [0, 1, 1] (predicted_at (2 / 5) [1 / 5, 3 / 5, 2 / 5]) = Inr 3" by code_simp
  have reached: "\<exists>p \<in> set [1 / 5, 3 / 5, 2 / 5]. 1 / 2 \<le> (p :: rat)" by simp
  from chosen_threshold_is_best [OF run _ pos] three reached show ?thesis using run by fastforce
qed

subsection \<open>What the guard against degenerate columns achieves\<close>

lemma present_simps [simp]:
  "present [] = []" "present (None # col) = present col" "present (Some v # col) = v # present col"
  "present (map Some ns) = ns" "present (xs @ ys) = present xs @ present ys"
  by (induction ns) (simp_all add: present_def)

lemma present_Nil: "present col = [] \<longleftrightarrow> (\<forall>v \<in> set col. v = None)"
  by (auto simp: present_def filter_empty_conv)

lemma length_present_le: "length (present col) \<le> length col"
  by (simp add: present_def)

lemma present_add:
  "length ns = length (present col) \<Longrightarrow> present (add_to_present col ns) = map2 (+) (present col) ns"
  by (induction col ns rule: add_to_present.induct) auto

lemma add_to_present_length [simp]: "length (add_to_present col ns) = length col"
  by (induction col ns rule: add_to_present.induct) auto

lemma add_to_present_None: "i < length col \<Longrightarrow> add_to_present col ns ! i = None \<longleftrightarrow> col ! i = None"
  by (induction col ns arbitrary: i rule: add_to_present.induct) (auto simp: nth_Cons split: nat.split)

lemma one_value:
  assumes "length (remdups xs) < 2"
  obtains v where "xs = replicate (length xs) v"
proof -
  from assms have "card (set xs) \<le> 1" by (simp add: length_remdups_card_conv)
  then obtain v where "set xs \<subseteq> {v}" by (metis card_le_Suc0_iff_eq List.finite_set One_nat_def insertCI subsetI empty_subsetI ex_in_conv)
  then have "xs = replicate (length xs) v" by (induction xs) auto
  then show thesis by (rule that)
qed

lemma distinct_draws: "inj draw \<Longrightarrow> distinct (fst (normal draw n k))"
  by (simp add: normal_def distinct_map inj_on_subset [of draw UNIV])

lemma normal_length [simp]: "length (fst (normal draw n k)) = n"
  by (simp add: normal_def)

lemma break_column_result:
  assumes "inj draw" and c': "c' = fst (break_column draw c k)"
  shows "length c' = length c" and "2 \<le> length (remdups (present c)) \<Longrightarrow> c' = c"
    and "present c \<noteq> [] \<Longrightarrow> i < length c \<Longrightarrow> c' ! i = None \<longleftrightarrow> c ! i = None"
    and "2 \<le> length (remdups (present c')) \<longleftrightarrow> 2 \<le> length c \<and> length (present c) \<noteq> 1"
proof -
  obtain ns k1 where ns: "normal draw (min 2 (length c)) k = (ns, k1)" by (metis prod.exhaust)
  obtain ms k2 where ms: "normal draw (length (present c)) k = (ms, k2)" by (metis prod.exhaust)
  have len: "length ns = min 2 (length c)" "length ms = length (present c)" and dist: "distinct ns" "distinct ms"
    using normal_length [of draw "min 2 (length c)" k] normal_length [of draw "length (present c)" k]
      distinct_draws [OF assms(1), of "min 2 (length c)" k] distinct_draws [OF assms(1), of "length (present c)" k] ns ms by simp_all
  consider (none) "present c = []" "c' = map Some ns @ drop (min 2 (length c)) c"
    | (one) "present c \<noteq> []" "length (remdups (present c)) < 2" "c' = add_to_present c ms"
    | (many) "present c \<noteq> []" "2 \<le> length (remdups (present c))" "c' = c"
    using ns ms by (cases "present c = []"; cases "length (remdups (present c)) < 2")
      (simp_all add: c' break_column_def Let_def)
  then have "length c' = length c \<and> (2 \<le> length (remdups (present c)) \<longrightarrow> c' = c) \<and>
    (present c \<noteq> [] \<and> i < length c \<longrightarrow> (c' ! i = None \<longleftrightarrow> c ! i = None)) \<and>
    (2 \<le> length (remdups (present c')) \<longleftrightarrow> 2 \<le> length c \<and> length (present c) \<noteq> 1)"
  proof cases
    case none
    from none(1) have "present (drop (min 2 (length c)) c) = []" by (auto simp: present_Nil dest: in_set_dropD)
    with none have "present c' = ns" by simp
    with none len dist show ?thesis by (simp add: distinct_remdups_id)
  next
    case one
    obtain v where v: "present c = replicate (length (present c)) v" by (rule one_value [OF one(2)])
    have "present c' = map2 (+) (replicate (length ms) v) ms"
      using present_add [OF len(2)] one(3) v len(2) by simp
    also have "\<dots> = map ((+) v) ms" by (simp add: zip_replicate1 comp_def)
    finally have "present c' = map ((+) v) ms" .
    then have "distinct (present c')" "length (present c') = length (present c)"
      using dist(2) len(2) by (simp_all add: distinct_map inj_on_def)
    moreover from one(1) have "2 \<le> length (present c) \<longleftrightarrow> length (present c) \<noteq> 1" by (cases "present c"; cases "tl (present c)") auto
    ultimately show ?thesis using one length_present_le [of c] by (auto simp: distinct_remdups_id add_to_present_None)
  next
    case many
    from many(2) have two: "2 \<le> length (present c)" using length_remdups_leq [of "present c"] by linarith
    with length_present_le [of c] have "2 \<le> length c" by linarith
    with many two show ?thesis by simp
  qed
  then show "length c' = length c" and "2 \<le> length (remdups (present c)) \<Longrightarrow> c' = c"
    and "present c \<noteq> [] \<Longrightarrow> i < length c \<Longrightarrow> c' ! i = None \<longleftrightarrow> c ! i = None"
    and "2 \<le> length (remdups (present c')) \<longleftrightarrow> 2 \<le> length c \<and> length (present c) \<noteq> 1"
    by blast+
qed

lemma break_columns_nth:
  "length (break_columns draw cols k) = length cols \<and>
    (j < length cols \<longrightarrow> (\<exists>k'. break_columns draw cols k ! j = fst (break_column draw (cols ! j) k')))"
proof (induction cols arbitrary: k j)
  case (Cons c cols)
  obtain c' k1 where c: "break_column draw c k = (c', k1)" by (cases "break_column draw c k")
  show ?case
  proof (cases j)
    case 0
    with c Cons [of k1 0] show ?thesis by (auto intro: exI [of _ k])
  next
    case (Suc i)
    with c Cons [of k1 i] show ?thesis by simp
  qed
qed simp

lemma column_break:
  assumes "inj draw" and "j < width"
  shows "\<exists>k. column (break_degenerate_columns draw width x) j = fst (break_column draw (column x j) k)"
proof -
  let ?cols = "break_columns draw (map (column x) [0..<width]) 0"
  from break_columns_nth [of draw "map (column x) [0..<width]" 0 j] assms(2) obtain k where
    k: "?cols ! j = fst (break_column draw (column x j) k)" and len: "length ?cols = width" by auto
  have "length (?cols ! j) = length x" using break_column_result(1) [OF assms(1) refl, of "column x j" k] k by (simp add: column_def)
  then have "column (break_degenerate_columns draw width x) j = ?cols ! j"
    using assms(2) len by (intro nth_equalityI) (simp_all add: column_def break_degenerate_columns_def Let_def)
  with k show ?thesis by metis
qed

text \<open>
  The guard against degenerate columns has a hole. It keeps the number of rows, columns that
  have two different values and, where a value is present, what is missing; and a column ends up
  with two different values, without which the gradient-boosted trees cannot bin it, exactly when
  there are two rows and the column does not have just one present value: that one gets a jitter
  and is still alone. (No two draws of the generator are equal.)
\<close>

theorem lone_value_stays_degenerate:
  assumes "inj draw" and "j < width" and "c = column x j" and "c' = column (break_degenerate_columns draw width x) j"
  shows "length c' = length x \<and> (2 \<le> length (remdups (present c)) \<longrightarrow> c' = c) \<and>
    (present c \<noteq> [] \<longrightarrow> (\<forall>i < length x. c' ! i = None \<longleftrightarrow> c ! i = None)) \<and>
    (2 \<le> length (remdups (present c')) \<longleftrightarrow> 2 \<le> length x \<and> length (present c) \<noteq> 1)"
proof -
  from column_break [OF assms(1,2)] assms(4) obtain k where k: "c' = fst (break_column draw c k)" unfolding assms(3) by blast
  have "length c = length x" by (simp add: assms(3) column_def)
  with break_column_result [OF assms(1) k] show ?thesis by metis
qed

theorem lone_value_stays_degenerate_witness:
  "\<not> 2 \<le> length (remdups (present (column (break_degenerate_columns of_nat 1 [[Some 3], [None], [None]]) 0)))"
proof -
  have "present (column [[Some 3], [None], [None]] 0) = [3 :: rat]" by (simp add: column_def)
  moreover have "inj (of_nat :: nat \<Rightarrow> rat)" by (simp add: inj_of_nat)
  ultimately show ?thesis
    using lone_value_stays_degenerate [of of_nat 0 1 "column [[Some 3], [None], [None]] 0" "[[Some 3], [None], [None]]", OF _ _ refl refl]
    by simp
qed

subsection \<open>Training and serving see the same row\<close>

text \<open>
  A model is trained on the rows it will be served. The matrix for the contract of the
  prediction service has one row per example, and each is what the service would hand to the
  model for the features of that example; and it cannot be built when one of them could not be served.
\<close>

theorem served_rows_match_training:
  assumes "m = build_feature_matrix cv (map fs_name (fc_features delivery_delay_risk_contract)) rows"
  shows "(\<forall>x y. m = Inr (x, y) \<longrightarrow> length x = length rows \<and> y = map dr_label rows \<and>
      (\<forall>i < length rows. feature_row cv (dr_features (rows ! i)) = Inr (x ! i) \<and> length (x ! i) = length feature_names)) \<and>
    ((\<forall>row \<in> set rows. \<exists>r. feature_row cv (dr_features row) = Inr r) \<longleftrightarrow> (\<exists>xy. m = Inr xy))"
proof -
  have cell: "mapM_r (feature_cell cv row) feature_names = feature_row cv (dr_features row)" for row
    unfolding feature_row_def feature_cell_def ..
  have m: "m = rbind (mapM_r (\<lambda>row. feature_row cv (dr_features row)) rows) (\<lambda>x. Inr (x, map dr_label rows))"
    unfolding assms build_feature_matrix_def feature_names_def [symmetric] cell ..
  have "(\<forall>row \<in> set rows. \<exists>r. feature_row cv (dr_features row) = Inr r) \<longleftrightarrow>
      (\<exists>x. mapM_r (\<lambda>row. feature_row cv (dr_features row)) rows = Inr x)"
    by (induction rows) auto
  moreover have "length x = length rows \<and> y = map dr_label rows \<and>
      (\<forall>i < length rows. feature_row cv (dr_features (rows ! i)) = Inr (x ! i) \<and> length (x ! i) = length feature_names)"
    if "m = Inr (x, y)" for x y
  proof -
    from that m have x: "mapM_r (\<lambda>row. feature_row cv (dr_features row)) rows = Inr x" and y: "y = map dr_label rows" by auto
    have "length r = length feature_names" if "feature_row cv fs = Inr r" for fs r
      using that unfolding feature_row_def by (rule mapM_r_Inr_length)
    with mapM_r_Inr_length [OF x] mapM_r_nth [OF x] y show ?thesis by auto
  qed
  ultimately show ?thesis by (auto simp: m)
qed

definition late_row :: dataset_row where
  "late_row = \<lparr>dr_reference = ''t1'', dr_time = 5, dr_features = [(hd feature_names, PInt 4)], dr_label = 1\<rparr>"

theorem served_rows_match_training_witness:
  "\<exists>r. build_feature_matrix no_conv (map fs_name (fc_features delivery_delay_risk_contract)) [late_row] = Inr ([r], [1]) \<and>
    feature_row no_conv (dr_features late_row) = Inr r"
proof -
  have "\<not> isl (feature_row no_conv (dr_features late_row))" by code_simp
  then have "\<forall>row \<in> set [late_row]. \<exists>r. feature_row no_conv (dr_features row) = Inr r" by (auto simp: isl_def) (metis sum.exhaust)
  with served_rows_match_training [OF refl, of no_conv "[late_row]"] obtain x y where
    b: "build_feature_matrix no_conv (map fs_name (fc_features delivery_delay_risk_contract)) [late_row] = Inr (x, y)" by auto
  with served_rows_match_training [OF refl, of no_conv "[late_row]"]
  have "length x = 1" "y = [1]" "feature_row no_conv (dr_features late_row) = Inr (x ! 0)" by (auto simp: late_row_def)
  with b show ?thesis by (auto simp: length_Suc_conv)
qed

subsection \<open>What a training run leaves in the registry\<close>

definition new_candidate :: "'w model_store \<Rightarrow> uuid option \<Rightarrow> training_result \<Rightarrow> model_version \<Rightarrow> bool" where
  "new_candidate st tenant r m \<longleftrightarrow> row_tenant m = tenant \<and> mo_stage m = CANDIDATE \<and> mo_live m \<and> row_id m = tr_model r \<and>
     mo_checksum m = tr_checksum r \<and> (\<exists>w1 w2. compute_artifact_checksum st (mo_uri m) w1 = (Inr (mo_checksum m), w2))"

lemma run_Inr_iff:
  "(case p of (Inl e, w1) \<Rightarrow> (Inl e, f w1) | (Inr h, w1) \<Rightarrow> k h w1) = (Inr y, t) \<longleftrightarrow>
    (\<exists>h w1. p = (Inr h, w1) \<and> k h w1 = (Inr y, t))"
  by (auto split: prod.split sum.split)

lemma publish_model_effect:
  assumes "publish_model st lg path row (db, w) = (Inr (run, h, m), (db', w'))"
  shows "m = (row run h)\<lparr>mo_stage := CANDIDATE\<rparr> \<and> db_models db' = db_models db @ [m] \<and>
    row_id m \<notin> row_id ` set (db_models db) \<and>
    (\<exists>w1 w2. compute_artifact_checksum st (''runs:/'' @ run @ ''/'' @ path) w1 = (Inr h, w2))"
  using assms
  by (auto simp: publish_model_def register_candidate_def session_add_def Let_def attempt_def audit_record_def
      split: prod.splits sum.splits if_splits)

lemma published_candidate:
  assumes "publish_model st lg path (trained_row fresh tenant name task onto version path) (db, w) = (Inr (run, h, m), (db', w'))"
  shows "db_models db' = db_models db @ [m] \<and> row_id m \<notin> row_id ` set (db_models db) \<and>
    new_candidate st tenant \<lparr>tr_type = ty, tr_metrics = me, tr_importance = im, tr_run = run, tr_model = row_id m, tr_checksum = h\<rparr> m"
  using publish_model_effect [OF assms] by (auto simp: trained_row_def new_candidate_def)

lemma train_baseline_effect:
  assumes "train_baseline tv contract cfg caller fresh bd (db, w) = (Inr r, (db', w'))"
  shows "tr_type r = model_type_value (tg_type cfg) \<and>
    (\<exists>m. db_models db' = db_models db @ [m] \<and> row_id m \<notin> row_id ` set (db_models db) \<and>
      new_candidate (tv_store tv) (map_option tc_tenant caller) r m)"
proof -
  from assms obtain lg name task run h m w1 me im where
    p: "publish_model (tv_store tv) lg ''model''
        (trained_row fresh (map_option tc_tenant caller) name task (dl_ontology (dm_lineage (bd_manifest bd))) (fc_version contract) ''model'')
        (db, w1) = (Inr (run, h, m), (db', w'))"
    and r: "r = \<lparr>tr_type = model_type_value (tg_type cfg), tr_metrics = me, tr_importance = im, tr_run = run, tr_model = row_id m, tr_checksum = h\<rparr>"
    by (auto simp: train_baseline_def Let_def run_Inr_iff)
  from published_candidate [OF p] show ?thesis by (auto simp: r)
qed

lemma build_examples_plane: "build_examples env rows ctx k db = (x, db') \<Longrightarrow> same_plane db db'"
proof (induction rows arbitrary: x db db')
  case (Cons row rows)
  obtain y db1 where y: "build_example env (dr_reference row) (dr_time row) (Some (dr_label row)) ctx k db = (y, db1)"
    by (cases "build_example env (dr_reference row) (dr_time row) (Some (dr_label row)) ctx k db")
  obtain z db2 where z: "build_examples env rows ctx k db1 = (z, db2)" by (cases "build_examples env rows ctx k db1")
  from Cons.prems y z show ?case
    using build_example_plane [OF y] Cons.IH [OF z] by (auto split: sum.splits intro: same_plane_trans)
qed simp

lemma split_batches_plane:
  assumes "split_batches hv hc ctx bd db = (x, db')"
  shows "same_plane db db'"
proof -
  let ?ex = "\<lambda>rows. build_examples (context_env.truncate hv) rows ctx (hc_records hc)"
  obtain x1 d1 where e1: "?ex (sl_train (bd_splits bd)) db = (x1, d1)" by (metis prod.exhaust)
  obtain x2 d2 where e2: "?ex (sl_validation (bd_splits bd)) d1 = (x2, d2)" by (metis prod.exhaust)
  obtain x3 d3 where e3: "?ex (sl_test (bd_splits bd)) d2 = (x3, d3)" by (metis prod.exhaust)
  note p = build_examples_plane [OF e1] build_examples_plane [OF e2] build_examples_plane [OF e3]
  from assms have "db' = d1 \<or> db' = d2 \<or> db' = d3"
    by (auto simp: split_batches_def Let_def e1 e2 e3 split: sum.split_asm)
  then show ?thesis using p same_plane_trans by blast
qed

lemmas split_batches_quiet = quiet_tables [OF same_plane_quiet [OF split_batches_plane]]

lemma train_hermes_effect:
  assumes "train_hermes hv hc ctx key backbone fresh bd (db, w) = (Inr r, (db', w'))"
  shows "tr_type r = hermes_model_type hc backbone \<and>
    (\<exists>m. db_models db' = db_models db @ [m] \<and> row_id m \<notin> row_id ` set (db_models db) \<and>
      new_candidate (hv_store hv) (Some (tc_tenant ctx)) r m)"
proof -
  obtain x d where e: "split_batches hv hc ctx bd db = (x, d)" by (metis prod.exhaust)
  with assms obtain lg name task run h m w1 me where
    p: "publish_model (hv_store hv) lg (checkpoint_name hc)
        (trained_row fresh (Some (tc_tenant ctx)) name task (dl_ontology (dm_lineage (bd_manifest bd))) (dl_contract (dm_lineage (bd_manifest bd)))
          (checkpoint_name hc)) (d, w1) = (Inr (run, h, m), (db', w'))"
    and r: "r = \<lparr>tr_type = hermes_model_type hc backbone, tr_metrics = me, tr_importance = None, tr_run = run, tr_model = row_id m, tr_checksum = h\<rparr>"
    by (auto simp: train_hermes_def Let_def run_Inr_iff split: sum.split_asm)
  from published_candidate [OF p] split_batches_quiet(1) [OF e] show ?thesis by (auto simp: r)
qed

lemma train_baselines_effect:
  assumes "train_baselines tv ctx bd todo (db, w) = (Inr rs, (db', w'))"
  shows "\<exists>ms. db_models db' = db_models db @ ms \<and> list_all2 (new_candidate (tv_store tv) (Some (tc_tenant ctx))) rs ms \<and>
    map tr_type rs = map (model_type_value \<circ> fst) todo"
  using assms
proof (induction todo arbitrary: db w rs)
  case (Cons tf todo)
  obtain t fresh where tf: "tf = (t, fresh)" by (cases tf)
  from Cons.prems obtain r db1 w1 rs' where
      t: "train_baseline tv delivery_delay_risk_contract (default_training t) (Some ctx) fresh bd (db, w) = (Inr r, (db1, w1))"
    and rest: "train_baselines tv ctx bd todo (db1, w1) = (Inr rs', (db', w'))" and rs: "rs = r # rs'"
    by (auto simp: tf split: prod.splits sum.splits)
  from train_baseline_effect [OF t] Cons.IH [OF rest] show ?case
    by (auto simp: rs tf default_training_def)
qed auto

lemma promote_candidate:
  assumes "db_models db = ms @ [m]" and "row_id m \<notin> row_id ` set ms" and "mo_stage m = CANDIDATE"
  shows "\<exists>db'. promote (row_id m) db = (Inr (), db') \<and> db_models db' = ms @ [m\<lparr>mo_stage := PRODUCTION\<rparr>]"
proof -
  have get: "session_get (ms @ [x]) (row_id m) = Some x" if "row_id x = row_id m" for x :: model_version
  proof -
    from assms(2) have "\<forall>y \<in> set ms. row_id y \<noteq> row_id m" by (metis imageI)
    then show ?thesis unfolding session_get_def by (induction ms) (simp_all add: that)
  qed
  have set: "row_set (ms @ [x]) (row_id m) f = ms @ [f x]" if "row_id x = row_id m" for x :: model_version and f
  proof -
    from assms(2) have "\<forall>y \<in> set ms. row_id y \<noteq> row_id m" by (metis imageI)
    then show ?thesis unfolding row_set_def by (induction ms) (simp_all add: that)
  qed
  show ?thesis
    by (simp add: promote_def transition_stage_def get_for_stage_mutation_def set_model_def assms(1,3) get set check_transition_def
        audit_record_def promotion_stages_def require_promotion_authorization_def)
qed

lemma best_result_append:
  "best_result b (rs @ [r]) = (if em_pr_auc (tr_metrics r) > em_pr_auc (tr_metrics (best_result b rs)) then r else best_result b rs)"
  by (induction rs arbitrary: b) simp_all

lemma best_result_mem: "best_result b rs \<in> set (b # rs)"
proof (induction rs arbitrary: b)
  case (Cons r rs)
  from Cons [of "if em_pr_auc (tr_metrics r) > em_pr_auc (tr_metrics b) then r else b"] show ?case by (auto split: if_splits)
qed simp

lemma best_result_max: "\<forall>x \<in> set (b # rs). em_pr_auc (tr_metrics x) \<le> em_pr_auc (tr_metrics (best_result b rs))"
proof (induction rs arbitrary: b)
  case (Cons r rs)
  show ?case
  proof (cases "em_pr_auc (tr_metrics r) > em_pr_auc (tr_metrics b)")
    case True
    with Cons.IH [of r] show ?thesis by (auto intro: order_trans [OF less_imp_le])
  next
    case False
    with Cons.IH [of b] show ?thesis by (auto intro: order_trans [of "em_pr_auc (tr_metrics r)" "em_pr_auc (tr_metrics b)"])
  qed
qed simp

lemma baseline_type_differs: "model_type_value t \<noteq> hermes_model_type hc backbone"
  by (cases t) (simp_all add: hermes_model_type_def)

lemma transformer_selected:
  assumes "build_comparison_report (rs @ [r]) = Inr report" and "rs \<noteq> []"
    and "map tr_type rs = map model_type_value ts" and "tr_type r = hermes_model_type hc backbone"
  shows "cp_results report = rs @ [r] \<and>
    (cp_selected report = tr_type r \<longleftrightarrow> (\<forall>x \<in> set rs. em_pr_auc (tr_metrics x) < em_pr_auc (tr_metrics r)))"
proof -
  obtain b bs where rs: "rs = b # bs" using assms(2) by (cases rs) auto
  let ?best = "best_result b bs"
  have "?best \<in> set rs" using best_result_mem [of b bs] rs by simp
  then have "tr_type ?best \<in> set (map tr_type rs)" by simp
  then have other: "tr_type ?best \<noteq> tr_type r" unfolding assms(3,4) using baseline_type_differs [symmetric] by fastforce
  have "em_pr_auc (tr_metrics ?best) < em_pr_auc (tr_metrics r) \<longleftrightarrow> (\<forall>x \<in> set rs. em_pr_auc (tr_metrics x) < em_pr_auc (tr_metrics r))"
    using best_result_max [of b bs] best_result_mem [of b bs] unfolding rs by (meson le_less_trans)
  with assms(1) other show ?thesis by (auto simp: build_comparison_report_def rs best_result_append split: if_splits)
qed

lemma candidates_do_not_serve:
  assumes "db_models db' = db_models db @ ms" and "\<forall>m \<in> set ms. mo_stage m = CANDIDATE"
  shows "get_production_model task c db' = get_production_model task c db"
proof -
  have "filter (\<lambda>m. mo_task m = task \<and> mo_stage m = PRODUCTION \<and> mo_live m \<and>
      (row_tenant m = None \<or> row_tenant m = Some (tc_tenant c))) ms = []"
    using assms(2) by (auto simp: filter_empty_conv)
  then show ?thesis by (simp add: get_production_model_def assms(1))
qed

text \<open>
  C15: only a winner is promoted. A run that trains the baselines and the transformer and compares
  them adds exactly these four models, each live, the tenant's own, a candidate, and with the
  checksum of what the store held. The transformer, and nothing else, is taken into production,
  exactly when this was asked for and it is strictly better than every baseline; otherwise what
  serves is what served before, for every task and every tenant.
\<close>

theorem only_a_winner_is_promoted:
  assumes "run_hermes_rpt promote_flag tv hv ctx bd fresh_of fresh (db, w) = (Inr report, (db', w'))"
  shows "\<exists>rs r ms m. cp_results report = rs @ [r] \<and> map tr_type rs = map model_type_value baseline_model_types \<and>
    list_all2 (new_candidate (tv_store tv) (Some (tc_tenant ctx))) rs ms \<and>
    new_candidate (hv_store hv) (Some (tc_tenant ctx)) r m \<and>
    (if promote_flag \<and> (\<forall>x \<in> set rs. em_pr_auc (tr_metrics x) < em_pr_auc (tr_metrics r))
     then db_models db' = db_models db @ ms @ [m\<lparr>mo_stage := PRODUCTION\<rparr>]
     else db_models db' = db_models db @ ms @ [m] \<and>
       (\<forall>task c. get_production_model task c db' = get_production_model task c db))"
proof -
  let ?todo = "map (\<lambda>t. (t, fresh_of t)) baseline_model_types"
  obtain y1 db1 w1 where y1: "train_baselines tv ctx bd ?todo (db, w) = (y1, (db1, w1))" by (metis prod.exhaust)
  with assms obtain rs where "y1 = Inr rs" by (cases y1) (auto simp: run_hermes_rpt_def)
  note b = y1 [unfolded this]
  obtain y2 db2 w2 where y2: "train_hermes hv tiny ctx (fc_task delivery_delay_risk_contract) None fresh bd (db1, w1) = (y2, (db2, w2))"
    by (metis prod.exhaust)
  with assms b obtain r where "y2 = Inr r" by (cases y2) (auto simp: run_hermes_rpt_def)
  note h = y2 [unfolded this]
  from assms b h have "attempt (build_comparison_report (rs @ [r])) (db2, w2) (\<lambda>report'.
      case promote_if_winner promote_flag report' r db2 of
        (Inl e, db3) \<Rightarrow> (Inl e, (db3, w2)) | (Inr _, db3) \<Rightarrow> (Inr report', (db3, w2))) = (Inr report, (db', w'))"
    by (simp add: run_hermes_rpt_def)
  then have c: "build_comparison_report (rs @ [r]) = Inr report" and p: "promote_if_winner promote_flag report r db2 = (Inr (), db')"
    unfolding attempt_Inr_iff run_Inr_iff by auto
  from train_baselines_effect [OF b] obtain ms where ms: "db_models db1 = db_models db @ ms"
      "list_all2 (new_candidate (tv_store tv) (Some (tc_tenant ctx))) rs ms" "map tr_type rs = map model_type_value baseline_model_types"
    by (auto simp: comp_def)
  from train_hermes_effect [OF h] obtain m where m: "db_models db2 = db_models db1 @ [m]" "row_id m \<notin> row_id ` set (db_models db1)"
      "new_candidate (hv_store hv) (Some (tc_tenant ctx)) r m" "tr_type r = hermes_model_type tiny None" by auto
  have "rs \<noteq> []" using ms(3) by (auto simp: baseline_model_types_def)
  from transformer_selected [OF c this ms(3) m(4)] have rep: "cp_results report = rs @ [r]"
    and win: "cp_selected report = tr_type r \<longleftrightarrow> (\<forall>x \<in> set rs. em_pr_auc (tr_metrics x) < em_pr_auc (tr_metrics r))" by auto
  have m_new: "mo_stage m = CANDIDATE" "tr_model r = row_id m" using m(3) by (auto simp: new_candidate_def)
  have "\<forall>x \<in> set ms. mo_stage x = CANDIDATE"
    using ms(2) by (auto simp: new_candidate_def list_all2_conv_all_nth in_set_conv_nth)
  with m_new(1) have serve: "get_production_model task c db' = get_production_model task c db"
    if "db_models db' = db_models db @ ms @ [m]" for task c
    using candidates_do_not_serve [of db' db "ms @ [m]"] that by auto
  have "if promote_flag \<and> (\<forall>x \<in> set rs. em_pr_auc (tr_metrics x) < em_pr_auc (tr_metrics r))
     then db_models db' = db_models db @ ms @ [m\<lparr>mo_stage := PRODUCTION\<rparr>] else db_models db' = db_models db @ ms @ [m]"
    using p promote_candidate [OF m(1,2) m_new(1)] ms(1) m(1) m_new(2) win
    by (auto simp: promote_if_winner_def split: if_splits)
  with rep ms m(3) serve show ?thesis by (metis (no_types, lifting))
qed

subsection \<open>A run in which the transformer wins\<close>

definition training_rows :: "dataset_row list" where
  "training_rows = [\<lparr>dr_reference = ''t1'', dr_time = 5, dr_features = [(hd feature_names, PInt 4)], dr_label = 1\<rparr>,
     \<lparr>dr_reference = ''t1'', dr_time = 6, dr_features = [], dr_label = 0\<rparr>]"

definition training_dataset :: built_dataset where
  "training_dataset = \<lparr>bd_manifest = \<lparr>dm_id = 60, dm_key = ''trips'', dm_tenant = Some (tc_tenant sample_ctx), dm_shared = False,
       dm_lineage = \<lparr>dl_ontology = ''1'', dl_contract = ''1'', dl_task = ''delivery-delay-risk'', dl_versions = [], dl_snapshots = [],
         dl_built_at = 0, dl_built_by = 9\<rparr>, dm_counts = [], dm_checksum = [], dm_quality = \<lparr>qr_rows = 6, qr_issues = []\<rparr>,
       dm_features = [], dm_labels = \<lparr>ls_count = 6, ls_positive = 3, ls_negative = 3\<rparr>\<rparr>,
     bd_splits = \<lparr>sl_train = [], sl_validation = [], sl_test = training_rows\<rparr>\<rparr>"

definition training_db :: pred_db where
  "training_db = reg_db.extend (map_db.extend trip_mapping_db \<lparr>db_models = [], db_adapters = [], db_aliases = []\<rparr>)
     \<lparr>db_tasks = [delay_task], db_requests = [], db_results = [], db_outcomes = []\<rparr>"

definition half_training :: "nat training_env" where
  "half_training = \<lparr>tv_conv = no_conv\<lparr>cv_int := (\<lambda>s. if s = ''32'' then Some 32 else Some 16)\<rparr>, tv_str = (\<lambda>_. []), tv_draw = of_nat,
     tv_sk = counting_sk, tv_fit = (\<lambda>_ _ _ w. (Inr 1, w)), tv_proba = (\<lambda>_ x. Inr (map (\<lambda>_. 1 / 2) x)),
     tv_coefs = (\<lambda>_. map (\<lambda>_. 1) feature_names), tv_log = (\<lambda>_ w. (Inr ''run'', w)), tv_store = still_store\<rparr>"

definition better_hermes :: "nat hermes_env" where
  "better_hermes = context_env.extend sample_context_env \<lparr>hv_str = text_of, hv_digest = length, hv_sk = counting_sk,
     hv_fit = (\<lambda>_ _ _ _ w. (Inr 2, w)), hv_proba = (\<lambda>_ x. Inr (map (\<lambda>_. 3 / 4) x)), hv_log = (\<lambda>_ _ w. (Inr ''run'', w)),
     hv_store = still_store\<rparr>"

fun id_of_type :: "baseline_model_type \<Rightarrow> uuid" where
  "id_of_type LOGISTIC_REGRESSION = 61" | "id_of_type GRADIENT_BOOSTED_TREES = 62" | "id_of_type MLP = 63"

lemma training_run:
  "\<exists>report s. run_hermes_rpt True half_training better_hermes sample_ctx training_dataset id_of_type 64 (training_db, 0) = (Inr report, s) \<and>
    map (\<lambda>r. em_pr_auc (tr_metrics r)) (cp_results report) = [1, 1, 1, 3 / 2]"
proof -
  let ?r = "run_hermes_rpt True half_training better_hermes sample_ctx training_dataset id_of_type 64 (training_db, 0)"
  have "(case fst ?r of Inl _ \<Rightarrow> False | Inr report \<Rightarrow> map (\<lambda>r. em_pr_auc (tr_metrics r)) (cp_results report) = [1, 1, 1, 3 / 2])"
    by code_simp
  then show ?thesis by (cases ?r) (auto split: sum.splits)
qed

theorem only_a_winner_is_promoted_witness:
  "\<exists>report db' w' ms m. run_hermes_rpt True half_training better_hermes sample_ctx training_dataset id_of_type 64 (training_db, 0) =
      (Inr report, (db', w')) \<and> length ms = 3 \<and> db_models db' = ms @ [m\<lparr>mo_stage := PRODUCTION\<rparr>]"
proof -
  obtain report db' w' where run: "run_hermes_rpt True half_training better_hermes sample_ctx training_dataset id_of_type 64 (training_db, 0) =
      (Inr report, (db', w'))" and scores: "map (\<lambda>r. em_pr_auc (tr_metrics r)) (cp_results report) = [1, 1, 1, 3 / 2]"
    using training_run by (metis prod.exhaust)
  from only_a_winner_is_promoted [OF run] obtain rs r ms m where results: "cp_results report = rs @ [r]"
      and ms: "list_all2 (new_candidate (tv_store half_training) (Some (tc_tenant sample_ctx))) rs ms"
      and models: "if True \<and> (\<forall>x \<in> set rs. em_pr_auc (tr_metrics x) < em_pr_auc (tr_metrics r))
        then db_models db' = db_models training_db @ ms @ [m\<lparr>mo_stage := PRODUCTION\<rparr>] else db_models db' = db_models training_db @ ms @ [m] \<and>
          (\<forall>task c. get_production_model task c db' = get_production_model task c training_db)"
    by metis
  from scores results have rs: "map (\<lambda>r. em_pr_auc (tr_metrics r)) rs = [1, 1, 1]" "em_pr_auc (tr_metrics r) = 3 / 2" by auto
  then have "\<forall>x \<in> set rs. em_pr_auc (tr_metrics x) < em_pr_auc (tr_metrics r)"
    by (auto simp: map_eq_Cons_conv)
  moreover have "db_models training_db = []" by (simp add: training_db_def reg_db.defs pred_db.defs map_db.defs)
  moreover from rs(1) have "length rs = 3" by (metis length_map length_Cons list.size(3) numeral_3_eq_3)
  ultimately show ?thesis using run models list_all2_lengthD [OF ms] by auto
qed

end
