(* ===== verification/Pretraining.thy ===== *)
theory Pretraining
  imports RelationalContext
begin

section \<open>Self-supervised pretraining batches\<close>

text \<open>
  \<open>hermes_rpt/models/transformer/pretraining.py\<close>: how a batch of encoded examples is turned into
  a masked batch and its targets. Positions are those of the encoder; a cell is none where its
  mask is off, and then its value is the zero of the tensor. The source of random numbers is
  Python's \<open>random.Random\<close>: a parameter, of which only the range of its answers is used. The
  networks that are trained on the batches are not modelled.
\<close>

subsection \<open>Configuration and randomness\<close>

record masking_config =
  mk_mask :: rat
  mk_link :: rat
  mk_temporal :: rat
  mk_seed :: int

definition default_masking :: masking_config where
  "default_masking = \<lparr>mk_mask = 1 / 5, mk_link = 3 / 10, mk_temporal = 1 / 2, mk_seed = 0\<rparr>"

record 'g rng =
  rg_seed :: "int \<Rightarrow> 'g"
  rg_random :: "'g \<Rightarrow> rat \<times> 'g"
  rg_choice :: "nat list \<Rightarrow> 'g \<Rightarrow> nat \<times> 'g"
  rg_sample :: "nat list \<Rightarrow> 'g \<Rightarrow> (nat \<times> nat) \<times> 'g"

text \<open>What is documented of \<open>choice\<close> and \<open>sample\<close>: they answer with elements of the list, \<open>sample\<close> with two different places of it.\<close>

definition rng_ok :: "'g rng \<Rightarrow> bool" where
  "rng_ok rg \<longleftrightarrow> (\<forall>xs g. xs \<noteq> [] \<longrightarrow> fst (rg_choice rg xs g) \<in> set xs) \<and>
     (\<forall>xs g. 2 \<le> length xs \<and> distinct xs \<longrightarrow> (case fst (rg_sample rg xs g) of (a, b) \<Rightarrow> a \<in> set xs \<and> b \<in> set xs \<and> a \<noteq> b))"

definition target_relationship_index :: nat where
  "target_relationship_index = 1"

definition pad_entity_index :: nat where
  "pad_entity_index = 0"

lemma special_indices:
  "vocab_index ''__target__'' relationship_vocab = Inr target_relationship_index"
  "vocab_index ''__pad__'' entity_type_vocab = Inr pad_entity_index"
  by code_simp+

subsection \<open>Protected fields\<close>

definition protected_field_names :: "ontology \<Rightarrow> string \<Rightarrow> exn + string list" where
  "protected_field_names on entity =
     rbind (get_entity on entity) (\<lambda>e. Inr (map of_name (filter of_identifier (oe_fields e))))"

definition protected_sets :: "ontology \<Rightarrow> exn + (string, string list) dict" where
  "protected_sets on =
     mapM_r (\<lambda>entity. rbind (protected_field_names on entity) (\<lambda>ns. Inr (entity, ns))) (map fst entity_field_schemas)"

subsection \<open>Masking cells\<close>

text \<open>One kind of field of one record: the cells afterwards, and which of them are targets.\<close>

fun mask_slots ::
  "'g rng \<Rightarrow> rat \<Rightarrow> string list \<Rightarrow> string list \<Rightarrow> 'a option list \<Rightarrow> 'g \<Rightarrow> ('a option list \<times> bool list) \<times> 'g" where
  "mask_slots rg p prot (n # ns) (v # vs) g =
     (if n \<in> set prot \<or> v = None
      then (case mask_slots rg p prot ns vs g of ((vs', ts), g') \<Rightarrow> ((v # vs', False # ts), g'))
      else (case rg_random rg g of (r, g1) \<Rightarrow>
        (case mask_slots rg p prot ns vs g1 of ((vs', ts), g') \<Rightarrow>
           (if r < p then ((None # vs', True # ts), g') else ((v # vs', False # ts), g')))))"
| "mask_slots rg p prot ns vs g = ((vs, map (\<lambda>_. False) vs), g)"

record cell_targets =
  ct_numeric :: "bool list"
  ct_categorical :: "bool list"
  ct_datetime :: "bool list"

definition no_targets :: "position \<Rightarrow> cell_targets" where
  "no_targets q = \<lparr>ct_numeric = map (\<lambda>_. False) (ps_numeric q), ct_categorical = map (\<lambda>_. False) (ps_categorical q),
     ct_datetime = map (\<lambda>_. False) (ps_datetime q)\<rparr>"

definition mask_record ::
  "'g rng \<Rightarrow> rat \<Rightarrow> string list \<Rightarrow> entity_field_schema \<Rightarrow> position \<Rightarrow> 'g \<Rightarrow> (position \<times> cell_targets) \<times> 'g" where
  "mask_record rg p prot s q g =
     (case mask_slots rg p prot (ef_numeric s) (ps_numeric q) g of ((nums, tn), g1) \<Rightarrow>
      case mask_slots rg p prot (ef_categorical s) (ps_categorical q) g1 of ((cats, tc), g2) \<Rightarrow>
      case mask_slots rg p prot (ef_datetime s) (ps_datetime q) g2 of ((dts, td), g3) \<Rightarrow>
        ((q\<lparr>ps_numeric := nums, ps_categorical := cats, ps_datetime := dts\<rparr>,
          \<lparr>ct_numeric = tn, ct_categorical = tc, ct_datetime = td\<rparr>), g3))"

definition mask_position ::
  "'g rng \<Rightarrow> rat \<Rightarrow> (string, string list) dict \<Rightarrow> position \<Rightarrow> 'g \<Rightarrow> exn + (position \<times> cell_targets) \<times> 'g" where
  "mask_position rg p protected q g =
     (if \<not> ps_attended q \<or> ps_entity q = pad_entity_index then Inr ((q, no_targets q), g)
      else if length entity_type_vocab \<le> ps_entity q then Inl (ExternalError ''IndexError'')
      else let entity = entity_type_vocab ! ps_entity q
        in (case (dict_get entity_field_schemas entity, dict_get protected entity) of
              (Some s, Some prot) \<Rightarrow> Inr (mask_record rg p prot s q g)
            | _ \<Rightarrow> Inl (KeyError entity)))"

fun mask_positions ::
  "'g rng \<Rightarrow> rat \<Rightarrow> (string, string list) dict \<Rightarrow> position list \<Rightarrow> 'g \<Rightarrow> exn + (position \<times> cell_targets) list \<times> 'g" where
  "mask_positions rg p protected [] g = Inr ([], g)"
| "mask_positions rg p protected (q # qs) g =
     rbind (mask_position rg p protected q g) (\<lambda>(y, g1).
     rbind (mask_positions rg p protected qs g1) (\<lambda>(ys, g2). Inr (y # ys, g2)))"

subsection \<open>Corrupting links\<close>

definition real_positions :: "position list \<Rightarrow> nat list" where
  "real_positions qs = filter (\<lambda>s. ps_attended (qs ! s)) [0..<length qs]"

definition related_positions :: "position list \<Rightarrow> nat list" where
  "related_positions qs = filter (\<lambda>s. ps_relationship (qs ! s) \<noteq> target_relationship_index) (real_positions qs)"

text \<open>The record of another place, as it was before masking, under the links of this one.\<close>

definition swap_content :: "position \<Rightarrow> position \<Rightarrow> position" where
  "swap_content here other = here\<lparr>ps_numeric := ps_numeric other, ps_categorical := ps_categorical other,
     ps_datetime := ps_datetime other\<rparr>"

definition cross_entity_candidates :: "position list \<Rightarrow> nat \<Rightarrow> nat list" where
  "cross_entity_candidates qs s = filter (\<lambda>p. ps_entity (qs ! p) \<noteq> ps_entity (qs ! s)) (related_positions qs)"

text \<open>The places still to visit, and the state: the positions and the labels so far.\<close>

fun corrupt_links ::
  "'g rng \<Rightarrow> rat \<Rightarrow> position list \<Rightarrow> nat list \<Rightarrow> position list \<times> bool list \<Rightarrow> 'g \<Rightarrow> (position list \<times> bool list) \<times> 'g" where
  "corrupt_links rg p qs [] st g = (st, g)"
| "corrupt_links rg p qs (s # todo) (out, labels) g =
     (case rg_random rg g of (r, g1) \<Rightarrow>
        (if r \<ge> p \<or> cross_entity_candidates qs s = []
         then corrupt_links rg p qs todo (out, labels[s := True]) g1
         else (case rg_choice rg (cross_entity_candidates qs s) g1 of (other, g2) \<Rightarrow>
           corrupt_links rg p qs todo (out[s := swap_content (out ! s) (qs ! other)], labels[s := False]) g2)))"

subsection \<open>Pairs in time\<close>

fun group_by_entity :: "position list \<Rightarrow> nat list \<Rightarrow> (nat, nat list) dict \<Rightarrow> (nat, nat list) dict" where
  "group_by_entity qs [] d = d"
| "group_by_entity qs (s # ss) d =
     group_by_entity qs ss (dict_put (ps_entity (qs ! s))
       ((case dict_get d (ps_entity (qs ! s)) of None \<Rightarrow> [] | Some xs \<Rightarrow> xs) @ [s]) d)"

definition shown_time :: "position \<Rightarrow> rat option" where
  "shown_time q = map_option (snd \<circ> snd) (hd (ps_datetime q))"

definition year_of :: "position \<Rightarrow> rat" where
  "year_of q = (case hd (ps_datetime q) of None \<Rightarrow> 0 | Some (h, w, y) \<Rightarrow> y)"

fun temporal_pairs_of ::
  "'g rng \<Rightarrow> rat \<Rightarrow> position list \<Rightarrow> position list \<Rightarrow> nat list list \<Rightarrow> 'g \<Rightarrow> (nat \<times> nat \<times> bool) list \<times> 'g" where
  "temporal_pairs_of rg p qs out [] g = ([], g)"
| "temporal_pairs_of rg p qs out (positions # groups) g =
     (let candidates = filter (\<lambda>s. shown_time (out ! s) \<noteq> None) positions
      in if length candidates < 2 then temporal_pairs_of rg p qs out groups g
         else (case rg_random rg g of (r, g1) \<Rightarrow>
           (if r > p then temporal_pairs_of rg p qs out groups g1
            else (case rg_sample rg candidates g1 of ((a, b), g2) \<Rightarrow>
              (case temporal_pairs_of rg p qs out groups g2 of (ps, g3) \<Rightarrow>
                 ((a, b, year_of (qs ! a) < year_of (qs ! b)) # ps, g3))))))"

subsection \<open>The batch\<close>

text \<open>
  What comes out for one example: its positions as the model sees them, the cells to
  reconstruct (their values are those of the example that went in), which links are asked
  about and which of them are genuine, and the pairs in time.
\<close>

record pretraining_example =
  pt_positions :: "position list"
  pt_cells :: "cell_targets list"
  pt_links :: "bool list"
  pt_genuine :: "bool list"
  pt_pairs :: "(nat \<times> nat \<times> bool) list"

definition pretrain_example ::
  "'g rng \<Rightarrow> masking_config \<Rightarrow> (string, string list) dict \<Rightarrow> position list \<Rightarrow> 'g \<Rightarrow> exn + pretraining_example \<times> 'g" where
  "pretrain_example rg cfg protected qs g =
     rbind (mask_positions rg (mk_mask cfg) protected qs g) (\<lambda>(ys, g1).
       (case corrupt_links rg (mk_link cfg) qs (related_positions qs) (map fst ys, map (\<lambda>_. False) qs) g1 of ((out, labels), g2) \<Rightarrow>
        case temporal_pairs_of rg (mk_temporal cfg) qs out (map snd (group_by_entity qs (related_positions qs) [])) g2 of (pairs, g3) \<Rightarrow>
          Inr (\<lparr>pt_positions = out, pt_cells = map snd ys,
            pt_links = map (\<lambda>s. s \<in> set (related_positions qs)) [0..<length qs], pt_genuine = labels, pt_pairs = pairs\<rparr>, g3)))"

fun pretrain_examples ::
  "'g rng \<Rightarrow> masking_config \<Rightarrow> (string, string list) dict \<Rightarrow> position list list \<Rightarrow> 'g \<Rightarrow> exn + pretraining_example list" where
  "pretrain_examples rg cfg protected [] g = Inr []"
| "pretrain_examples rg cfg protected (qs # batch) g =
     rbind (pretrain_example rg cfg protected qs g) (\<lambda>(x, g1).
     rbind (pretrain_examples rg cfg protected batch g1) (\<lambda>xs. Inr (x # xs)))"

definition build_pretraining_batch ::
  "'g rng \<Rightarrow> masking_config \<Rightarrow> ontology \<Rightarrow> position list list \<Rightarrow> exn + pretraining_example list" where
  "build_pretraining_batch rg cfg on batch =
     rbind (protected_sets on) (\<lambda>protected. pretrain_examples rg cfg protected batch (rg_seed rg (mk_seed cfg)))"

subsection \<open>What a batch asks of the model\<close>

text \<open>Cells of one kind with the targets set to none: targets were observed, and their field is not protected.\<close>

definition hidden :: "string list \<Rightarrow> string list \<Rightarrow> 'a option list \<Rightarrow> bool list \<Rightarrow> 'a option list \<Rightarrow> bool" where
  "hidden prot ns vs ts vs' \<longleftrightarrow> length ts = length vs \<and> vs' = map2 (\<lambda>v t. if t then None else v) vs ts \<and>
     (\<forall>i < length vs. ts ! i \<longrightarrow> vs ! i \<noteq> None \<and> i < length ns \<and> ns ! i \<notin> set prot)"

definition same_links :: "position \<Rightarrow> position \<Rightarrow> bool" where
  "same_links q q' \<longleftrightarrow> ps_entity q' = ps_entity q \<and> ps_relationship q' = ps_relationship q \<and> ps_attended q' = ps_attended q"

definition record_hidden :: "string list \<Rightarrow> entity_field_schema \<Rightarrow> position \<Rightarrow> cell_targets \<Rightarrow> position \<Rightarrow> bool" where
  "record_hidden prot s q c q' \<longleftrightarrow> hidden prot (ef_numeric s) (ps_numeric q) (ct_numeric c) (ps_numeric q') \<and>
     hidden prot (ef_categorical s) (ps_categorical q) (ct_categorical c) (ps_categorical q') \<and>
     hidden prot (ef_datetime s) (ps_datetime q) (ct_datetime c) (ps_datetime q')"

lemma map2_none [simp]: "map2 (\<lambda>v t. if t then None else v) vs (map (\<lambda>_. False) vs) = vs"
  by (induction vs) simp_all

lemma hidden_none [simp]: "hidden prot ns vs (map (\<lambda>_. False) vs) vs' \<longleftrightarrow> vs' = vs"
  by (auto simp: hidden_def)

lemma hidden_Cons:
  assumes "hidden prot ns vs ts vs'" and "t \<Longrightarrow> v \<noteq> None \<and> n \<notin> set prot"
  shows "hidden prot (n # ns) (v # vs) (t # ts) ((if t then None else v) # vs')"
  using assms by (auto simp: hidden_def nth_Cons split: nat.split)

lemma mask_slots_hidden: "mask_slots rg p prot ns vs g = ((vs', ts), g') \<Longrightarrow> hidden prot ns vs ts vs'"
proof (induction rg p prot ns vs g arbitrary: vs' ts g' rule: mask_slots.induct)
  case (1 rg p prot n ns v vs g)
  show ?case
  proof (cases "n \<in> set prot \<or> v = None")
    case True
    with "1.prems" obtain ws us g1 where r: "mask_slots rg p prot ns vs g = ((ws, us), g1)" "vs' = v # ws" "ts = False # us"
      by (auto split: prod.splits)
    with hidden_Cons [OF "1.IH" (1) [OF True r(1)], of False v n] show ?thesis by simp
  next
    case False
    obtain r g1 where g1: "rg_random rg g = (r, g1)" by (cases "rg_random rg g")
    with "1.prems" False obtain ws us g2 where r: "mask_slots rg p prot ns vs g1 = ((ws, us), g2)"
        "ts = (r < p) # us" "vs' = (if r < p then None else v) # ws"
      by (auto split: prod.splits if_splits)
    with hidden_Cons [OF "1.IH" (2) [OF False g1 [symmetric] r(1)], of "r < p" v n] False show ?thesis by simp
  qed
qed (auto simp: hidden_def)

lemma mask_record_hidden:
  assumes "mask_record rg p prot s q g = ((q', c), g')"
  shows "record_hidden prot s q c q' \<and> same_links q q'"
  using assms by (auto simp: mask_record_def record_hidden_def same_links_def mask_slots_hidden split: prod.splits)

lemma no_targets_hidden [simp]: "record_hidden prot s q (no_targets q) q"
  by (simp add: record_hidden_def no_targets_def)

lemma mask_positions_nth:
  assumes "mask_positions rg p protected qs g = Inr (ys, g')"
  shows "length ys = length qs \<and> (\<forall>s < length qs. \<exists>h h'. mask_position rg p protected (qs ! s) h = Inr (ys ! s, h'))"
  using assms
proof (induction qs arbitrary: g ys g')
  case (Cons q qs)
  from Cons.prems obtain y g1 zs g2 where y: "mask_position rg p protected q g = Inr (y, g1)"
      "mask_positions rg p protected qs g1 = Inr (zs, g2)" "ys = y # zs"
    by (auto split: prod.splits)
  from Cons.IH [OF y(2)] have ih: "length zs = length qs"
    "\<forall>s < length qs. \<exists>h h'. mask_position rg p protected (qs ! s) h = Inr (zs ! s, h')" by auto
  have "\<exists>h h'. mask_position rg p protected ((q # qs) ! s) h = Inr (ys ! s, h')" if "s < length (q # qs)" for s
  proof (cases s)
    case (Suc k)
    with ih that y show ?thesis by simp
  qed (use y in auto)
  with ih y show ?case by simp
qed simp

text \<open>The places of the protected names: those of the ontology's entity the record belongs to.\<close>

lemma protected_sets_get:
  assumes "protected_sets on = Inr protected" and "dict_get protected entity = Some prot"
  shows "protected_field_names on entity = Inr prot"
proof -
  from assms(2) have "(entity, prot) \<in> set protected" by (simp add: dict_get_def map_of_SomeD)
  from mapM_r_mem [OF assms(1) [unfolded protected_sets_def] this] show ?thesis by auto
qed

text \<open>What the masking of one position guarantees, whatever the record is.\<close>

definition position_hidden :: "ontology \<Rightarrow> position \<Rightarrow> cell_targets \<Rightarrow> position \<Rightarrow> bool" where
  "position_hidden on q c q' \<longleftrightarrow> c = no_targets q \<and> q' = q \<or>
     (\<exists>s prot. dict_get entity_field_schemas (entity_type_vocab ! ps_entity q) = Some s \<and>
       protected_field_names on (entity_type_vocab ! ps_entity q) = Inr prot \<and> record_hidden prot s q c q')"

lemma mask_position_hidden:
  assumes "mask_position rg p protected q g = Inr ((q', c), g')" and "protected_sets on = Inr protected"
  shows "position_hidden on q c q' \<and> same_links q q'"
proof (cases "\<not> ps_attended q \<or> ps_entity q = pad_entity_index")
  case True
  with assms(1) show ?thesis by (auto simp: mask_position_def position_hidden_def same_links_def)
next
  case False
  with assms(1) obtain s prot where sp: "dict_get entity_field_schemas (entity_type_vocab ! ps_entity q) = Some s"
      "dict_get protected (entity_type_vocab ! ps_entity q) = Some prot" "mask_record rg p prot s q g = ((q', c), g')"
    by (auto simp: mask_position_def Let_def split: if_splits option.splits)
  from mask_record_hidden [OF sp(3)] protected_sets_get [OF assms(2) sp(2)] sp(1) show ?thesis
    by (auto simp: position_hidden_def)
qed

subsection \<open>What corruption does\<close>

lemma corrupt_links_result:
  assumes "corrupt_links rg p qs todo (out, labels) g = ((out', labels'), g')" and "rng_ok rg" and "distinct todo"
    and "set todo \<subseteq> {..<length out}" and "length labels = length out"
  shows "length out' = length out \<and> length labels' = length labels \<and>
    (\<forall>s < length out. s \<notin> set todo \<longrightarrow> out' ! s = out ! s \<and> labels' ! s = labels ! s) \<and>
    (\<forall>s \<in> set todo. if labels' ! s then out' ! s = out ! s
       else \<exists>r \<in> set (cross_entity_candidates qs s). out' ! s = swap_content (out ! s) (qs ! r))"
  using assms
proof (induction todo arbitrary: out labels g)
  case (Cons s todo)
  obtain r g1 where g1: "rg_random rg g = (r, g1)" by (cases "rg_random rg g")
  show ?case
  proof (cases "r \<ge> p \<or> cross_entity_candidates qs s = []")
    case True
    with Cons.prems(1) g1 have step: "corrupt_links rg p qs todo (out, labels[s := True]) g1 = ((out', labels'), g')" by simp
    have "length out' = length out \<and> length labels' = length (labels[s := True]) \<and>
      (\<forall>i < length out. i \<notin> set todo \<longrightarrow> out' ! i = out ! i \<and> labels' ! i = labels[s := True] ! i) \<and>
      (\<forall>i \<in> set todo. if labels' ! i then out' ! i = out ! i
         else \<exists>r \<in> set (cross_entity_candidates qs i). out' ! i = swap_content (out ! i) (qs ! r))"
      by (rule Cons.IH [OF step Cons.prems(2)]) (use Cons.prems in auto)
    with Cons.prems(3-5) show ?thesis by (auto simp: nth_list_update)
  next
    case False
    obtain k g2 where k: "rg_choice rg (cross_entity_candidates qs s) g1 = (k, g2)" by (cases "rg_choice rg (cross_entity_candidates qs s) g1")
    from Cons.prems(2) False k have mem: "k \<in> set (cross_entity_candidates qs s)"
      unfolding rng_ok_def by (metis fst_conv)
    let ?out = "out[s := swap_content (out ! s) (qs ! k)]"
    from Cons.prems(1) g1 k False have step: "corrupt_links rg p qs todo (?out, labels[s := False]) g2 = ((out', labels'), g')" by simp
    have "length out' = length ?out \<and> length labels' = length (labels[s := False]) \<and>
      (\<forall>i < length ?out. i \<notin> set todo \<longrightarrow> out' ! i = ?out ! i \<and> labels' ! i = labels[s := False] ! i) \<and>
      (\<forall>i \<in> set todo. if labels' ! i then out' ! i = ?out ! i
         else \<exists>r \<in> set (cross_entity_candidates qs i). out' ! i = swap_content (?out ! i) (qs ! r))"
      by (rule Cons.IH [OF step Cons.prems(2)]) (use Cons.prems in auto)
    moreover have "?out ! i = out ! i" if "i \<in> set todo" for i using that Cons.prems(3) by (metis distinct.simps(2) nth_list_update_neq)
    ultimately show ?thesis using Cons.prems(3-5) mem by (auto simp: nth_list_update)
  qed
qed simp

lemma related_positions_mem:
  "s \<in> set (related_positions qs) \<longleftrightarrow> s < length qs \<and> ps_attended (qs ! s) \<and> ps_relationship (qs ! s) \<noteq> target_relationship_index"
  by (auto simp: related_positions_def real_positions_def)

lemma distinct_related_positions [simp]: "distinct (related_positions qs)"
  by (simp add: related_positions_def real_positions_def)

subsection \<open>What the pairs are\<close>

definition groups_ok :: "position list \<Rightarrow> nat set \<Rightarrow> (nat, nat list) dict \<Rightarrow> bool" where
  "groups_ok qs R d \<longleftrightarrow> (\<forall>e xs. (e, xs) \<in> set d \<longrightarrow> distinct xs \<and> set xs \<subseteq> R \<and> (\<forall>s \<in> set xs. ps_entity (qs ! s) = e))"

lemma dict_put_mem: "(k, v) \<in> set (dict_put a b d) \<Longrightarrow> (k, v) = (a, b) \<or> (k, v) \<in> set d"
  by (induction a b d rule: dict_put.induct) (auto split: if_splits)

lemma group_by_entity_ok:
  assumes "groups_ok qs R d" and "distinct ss" and "set ss \<inter> R = {}"
  shows "groups_ok qs (R \<union> set ss) (group_by_entity qs ss d)"
  using assms
proof (induction ss arbitrary: d R)
  case (Cons s ss)
  let ?xs = "case dict_get d (ps_entity (qs ! s)) of None \<Rightarrow> [] | Some xs \<Rightarrow> xs"
  have xs: "distinct ?xs \<and> set ?xs \<subseteq> R \<and> (\<forall>i \<in> set ?xs. ps_entity (qs ! i) = ps_entity (qs ! s))"
    using Cons.prems(1) by (auto simp: groups_ok_def dict_get_def dest!: map_of_SomeD split: option.split)
  have "groups_ok qs (insert s R) (dict_put (ps_entity (qs ! s)) (?xs @ [s]) d)"
    unfolding groups_ok_def
  proof (intro allI impI)
    fix e ys assume "(e, ys) \<in> set (dict_put (ps_entity (qs ! s)) (?xs @ [s]) d)"
    from dict_put_mem [OF this] consider "e = ps_entity (qs ! s)" "ys = ?xs @ [s]" | "(e, ys) \<in> set d" by blast
    then show "distinct ys \<and> set ys \<subseteq> insert s R \<and> (\<forall>i \<in> set ys. ps_entity (qs ! i) = e)"
    proof cases
      case 1
      with xs Cons.prems(3) show ?thesis by auto
    next
      case 2
      with Cons.prems(1) show ?thesis unfolding groups_ok_def by blast
    qed
  qed
  moreover from Cons.prems have "distinct ss" "set ss \<inter> insert s R = {}" by auto
  ultimately have "groups_ok qs (insert s R \<union> set ss) (group_by_entity qs ss (dict_put (ps_entity (qs ! s)) (?xs @ [s]) d))"
    by (rule Cons.IH)
  then show ?case by simp
qed simp

definition pair_ok :: "position list \<Rightarrow> position list \<Rightarrow> nat set \<Rightarrow> nat \<times> nat \<times> bool \<Rightarrow> bool" where
  "pair_ok qs out R x \<longleftrightarrow> (case x of (a, b, before) \<Rightarrow> a \<noteq> b \<and> a \<in> R \<and> b \<in> R \<and> ps_entity (qs ! a) = ps_entity (qs ! b) \<and>
     shown_time (out ! a) \<noteq> None \<and> shown_time (out ! b) \<noteq> None \<and> (before \<longleftrightarrow> year_of (qs ! a) < year_of (qs ! b)))"

lemma rng_sampled:
  assumes "rng_ok rg" and "rg_sample rg xs h = ((a, b), h')" and "2 \<le> length xs" and "distinct xs"
  shows "a \<in> set xs \<and> b \<in> set xs \<and> a \<noteq> b"
  using assms(1) [unfolded rng_ok_def, THEN conjunct2, THEN spec, THEN spec, of xs h] assms(2-4) by simp

lemma temporal_pairs_ok:
  assumes "rng_ok rg" and "\<forall>xs \<in> set groups. distinct xs \<and> set xs \<subseteq> R \<and> (\<exists>e. \<forall>s \<in> set xs. ps_entity (qs ! s) = e)"
  shows "\<forall>x \<in> set (fst (temporal_pairs_of rg p qs out groups g)). pair_ok qs out R x"
  using assms(2)
proof (induction groups arbitrary: g)
  case (Cons xs groups)
  let ?c = "filter (\<lambda>s. shown_time (out ! s) \<noteq> None) xs"
  have sampled: "pair_ok qs out R (a, b, year_of (qs ! a) < year_of (qs ! b))"
    if "rg_sample rg ?c h = ((a, b), h')" "2 \<le> length ?c" for a b h h'
  proof -
    from Cons.prems have "distinct ?c" by simp
    from rng_sampled [OF assms(1) that(1,2) this] have "a \<in> set ?c \<and> b \<in> set ?c \<and> a \<noteq> b" .
    with Cons.prems show ?thesis by (auto simp: pair_ok_def)
  qed
  have ih: "\<And>g. \<forall>x \<in> set (fst (temporal_pairs_of rg p qs out groups g)). pair_ok qs out R x"
    by (rule Cons.IH) (use Cons.prems in auto)
  define c where "c = ?c"
  have step: "temporal_pairs_of rg p qs out (xs # groups) g =
      (if length c < 2 then temporal_pairs_of rg p qs out groups g
       else (case rg_random rg g of (r, g1) \<Rightarrow>
         (if r > p then temporal_pairs_of rg p qs out groups g1
          else (case rg_sample rg c g1 of ((a, b), g2) \<Rightarrow>
            (case temporal_pairs_of rg p qs out groups g2 of (ps, g3) \<Rightarrow>
               ((a, b, year_of (qs ! a) < year_of (qs ! b)) # ps, g3))))))"
    by (simp only: temporal_pairs_of.simps Let_def c_def)
  obtain r g1 where g1: "rg_random rg g = (r, g1)" by (cases "rg_random rg g")
  obtain a b g2 where g2: "rg_sample rg c g1 = ((a, b), g2)" by (metis prod.exhaust)
  obtain ps g3 where g3: "temporal_pairs_of rg p qs out groups g2 = (ps, g3)" by (metis prod.exhaust)
  from ih [of g2] have "\<forall>x \<in> set ps. pair_ok qs out R x" by (simp only: g3 fst_conv)
  with ih sampled [of g1 a b g2, folded c_def, OF g2] show ?case unfolding step by (simp add: g1 g2 g3)
qed simp

subsection \<open>One example, and the batch\<close>

definition content_of :: "position \<Rightarrow> rat option list \<times> int option list \<times> (rat \<times> rat \<times> rat) option list" where
  "content_of q = (ps_numeric q, ps_categorical q, ps_datetime q)"

text \<open>
  What a prepared example owes the one it was made from: places keep their links; a place whose
  link is not corrupted shows its own record with the targets hidden, each of them observed and
  unprotected; a corrupted place is a related one and shows, as it was before masking, the
  record of another related place of another entity; and pairs are about two such places of
  one entity that show a time.
\<close>

definition example_ok :: "ontology \<Rightarrow> position list \<Rightarrow> pretraining_example \<Rightarrow> bool" where
  "example_ok on qs x \<longleftrightarrow>
     length (pt_positions x) = length qs \<and> length (pt_cells x) = length qs \<and> length (pt_links x) = length qs \<and> length (pt_genuine x) = length qs \<and>
     (\<forall>s < length qs. same_links (qs ! s) (pt_positions x ! s) \<and>
        (pt_links x ! s \<longleftrightarrow> s \<in> set (related_positions qs)) \<and> (pt_genuine x ! s \<longrightarrow> pt_links x ! s) \<and>
        (\<exists>q'. position_hidden on (qs ! s) (pt_cells x ! s) q' \<and>
          (if pt_links x ! s \<and> \<not> pt_genuine x ! s
           then \<exists>r \<in> set (cross_entity_candidates qs s). content_of (pt_positions x ! s) = content_of (qs ! r)
           else pt_positions x ! s = q'))) \<and>
     (\<forall>y \<in> set (pt_pairs x). pair_ok qs (pt_positions x) (set (related_positions qs)) y)"

lemma pretrain_example_ok:
  assumes "pretrain_example rg cfg protected qs g = Inr (x, g')" and "protected_sets on = Inr protected" and "rng_ok rg"
  shows "example_ok on qs x"
proof -
  from assms(1) obtain ys g1 where m: "mask_positions rg (mk_mask cfg) protected qs g = Inr (ys, g1)"
    unfolding pretrain_example_def rbind_Inr_iff by auto
  obtain out labels g2 where c: "corrupt_links rg (mk_link cfg) qs (related_positions qs) (map fst ys, map (\<lambda>_. False) qs) g1 = ((out, labels), g2)"
    by (metis prod.exhaust)
  obtain pairs g3 where t: "temporal_pairs_of rg (mk_temporal cfg) qs out (map snd (group_by_entity qs (related_positions qs) [])) g2 = (pairs, g3)"
    by (metis prod.exhaust)
  from assms(1) have x: "x = \<lparr>pt_positions = out, pt_cells = map snd ys, pt_links = map (\<lambda>s. s \<in> set (related_positions qs)) [0..<length qs],
      pt_genuine = labels, pt_pairs = pairs\<rparr>"
    by (simp add: pretrain_example_def m c t)
  from mask_positions_nth [OF m] have len: "length ys = length qs" by simp
  have hid: "position_hidden on (qs ! s) (snd (ys ! s)) (fst (ys ! s)) \<and> same_links (qs ! s) (fst (ys ! s))" if "s < length qs" for s
  proof -
    from mask_positions_nth [OF m] that obtain h h' where "mask_position rg (mk_mask cfg) protected (qs ! s) h = Inr (ys ! s, h')" by blast
    then have "mask_position rg (mk_mask cfg) protected (qs ! s) h = Inr ((fst (ys ! s), snd (ys ! s)), h')" by simp
    from mask_position_hidden [OF this assms(2)] show ?thesis .
  qed
  have cor: "length out = length qs \<and> length labels = length qs \<and>
    (\<forall>s < length qs. s \<notin> set (related_positions qs) \<longrightarrow> out ! s = map fst ys ! s \<and> \<not> labels ! s) \<and>
    (\<forall>s \<in> set (related_positions qs). if labels ! s then out ! s = map fst ys ! s
       else \<exists>r \<in> set (cross_entity_candidates qs s). out ! s = swap_content (map fst ys ! s) (qs ! r))"
  proof -
    have "set (related_positions qs) \<subseteq> {..<length (map fst ys)}" using len by (auto simp: related_positions_mem)
    from corrupt_links_result [OF c assms(3) _ this] len show ?thesis by simp
  qed
  have gr: "groups_ok qs (set (related_positions qs)) (group_by_entity qs (related_positions qs) [])"
    using group_by_entity_ok [of qs "{}" "[]" "related_positions qs"] by (simp add: groups_ok_def)
  have "\<forall>y \<in> set pairs. pair_ok qs out (set (related_positions qs)) y"
    using temporal_pairs_ok [OF assms(3), of "map snd (group_by_entity qs (related_positions qs) [])" "set (related_positions qs)" qs
        "mk_temporal cfg" out g2] gr t by (fastforce simp: groups_ok_def)
  moreover have places: "same_links (qs ! s) (out ! s) \<and> (labels ! s \<longrightarrow> s \<in> set (related_positions qs)) \<and>
      (\<exists>q'. position_hidden on (qs ! s) (snd (ys ! s)) q' \<and>
        (if s \<in> set (related_positions qs) \<and> \<not> labels ! s
         then \<exists>r \<in> set (cross_entity_candidates qs s). content_of (out ! s) = content_of (qs ! r) else out ! s = q'))"
    if "s < length qs" for s
  proof (cases "s \<in> set (related_positions qs) \<and> \<not> labels ! s")
    case True
    with cor obtain r where "r \<in> set (cross_entity_candidates qs s)" "out ! s = swap_content (map fst ys ! s) (qs ! r)" by metis
    with True hid [OF that] that len show ?thesis by (auto simp: swap_content_def content_of_def same_links_def)
  next
    case False
    with cor that have "out ! s = map fst ys ! s" by metis
    with that len have same: "out ! s = fst (ys ! s)" by simp
    from cor that have lab: "labels ! s \<longrightarrow> s \<in> set (related_positions qs)" by metis
    from hid [OF that] have h: "position_hidden on (qs ! s) (snd (ys ! s)) (fst (ys ! s))" "same_links (qs ! s) (fst (ys ! s))" by simp_all
    show ?thesis unfolding if_not_P [OF False] same by (intro conjI exI [of _ "fst (ys ! s)"]) (use h lab in auto)
  qed
  ultimately have pairs_ok: "\<forall>y \<in> set pairs. pair_ok qs out (set (related_positions qs)) y" by blast
  have lens: "length out = length qs" "length labels = length qs" "length (map snd ys) = length qs" using cor len by simp_all
  have links: "map (\<lambda>s. s \<in> set (related_positions qs)) [0..<length qs] ! s \<longleftrightarrow> s \<in> set (related_positions qs)" if "s < length qs" for s
    using that by simp
  have cells: "map snd ys ! s = snd (ys ! s)" if "s < length qs" for s using that len by simp
  show ?thesis unfolding example_ok_def x pretraining_example.simps
  proof (intro conjI allI impI)
    fix s assume s: "s < length qs"
    from places [OF s] show "same_links (qs ! s) (out ! s)" by blast
    from links [OF s] show "map (\<lambda>s. s \<in> set (related_positions qs)) [0..<length qs] ! s \<longleftrightarrow> s \<in> set (related_positions qs)" .
    from places [OF s] show "map (\<lambda>s. s \<in> set (related_positions qs)) [0..<length qs] ! s" if "labels ! s" unfolding links [OF s] using that by blast
    from places [OF s] show "\<exists>q'. position_hidden on (qs ! s) (map snd ys ! s) q' \<and>
        (if map (\<lambda>s. s \<in> set (related_positions qs)) [0..<length qs] ! s \<and> \<not> labels ! s
         then \<exists>r \<in> set (cross_entity_candidates qs s). content_of (out ! s) = content_of (qs ! r) else out ! s = q')"
      unfolding links [OF s] cells [OF s] by blast
  qed (use lens pairs_ok in simp_all)
qed

lemma pretrain_examples_ok:
  assumes "pretrain_examples rg cfg protected batch g = Inr xs" and "protected_sets on = Inr protected" and "rng_ok rg"
  shows "list_all2 (example_ok on) batch xs"
  using assms(1)
proof (induction batch arbitrary: g xs)
  case (Cons qs batch)
  then show ?case using pretrain_example_ok [OF _ assms(2,3)] by (auto split: prod.splits)
qed simp

lemma position_hidden_numeric:
  assumes "position_hidden on q c q'" and "k < length (ps_numeric q)" and "ct_numeric c ! k"
  shows "ps_numeric q ! k \<noteq> None"
  using assms by (auto simp: position_hidden_def no_targets_def record_hidden_def hidden_def)

text \<open>
  C36: what pretraining asks for is honest, but the question can hold the answer. In a batch that
  is built, a cell to be reconstructed was observed and belongs to no field that the ontology
  marks as a business identifier; a place whose link is not corrupted shows exactly its own cells,
  with the targets missing and everything else as it was; the target record is never corrupted,
  and pairs are of two related records of one entity, each with a time to be seen, ordered by
  their original times. A corrupted place shows the record of another related place as it was
  before masking, so the value of every target there can be read off it.
\<close>

theorem pretraining_targets_are_honest:
  assumes "build_pretraining_batch rg cfg on batch = Inr xs" and "rng_ok rg" and "i < length batch"
    and "qs = batch ! i" and "x = xs ! i"
  shows "length xs = length batch \<and> example_ok on qs x \<and>
    (\<forall>s < length qs. ps_relationship (qs ! s) = target_relationship_index \<longrightarrow> position_hidden on (qs ! s) (pt_cells x ! s) (pt_positions x ! s)) \<and>
    (\<forall>s < length qs. pt_links x ! s \<and> \<not> pt_genuine x ! s \<longrightarrow>
      (\<exists>r \<in> set (cross_entity_candidates qs s).
        (\<forall>k < length (ps_numeric (qs ! r)). ct_numeric (pt_cells x ! r) ! k \<longrightarrow>
          ps_numeric (pt_positions x ! s) ! k = ps_numeric (qs ! r) ! k \<and> ps_numeric (qs ! r) ! k \<noteq> None)))"
proof -
  from assms(1) obtain protected where p: "protected_sets on = Inr protected"
      and b: "pretrain_examples rg cfg protected batch (rg_seed rg (mk_seed cfg)) = Inr xs"
    by (auto simp: build_pretraining_batch_def)
  from pretrain_examples_ok [OF b p assms(2)] have all: "list_all2 (example_ok on) batch xs" .
  from all have len: "length xs = length batch" by (simp add: list_all2_lengthD)
  from all assms(3-5) have ok: "example_ok on qs x" by (simp add: list_all2_nthD)
  have target: "position_hidden on (qs ! s) (pt_cells x ! s) (pt_positions x ! s)"
    if "s < length qs" "ps_relationship (qs ! s) = target_relationship_index" for s
  proof -
    from that(2) have "s \<notin> set (related_positions qs)" by (simp add: related_positions_mem)
    with ok that(1) show ?thesis by (auto simp: example_ok_def)
  qed
  have leak: "\<exists>r \<in> set (cross_entity_candidates qs s).
        (\<forall>k < length (ps_numeric (qs ! r)). ct_numeric (pt_cells x ! r) ! k \<longrightarrow>
          ps_numeric (pt_positions x ! s) ! k = ps_numeric (qs ! r) ! k \<and> ps_numeric (qs ! r) ! k \<noteq> None)"
    if "s < length qs" "pt_links x ! s \<and> \<not> pt_genuine x ! s" for s
  proof -
    from ok that obtain r where r: "r \<in> set (cross_entity_candidates qs s)" "content_of (pt_positions x ! s) = content_of (qs ! r)"
      unfolding example_ok_def by (metis (no_types, lifting))
    from r(1) have rl: "r < length qs"
      by (simp_all add: cross_entity_candidates_def related_positions_mem)
    from ok rl obtain q' where q: "position_hidden on (qs ! r) (pt_cells x ! r) q'" unfolding example_ok_def by blast
    have "ps_numeric (qs ! r) ! k \<noteq> None" if "k < length (ps_numeric (qs ! r))" "ct_numeric (pt_cells x ! r) ! k" for k
      using position_hidden_numeric [OF q that] .
    with r show ?thesis by (auto simp: content_of_def)
  qed
  from len ok target leak show ?thesis by blast
qed

text \<open>
  A random source that always draws 0 and takes the first elements, an ontology in which the
  identifiers are protected, and an example of a trip, a vehicle and a delivery.
\<close>

definition first_rng :: "nat rng" where
  "first_rng = \<lparr>rg_seed = nat, rg_random = (\<lambda>g. (0, g + 1)), rg_choice = (\<lambda>xs g. (hd xs, g + 1)),
     rg_sample = (\<lambda>xs g. ((xs ! 0, xs ! 1), g + 1))\<rparr>"

lemma first_rng_ok: "rng_ok first_rng"
proof -
  have "xs ! 0 \<in> set xs \<and> xs ! 1 \<in> set xs \<and> xs ! 0 \<noteq> xs ! 1" if "2 \<le> length xs" "distinct xs" for xs :: "nat list"
    using that by (cases xs; cases "tl xs") auto
  then show ?thesis by (simp add: rng_ok_def first_rng_def)
qed

definition identifier_field :: "string \<Rightarrow> ontology_field" where
  "identifier_field n = \<lparr>of_name = n, of_type = T_STRING, of_unit = None, of_enum = None, of_classification = INTERNAL,
     of_required = False, of_identifier = True\<rparr>"

definition fleet_ontology :: ontology where
  "fleet_ontology = \<lparr>on_version = ''1'', on_entities = map (\<lambda>n. \<lparr>oe_name = n, oe_domain = ''fleet'',
     oe_fields = [identifier_field ''vehicle_id''], oe_relationships = []\<rparr>) (map fst entity_field_schemas)\<rparr>"

definition pretraining_positions :: "position list" where
  "pretraining_positions =
     [padding\<lparr>ps_entity := 1, ps_relationship := 1, ps_attended := True, ps_numeric := [Some 12, None],
        ps_categorical := [Some 3, None, None, Some 5]\<rparr>,
      padding\<lparr>ps_entity := 2, ps_relationship := 2, ps_attended := True, ps_numeric := [Some 2015, None]\<rparr>,
      padding\<lparr>ps_entity := 7, ps_relationship := 5, ps_attended := True\<rparr>]"

theorem pretraining_targets_are_honest_witness:
  "\<exists>x. build_pretraining_batch first_rng default_masking fleet_ontology [pretraining_positions] = Inr [x] \<and>
    ct_numeric (pt_cells x ! 1) ! 0 \<and> \<not> ct_categorical (pt_cells x ! 0) ! 3 \<and> \<not> pt_genuine x ! 2 \<and>
    ps_numeric (pt_positions x ! 2) ! 0 = ps_numeric (pretraining_positions ! 1) ! 0"
proof -
  let ?b = "build_pretraining_batch first_rng default_masking fleet_ontology [pretraining_positions]"
  have "(case ?b of Inr [x] \<Rightarrow> ct_numeric (pt_cells x ! 1) ! 0 \<and> \<not> ct_categorical (pt_cells x ! 0) ! 3 \<and> pt_links x ! 2 \<and> \<not> pt_genuine x ! 2
      | _ \<Rightarrow> False)"
    by code_simp
  then obtain x where b: "?b = Inr [x]" and x: "ct_numeric (pt_cells x ! 1) ! 0" "\<not> ct_categorical (pt_cells x ! 0) ! 3"
      "pt_links x ! 2" "\<not> pt_genuine x ! 2"
    by (auto split: sum.splits list.splits)
  have two: "2 < length pretraining_positions" and one: "0 < length (ps_numeric (pretraining_positions ! 1))"
    and only: "cross_entity_candidates pretraining_positions 2 = [1]" by code_simp+
  have "0 < length [pretraining_positions]" by simp
  from pretraining_targets_are_honest [OF b first_rng_ok this refl refl] x two
  have "\<exists>r \<in> set (cross_entity_candidates pretraining_positions 2). \<forall>k < length (ps_numeric (pretraining_positions ! r)).
      ct_numeric (pt_cells x ! r) ! k \<longrightarrow> ps_numeric (pt_positions x ! 2) ! k = ps_numeric (pretraining_positions ! r) ! k"
    by fastforce
  with only one x(1) have "ps_numeric (pt_positions x ! 2) ! 0 = ps_numeric (pretraining_positions ! 1) ! 0" by simp
  with b x show ?thesis by blast
qed

end
