(* ===== verification/Adaptation.thy ===== *)
theory Adaptation
  imports Training Pretraining
begin

section \<open>Pretraining runs and tenant adapters\<close>

text \<open>
  \<open>hermes_rpt/models/transformer/{pretraining_training,adapter_training}.py\<close> and the tasks of
  \<open>apps/trainer/main.py\<close> that run them. As in training, the networks are handles: a step of
  gradient descent, the fit of an adapter on a frozen backbone, the probabilities, and loading and
  saving a checkpoint (which answers with the bytes that are then hashed) are parameters.
\<close>

subsection \<open>Pretraining\<close>

record 'w pretraining_env =
  pv_init :: "hermes_config \<Rightarrow> ('w, nat) operation"
  pv_step :: "nat \<Rightarrow> pretraining_example list \<Rightarrow> ('w, nat) operation"
  pv_save :: "nat \<Rightarrow> string \<Rightarrow> ('w, string) operation"
  pv_log :: "nat \<Rightarrow> string \<Rightarrow> ('w, string) operation"
  pv_onto :: ontology

record pretraining_result =
  pr_backbone :: nat
  pr_path :: string
  pr_checksum :: string
  pr_run :: string

definition epoch_masking :: "masking_config \<Rightarrow> nat \<Rightarrow> masking_config" where
  "epoch_masking cfg epoch = cfg\<lparr>mk_seed := mk_seed cfg + int epoch\<rparr>"

text \<open>The epochs that are left, the number of the next one, and the network so far.\<close>

fun pretrain_epochs ::
  "'w pretraining_env \<Rightarrow> 'g rng \<Rightarrow> masking_config \<Rightarrow> position list list \<Rightarrow> nat \<Rightarrow> nat \<Rightarrow> nat \<Rightarrow> ('w, nat) operation" where
  "pretrain_epochs pv rg cfg batch 0 epoch h w = (Inr h, w)"
| "pretrain_epochs pv rg cfg batch (Suc n) epoch h w =
     (case build_pretraining_batch rg (epoch_masking cfg epoch) (pv_onto pv) batch of
        Inl e \<Rightarrow> (Inl e, w)
      | Inr masked \<Rightarrow>
          (case pv_step pv h masked w of
             (Inl e, w1) \<Rightarrow> (Inl e, w1)
           | (Inr h', w1) \<Rightarrow> pretrain_epochs pv rg cfg batch n (Suc epoch) h' w1))"

definition pretrain ::
  "'w hermes_env \<Rightarrow> 'w pretraining_env \<Rightarrow> 'g rng \<Rightarrow> hermes_config \<Rightarrow> tenant_context \<Rightarrow> string \<Rightarrow> masking_config option \<Rightarrow>
   nat \<Rightarrow> int \<Rightarrow> built_dataset \<Rightarrow> 'z map_db_scheme \<times> 'w \<Rightarrow> (exn + pretraining_result) \<times> ('z map_db_scheme \<times> 'w)" where
  "pretrain hv pv rg hc ctx dir masking epochs seed bd dbw =
     (case dbw of (db0, w) \<Rightarrow>
      let cfg = (case masking of None \<Rightarrow> default_masking\<lparr>mk_seed := seed\<rparr> | Some c \<Rightarrow> c);
          path = dir @ ''/hermes_rpt_'' @ hc_name hc @ ''_pretrained_backbone.pt''
      in case build_examples (context_env.truncate hv) (sl_train (bd_splits bd)) ctx (hc_records hc) db0 of
           (Inl e, db) \<Rightarrow> (Inl e, (db, w))
         | (Inr train, db) \<Rightarrow>
             attempt (encode_batch (xe_conv hv) (hv_str hv) (hv_digest hv) (hc_records hc) (hc_vocab hc) train) (db, w) (\<lambda>train_batch.
             (case pv_init pv hc w of (Inl e, w1) \<Rightarrow> (Inl e, (db, w1)) | (Inr h0, w1) \<Rightarrow>
             (case pretrain_epochs pv rg cfg (eb_examples train_batch) epochs 0 h0 w1 of (Inl e, w2) \<Rightarrow> (Inl e, (db, w2)) | (Inr h, w2) \<Rightarrow>
             (case pv_save pv h path w2 of (Inl e, w3) \<Rightarrow> (Inl e, (db, w3)) | (Inr bytes, w3) \<Rightarrow>
             (case pv_log pv h path w3 of (Inl e, w4) \<Rightarrow> (Inl e, (db, w4)) | (Inr run, w4) \<Rightarrow>
               (Inr \<lparr>pr_backbone = h, pr_path = path, pr_checksum = ms_sha (hv_store hv) bytes, pr_run = run\<rparr>, (db, w4))))))))"

text \<open>
  The task: baselines, pretraining, the transformer from scratch and from the pretrained
  backbone, each committed on its own, and a report.
\<close>

definition run_pretrain ::
  "'w training_env \<Rightarrow> 'w hermes_env \<Rightarrow> 'w pretraining_env \<Rightarrow> 'g rng \<Rightarrow> string \<Rightarrow> tenant_context \<Rightarrow> built_dataset \<Rightarrow>
   (baseline_model_type \<Rightarrow> uuid) \<Rightarrow> uuid \<Rightarrow> uuid \<Rightarrow>
   'z pred_db_scheme \<times> 'w \<Rightarrow> (exn + comparison_report) \<times> ('z pred_db_scheme \<times> 'w)" where
  "run_pretrain tv hv pv rg dir ctx bd fresh_of fresh1 fresh2 dbw =
     (let key = fc_task delivery_delay_risk_contract
      in case train_baselines tv ctx bd (map (\<lambda>t. (t, fresh_of t)) baseline_model_types) dbw of
           (Inl e, s) \<Rightarrow> (Inl e, s)
         | (Inr results, s1) \<Rightarrow>
      (case pretrain hv pv rg tiny ctx (dir @ ''/pretrain-checkpoints'') None 60 42 bd s1 of
           (Inl e, (_, w2)) \<Rightarrow> (Inl e, (fst s1, w2))
         | (Inr pre, s2) \<Rightarrow>
      (case train_hermes hv tiny ctx key None fresh1 bd s2 of
           (Inl e, (_, w3)) \<Rightarrow> (Inl e, (fst s2, w3))
         | (Inr scratch, s3) \<Rightarrow>
      (case train_hermes hv tiny ctx key (Some (pr_backbone pre)) fresh2 bd s3 of
           (Inl e, (_, w4)) \<Rightarrow> (Inl e, (fst s3, w4))
         | (Inr pretrained, s4) \<Rightarrow>
             attempt (build_comparison_report (results @ [scratch, pretrained])) s4 (\<lambda>report. (Inr report, s4))))))"

subsection \<open>Adapters\<close>

record adapter_result =
  ar_metrics :: evaluation_metrics
  ar_run :: string
  ar_adapter :: uuid
  ar_checksum :: string
  ar_path :: string

record 'w adapter_env =
  dv_uuid :: "uuid \<Rightarrow> string"
  dv_load :: "string \<Rightarrow> ('w, nat) operation"
  dv_fit :: "hermes_config \<Rightarrow> nat \<Rightarrow> position list list \<Rightarrow> int list \<Rightarrow> ('w, nat) operation"
  dv_proba :: "nat \<Rightarrow> nat \<Rightarrow> position list list \<Rightarrow> exn + rat list"
  dv_save :: "nat \<Rightarrow> string \<Rightarrow> ('w, string) operation"
  dv_log :: "nat \<Rightarrow> string \<Rightarrow> ('w, string) operation"

definition adapter_path :: "'w adapter_env \<Rightarrow> string \<Rightarrow> tenant_context \<Rightarrow> hermes_config \<Rightarrow> string" where
  "adapter_path dv dir ctx hc = dir @ ''/'' @ dv_uuid dv (tc_tenant ctx) @ ''/adapter_'' @ hc_name hc @ ''.pt''"

definition adapter_row :: "uuid \<Rightarrow> tenant_context \<Rightarrow> model_version \<Rightarrow> string \<Rightarrow> string \<Rightarrow> string \<Rightarrow> model_adapter" where
  "adapter_row fresh ctx base run path digest_sum =
     \<lparr>row_id = fresh, row_tenant = Some (tc_tenant ctx), ma_base = row_id base, ma_name = mo_name base @ ''-adapter'',
       ma_label = take 12 run, ma_stage = CANDIDATE, ma_uri = path, ma_checksum = digest_sum,
       ma_ontology = mo_ontology base, ma_contract = mo_contract base, ma_live = True\<rparr>"

definition train_adapter ::
  "'w hermes_env \<Rightarrow> 'w adapter_env \<Rightarrow> built_dataset \<Rightarrow> model_version \<Rightarrow> nat \<Rightarrow> hermes_config \<Rightarrow> tenant_context \<Rightarrow> string \<Rightarrow> uuid \<Rightarrow>
   'z reg_db_scheme \<times> 'w \<Rightarrow> (exn + adapter_result) \<times> ('z reg_db_scheme \<times> 'w)" where
  "train_adapter hv dv bd base backbone hc ctx dir fresh dbw =
     (case dbw of (db0, w) \<Rightarrow>
      let path = adapter_path dv dir ctx hc
      in case split_batches hv hc ctx bd db0 of (Inl e, db) \<Rightarrow> (Inl e, (db, w)) | (Inr (train_batch, val_batch, test_batch, y), db) \<Rightarrow>
         (case dv_fit dv hc backbone (eb_examples train_batch) y w of (Inl e, w1) \<Rightarrow> (Inl e, (db, w1)) | (Inr h, w1) \<Rightarrow>
            attempt (evaluate_batches (hv_sk hv) val_batch (dv_proba dv backbone h (eb_examples val_batch))
              test_batch (dv_proba dv backbone h (eb_examples test_batch))) (db, w1) (\<lambda>metrics.
            (case dv_save dv h path w1 of (Inl e, w2) \<Rightarrow> (Inl e, (db, w2)) | (Inr bytes, w2) \<Rightarrow>
            (case dv_log dv h path w2 of (Inl e, w3) \<Rightarrow> (Inl e, (db, w3)) | (Inr run, w3) \<Rightarrow>
            (case register_adapter_candidate (adapter_row fresh ctx base run path (ms_sha (hv_store hv) bytes)) base ctx db of
               (Inl e, db') \<Rightarrow> (Inl e, (db', w3))
             | (Inr a, db') \<Rightarrow>
                 (Inr \<lparr>ar_metrics = metrics, ar_run = run, ar_adapter = row_id a, ar_checksum = ms_sha (hv_store hv) bytes,
                    ar_path = path\<rparr>, (db', w3))))))))"

text \<open>An exception ends the process; what the session had committed before stays.\<close>

definition promote_adapter ::
  "uuid \<Rightarrow> uuid \<Rightarrow> uuid \<Rightarrow> tenant_context \<Rightarrow> uuid \<Rightarrow> 'z reg_db_scheme \<Rightarrow> (exn + unit) \<times> 'z reg_db_scheme" where
  "promote_adapter task base aid ctx fresh db =
     (case transition_adapter_stage aid STAGING ctx db of (Inl e, _) \<Rightarrow> (Inl e, db) | (Inr _, db1) \<Rightarrow>
     (case transition_adapter_stage aid PRODUCTION ctx db1 of (Inl e, _) \<Rightarrow> (Inl e, db) | (Inr _, db2) \<Rightarrow>
     (case set_alias task base (Some aid) ''production'' (Some ctx) fresh db2 of (Inl e, _) \<Rightarrow> (Inl e, db) | (Inr _, db3) \<Rightarrow>
       (Inr (), db3))))"

definition train_and_promote_adapter ::
  "'w hermes_env \<Rightarrow> 'w adapter_env \<Rightarrow> uuid \<Rightarrow> uuid \<Rightarrow> nat \<Rightarrow> tenant_context \<Rightarrow> built_dataset \<Rightarrow> string \<Rightarrow> uuid \<Rightarrow> uuid \<Rightarrow>
   'z reg_db_scheme \<times> 'w \<Rightarrow> (exn + uuid \<times> evaluation_metrics) \<times> ('z reg_db_scheme \<times> 'w)" where
  "train_and_promote_adapter hv dv task base_id backbone ctx bd dir fresh fresh_alias dbw =
     (case session_get (db_models (fst dbw)) base_id of
        None \<Rightarrow> (Inl AssertionError, dbw)
      | Some base \<Rightarrow>
          (case train_adapter hv dv bd base backbone tiny ctx dir fresh dbw of
             (Inl e, (_, w1)) \<Rightarrow> (Inl e, (fst dbw, w1))
           | (Inr r, (db1, w1)) \<Rightarrow>
               (case promote_adapter task base_id (ar_adapter r) ctx fresh_alias db1 of
                  (Inl e, db2) \<Rightarrow> (Inl e, (db2, w1))
                | (Inr _, db2) \<Rightarrow> (Inr (ar_adapter r, ar_metrics r), (db2, w1)))))"

text \<open>A model that was trained on one tenant's data becomes everybody's: shared, promoted, and aliased.\<close>

definition share_base :: "uuid \<Rightarrow> uuid \<Rightarrow> 'z reg_db_scheme \<Rightarrow> (exn + model_version) \<times> 'z reg_db_scheme" where
  "share_base mid fresh_alias db =
     (case session_get (db_models db) mid of
        None \<Rightarrow> (Inl AssertionError, db)
      | Some m \<Rightarrow>
          (case promote mid (set_model mid (\<lambda>x. x\<lparr>row_tenant := None\<rparr>) db) of (Inl e, _) \<Rightarrow> (Inl e, db) | (Inr _, db1) \<Rightarrow>
          (case set_alias (mo_task m) mid None ''production'' None fresh_alias db1 of (Inl e, _) \<Rightarrow> (Inl e, db) | (Inr _, db2) \<Rightarrow>
            (Inr m, db2))))"

text \<open>The proof of isolation: the other tenant's adapter can neither be read nor aliased. The session is not committed.\<close>

definition isolation_check :: "uuid \<Rightarrow> uuid \<Rightarrow> uuid \<Rightarrow> tenant_context \<Rightarrow> uuid \<Rightarrow> 'z reg_db_scheme \<Rightarrow> exn + unit" where
  "isolation_check task base aid ctx fresh db =
     (if repo_get (db_adapters db) aid ctx \<noteq> None then Inl AssertionError
      else (case fst (set_alias task base (Some aid) ''production'' (Some ctx) fresh db) of
              Inl e \<Rightarrow> if e = TenantMismatchError then Inr () else Inl e
            | Inr _ \<Rightarrow> Inl AssertionError))"

definition evaluate_shared_base ::
  "'w hermes_env \<Rightarrow> nat \<Rightarrow> tenant_context \<Rightarrow> built_dataset \<Rightarrow> 'z map_db_scheme \<Rightarrow> (exn + evaluation_metrics) \<times> 'z map_db_scheme" where
  "evaluate_shared_base hv h ctx bd db0 =
     (let examples = (\<lambda>rows. build_examples (context_env.truncate hv) rows ctx (hc_records tiny));
          encode = encode_batch (xe_conv hv) (hv_str hv) (hv_digest hv) (hc_records tiny) (hc_vocab tiny)
      in case examples (sl_validation (bd_splits bd)) db0 of (Inl e, db1) \<Rightarrow> (Inl e, db1) | (Inr val, db1) \<Rightarrow>
         (case examples (sl_test (bd_splits bd)) db1 of (Inl e, db) \<Rightarrow> (Inl e, db) | (Inr test, db) \<Rightarrow>
           (rbind (encode val) (\<lambda>val_batch. rbind (encode test) (\<lambda>test_batch.
            rbind (labels_of val_batch) (\<lambda>_. rbind (labels_of test_batch) (\<lambda>_.
              evaluate_batches (hv_sk hv) val_batch (hv_proba hv h (eb_examples val_batch))
                test_batch (hv_proba hv h (eb_examples test_batch)))))), db)))"

subsection \<open>The adaptation experiment\<close>

definition with_promotion :: "tenant_context \<Rightarrow> tenant_context" where
  "with_promotion ctx = \<lparr>tc_tenant = tc_tenant ctx, tc_principal = tc_principal ctx, tc_roles = {},
     tc_scopes = {''model:promote''}, tc_correlation = None, tc_principal_type = ''human''\<rparr>"

definition adapt_result :: "training_result \<Rightarrow> string \<Rightarrow> evaluation_metrics \<Rightarrow> uuid \<Rightarrow> training_result" where
  "adapt_result base_result model_type me mid =
     \<lparr>tr_type = model_type, tr_metrics = me, tr_importance = None, tr_run = tr_run base_result, tr_model = mid,
       tr_checksum = tr_checksum base_result\<rparr>"

text \<open>
  What comes after the shared base stands: an adapter for each tenant, the check, the
  evaluation of the base alone, and the report.
\<close>

definition adapt_tenants ::
  "'w hermes_env \<Rightarrow> 'w hermes_env \<Rightarrow> 'w adapter_env \<Rightarrow> string \<Rightarrow> tenant_context \<Rightarrow> tenant_context \<Rightarrow> built_dataset \<Rightarrow> built_dataset \<Rightarrow>
   (nat \<Rightarrow> uuid) \<Rightarrow> training_result \<Rightarrow> model_version \<Rightarrow> nat \<Rightarrow>
   'z reg_db_scheme \<times> 'w \<Rightarrow> (exn + comparison_report) \<times> ('z reg_db_scheme \<times> 'w)" where
  "adapt_tenants hva hvb dv dir actx bctx bda bdb fresh base_result base backbone s =
     (case train_and_promote_adapter hva dv (mo_task base) (row_id base) backbone actx bda (dir @ ''/adapters'') (fresh 2) (fresh 3) s of
        (Inl e, s1) \<Rightarrow> (Inl e, s1)
      | (Inr (aid, ame), s1) \<Rightarrow>
     (case train_and_promote_adapter hvb dv (mo_task base) (row_id base) backbone bctx bdb (dir @ ''/adapters'') (fresh 4) (fresh 5) s1 of
        (Inl e, s2) \<Rightarrow> (Inl e, s2)
      | (Inr (bid, bme), (db2, w2)) \<Rightarrow>
          attempt (isolation_check (mo_task base) (row_id base) bid actx (fresh 6) db2) (db2, w2) (\<lambda>_.
          (case evaluate_shared_base hva backbone actx bda db2 of (Inl e, db3) \<Rightarrow> (Inl e, (db3, w2)) | (Inr on_a, db3) \<Rightarrow>
          (case evaluate_shared_base hvb backbone bctx bdb db3 of (Inl e, db4) \<Rightarrow> (Inl e, (db4, w2)) | (Inr on_b, db4) \<Rightarrow>
            attempt (build_comparison_report
              [adapt_result base_result ''shared-base-only-on-alpha'' on_a (row_id base),
               adapt_result base_result ''shared-base-only-on-beta'' on_b (row_id base),
               adapt_result base_result ''shared-base+alpha-adapter'' ame aid,
               adapt_result base_result ''shared-base+beta-adapter'' bme bid]) (db4, w2) (\<lambda>report.
            (Inr report, (db4, w2))))))))"

definition run_adapt ::
  "'w hermes_env \<Rightarrow> 'w hermes_env \<Rightarrow> 'w adapter_env \<Rightarrow> string \<Rightarrow> tenant_context \<Rightarrow> tenant_context \<Rightarrow> built_dataset \<Rightarrow> built_dataset \<Rightarrow>
   (nat \<Rightarrow> uuid) \<Rightarrow> 'z pred_db_scheme \<times> 'w \<Rightarrow> (exn + comparison_report) \<times> ('z pred_db_scheme \<times> 'w)" where
  "run_adapt hva hvb dv dir alpha beta bda bdb fresh s =
     (let actx = with_promotion alpha; bctx = with_promotion beta
      in case train_hermes hva tiny actx (fc_task delivery_delay_risk_contract) None (fresh 0) bda s of
           (Inl e, (_, w1)) \<Rightarrow> (Inl e, (fst s, w1))
         | (Inr r, (db1, w1)) \<Rightarrow>
      (case share_base (tr_model r) (fresh 1) db1 of
           (Inl e, db2) \<Rightarrow> (Inl e, (db2, w1))
         | (Inr base, db2) \<Rightarrow>
      (case dv_load dv (dir @ ''/shared-base/'' @ checkpoint_name tiny) w1 of
           (Inl e, w2) \<Rightarrow> (Inl e, (db2, w2))
         | (Inr backbone, w2) \<Rightarrow>
             adapt_tenants hva hvb dv dir actx bctx bda bdb fresh r base backbone (db2, w2))))"

subsection \<open>What the experiment leaves behind\<close>

lemma same_plane_registry:
  assumes "same_plane db (db' :: 'z reg_db_scheme)"
  shows "db_models db' = db_models db" and "db_adapters db' = db_adapters db" and "db_aliases db' = db_aliases db"
proof -
  from assms obtain p where "db' = db\<lparr>db_pools := p\<rparr>" unfolding same_plane_def by blast
  then show "db_models db' = db_models db" and "db_adapters db' = db_adapters db" and "db_aliases db' = db_aliases db" by simp_all
qed

lemmas split_batches_registry = same_plane_registry [OF split_batches_plane]

definition adapter_of :: "tenant_context \<Rightarrow> model_version \<Rightarrow> model_adapter \<Rightarrow> bool" where
  "adapter_of ctx base a \<longleftrightarrow> row_tenant a = Some (tc_tenant ctx) \<and> ma_base a = row_id base \<and> ma_live a \<and>
     ma_ontology a = mo_ontology base \<and> ma_contract a = mo_contract base"

lemma train_adapter_effect:
  assumes "train_adapter hv dv bd base backbone hc ctx dir fresh (db, w) = (Inr r, (db', w'))"
  shows "\<exists>a. db_adapters db' = db_adapters db @ [a] \<and> row_id a \<notin> row_id ` set (db_adapters db) \<and> adapter_of ctx base a \<and>
    ma_stage a = CANDIDATE \<and> row_id a = ar_adapter r \<and> db_models db' = db_models db \<and> db_aliases db' = db_aliases db"
proof -
  obtain x d where e: "split_batches hv hc ctx bd db = (x, d)" by (metis prod.exhaust)
  with assms obtain run path h a w3 where
    p: "register_adapter_candidate (adapter_row fresh ctx base run path h) base ctx d = (Inr a, db')" and "ar_adapter r = row_id a"
    by (auto simp: train_adapter_def Let_def run_Inr_iff attempt_Inr_iff split: sum.split_asm)
  with split_batches_registry [OF e] show ?thesis
    by (auto simp: register_adapter_candidate_def attempt_Inr_iff repo_add_def session_add_def adapter_row_def adapter_of_def
        audit_record_def split: if_splits)
qed

lemma session_get_last: "row_id r \<notin> row_id ` set t \<Longrightarrow> row_id r = i \<Longrightarrow> session_get (t @ [r]) i = Some r"
  unfolding session_get_def by (induction t) auto

lemma row_set_last: "row_id r \<notin> row_id ` set t \<Longrightarrow> row_id r = i \<Longrightarrow> row_set (t @ [r]) i f = t @ [f r]"
  unfolding row_set_def by (induction t) auto

lemma transition_adapter_last:
  assumes "transition_adapter_stage (row_id a) st ctx db = (Inr x, db')" and "db_adapters db = as @ [a]" and "row_id a \<notin> row_id ` set as"
  shows "db_adapters db' = as @ [a\<lparr>ma_stage := st\<rparr>] \<and> db_models db' = db_models db \<and> db_aliases db' = db_aliases db"
proof -
  have "session_get (db_adapters db) (row_id a) = Some a" unfolding assms(2) by (rule session_get_last [OF assms(3) refl])
  with assms(1) have "db_adapters db' = row_set (db_adapters db) (row_id a) (\<lambda>y. y\<lparr>ma_stage := st\<rparr>)"
      "db_models db' = db_models db" "db_aliases db' = db_aliases db"
    by (auto simp: transition_adapter_stage_def attempt_Inr_iff repo_require_Inr_iff audit_record_def set_adapter_def)
  then show ?thesis by (simp add: assms(2) row_set_last [OF assms(3) refl])
qed

lemma set_alias_new:
  assumes "set_alias task mid aid name caller fresh db = (Inr al, db')" and "find_alias task name (map_option tc_tenant caller) db = Inr None"
  shows "db_models db' = db_models db \<and> db_adapters db' = db_adapters db \<and>
    db_aliases db' = db_aliases db @ [\<lparr>row_id = fresh, row_tenant = map_option tc_tenant caller, al_task = task, al_name = name,
      al_model = mid, al_adapter = aid\<rparr>]"
proof -
  from assms(1) obtain m adapter db1 e where m: "aliasable_model mid caller db = Inr m" and a: "aliasable_adapter m aid caller db = Inr adapter"
    and u: "upsert_alias task name (map_option tc_tenant caller) (row_id m) (map_option row_id adapter) fresh db = Inr (al, db1)"
    and db': "db' = audit_record e db1"
    unfolding set_alias_def point_alias_def attempt_Inr_iff by auto
  from m have "row_id m = mid" by (auto simp: aliasable_model_def dest: session_get_Some split: option.splits if_splits)
  moreover from a have "map_option row_id adapter = aid"
    by (cases aid) (auto simp: aliasable_adapter_def repo_require_Inr_iff dest: session_get_Some split: option.splits)
  ultimately show ?thesis using u assms(2) by (auto simp: db' upsert_alias_def Let_def session_add_def audit_record_def split: if_splits)
qed

lemma promote_adapter_effect:
  assumes "promote_adapter task mid (row_id a) ctx fresh db = (Inr (), db')"
    and "db_adapters db = as @ [a]" and "row_id a \<notin> row_id ` set as"
    and "find_alias task ''production'' (Some (tc_tenant ctx)) db = Inr None"
  shows "db_models db' = db_models db \<and> db_adapters db' = as @ [a\<lparr>ma_stage := PRODUCTION\<rparr>] \<and>
    db_aliases db' = db_aliases db @ [\<lparr>row_id = fresh, row_tenant = Some (tc_tenant ctx), al_task = task, al_name = ''production'',
      al_model = mid, al_adapter = Some (row_id a)\<rparr>]"
proof -
  from assms(1) obtain x1 d1 x2 d2 al where t1: "transition_adapter_stage (row_id a) STAGING ctx db = (Inr x1, d1)"
    and t2: "transition_adapter_stage (row_id a) PRODUCTION ctx d1 = (Inr x2, d2)"
    and s: "set_alias task mid (Some (row_id a)) ''production'' (Some ctx) fresh d2 = (Inr al, db')"
    by (auto simp: promote_adapter_def split: prod.splits sum.splits)
  note d1 = transition_adapter_last [OF t1 assms(2,3)]
  have d2: "db_adapters d2 = as @ [a\<lparr>ma_stage := PRODUCTION\<rparr>]" "db_models d2 = db_models db" "db_aliases d2 = db_aliases db"
    using transition_adapter_last [of "a\<lparr>ma_stage := STAGING\<rparr>" PRODUCTION ctx d1 x2 d2 as] t2 d1 assms(3) by simp_all
  have "find_alias task ''production'' (map_option tc_tenant (Some ctx)) d2 = Inr None"
    using assms(4) d2(3) by (simp add: find_alias_def)
  from set_alias_new [OF s this] d2 show ?thesis by simp
qed

lemma train_and_promote_adapter_effect:
  assumes "train_and_promote_adapter hv dv task mid backbone ctx bd dir f fa (db, w) = (Inr (aid, me), (db', w'))"
    and "session_get (db_models db) mid = Some base" and "find_alias task ''production'' (Some (tc_tenant ctx)) db = Inr None"
  shows "\<exists>a. db_adapters db' = db_adapters db @ [a] \<and> row_id a \<notin> row_id ` set (db_adapters db) \<and> row_id a = aid \<and>
    adapter_of ctx base a \<and> ma_stage a = PRODUCTION \<and> db_models db' = db_models db \<and>
    db_aliases db' = db_aliases db @ [\<lparr>row_id = fa, row_tenant = Some (tc_tenant ctx), al_task = task, al_name = ''production'',
      al_model = mid, al_adapter = Some aid\<rparr>]"
proof -
  from assms(1,2) obtain r db1 w1 where t: "train_adapter hv dv bd base backbone tiny ctx dir f (db, w) = (Inr r, (db1, w1))"
    and p: "promote_adapter task mid (ar_adapter r) ctx fa db1 = (Inr (), db')" and aid: "aid = ar_adapter r"
    by (auto simp: train_and_promote_adapter_def split: prod.splits sum.splits)
  from train_adapter_effect [OF t] obtain a where a: "db_adapters db1 = db_adapters db @ [a]"
      "row_id a \<notin> row_id ` set (db_adapters db)" "adapter_of ctx base a" "row_id a = ar_adapter r"
      "db_models db1 = db_models db" "db_aliases db1 = db_aliases db" by blast
  moreover from assms(3) a(6) have "find_alias task ''production'' (Some (tc_tenant ctx)) db1 = Inr None" by (simp add: find_alias_def)
  ultimately have "db_models db' = db_models db \<and> db_adapters db' = db_adapters db @ [a\<lparr>ma_stage := PRODUCTION\<rparr>] \<and>
      db_aliases db' = db_aliases db @ [\<lparr>row_id = fa, row_tenant = Some (tc_tenant ctx), al_task = task, al_name = ''production'',
        al_model = mid, al_adapter = Some (ar_adapter r)\<rparr>]"
    using promote_adapter_effect [OF p [folded a(4)]] a(4) by simp
  with a(2-4) show ?thesis unfolding aid by (intro exI [of _ "a\<lparr>ma_stage := PRODUCTION\<rparr>"]) (simp add: adapter_of_def)
qed

lemma promote_frame: "promote mid db = (x, db') \<Longrightarrow> db_adapters db' = db_adapters db \<and> db_aliases db' = db_aliases db"
  by (auto simp: promote_def transition_stage_def attempt_def audit_record_def set_model_def split: sum.splits prod.splits)

lemma share_base_effect:
  assumes "share_base (row_id m) fresh db = (Inr b, db')" and "db_models db = [m]" and "mo_stage m = CANDIDATE"
    and "db_adapters db = []" and "db_aliases db = []"
  shows "b = m \<and> db_models db' = [m\<lparr>row_tenant := None, mo_stage := PRODUCTION\<rparr>] \<and> db_adapters db' = [] \<and>
    db_aliases db' = [\<lparr>row_id = fresh, row_tenant = None, al_task = mo_task m, al_name = ''production'', al_model = row_id m, al_adapter = None\<rparr>]"
proof -
  let ?m = "m\<lparr>row_tenant := None\<rparr>" and ?db = "set_model (row_id m) (\<lambda>x. x\<lparr>row_tenant := None\<rparr>) db"
  have get: "session_get (db_models db) (row_id m) = Some m" by (simp add: assms(2) session_get_def)
  have "db_models ?db = [] @ [?m]" by (simp add: set_model_def row_set_def assms(2))
  from promote_candidate [OF this] assms(3) obtain db1 where p: "promote (row_id m) ?db = (Inr (), db1)"
    and m1: "db_models db1 = [?m\<lparr>mo_stage := PRODUCTION\<rparr>]" by auto
  have fr: "db_adapters db1 = []" "db_aliases db1 = []" using promote_frame [OF p] assms(4,5) by (simp_all add: set_model_def)
  from assms(1) get p obtain al where "b = m" and s: "set_alias (mo_task m) (row_id m) None ''production'' None fresh db1 = (Inr al, db')"
    by (auto simp: share_base_def split: prod.splits sum.splits)
  moreover have "find_alias (mo_task m) ''production'' (map_option tc_tenant None) db1 = Inr None" by (simp add: find_alias_def fr)
  ultimately show ?thesis using set_alias_new [OF s] m1 fr by simp
qed

lemma train_hermes_frame:
  assumes "train_hermes hv hc ctx key backbone fresh bd (db, w) = (Inr r, (db', w'))"
  shows "db_adapters db' = db_adapters db \<and> db_aliases db' = db_aliases db"
proof -
  obtain x d where e: "split_batches hv hc ctx bd db = (x, d)" by (metis prod.exhaust)
  with assms obtain lg path row y w1 where p: "publish_model (hv_store hv) lg path row (d, w1) = (Inr y, (db', w'))"
    by (auto simp: train_hermes_def Let_def run_Inr_iff split: sum.split_asm)
  then have "db_adapters db' = db_adapters d \<and> db_aliases db' = db_aliases d"
    by (auto simp: publish_model_def register_candidate_def Let_def attempt_Inr_iff audit_record_def split: prod.splits sum.splits)
  with split_batches_registry [OF e] show ?thesis by simp
qed

lemma evaluate_shared_base_plane:
  assumes "evaluate_shared_base hv h ctx bd db = (x, db')"
  shows "same_plane db db'"
proof -
  let ?ex = "\<lambda>rows. build_examples (context_env.truncate hv) rows ctx (hc_records tiny)"
  obtain x1 d1 where e1: "?ex (sl_validation (bd_splits bd)) db = (x1, d1)" by (metis prod.exhaust)
  obtain x2 d2 where e2: "?ex (sl_test (bd_splits bd)) d1 = (x2, d2)" by (metis prod.exhaust)
  from assms have "db' = d1 \<or> db' = d2"
    by (auto simp: evaluate_shared_base_def Let_def e1 e2 split: sum.split_asm)
  then show ?thesis using build_examples_plane [OF e1] build_examples_plane [OF e2] same_plane_trans by blast
qed

lemmas evaluate_shared_base_registry = same_plane_registry [OF evaluate_shared_base_plane]

lemma isolation_check_passes:
  assumes "session_get (db_adapters db) aid = Some a" and "row_tenant a \<noteq> Some (tc_tenant ctx)"
    and "may_promote (Some ctx)" and "aliasable_model mid (Some ctx) db = Inr m"
  shows "isolation_check task mid aid ctx fresh db = Inr ()"
proof -
  have "''model:promote'' \<in> tc_scopes ctx" using assms(3) by (simp add: may_promote_def)
  moreover have "repo_get (db_adapters db) aid ctx = None" using assms(1,2) by (simp add: repo_get_def)
  ultimately show ?thesis
    using assms(4) by (simp add: isolation_check_def set_alias_def point_alias_def aliasable_adapter_def repo_require_def
        require_promotion_authorization_def del: require_promotion_iff)
qed

lemma adapt_tenants_effect:
  assumes "adapt_tenants hva hvb dv dir actx bctx bda bdb fresh r m backbone (db, w) = (Inr report, (db', w'))"
    and "tc_tenant actx \<noteq> tc_tenant bctx" and "base = m\<lparr>row_tenant := None, mo_stage := PRODUCTION\<rparr>"
    and "db_models db = [base]" and "db_adapters db = []" and "db_aliases db = [al]" and "row_tenant al = None"
  shows "\<exists>aa ab ala alb. db_models db' = [base] \<and> db_adapters db' = [aa, ab] \<and> row_id aa \<noteq> row_id ab \<and>
    adapter_of actx base aa \<and> adapter_of bctx base ab \<and> ma_stage aa = PRODUCTION \<and> ma_stage ab = PRODUCTION \<and>
    db_aliases db' = [al,
      \<lparr>row_id = ala, row_tenant = Some (tc_tenant actx), al_task = mo_task m, al_name = ''production'', al_model = row_id m, al_adapter = Some (row_id aa)\<rparr>,
      \<lparr>row_id = alb, row_tenant = Some (tc_tenant bctx), al_task = mo_task m, al_name = ''production'', al_model = row_id m, al_adapter = Some (row_id ab)\<rparr>]"
proof -
  have base: "row_id base = row_id m" by (simp add: assms(3))
  from assms(1) obtain aid ame db1 w1 bid bme db2 w2 x3 db3 x4 where
    t1: "train_and_promote_adapter hva dv (mo_task m) (row_id m) backbone actx bda (dir @ ''/adapters'') (fresh 2) (fresh 3) (db, w) = (Inr (aid, ame), (db1, w1))"
    and t2: "train_and_promote_adapter hvb dv (mo_task m) (row_id m) backbone bctx bdb (dir @ ''/adapters'') (fresh 4) (fresh 5) (db1, w1) = (Inr (bid, bme), (db2, w2))"
    and e3: "evaluate_shared_base hva backbone actx bda db2 = (x3, db3)" and e4: "evaluate_shared_base hvb backbone bctx bdb db3 = (x4, db')"
    by (auto simp: adapt_tenants_def run_Inr_iff attempt_Inr_iff split: prod.splits sum.splits)
  have "session_get (db_models db) (row_id m) = Some base" by (simp add: assms(4) session_get_def base)
  moreover have "find_alias (mo_task m) ''production'' (Some (tc_tenant actx)) db = Inr None" by (simp add: find_alias_def assms(6,7))
  ultimately obtain aa where a: "db_adapters db1 = [aa]" "row_id aa = aid" "adapter_of actx base aa" "ma_stage aa = PRODUCTION"
      "db_models db1 = [base]" "db_aliases db1 = [al, \<lparr>row_id = fresh 3, row_tenant = Some (tc_tenant actx), al_task = mo_task m,
        al_name = ''production'', al_model = row_id m, al_adapter = Some aid\<rparr>]"
    using train_and_promote_adapter_effect [OF t1, of base] unfolding assms(4-6) append_Nil append_Cons by blast
  have "session_get (db_models db1) (row_id m) = Some base" by (simp add: a(5) session_get_def base)
  moreover have "find_alias (mo_task m) ''production'' (Some (tc_tenant bctx)) db1 = Inr None"
    using assms(2) by (simp add: find_alias_def a(6) assms(7))
  ultimately obtain ab where b: "db_adapters db2 = db_adapters db1 @ [ab]" "row_id ab \<notin> row_id ` set (db_adapters db1)" "row_id ab = bid"
      "adapter_of bctx base ab" "ma_stage ab = PRODUCTION" "db_models db2 = db_models db1" "db_aliases db2 = db_aliases db1 @ [\<lparr>row_id = fresh 5,
        row_tenant = Some (tc_tenant bctx), al_task = mo_task m, al_name = ''production'', al_model = row_id m, al_adapter = Some bid\<rparr>]"
    using train_and_promote_adapter_effect [OF t2, of base] by blast
  note e = evaluate_shared_base_registry [OF e3] evaluate_shared_base_registry [OF e4]
  have "db_adapters db' = [aa, ab]" "row_id aa \<noteq> row_id ab" "db_models db' = [base]" using e a(1,5) b(1,2,6) by auto
  moreover have "db_aliases db' = [al,
      \<lparr>row_id = fresh 3, row_tenant = Some (tc_tenant actx), al_task = mo_task m, al_name = ''production'', al_model = row_id m, al_adapter = Some (row_id aa)\<rparr>,
      \<lparr>row_id = fresh 5, row_tenant = Some (tc_tenant bctx), al_task = mo_task m, al_name = ''production'', al_model = row_id m, al_adapter = Some (row_id ab)\<rparr>]"
    using e a(2,6) b(3,7) by simp
  ultimately show ?thesis using a(3,4) b(4,5) by blast
qed

text \<open>A registry with one shared model, two adapters and three aliases, seen by any caller.\<close>

lemma private_registry:
  assumes "db_models db = [base]" and "row_tenant base = None" and "mo_stage base = PRODUCTION" and "mo_live base"
    and "db_adapters db = [aa, ab]" and "row_id aa \<noteq> row_id ab" and "row_tenant aa = Some ta" and "row_tenant ab = Some tb" and "ta \<noteq> tb"
    and "db_aliases db = [\<lparr>row_id = i0, row_tenant = None, al_task = mo_task base, al_name = ''production'', al_model = row_id base, al_adapter = None\<rparr>,
      \<lparr>row_id = ia, row_tenant = Some ta, al_task = mo_task base, al_name = ''production'', al_model = row_id base, al_adapter = Some (row_id aa)\<rparr>,
      \<lparr>row_id = ib, row_tenant = Some tb, al_task = mo_task base, al_name = ''production'', al_model = row_id base, al_adapter = Some (row_id ab)\<rparr>]"
  shows "get_production_model (mo_task base) ctx db = Some base \<and>
    (\<exists>al. resolve_alias (mo_task base) ctx ''production'' db = Inr (Some al) \<and> al_model al = row_id base \<and>
      al_adapter al = (if tc_tenant ctx = ta then Some (row_id aa) else if tc_tenant ctx = tb then Some (row_id ab) else None)) \<and>
    repo_get (db_adapters db) (row_id aa) ctx = (if tc_tenant ctx = ta then Some aa else None) \<and>
    repo_get (db_adapters db) (row_id ab) ctx = (if tc_tenant ctx = tb then Some ab else None) \<and>
    (tc_tenant ctx \<noteq> ta \<and> may_promote (Some ctx) \<longrightarrow> isolation_check (mo_task base) (row_id base) (row_id aa) ctx i db = Inr ())"
proof -
  have get: "session_get (db_adapters db) (row_id aa) = Some aa" "session_get (db_adapters db) (row_id ab) = Some ab"
    using assms(6) by (simp_all add: assms(5) session_get_def)
  have "get_production_model (mo_task base) ctx db = Some base"
    by (simp add: get_production_model_def assms(1-4) Let_def)
  moreover have "\<exists>al. resolve_alias (mo_task base) ctx ''production'' db = Inr (Some al) \<and> al_model al = row_id base \<and>
      al_adapter al = (if tc_tenant ctx = ta then Some (row_id aa) else if tc_tenant ctx = tb then Some (row_id ab) else None)"
    using assms(9) by (simp add: resolve_alias_def resolve_for_tenant_def find_alias_def assms(10))
  moreover have "aliasable_model (row_id base) (Some ctx) db = Inr base"
    by (simp add: aliasable_model_def session_get_def assms(1-4))
  ultimately show ?thesis
    using isolation_check_passes [OF get(1)] assms(7,8) by (auto simp: repo_get_def get)
qed

text \<open>
  C16: adapters stay private. After the adaptation experiment has run on a fresh registry, with two
  different tenants, there is one model, shared and in production, and for every tenant of the
  platform it is what the prediction service finds; there are two adapters in production, one
  of each tenant, compatible with the model. Each tenant, and nobody else, can look up its adapter and
  resolves the alias to the model with its own adapter; every other tenant resolves it to the
  model alone. And the check of isolation passes in the direction the code does not try as well.
\<close>

theorem adapters_stay_private:
  assumes "run_adapt hva hvb dv dir alpha beta bda bdb fresh (db, w) = (Inr report, (db', w'))"
    and "tc_tenant alpha \<noteq> tc_tenant beta" and "db_models db = []" and "db_adapters db = []" and "db_aliases db = []"
  shows "\<exists>base aa ab. db_models db' = [base] \<and> row_tenant base = None \<and> mo_stage base = PRODUCTION \<and> mo_live base \<and>
    db_adapters db' = [aa, ab] \<and> adapter_of alpha base aa \<and> adapter_of beta base ab \<and> ma_stage aa = PRODUCTION \<and> ma_stage ab = PRODUCTION \<and>
    (\<forall>ctx. get_production_model (mo_task base) ctx db' = Some base \<and>
      (\<exists>al. resolve_alias (mo_task base) ctx ''production'' db' = Inr (Some al) \<and> al_model al = row_id base \<and>
        al_adapter al = (if tc_tenant ctx = tc_tenant alpha then Some (row_id aa)
          else if tc_tenant ctx = tc_tenant beta then Some (row_id ab) else None)) \<and>
      repo_get (db_adapters db') (row_id aa) ctx = (if tc_tenant ctx = tc_tenant alpha then Some aa else None) \<and>
      repo_get (db_adapters db') (row_id ab) ctx = (if tc_tenant ctx = tc_tenant beta then Some ab else None)) \<and>
    (\<forall>i. isolation_check (mo_task base) (row_id base) (row_id aa) (with_promotion beta) i db' = Inr ())"
proof -
  let ?actx = "with_promotion alpha" and ?bctx = "with_promotion beta"
  from assms(1) obtain r db1 w1 m db2 backbone w2 where
    t: "train_hermes hva tiny ?actx (fc_task delivery_delay_risk_contract) None (fresh 0) bda (db, w) = (Inr r, (db1, w1))"
    and s: "share_base (tr_model r) (fresh 1) db1 = (Inr m, db2)"
    and a: "adapt_tenants hva hvb dv dir ?actx ?bctx bda bdb fresh r m backbone (db2, w2) = (Inr report, (db', w'))"
    by (auto simp: run_adapt_def Let_def split: prod.splits sum.splits)
  from train_hermes_effect [OF t] train_hermes_frame [OF t] assms(3-5) obtain m1 where m1: "db_models db1 = [m1]"
      "new_candidate (hv_store hva) (Some (tc_tenant ?actx)) r m1" "db_adapters db1 = []" "db_aliases db1 = []" by auto
  then have c: "row_id m1 = tr_model r" "mo_stage m1 = CANDIDATE" "mo_live m1" by (auto simp: new_candidate_def)
  from share_base_effect [OF s [folded c(1)] m1(1) c(2) m1(3,4)] obtain "m = m1"
      and d2: "db_models db2 = [m1\<lparr>row_tenant := None, mo_stage := PRODUCTION\<rparr>]" "db_adapters db2 = []"
        "db_aliases db2 = [\<lparr>row_id = fresh 1, row_tenant = None, al_task = mo_task m1, al_name = ''production'', al_model = row_id m1, al_adapter = None\<rparr>]"
    by blast
  define base where "base = m1\<lparr>row_tenant := None, mo_stage := PRODUCTION\<rparr>"
  have ten: "tc_tenant ?actx = tc_tenant alpha" "tc_tenant ?bctx = tc_tenant beta" by (simp_all add: with_promotion_def)
  have b: "row_tenant base = None" "mo_stage base = PRODUCTION" "mo_live base" "mo_task base = mo_task m1" "row_id base = row_id m1"
    using c(3) by (simp_all add: base_def)
  have "tc_tenant ?actx \<noteq> tc_tenant ?bctx" using assms(2) ten by simp
  from adapt_tenants_effect [OF a [unfolded \<open>m = m1\<close>] this base_def d2(1) [folded base_def] d2(2,3)]
  obtain aa ab ala alb where f: "db_models db' = [base]" "db_adapters db' = [aa, ab]" "row_id aa \<noteq> row_id ab"
      "adapter_of ?actx base aa" "adapter_of ?bctx base ab" "ma_stage aa = PRODUCTION" "ma_stage ab = PRODUCTION"
      "db_aliases db' = [\<lparr>row_id = fresh 1, row_tenant = None, al_task = mo_task base, al_name = ''production'', al_model = row_id base, al_adapter = None\<rparr>,
        \<lparr>row_id = ala, row_tenant = Some (tc_tenant alpha), al_task = mo_task base, al_name = ''production'', al_model = row_id base, al_adapter = Some (row_id aa)\<rparr>,
        \<lparr>row_id = alb, row_tenant = Some (tc_tenant beta), al_task = mo_task base, al_name = ''production'', al_model = row_id base, al_adapter = Some (row_id ab)\<rparr>]"
    unfolding b(4,5) ten by auto
  have "row_tenant aa = Some (tc_tenant alpha)" "row_tenant ab = Some (tc_tenant beta)" and adapters: "adapter_of alpha base aa" "adapter_of beta base ab"
    using f(4,5) by (simp_all add: adapter_of_def ten)
  note registry = private_registry [OF f(1) b(1-3) f(2,3) this(1,2) assms(2) f(8)]
  have "may_promote (Some ?bctx)" by (simp add: may_promote_def with_promotion_def)
  with registry [of ?bctx] assms(2) ten have "\<forall>i. isolation_check (mo_task base) (row_id base) (row_id aa) ?bctx i db' = Inr ()"
    by (metis registry)
  with f(1,2,6,7) b(1-3) adapters registry show ?thesis by blast
qed

subsection \<open>What a pretraining run leaves behind\<close>

text \<open>
  Every epoch is one step on a batch that is masked anew, with the next seed: a run of so many
  epochs passes through that many batches and networks.
\<close>

lemma pretraining_trace:
  "pretrain_epochs pv rg cfg batch n epoch h w = (Inr h', w') \<Longrightarrow>
    \<exists>bs hs. length bs = n \<and> length hs = Suc n \<and> hd hs = (h, w) \<and> last hs = (h', w') \<and>
      (\<forall>i < n. build_pretraining_batch rg (epoch_masking cfg (epoch + i)) (pv_onto pv) batch = Inr (bs ! i) \<and>
        (\<exists>h1 w1 h2 w2. hs ! i = (h1, w1) \<and> hs ! Suc i = (h2, w2) \<and> pv_step pv h1 (bs ! i) w1 = (Inr h2, w2)))"
proof (induction n arbitrary: epoch h w)
  case 0
  then show ?case by (intro exI [of _ "[]"] exI [of _ "[(h, w)]"]) simp
next
  case (Suc n)
  from Suc.prems obtain b h1 w1 where b: "build_pretraining_batch rg (epoch_masking cfg epoch) (pv_onto pv) batch = Inr b"
    and s: "pv_step pv h b w = (Inr h1, w1)" and rest: "pretrain_epochs pv rg cfg batch n (Suc epoch) h1 w1 = (Inr h', w')"
    by (auto split: sum.splits prod.splits)
  from Suc.IH [OF rest] obtain bs hs where ih: "length bs = n" "length hs = Suc n" "hd hs = (h1, w1)" "last hs = (h', w')"
      "\<And>i. i < n \<Longrightarrow> build_pretraining_batch rg (epoch_masking cfg (Suc epoch + i)) (pv_onto pv) batch = Inr (bs ! i) \<and>
        (\<exists>h1 w1 h2 w2. hs ! i = (h1, w1) \<and> hs ! Suc i = (h2, w2) \<and> pv_step pv h1 (bs ! i) w1 = (Inr h2, w2))"
    by blast
  have hd0: "hs ! 0 = (h1, w1)" using ih(2,3) by (cases hs) auto
  have step: "build_pretraining_batch rg (epoch_masking cfg (epoch + i)) (pv_onto pv) batch = Inr ((b # bs) ! i) \<and>
      (\<exists>h1 w1 h2 w2. ((h, w) # hs) ! i = (h1, w1) \<and> ((h, w) # hs) ! Suc i = (h2, w2) \<and> pv_step pv h1 ((b # bs) ! i) w1 = (Inr h2, w2))"
    if "i < Suc n" for i
    using that b s hd0 ih(5) [of "i - 1"] by (cases i) auto
  have "last ((h, w) # hs) = (h', w')" using ih(2,4) by auto
  with ih(1,2) step show ?case by (intro exI [of _ "b # bs"] exI [of _ "(h, w) # hs"]) simp
qed

lemma pretrain_models:
  assumes "pretrain hv pv rg hc ctx dir masking epochs seed bd (db, w) = (Inr r, (db', w'))"
  shows "db_models (db' :: 'z pred_db_scheme) = db_models db"
proof -
  obtain x d where e: "build_examples (context_env.truncate hv) (sl_train (bd_splits bd)) ctx (hc_records hc) db = (x, d)"
    by (metis prod.exhaust)
  with assms have "db' = d" by (auto simp: pretrain_def Let_def run_Inr_iff attempt_Inr_iff split: sum.split_asm)
  with same_plane_registry(1) [OF build_examples_plane [OF e]] show ?thesis by simp
qed

text \<open>
  A pretraining run promotes nothing. It adds the three baselines, the transformer from scratch
  and the pretrained one as live candidates of the tenant, with the checksums of what the store
  held, and the same models serve as before.
\<close>

lemma pretraining_promotes_nothing:
  assumes "run_pretrain tv hv pv rg dir ctx bd fresh_of f1 f2 (db, w) = (Inr report, (db', w'))"
  shows "\<exists>rs s p ms m1 m2. cp_results report = rs @ [s, p] \<and> map tr_type rs = map model_type_value baseline_model_types \<and>
    tr_type s = ''hermes-rpt-0.1-tiny-scratch'' \<and> tr_type p = ''hermes-rpt-0.1-tiny-pretrained'' \<and>
    list_all2 (new_candidate (tv_store tv) (Some (tc_tenant ctx))) rs ms \<and>
    new_candidate (hv_store hv) (Some (tc_tenant ctx)) s m1 \<and> new_candidate (hv_store hv) (Some (tc_tenant ctx)) p m2 \<and>
    db_models db' = db_models db @ ms @ [m1, m2] \<and>
    (\<forall>task c. get_production_model task c db' = get_production_model task c db)"
proof -
  let ?key = "fc_task delivery_delay_risk_contract"
  from assms obtain rs db1 w1 pre db2 w2 s db3 w3 p where
    b: "train_baselines tv ctx bd (map (\<lambda>t. (t, fresh_of t)) baseline_model_types) (db, w) = (Inr rs, (db1, w1))"
    and pt: "pretrain hv pv rg tiny ctx (dir @ ''/pretrain-checkpoints'') None 60 42 bd (db1, w1) = (Inr pre, (db2, w2))"
    and s: "train_hermes hv tiny ctx ?key None f1 bd (db2, w2) = (Inr s, (db3, w3))"
    and p: "train_hermes hv tiny ctx ?key (Some (pr_backbone pre)) f2 bd (db3, w3) = (Inr p, (db', w'))"
    and c: "build_comparison_report (rs @ [s, p]) = Inr report"
    by (auto simp: run_pretrain_def Let_def attempt_Inr_iff split: prod.splits sum.splits)
  from train_baselines_effect [OF b] obtain ms where ms: "db_models db1 = db_models db @ ms"
      "list_all2 (new_candidate (tv_store tv) (Some (tc_tenant ctx))) rs ms" "map tr_type rs = map model_type_value baseline_model_types"
    by (auto simp: comp_def)
  from train_hermes_effect [OF s] obtain m1 where m1: "db_models db3 = db_models db2 @ [m1]" "tr_type s = hermes_model_type tiny None"
      "new_candidate (hv_store hv) (Some (tc_tenant ctx)) s m1" by auto
  from train_hermes_effect [OF p] obtain m2 where m2: "db_models db' = db_models db3 @ [m2]"
      "tr_type p = hermes_model_type tiny (Some (pr_backbone pre))" "new_candidate (hv_store hv) (Some (tc_tenant ctx)) p m2" by auto
  have all: "db_models db' = db_models db @ ms @ [m1, m2]" using ms(1) m1(1) m2(1) pretrain_models [OF pt] by simp
  have "\<forall>x \<in> set (ms @ [m1, m2]). mo_stage x = CANDIDATE"
    using ms(2) m1(3) m2(3) by (auto simp: new_candidate_def list_all2_conv_all_nth in_set_conv_nth)
  with candidates_do_not_serve [OF all] have "\<forall>task c. get_production_model task c db' = get_production_model task c db" by blast
  moreover have "cp_results report = rs @ [s, p]" using c by (auto simp: build_comparison_report_def split: list.splits)
  moreover have "tr_type s = ''hermes-rpt-0.1-tiny-scratch''" "tr_type p = ''hermes-rpt-0.1-tiny-pretrained''"
    by (simp_all add: m1(2) m2(2) hermes_model_type_def tiny_def)
  ultimately show ?thesis using all ms(2,3) m1(3) m2(3) by blast
qed

subsection \<open>A run of the experiment\<close>

definition other_ctx :: tenant_context where
  "other_ctx = sample_ctx\<lparr>tc_tenant := Suc (tc_tenant sample_ctx)\<rparr>"

definition empty_dataset :: built_dataset where
  "empty_dataset = training_dataset\<lparr>bd_splits := \<lparr>sl_train = [], sl_validation = [], sl_test = []\<rparr>\<rparr>"

definition single_dataset :: built_dataset where
  "single_dataset = training_dataset\<lparr>bd_splits := \<lparr>sl_train = take 1 training_rows, sl_validation = [], sl_test = []\<rparr>\<rparr>"

definition still_adapter :: "nat adapter_env" where
  "still_adapter = \<lparr>dv_uuid = (\<lambda>_. ''u''), dv_load = (\<lambda>_ w. (Inr 3, w)), dv_fit = (\<lambda>_ _ _ _ w. (Inr 4, w)),
     dv_proba = (\<lambda>_ _ x. Inr (map (\<lambda>_. 3 / 4) x)), dv_save = (\<lambda>_ _ w. (Inr ''b'', w)), dv_log = (\<lambda>_ _ w. (Inr ''run'', w))\<rparr>"

lemma adaptation_run:
  "\<exists>report s. run_adapt better_hermes better_hermes still_adapter ''d'' sample_ctx other_ctx single_dataset empty_dataset id
     (training_db, 0) = (Inr report, s)"
proof -
  let ?r = "run_adapt better_hermes better_hermes still_adapter ''d'' sample_ctx other_ctx single_dataset empty_dataset id (training_db, 0)"
  have "(case fst ?r of Inl _ \<Rightarrow> False | Inr _ \<Rightarrow> True)" by code_simp
  then show ?thesis by (cases ?r) (auto split: sum.splits)
qed

theorem adapters_stay_private_witness:
  "\<exists>report db' w' base aa ab. run_adapt better_hermes better_hermes still_adapter ''d'' sample_ctx other_ctx single_dataset empty_dataset id
      (training_db, 0) = (Inr report, (db', w')) \<and> db_adapters db' = [aa, ab] \<and>
    repo_get (db_adapters db') (row_id aa) sample_ctx = Some aa \<and> repo_get (db_adapters db') (row_id ab) sample_ctx = None"
proof -
  obtain report db' w' where run: "run_adapt better_hermes better_hermes still_adapter ''d'' sample_ctx other_ctx single_dataset
      empty_dataset id (training_db, 0) = (Inr report, (db', w'))"
    using adaptation_run by (metis prod.exhaust)
  have tenants: "tc_tenant sample_ctx \<noteq> tc_tenant other_ctx" by (simp add: other_ctx_def)
  have empty: "db_models training_db = []" "db_adapters training_db = []" "db_aliases training_db = []"
    by (simp_all add: training_db_def reg_db.defs pred_db.defs map_db.defs)
  from adapters_stay_private [OF run tenants empty] obtain aa ab where "db_adapters db' = [aa, ab]"
      "repo_get (db_adapters db') (row_id aa) sample_ctx = Some aa" "repo_get (db_adapters db') (row_id ab) sample_ctx = None"
    using tenants by auto
  with run show ?thesis by blast
qed

end
