(* ===== verification/LogRedaction.thy ===== *)
theory LogRedaction
  imports Prelude
begin

section \<open>Redaction of log lines\<close>

text \<open>
  \<open>hermes_rpt/common/logging.py\<close>: the processor that every log line passes. A value is what
  structlog is handed: text, a harmless scalar, a mapping, a list, a tuple, or another object, of
  which the processor sees the printed form. The regular expressions are all sequences of
  repeated character classes, which a small backtracking matcher covers; text is ASCII.
\<close>

subsection \<open>Patterns\<close>

text \<open>A class of characters, the least number of them, and the greatest if there is one.\<close>

type_synonym item = "(char \<Rightarrow> bool) \<times> nat \<times> nat option"

fun run_length :: "(char \<Rightarrow> bool) \<Rightarrow> string \<Rightarrow> nat" where
  "run_length P [] = 0"
| "run_length P (c # s) = (if P c then Suc (run_length P s) else 0)"

text \<open>The greedy match at the start of a text: repetitions are tried from the longest to the shortest.\<close>

fun match_items :: "item list \<Rightarrow> string \<Rightarrow> nat option" and try_items :: "item list \<Rightarrow> string \<Rightarrow> nat \<Rightarrow> nat \<Rightarrow> nat option" where
  "match_items [] s = Some 0"
| "match_items ((P, lo, hi) # items) s =
     (let n = (case hi of None \<Rightarrow> run_length P s | Some h \<Rightarrow> min h (run_length P s))
      in if n < lo then None else try_items items s lo (n - lo))"
| "try_items items s lo 0 = map_option (\<lambda>k. lo + k) (match_items items (drop lo s))"
| "try_items items s lo (Suc n) =
     (case match_items items (drop (lo + Suc n) s) of
        Some k \<Rightarrow> Some (lo + Suc n + k)
      | None \<Rightarrow> try_items items s lo n)"

fun occurs :: "item list \<Rightarrow> string \<Rightarrow> bool" where
  "occurs p [] \<longleftrightarrow> match_items p [] \<noteq> None"
| "occurs p (c # s) \<longleftrightarrow> match_items p (c # s) \<noteq> None \<or> occurs p s"

fun replace_all :: "item list \<Rightarrow> string \<Rightarrow> string \<Rightarrow> string" where
  "replace_all p r [] = []"
| "replace_all p r (c # s) =
     (case match_items p (c # s) of
        Some (Suc n) \<Rightarrow> r @ replace_all p r (drop n s)
      | _ \<Rightarrow> c # replace_all p r s)"

definition one :: "(char \<Rightarrow> bool) \<Rightarrow> item" where "one P = (P, 1, Some 1)"
definition perhaps :: "(char \<Rightarrow> bool) \<Rightarrow> item" where "perhaps P = (P, 0, Some 1)"
definition many :: "(char \<Rightarrow> bool) \<Rightarrow> item" where "many P = (P, 1, None)"
definition any_number :: "(char \<Rightarrow> bool) \<Rightarrow> item" where "any_number P = (P, 0, None)"

definition literal :: "string \<Rightarrow> item list" where
  "literal s = map (\<lambda>c. one (\<lambda>x. x = c)) s"

definition ignoring_case :: "string \<Rightarrow> item list" where
  "ignoring_case s = map (\<lambda>c. one (\<lambda>x. to_lower_char x = c)) s"

definition letter :: "char \<Rightarrow> bool" where "letter c \<longleftrightarrow> is_upper_ascii c \<or> is_lower_ascii c"
definition alnum_or :: "string \<Rightarrow> char \<Rightarrow> bool" where "alnum_or extra c \<longleftrightarrow> letter c \<or> is_digit_ascii c \<or> c \<in> set extra"

subsection \<open>What is sensitive\<close>

definition redacted :: string where "redacted = ''***REDACTED***''"

definition sensitive_keys :: "item list list" where
  "sensitive_keys =
     (let sep = perhaps (\<lambda>c. c = CHR ''_'' \<or> c = CHR ''-'');
          pair = (\<lambda>a b. ignoring_case a @ [sep] @ ignoring_case b)
      in map ignoring_case [''password'', ''secret'', ''token'', ''credential''] @
         [pair ''api'' ''key'', ignoring_case ''authorization'', pair ''access'' ''key'', pair ''connection'' ''string'',
          ignoring_case ''dsn'', pair ''private'' ''key'', ignoring_case ''email'', pair ''display'' ''name'',
          pair ''full'' ''name'', pair ''phone'' ''number''])"

definition sensitive_key :: "string \<Rightarrow> bool" where
  "sensitive_key k \<longleftrightarrow> list_ex (\<lambda>p. occurs p k) sensitive_keys"

definition sensitive_value_patterns :: "item list list" where
  "sensitive_value_patterns =
     [[one letter, any_number (alnum_or ''+.-'')] @ literal ''://'' @
        [many (\<lambda>c. c \<noteq> CHR '':'' \<and> \<not> is_space c)] @ literal '':'' @ [many (\<lambda>c. c \<noteq> CHR ''@'' \<and> \<not> is_space c)] @ literal ''@'',
      ignoring_case ''bearer'' @ [many is_space, many (alnum_or ''-_.'')],
      [many (alnum_or ''._%+-'')] @ literal ''@'' @ [many (alnum_or ''.-'')] @ literal ''.'' @ [(letter, 2, None)],
      ignoring_case ''password='' @ [many (\<lambda>c. \<not> is_space c)]]"

subsection \<open>The processor\<close>

datatype log_value =
    LText string
  | LScalar json
  | LMapping "(string \<times> log_value) list"
  | LList "log_value list"
  | LTuple "log_value list"
  | LObject nat string

definition redact_text :: "string \<Rightarrow> string" where
  "redact_text s = foldl (\<lambda>t p. replace_all p (redacted @ '' '') t) s sensitive_value_patterns"

fun redact_value :: "log_value \<Rightarrow> log_value" where
  "redact_value (LText s) = LText (redact_text s)"
| "redact_value (LMapping kvs) = LMapping (map (\<lambda>(k, v). (k, if sensitive_key k then LText redacted else redact_value v)) kvs)"
| "redact_value (LList vs) = LList (map redact_value vs)"
| "redact_value (LTuple vs) = LTuple (map redact_value vs)"
| "redact_value (LScalar x) = LScalar x"
| "redact_value (LObject i printed) =
     (if list_ex (\<lambda>p. occurs p printed) sensitive_value_patterns then LText redacted else LObject i printed)"

definition redact_processor_value :: "string \<Rightarrow> log_value \<Rightarrow> log_value" where
  "redact_processor_value k v = (if sensitive_key k then LText redacted else redact_value v)"

definition redact_processor :: "(string \<times> log_value) list \<Rightarrow> (string \<times> log_value) list" where
  "redact_processor event = map (\<lambda>(k, v). (k, redact_processor_value k v)) event"

subsection \<open>What reaches the log\<close>

text \<open>An event with what stands under a sensitive key, at any depth, blanked out.\<close>

fun blank :: "log_value \<Rightarrow> log_value" where
  "blank (LMapping kvs) = LMapping (map (\<lambda>(k, v). (k, if sensitive_key k then LText [] else blank v)) kvs)"
| "blank (LList vs) = LList (map blank vs)"
| "blank (LTuple vs) = LTuple (map blank vs)"
| "blank v = v"

lemma redact_blank [simp]: "redact_value (blank v) = redact_value v"
  by (induction v rule: blank.induct) (auto simp: comp_def)

fun objects :: "log_value \<Rightarrow> string list" where
  "objects (LMapping kvs) = concat (map (\<lambda>(k, v). objects v) kvs)"
| "objects (LList vs) = concat (map objects vs)"
| "objects (LTuple vs) = concat (map objects vs)"
| "objects (LObject i printed) = [printed]"
| "objects v = []"

lemma redacted_objects:
  "printed \<in> set (objects (redact_value v)) \<Longrightarrow> \<not> list_ex (\<lambda>p. occurs p printed) sensitive_value_patterns"
proof (induction v rule: redact_value.induct)
  case (2 kvs)
  then obtain k v where "(k, v) \<in> set kvs" "\<not> sensitive_key k" "printed \<in> set (objects (redact_value v))"
    by (auto split: if_splits)
  with "2.IH" [of "(k, v)" k v] show ?case by simp
qed (auto split: if_splits)

text \<open>
  C40: what stands under a sensitive key never reaches the log. Two events that differ only in
  values under sensitive keys, at any depth of mappings, lists and tuples, give the same line; the
  keys and their order are kept; and an object that is passed on as it is has no printed form in
  which one of the patterns of credentials or personal data occurs.
\<close>

theorem sensitive_values_never_reach_the_log:
  assumes "blank (LMapping event) = blank (LMapping event')"
  shows "redact_processor event = redact_processor event' \<and> map fst (redact_processor event) = map fst event \<and>
    (\<forall>kv \<in> set (redact_processor event). \<forall>printed \<in> set (objects (snd kv)).
      \<forall>p \<in> set sensitive_value_patterns. \<not> occurs p printed)"
proof -
  have lift: "LMapping (redact_processor e) = redact_value (LMapping e)" for e
    by (simp add: redact_processor_def redact_processor_value_def)
  have "redact_value (LMapping event) = redact_value (LMapping event')" 
    unfolding redact_blank [of "LMapping event", symmetric] redact_blank [of "LMapping event'", symmetric] assms ..
  then have same: "redact_processor event = redact_processor event'" by (simp only: lift [symmetric] log_value.inject)
  have keys: "map fst (redact_processor event) = map fst event"
    by (auto simp: redact_processor_def)
  have "\<not> occurs p printed" if "kv \<in> set (redact_processor event)" "printed \<in> set (objects (snd kv))"
    "p \<in> set sensitive_value_patterns" for kv printed p
  proof -
    have "objects (LMapping e) = concat (map (\<lambda>kv. objects (snd kv)) e)" for e
      by (simp only: objects.simps) (rule arg_cong [where f = concat], rule map_cong, auto)
    with that(1,2) have "printed \<in> set (objects (LMapping (redact_processor event)))" by (simp only: set_concat set_map) blast
    then have "printed \<in> set (objects (redact_value (LMapping event)))" by (simp only: lift)
    from redacted_objects [OF this] that(3) show ?thesis by (simp only: list_ex_iff) blast
  qed
  with same keys show ?thesis by (intro conjI ballI) assumption+
qed

definition login_event :: "string \<Rightarrow> (string \<times> log_value) list" where
  "login_event s = [(''u'', LList [LMapping [(''DSN'', LText s)]])]"

lemma login_keys: "sensitive_key ''DSN''" "\<not> sensitive_key ''u''"
  by code_simp+

theorem sensitive_values_never_reach_the_log_witness:
  "redact_processor (login_event ''a@b.de'') = redact_processor (login_event ''hunter2'') \<and>
    redact_processor (login_event ''hunter2'') = [(''u'', LList [LMapping [(''DSN'', LText redacted)]])]"
proof -
  have "blank (LMapping (login_event ''a@b.de'')) = blank (LMapping (login_event ''hunter2''))"
    by (simp add: login_event_def login_keys)
  from sensitive_values_never_reach_the_log [OF this]
  have "redact_processor (login_event ''a@b.de'') = redact_processor (login_event ''hunter2'')" by blast
  moreover have "redact_processor (login_event ''hunter2'') = [(''u'', LList [LMapping [(''DSN'', LText redacted)]])]"
    by (simp add: login_event_def redact_processor_def redact_processor_value_def login_keys)
  ultimately show ?thesis by blast
qed

text \<open>A connection string is cut out up to the first at-sign, so the rest of a password that has one stays.\<close>

lemma password_with_at_sign: "redact_text ''pg://a:b@c@d'' = ''***REDACTED*** c@d''"
  by code_simp

end
