(* ===== verification/RowSecurity.thy ===== *)
theory RowSecurity
  imports Registry
begin

section \<open>Row-level security of the control plane\<close>

text \<open>
  The migrations that put row-level security on the tables, \<open>migrations/versions\<close> 91b14d4e87dc,
  995d4a06ea5c, 978402aae411, b48a21a99ef0 and f94e2a13d107, as the lists of statements they
  execute, upgrade and downgrade, and what PostgreSQL makes of them: a statement is run on the
  catalogue or is an error, which rolls the migration back. A policy is an expression over the
  tenant of the row and the tenant of the session, in the three-valued logic of SQL; a row
  passes only when it is true. The session's tenant is what \<open>common/tenant_session.py\<close> binds.
  Whether policies apply at all depends on the connecting role: a superuser or a role with
  \<open>BYPASSRLS\<close> is never subject to them, an owner only under \<open>FORCE\<close>. Of the other statements of
  these migrations, only the creation and removal of the tables is kept.
\<close>

subsection \<open>Expressions\<close>

datatype sql_expr =
    TenantIsCurrent \<comment> \<open>\<open>tenant_id = hermes_current_tenant_id()\<close>\<close>
  | TenantIsNull
  | CurrentIsNull \<comment> \<open>\<open>hermes_current_tenant_id() IS NULL\<close>\<close>
  | SettingIsUnset \<comment> \<open>\<open>current_setting('app.current_tenant_id', true)\<close> is null or empty\<close>
  | SqlOr sql_expr sql_expr
  | SqlAnd sql_expr sql_expr

fun sql_or :: "bool option \<Rightarrow> bool option \<Rightarrow> bool option" where
  "sql_or (Some True) _ = Some True"
| "sql_or _ (Some True) = Some True"
| "sql_or (Some False) (Some False) = Some False"
| "sql_or _ _ = None"

fun sql_and :: "bool option \<Rightarrow> bool option \<Rightarrow> bool option" where
  "sql_and (Some False) _ = Some False"
| "sql_and _ (Some False) = Some False"
| "sql_and (Some True) (Some True) = Some True"
| "sql_and _ _ = None"

fun sql_eq :: "uuid option \<Rightarrow> uuid option \<Rightarrow> bool option" where
  "sql_eq (Some a) (Some b) = Some (a = b)"
| "sql_eq _ _ = None"

fun sql_value :: "sql_expr \<Rightarrow> uuid option \<Rightarrow> uuid option \<Rightarrow> bool option" where
  "sql_value TenantIsCurrent current tenant = sql_eq tenant current"
| "sql_value TenantIsNull current tenant = Some (tenant = None)"
| "sql_value CurrentIsNull current tenant = Some (current = None)"
| "sql_value SettingIsUnset current tenant = Some (current = None)"
| "sql_value (SqlOr a b) current tenant = sql_or (sql_value a current tenant) (sql_value b current tenant)"
| "sql_value (SqlAnd a b) current tenant = sql_and (sql_value a current tenant) (sql_value b current tenant)"

text \<open>The setting is never bound to anything but a tenant, so that unset and empty are one.\<close>

fun needs_helper :: "sql_expr \<Rightarrow> bool" where
  "needs_helper TenantIsCurrent = True"
| "needs_helper TenantIsNull = False"
| "needs_helper CurrentIsNull = True"
| "needs_helper SettingIsUnset = False"
| "needs_helper (SqlOr a b) = (needs_helper a \<or> needs_helper b)"
| "needs_helper (SqlAnd a b) = (needs_helper a \<or> needs_helper b)"

subsection \<open>The catalogue and its statements\<close>

record policy =
  po_using :: sql_expr
  po_check :: "sql_expr option"

record table_security =
  ts_enabled :: bool
  ts_forced :: bool
  ts_policy :: "policy option"

record security_catalog =
  sc_helper :: bool
  sc_tables :: "(string, table_security) dict"

definition unprotected :: table_security where
  "unprotected = \<lparr>ts_enabled = False, ts_forced = False, ts_policy = None\<rparr>"

text \<open>Each table has one policy, of the name \<open>tenant_isolation\<close>; the removals say \<open>IF EXISTS\<close>.\<close>

datatype ddl =
    CreateHelper
  | DropHelper
  | CreateTable string
  | DropTable string
  | EnableRls string
  | DisableRls string
  | ForceRls string
  | NoForceRls string
  | CreatePolicy string sql_expr "sql_expr option"
  | DropPolicy string

definition policy_needs_helper :: "policy \<Rightarrow> bool" where
  "policy_needs_helper p \<longleftrightarrow> needs_helper (po_using p) \<or> (case po_check p of None \<Rightarrow> False | Some e \<Rightarrow> needs_helper e)"

definition alter_table :: "string \<Rightarrow> (table_security \<Rightarrow> exn + table_security) \<Rightarrow> security_catalog \<Rightarrow> exn + security_catalog" where
  "alter_table t f c =
     (case dict_get (sc_tables c) t of
        None \<Rightarrow> Inl (ExternalError ''UndefinedTable'')
      | Some x \<Rightarrow> rbind (f x) (\<lambda>y. Inr (c\<lparr>sc_tables := dict_put t y (sc_tables c)\<rparr>)))"

fun run_ddl :: "ddl \<Rightarrow> security_catalog \<Rightarrow> exn + security_catalog" where
  "run_ddl CreateHelper c = (if sc_helper c then Inl (ExternalError ''DuplicateFunction'') else Inr (c\<lparr>sc_helper := True\<rparr>))"
| "run_ddl DropHelper c =
     (if sc_helper c \<and> list_ex (\<lambda>(_, x). case ts_policy x of None \<Rightarrow> False | Some p \<Rightarrow> policy_needs_helper p) (sc_tables c)
      then Inl (ExternalError ''DependentObjectsStillExist'') else Inr (c\<lparr>sc_helper := False\<rparr>))"
| "run_ddl (CreateTable t) c =
     (if dict_get (sc_tables c) t \<noteq> None then Inl (ExternalError ''DuplicateTable'')
      else Inr (c\<lparr>sc_tables := dict_put t unprotected (sc_tables c)\<rparr>))"
| "run_ddl (DropTable t) c =
     (if dict_get (sc_tables c) t = None then Inl (ExternalError ''UndefinedTable'')
      else Inr (c\<lparr>sc_tables := filter (\<lambda>kv. fst kv \<noteq> t) (sc_tables c)\<rparr>))"
| "run_ddl (EnableRls t) c = alter_table t (\<lambda>x. Inr (x\<lparr>ts_enabled := True\<rparr>)) c"
| "run_ddl (DisableRls t) c = alter_table t (\<lambda>x. Inr (x\<lparr>ts_enabled := False\<rparr>)) c"
| "run_ddl (ForceRls t) c = alter_table t (\<lambda>x. Inr (x\<lparr>ts_forced := True\<rparr>)) c"
| "run_ddl (NoForceRls t) c = alter_table t (\<lambda>x. Inr (x\<lparr>ts_forced := False\<rparr>)) c"
| "run_ddl (CreatePolicy t u w) c =
     (if policy_needs_helper \<lparr>po_using = u, po_check = w\<rparr> \<and> \<not> sc_helper c then Inl (ExternalError ''UndefinedFunction'')
      else alter_table t (\<lambda>x. if ts_policy x \<noteq> None then Inl (ExternalError ''DuplicateObject'')
        else Inr (x\<lparr>ts_policy := Some \<lparr>po_using = u, po_check = w\<rparr>\<rparr>)) c)"
| "run_ddl (DropPolicy t) c = alter_table t (\<lambda>x. Inr (x\<lparr>ts_policy := None\<rparr>)) c"

fun run_migration :: "ddl list \<Rightarrow> security_catalog \<Rightarrow> exn + security_catalog" where
  "run_migration [] c = Inr c"
| "run_migration (s # ss) c = rbind (run_ddl s c) (run_migration ss)"

subsection \<open>The migrations\<close>

definition strict_tenant_tables :: "string list" where
  "strict_tenant_tables = [''user_tenant_memberships'', ''data_access_policies'', ''data_usage_consents'',
     ''database_credential_references'', ''customer_database_connections'', ''schema_snapshots'', ''schema_mappings'',
     ''mapping_versions'', ''prediction_requests'', ''prediction_results'', ''tenant_model_adapters'']"

definition nullable_shared_tables :: "string list" where
  "nullable_shared_tables = [''model_versions'']"

definition strict_nullable_tables :: "string list" where
  "strict_nullable_tables = [''audit_events'']"

definition protect :: "sql_expr \<Rightarrow> string \<Rightarrow> ddl list" where
  "protect u t = [EnableRls t, ForceRls t, CreatePolicy t u None]"

definition unprotect :: "string \<Rightarrow> ddl list" where
  "unprotect t = [DropPolicy t, NoForceRls t, DisableRls t]"

definition upgrade_row_security :: "ddl list" where
  "upgrade_row_security =
     CreateHelper # concat (map (protect TenantIsCurrent) (strict_tenant_tables @ strict_nullable_tables)) @
     concat (map (protect (SqlOr TenantIsNull TenantIsCurrent)) nullable_shared_tables)"

definition downgrade_row_security :: "ddl list" where
  "downgrade_row_security =
     concat (map unprotect (strict_tenant_tables @ strict_nullable_tables @ nullable_shared_tables)) @ [DropHelper]"

definition upgrade_model_aliases :: "ddl list" where
  "upgrade_model_aliases = CreateTable ''model_aliases'' # protect (SqlOr TenantIsNull TenantIsCurrent) ''model_aliases''"

definition downgrade_model_aliases :: "ddl list" where
  "downgrade_model_aliases = unprotect ''model_aliases'' @ [DropTable ''model_aliases'']"

definition upgrade_outcomes :: "ddl list" where
  "upgrade_outcomes = CreateTable ''prediction_outcomes'' # protect TenantIsCurrent ''prediction_outcomes''"

definition downgrade_outcomes :: "ddl list" where
  "downgrade_outcomes = unprotect ''prediction_outcomes'' @ [DropTable ''prediction_outcomes'']"

definition policy_expression :: sql_expr where
  "policy_expression = SqlOr TenantIsCurrent (SqlAnd TenantIsNull CurrentIsNull)"

definition upgrade_audit_fix :: "ddl list" where
  "upgrade_audit_fix = [DropPolicy ''audit_events'', CreatePolicy ''audit_events'' policy_expression (Some policy_expression)]"

definition downgrade_audit_fix :: "ddl list" where
  "downgrade_audit_fix = [DropPolicy ''audit_events'', CreatePolicy ''audit_events'' TenantIsCurrent None]"

definition upgrade_service_credentials :: "ddl list" where
  "upgrade_service_credentials =
     CreateTable ''service_credentials'' # protect (SqlOr TenantIsCurrent SettingIsUnset) ''service_credentials''"

definition downgrade_service_credentials :: "ddl list" where
  "downgrade_service_credentials = unprotect ''service_credentials'' @ [DropTable ''service_credentials'']"

text \<open>The chain of revisions, oldest first, each with its downgrade.\<close>

definition revisions :: "(ddl list \<times> ddl list) list" where
  "revisions = [(upgrade_row_security, downgrade_row_security), (upgrade_model_aliases, downgrade_model_aliases),
     (upgrade_outcomes, downgrade_outcomes), (upgrade_audit_fix, downgrade_audit_fix),
     (upgrade_service_credentials, downgrade_service_credentials)]"

fun upgrade_to_head :: "(ddl list \<times> ddl list) list \<Rightarrow> security_catalog \<Rightarrow> exn + security_catalog" where
  "upgrade_to_head [] c = Inr c"
| "upgrade_to_head ((up, down) # rs) c = rbind (run_migration up c) (upgrade_to_head rs)"

fun downgrade_to_base :: "(ddl list \<times> ddl list) list \<Rightarrow> security_catalog \<Rightarrow> exn + security_catalog" where
  "downgrade_to_base [] c = Inr c"
| "downgrade_to_base ((up, down) # rs) c = rbind (downgrade_to_base rs c) (run_migration down)"

subsection \<open>What a session may touch\<close>

definition bind_for_row_security :: "uuid option \<Rightarrow> uuid option \<Rightarrow> uuid option" where
  "bind_for_row_security tenant current = (case tenant of None \<Rightarrow> current | Some t \<Rightarrow> Some t)"

record db_role =
  dr_superuser :: bool
  dr_bypassrls :: bool
  dr_owner :: bool

text \<open>
  The role of \<open>docker-compose.yml\<close>, which creates the tables and which the application connects
  as: the initial user of the PostgreSQL image, a superuser with \<open>BYPASSRLS\<close>.
\<close>

definition hermes_role :: db_role where
  "hermes_role = \<lparr>dr_superuser = True, dr_bypassrls = True, dr_owner = True\<rparr>"

definition subject_to_policies :: "db_role \<Rightarrow> bool" where
  "subject_to_policies role \<longleftrightarrow> \<not> dr_superuser role \<and> \<not> dr_bypassrls role"

definition enforced :: "db_role \<Rightarrow> table_security \<Rightarrow> bool" where
  "enforced role x \<longleftrightarrow> ts_enabled x \<and> subject_to_policies role \<and> (dr_owner role \<longrightarrow> ts_forced x)"

definition let_through :: "sql_expr \<Rightarrow> uuid option \<Rightarrow> uuid option \<Rightarrow> bool" where
  "let_through p current tenant \<longleftrightarrow> sql_value p current tenant = Some True"

text \<open>Without a policy, security that is enforced lets nothing through.\<close>

definition visible_rows ::
  "security_catalog \<Rightarrow> db_role \<Rightarrow> string \<Rightarrow> uuid option \<Rightarrow> 'z tenant_row_scheme list \<Rightarrow> 'z tenant_row_scheme list" where
  "visible_rows c role table current rows =
     (case dict_get (sc_tables c) table of
        None \<Rightarrow> []
      | Some x \<Rightarrow> if \<not> enforced role x then rows
          else (case ts_policy x of None \<Rightarrow> [] | Some p \<Rightarrow> filter (\<lambda>r. let_through (po_using p) current (row_tenant r)) rows))"

definition may_write :: "security_catalog \<Rightarrow> db_role \<Rightarrow> string \<Rightarrow> uuid option \<Rightarrow> uuid option \<Rightarrow> bool" where
  "may_write c role table current tenant \<longleftrightarrow>
     (case dict_get (sc_tables c) table of
        None \<Rightarrow> False
      | Some x \<Rightarrow> if \<not> enforced role x then True
          else (case ts_policy x of None \<Rightarrow> False
            | Some p \<Rightarrow> let_through (case po_check p of None \<Rightarrow> po_using p | Some e \<Rightarrow> e) current tenant))"

subsection \<open>What the migrations leave\<close>

text \<open>
  A database before the chain: the tables of the first migration exist, without row-level
  security; those of the later ones and the helper function do not, so that no policy uses it.
\<close>

definition first_tables :: "string list" where
  "first_tables = strict_tenant_tables @ strict_nullable_tables @ nullable_shared_tables"

definition later_tables :: "string list" where
  "later_tables = [''model_aliases'', ''prediction_outcomes'', ''service_credentials'']"

definition before_row_security :: "security_catalog \<Rightarrow> bool" where
  "before_row_security c \<longleftrightarrow> \<not> sc_helper c \<and> list_all (\<lambda>t. dict_get (sc_tables c) t = Some unprotected) first_tables \<and>
     list_all (\<lambda>t. dict_get (sc_tables c) t = None) later_tables \<and>
     list_all (\<lambda>(_, x). case ts_policy x of None \<Rightarrow> True | Some p \<Rightarrow> \<not> policy_needs_helper p) (sc_tables c)"

definition secured :: "sql_expr \<Rightarrow> table_security" where
  "secured u = \<lparr>ts_enabled = True, ts_forced = True, ts_policy = Some \<lparr>po_using = u, po_check = None\<rparr>\<rparr>"

lemma dict_put_put [simp]: "dict_put k v (dict_put k w d) = dict_put k v d"
  by (induction d) auto

lemma dict_put_same: "dict_get d k = Some v \<Longrightarrow> dict_put k v d = d"
  by (induction d) (auto simp: dict_get_def split: if_splits)

lemma dict_put_swap:
  "dict_get d k \<noteq> None \<Longrightarrow> k \<noteq> l \<Longrightarrow> dict_put k v (dict_put l w d) = dict_put l w (dict_put k v d)"
  by (induction d) (auto simp: dict_get_def split: if_splits)

lemma filter_put_new:
  "dict_get d k = None \<Longrightarrow> filter (\<lambda>kv. fst kv \<noteq> k) (dict_put k v d) = d"
  by (induction d) (auto simp: dict_get_def split: if_splits)

lemma rbind_chain: "rbind (rbind r f) g = rbind r (\<lambda>x. rbind (f x) g)"
  by (cases r) simp_all

lemma run_migration_append: "run_migration (a @ b) c = rbind (run_migration a c) (run_migration b)"
  proof (induction a arbitrary: c)
  case (Cons s a)
  then show ?case by (cases "run_ddl s c") simp_all
qed simp

lemma run_protect:
  assumes "dict_get (sc_tables c) t = Some unprotected" and "sc_helper c"
  shows "run_migration (protect u t) c = Inr (c\<lparr>sc_tables := dict_put t (secured u) (sc_tables c)\<rparr>)"
  using assms by (simp add: protect_def alter_table_def unprotected_def secured_def)

lemma run_unprotect:
  assumes "dict_get (sc_tables c) t = Some x"
  shows "run_migration (unprotect t) c = Inr (c\<lparr>sc_tables := dict_put t unprotected (sc_tables c)\<rparr>)"
  using assms by (cases x) (simp add: unprotect_def alter_table_def unprotected_def)

definition first_policies :: "(string \<times> sql_expr) list" where
  "first_policies = map (\<lambda>t. (t, TenantIsCurrent)) (strict_tenant_tables @ strict_nullable_tables) @
     map (\<lambda>t. (t, SqlOr TenantIsNull TenantIsCurrent)) nullable_shared_tables"

definition secure_all :: "(string \<times> sql_expr) list \<Rightarrow> (string, table_security) dict \<Rightarrow> (string, table_security) dict" where
  "secure_all tus d = fold (\<lambda>(t, u). dict_put t (secured u)) tus d"

lemma secure_all_simps [simp]:
  "secure_all [] d = d" "secure_all ((t, u) # tus) d = secure_all tus (dict_put t (secured u) d)"
  by (simp_all add: secure_all_def)

lemma secure_all_get:
  "distinct (map fst tus) \<Longrightarrow> dict_get (secure_all tus d) t = (case map_of tus t of None \<Rightarrow> dict_get d t | Some u \<Rightarrow> Some (secured u))"
proof (induction tus arbitrary: d)
  case (Cons tu tus)
  then have "map_of tus (fst tu) = None" by (simp add: map_of_eq_None_iff)
  with Cons show ?case by (cases tu) (auto split: option.split)
qed simp

lemma secure_all_swap:
  "dict_get d t \<noteq> None \<Longrightarrow> t \<notin> fst ` set tus \<Longrightarrow> dict_put t x (secure_all tus d) = secure_all tus (dict_put t x d)"
proof (induction tus arbitrary: d)
  case (Cons tu tus)
  obtain l u where "tu = (l, u)" by (cases tu)
  with Cons dict_put_swap [of d t l x "secured u"] show ?case by auto
qed simp

lemma secure_all_undone:
  "distinct (map fst tus) \<Longrightarrow> \<forall>t \<in> fst ` set tus. dict_get d t = Some unprotected \<Longrightarrow>
    fold (\<lambda>t. dict_put t unprotected) (map fst tus) (secure_all tus d) = d"
proof (induction tus arbitrary: d)
  case (Cons tu tus)
  obtain t u where tu: "tu = (t, u)" by (cases tu)
  let ?d = "dict_put t (secured u) d"
  have "dict_put t unprotected (secure_all tus ?d) = secure_all tus (dict_put t unprotected ?d)"
    by (rule secure_all_swap) (use Cons.prems tu in auto)
  also have "\<dots> = secure_all tus d" using Cons.prems tu by (simp add: dict_put_same)
  finally show ?case using Cons tu by simp
qed simp

lemma run_protect_all:
  "distinct (map fst tus) \<Longrightarrow> \<forall>t \<in> fst ` set tus. dict_get (sc_tables c) t = Some unprotected \<Longrightarrow> sc_helper c \<Longrightarrow>
    run_migration (concat (map (\<lambda>(t, u). protect u t) tus)) c = Inr (c\<lparr>sc_tables := secure_all tus (sc_tables c)\<rparr>)"
proof (induction tus arbitrary: c)
  case (Cons tu tus)
  obtain t u where tu: "tu = (t, u)" by (cases tu)
  let ?c = "c\<lparr>sc_tables := dict_put t (secured u) (sc_tables c)\<rparr>"
  have "run_migration (concat (map (\<lambda>(t, u). protect u t) tus)) ?c = Inr (?c\<lparr>sc_tables := secure_all tus (sc_tables ?c)\<rparr>)"
    by (rule Cons.IH) (use Cons.prems tu in \<open>auto simp: rev_image_eqI\<close>)
  with Cons.prems tu show ?case by (simp add: run_migration_append run_protect)
qed simp

lemma run_unprotect_all:
  "\<forall>t \<in> set ts. dict_get (sc_tables c) t \<noteq> None \<Longrightarrow>
    run_migration (concat (map unprotect ts)) c = Inr (c\<lparr>sc_tables := fold (\<lambda>t. dict_put t unprotected) ts (sc_tables c)\<rparr>)"
proof (induction ts arbitrary: c)
  case (Cons t ts)
  then obtain x where "dict_get (sc_tables c) t = Some x" by auto
  with Cons show ?case by (simp add: run_migration_append run_unprotect)
qed simp

lemma first_policies_tables: "map fst first_policies = first_tables" "distinct first_tables"
  "list_all (\<lambda>t. t \<notin> set first_tables) later_tables" "distinct later_tables"
  by code_simp+

lemma first_policies_map: "concat (map (protect TenantIsCurrent) (strict_tenant_tables @ strict_nullable_tables)) @
    concat (map (protect (SqlOr TenantIsNull TenantIsCurrent)) nullable_shared_tables) =
    concat (map (\<lambda>(t, u). protect u t) first_policies)"
  by (simp add: first_policies_def comp_def)

text \<open>The catalogue after the first migration, and what each later one does to a table.\<close>

definition after_first :: "security_catalog \<Rightarrow> security_catalog" where
  "after_first c = c\<lparr>sc_helper := True, sc_tables := secure_all first_policies (sc_tables c)\<rparr>"

definition set_table :: "string \<Rightarrow> table_security \<Rightarrow> security_catalog \<Rightarrow> security_catalog" where
  "set_table t x c = c\<lparr>sc_tables := dict_put t x (sc_tables c)\<rparr>"

lemma set_table_sel [simp]: "sc_helper (set_table t x c) = sc_helper c" "sc_tables (set_table t x c) = dict_put t x (sc_tables c)"
  by (simp_all add: set_table_def)

lemma first_migration:
  assumes "before_row_security c"
  shows "run_migration upgrade_row_security c = Inr (after_first c)"
    and "run_migration downgrade_row_security (after_first c) = Inr c"
proof -
  have plain: "\<forall>t \<in> fst ` set first_policies. dict_get (sc_tables c) t = Some unprotected"
    using assms unfolding list.set_map [symmetric] first_policies_tables(1) by (simp add: before_row_security_def list_all_iff)
  have d: "distinct (map fst first_policies)" by (simp add: first_policies_tables)
  have helper: "\<not> sc_helper c" using assms by (simp add: before_row_security_def)
  show "run_migration upgrade_row_security c = Inr (after_first c)"
    unfolding upgrade_row_security_def first_policies_map
    using run_protect_all [OF d, of "c\<lparr>sc_helper := True\<rparr>"] plain helper by (simp add: after_first_def)
  have "run_migration (concat (map unprotect first_tables)) (after_first c) =
      Inr ((after_first c)\<lparr>sc_tables := fold (\<lambda>t. dict_put t unprotected) first_tables (sc_tables (after_first c))\<rparr>)"
  proof (rule run_unprotect_all, rule ballI)
    fix t
    assume "t \<in> set first_tables"
    then have "map_of first_policies t \<noteq> None" by (metis first_policies_tables(1) list.set_map map_of_eq_None_iff)
    then show "dict_get (sc_tables (after_first c)) t \<noteq> None" by (auto simp: after_first_def secure_all_get [OF d])
  qed
  also have "fold (\<lambda>t. dict_put t unprotected) first_tables (sc_tables (after_first c)) = sc_tables c"
    using secure_all_undone [OF d plain] by (simp add: after_first_def first_policies_tables)
  finally have un: "run_migration (concat (map unprotect first_tables)) (after_first c) = Inr (c\<lparr>sc_helper := True\<rparr>)"
    by (simp add: after_first_def)
  have free: "\<not> list_ex (\<lambda>(_, x). case ts_policy x of None \<Rightarrow> False | Some p \<Rightarrow> policy_needs_helper p) (sc_tables c)"
    using assms by (fastforce simp: before_row_security_def list_all_iff list_ex_iff split: option.splits)
  show "run_migration downgrade_row_security (after_first c) = Inr c"
    unfolding downgrade_row_security_def run_migration_append
    using un free helper by (cases c) (simp add: first_tables_def)
qed

lemma later_migration:
  assumes "dict_get (sc_tables c) t = None" and "sc_helper c"
  shows "run_migration (CreateTable t # protect u t) c = Inr (set_table t (secured u) c)"
    and "run_migration (unprotect t @ [DropTable t]) (set_table t (secured u) c) = Inr c"
proof -
  show "run_migration (CreateTable t # protect u t) c = Inr (set_table t (secured u) c)"
    using assms run_protect [of "c\<lparr>sc_tables := dict_put t unprotected (sc_tables c)\<rparr>" t u] by (simp add: set_table_def)
  have "run_migration (unprotect t) (set_table t (secured u) c) = Inr (set_table t unprotected c)"
    using run_unprotect [of "set_table t (secured u) c" t "secured u"] by (simp add: set_table_def)
  then show "run_migration (unprotect t @ [DropTable t]) (set_table t (secured u) c) = Inr c"
    unfolding run_migration_append using filter_put_new [OF assms(1)] by (cases c) (simp add: set_table_def)
qed

definition audit_secured :: table_security where
  "audit_secured = \<lparr>ts_enabled = True, ts_forced = True,
     ts_policy = Some \<lparr>po_using = policy_expression, po_check = Some policy_expression\<rparr>\<rparr>"

lemma audit_migration:
  assumes "dict_get (sc_tables c) ''audit_events'' = Some (secured TenantIsCurrent)" and "sc_helper c"
  shows "run_migration upgrade_audit_fix c = Inr (set_table ''audit_events'' audit_secured c)"
    and "run_migration downgrade_audit_fix (set_table ''audit_events'' audit_secured c) = Inr c"
proof -
  show "run_migration upgrade_audit_fix c = Inr (set_table ''audit_events'' audit_secured c)"
    using assms by (simp add: upgrade_audit_fix_def alter_table_def secured_def audit_secured_def set_table_def)
  have "dict_put ''audit_events'' (secured TenantIsCurrent) (sc_tables c) = sc_tables c" by (rule dict_put_same [OF assms(1)])
  then show "run_migration downgrade_audit_fix (set_table ''audit_events'' audit_secured c) = Inr c"
    using assms(2) by (cases c) (simp add: downgrade_audit_fix_def alter_table_def audit_secured_def set_table_def secured_def)
qed

subsection \<open>Migrations can be undone\<close>

fun undoable :: "(ddl list \<times> ddl list) list \<Rightarrow> security_catalog \<Rightarrow> bool" where
  "undoable [] c = True"
| "undoable ((up, down) # rs) c = (\<exists>c'. run_migration up c = Inr c' \<and> run_migration down c' = Inr c \<and> undoable rs c')"

lemma undoable_round: "undoable rs c \<Longrightarrow> \<exists>c'. upgrade_to_head rs c = Inr c' \<and> downgrade_to_base rs c' = Inr c"
proof (induction rs arbitrary: c)
  case (Cons r rs)
  then show ?case by (cases r) fastforce
qed simp

lemma undoable_take: "undoable rs c \<Longrightarrow> undoable (take k rs) c"
proof (induction rs arbitrary: c k)
  case (Cons r rs)
  then show ?case by (cases r; cases k) fastforce+
qed simp

lemma undoable_drop: "undoable rs c \<Longrightarrow> \<exists>c'. upgrade_to_head (take j rs) c = Inr c' \<and> undoable (drop j rs) c'"
proof (induction rs arbitrary: c j)
  case (Cons r rs)
  then show ?case by (cases r; cases j) fastforce+
qed simp

definition at_head :: "security_catalog \<Rightarrow> security_catalog" where
  "at_head c = set_table ''service_credentials'' (secured (SqlOr TenantIsCurrent SettingIsUnset))
     (set_table ''audit_events'' audit_secured
     (set_table ''prediction_outcomes'' (secured TenantIsCurrent)
     (set_table ''model_aliases'' (secured (SqlOr TenantIsNull TenantIsCurrent)) (after_first c))))"

lemma first_policy_of:
  "table \<in> set strict_tenant_tables \<Longrightarrow> map_of first_policies table = Some TenantIsCurrent"
  "map_of first_policies ''model_versions'' = Some (SqlOr TenantIsNull TenantIsCurrent)"
  "map_of first_policies ''audit_events'' = Some TenantIsCurrent"
  "table \<in> set later_tables \<Longrightarrow> map_of first_policies table = None"
proof -
  have "list_all (\<lambda>t. map_of first_policies t = Some TenantIsCurrent) strict_tenant_tables"
      "list_all (\<lambda>t. map_of first_policies t = None) later_tables"
    by code_simp+
  then show "table \<in> set strict_tenant_tables \<Longrightarrow> map_of first_policies table = Some TenantIsCurrent"
      "table \<in> set later_tables \<Longrightarrow> map_of first_policies table = None"
    by (simp_all add: list_all_iff)
  show "map_of first_policies ''model_versions'' = Some (SqlOr TenantIsNull TenantIsCurrent)"
      "map_of first_policies ''audit_events'' = Some TenantIsCurrent"
    by code_simp+
qed

lemma after_first_get:
  "dict_get (sc_tables (after_first c)) t = (case map_of first_policies t of None \<Rightarrow> dict_get (sc_tables c) t | Some u \<Rightarrow> Some (secured u))"
  by (simp add: after_first_def secure_all_get first_policies_tables)

lemma revisions_undoable:
  assumes "before_row_security c"
  shows "undoable revisions c" and "upgrade_to_head revisions c = Inr (at_head c)"
proof -
  let ?c1 = "after_first c"
  let ?c2 = "set_table ''model_aliases'' (secured (SqlOr TenantIsNull TenantIsCurrent)) ?c1"
  let ?c3 = "set_table ''prediction_outcomes'' (secured TenantIsCurrent) ?c2"
  let ?c4 = "set_table ''audit_events'' audit_secured ?c3"
  have h: "sc_helper ?c1" by (simp add: after_first_def)
  have new: "dict_get (sc_tables ?c1) t = None" if "t \<in> set later_tables" for t
    using assms that by (auto simp: after_first_get first_policy_of before_row_security_def list_all_iff)
  have aliases: "dict_get (sc_tables ?c1) ''model_aliases'' = None" and outcomes: "dict_get (sc_tables ?c2) ''prediction_outcomes'' = None"
      and creds: "dict_get (sc_tables ?c4) ''service_credentials'' = None"
    using new by (simp_all add: later_tables_def)
  have audit: "dict_get (sc_tables ?c3) ''audit_events'' = Some (secured TenantIsCurrent)"
    by (simp add: after_first_get first_policy_of)
  note m1 = first_migration [OF assms]
  note m2 = later_migration [OF aliases h, of "SqlOr TenantIsNull TenantIsCurrent", folded upgrade_model_aliases_def downgrade_model_aliases_def]
  have h2: "sc_helper ?c2" and h3: "sc_helper ?c3" and h4: "sc_helper ?c4" using h by simp_all
  note m3 = later_migration [OF outcomes h2, of TenantIsCurrent, folded upgrade_outcomes_def downgrade_outcomes_def]
  note m4 = audit_migration [OF audit h3]
  note m5 = later_migration [OF creds h4, of "SqlOr TenantIsCurrent SettingIsUnset",
      folded upgrade_service_credentials_def downgrade_service_credentials_def]
  show "undoable revisions c" by (simp add: revisions_def m1 m2 m3 m4 m5)
  show "upgrade_to_head revisions c = Inr (at_head c)" by (simp add: revisions_def m1 m2 m3 m4 m5 at_head_def)
qed

text \<open>
  C38: the migrations of row-level security can be undone. From a database before the chain,
  every upgrade succeeds; and from any revision of the chain, an upgrade to any later one
  followed by the downgrade back leaves the catalogue exactly as it was: which tables exist, on which
  row-level security is enabled and forced, their policies, and the helper function, which can
  be dropped because no policy uses it any more.
\<close>

theorem row_security_downgrades:
  assumes "before_row_security c0"
  shows "\<exists>cj ck. upgrade_to_head (take j revisions) c0 = Inr cj \<and> upgrade_to_head (drop j (take k revisions)) cj = Inr ck \<and>
    downgrade_to_base (drop j (take k revisions)) ck = Inr cj"
proof (cases "j \<le> k")
  case True
  then have "take j (take k revisions) = take j revisions" by simp
  with undoable_drop [OF undoable_take [OF revisions_undoable(1) [OF assms], of k], of j] obtain cj where
      "upgrade_to_head (take j revisions) c0 = Inr cj" "undoable (drop j (take k revisions)) cj" by auto
  with undoable_round [OF this(2)] show ?thesis by blast
next
  case False
  then have "drop j (take k revisions) = []" by simp
  moreover obtain cj where "upgrade_to_head (take j revisions) c0 = Inr cj"
    using undoable_drop [OF revisions_undoable(1) [OF assms], of j] by blast
  ultimately show ?thesis by simp
qed

definition sample_catalogue :: security_catalog where
  "sample_catalogue = \<lparr>sc_helper = False, sc_tables = map (\<lambda>t. (t, unprotected)) (''tenants'' # first_tables)\<rparr>"

lemma sample_catalogue_before: "before_row_security sample_catalogue"
  by code_simp

theorem row_security_downgrades_witness:
  "\<exists>c. upgrade_to_head revisions sample_catalogue = Inr c \<and> downgrade_to_base revisions c = Inr sample_catalogue"
  using row_security_downgrades [OF sample_catalogue_before, of 0 5] by (auto simp: revisions_def)

subsection \<open>The policies in force\<close>

definition tenant_tables :: "string list" where
  "tenant_tables = strict_tenant_tables @ [''prediction_outcomes'']"

definition shared_tables :: "string list" where
  "shared_tables = [''model_versions'', ''model_aliases'']"

lemma strict_distinct:
  "table \<in> set strict_tenant_tables \<Longrightarrow>
    table \<noteq> ''service_credentials'' \<and> table \<noteq> ''audit_events'' \<and> table \<noteq> ''prediction_outcomes'' \<and> table \<noteq> ''model_aliases''"
proof -
  have "list_all (\<lambda>t. t \<noteq> ''service_credentials'' \<and> t \<noteq> ''audit_events'' \<and> t \<noteq> ''prediction_outcomes'' \<and> t \<noteq> ''model_aliases'')
      strict_tenant_tables" by code_simp
  then show "table \<in> set strict_tenant_tables \<Longrightarrow>
    table \<noteq> ''service_credentials'' \<and> table \<noteq> ''audit_events'' \<and> table \<noteq> ''prediction_outcomes'' \<and> table \<noteq> ''model_aliases''"
    by (simp add: list_all_iff)
qed

lemma at_head_get:
  "dict_get (sc_tables (at_head c)) t =
    (if t = ''service_credentials'' then Some (secured (SqlOr TenantIsCurrent SettingIsUnset))
     else if t = ''audit_events'' then Some audit_secured
     else if t = ''prediction_outcomes'' then Some (secured TenantIsCurrent)
     else if t = ''model_aliases'' then Some (secured (SqlOr TenantIsNull TenantIsCurrent))
     else dict_get (sc_tables (after_first c)) t)"
  by (simp add: at_head_def)

lemma policy_in_force:
  "table \<in> set tenant_tables \<Longrightarrow> dict_get (sc_tables (at_head c)) table = Some (secured TenantIsCurrent)"
  "table \<in> set shared_tables \<Longrightarrow> dict_get (sc_tables (at_head c)) table = Some (secured (SqlOr TenantIsNull TenantIsCurrent))"
  "dict_get (sc_tables (at_head c)) ''audit_events'' = Some audit_secured"
  "dict_get (sc_tables (at_head c)) ''service_credentials'' = Some (secured (SqlOr TenantIsCurrent SettingIsUnset))"
proof -
  show "dict_get (sc_tables (at_head c)) table = Some (secured TenantIsCurrent)" if "table \<in> set tenant_tables"
  proof (cases "table = ''prediction_outcomes''")
    case False
    with that have t: "table \<in> set strict_tenant_tables" by (simp add: tenant_tables_def)
    from strict_distinct [OF t] first_policy_of(1) [OF t] show ?thesis by (simp add: at_head_get after_first_get)
  qed (simp add: at_head_get)
  show "dict_get (sc_tables (at_head c)) table = Some (secured (SqlOr TenantIsNull TenantIsCurrent))" if "table \<in> set shared_tables"
  proof (cases "table = ''model_aliases''")
    case False
    with that have "table = ''model_versions''" by (simp add: shared_tables_def)
    then show ?thesis by (simp add: at_head_get after_first_get first_policy_of(2))
  qed (simp add: at_head_get)
qed (simp_all add: at_head_get)

lemma sql_or_true [simp]: "sql_or a b = Some True \<longleftrightarrow> a = Some True \<or> b = Some True"
  by (cases "(a, b)" rule: sql_or.cases) auto

lemma sql_and_true [simp]: "sql_and a b = Some True \<longleftrightarrow> a = Some True \<and> b = Some True"
  by (cases "(a, b)" rule: sql_and.cases) auto

lemma let_through_simps [simp]:
  "let_through TenantIsCurrent current tenant \<longleftrightarrow> tenant = current \<and> current \<noteq> None"
  "let_through (SqlOr TenantIsNull TenantIsCurrent) current tenant \<longleftrightarrow> tenant = None \<or> tenant = current"
  "let_through policy_expression current tenant \<longleftrightarrow> tenant = current"
  "let_through (SqlOr TenantIsCurrent SettingIsUnset) current tenant \<longleftrightarrow> tenant = current \<and> current \<noteq> None \<or> current = None"
  by (cases current; cases tenant; simp add: let_through_def policy_expression_def)+

lemma enforced_secured [simp]: "enforced role (secured u) \<longleftrightarrow> subject_to_policies role" "enforced role audit_secured \<longleftrightarrow> subject_to_policies role"
  by (auto simp: enforced_def secured_def audit_secured_def)

lemma security_at_head [simp]:
  "dict_get (sc_tables c) table = Some (secured u) \<Longrightarrow> visible_rows c role table current rows =
    (if subject_to_policies role then filter (\<lambda>r. let_through u current (row_tenant r)) rows else rows)"
  "dict_get (sc_tables c) table = Some (secured u) \<Longrightarrow>
    may_write c role table current tenant \<longleftrightarrow> (subject_to_policies role \<longrightarrow> let_through u current tenant)"
  "dict_get (sc_tables c) table = Some audit_secured \<Longrightarrow> visible_rows c role table current rows =
    (if subject_to_policies role then filter (\<lambda>r. let_through policy_expression current (row_tenant r)) rows else rows)"
  "dict_get (sc_tables c) table = Some audit_secured \<Longrightarrow>
    may_write c role table current tenant \<longleftrightarrow> (subject_to_policies role \<longrightarrow> let_through policy_expression current tenant)"
  by (simp_all add: visible_rows_def may_write_def) (simp_all add: secured_def audit_secured_def)

text \<open>
  C17: row-level security isolates the roles that are subject to it, and the platform's is not. Take a
  database on which the chain of migrations ran. For a role without \<open>BYPASSRLS\<close> that is no
  superuser, even the owner of the tables: in a session bound to a tenant, a query without any
  filter returns from each table of tenants just the tenant's rows, from the shared tables also the rows of
  nobody, from the audit trail no event of the platform, and it can write just the rows it sees; a session
  never bound sees and writes no row of any tenant, but for the credentials, which it must look
  up before it knows the tenant. For any other role the policies are without effect: it sees and may
  write every row of these tables; and the role the application connects as is one of those.
\<close>

theorem row_security_isolates:
  assumes "before_row_security c0" and "upgrade_to_head revisions c0 = Inr c" and "current = bind_for_row_security tenant None"
  shows "(subject_to_policies role \<longrightarrow>
      (\<forall>table \<in> set (tenant_tables @ [''audit_events'', ''service_credentials'']). tenant \<noteq> None \<longrightarrow>
        visible_rows c role table current rows = filter (\<lambda>r. row_tenant r = tenant) rows \<and>
        (\<forall>t. may_write c role table current t \<longleftrightarrow> t = tenant)) \<and>
      (\<forall>table \<in> set shared_tables.
        visible_rows c role table current rows = filter (\<lambda>r. row_tenant r = None \<or> row_tenant r = tenant) rows \<and>
        (\<forall>t. may_write c role table current t \<longleftrightarrow> t = None \<or> t = tenant)) \<and>
      (tenant = None \<longrightarrow>
        (\<forall>table \<in> set tenant_tables. visible_rows c role table current rows = [] \<and> (\<forall>t. \<not> may_write c role table current t)) \<and>
        visible_rows c role ''audit_events'' current rows = filter (\<lambda>r. row_tenant r = None) rows \<and>
        (\<forall>t. may_write c role ''audit_events'' current t \<longleftrightarrow> t = None) \<and>
        visible_rows c role ''service_credentials'' current rows = rows)) \<and>
    (\<not> subject_to_policies role \<longrightarrow>
      (\<forall>table \<in> set (tenant_tables @ shared_tables @ [''audit_events'', ''service_credentials'']).
        visible_rows c role table current rows = rows \<and> (\<forall>t. may_write c role table current t))) \<and>
    \<not> subject_to_policies hermes_role"
proof -
  have c: "c = at_head c0" using revisions_undoable(2) [OF assms(1)] assms(2) by simp
  have t: "current = tenant" by (cases tenant) (simp_all add: assms(3) bind_for_row_security_def)
  have role: "\<not> subject_to_policies hermes_role" by (simp add: subject_to_policies_def hermes_role_def)
  show ?thesis unfolding c t
    using role by (cases "subject_to_policies role"; cases "tenant = None") (auto simp: policy_in_force)
qed

theorem row_security_isolates_witness:
  "\<exists>c. upgrade_to_head revisions sample_catalogue = Inr c \<and>
   visible_rows c (hermes_role\<lparr>dr_superuser := False, dr_bypassrls := False\<rparr>) ''model_versions'' (bind_for_row_security (Some 7) None)
     [\<lparr>row_id = 1, row_tenant = Some 7\<rparr>, \<lparr>row_id = 2, row_tenant = Some 8\<rparr>, \<lparr>row_id = 3, row_tenant = None\<rparr>] =
     [\<lparr>row_id = 1, row_tenant = Some 7\<rparr>, \<lparr>row_id = 3, row_tenant = None\<rparr>] \<and>
   visible_rows c hermes_role ''model_versions'' (bind_for_row_security (Some 7) None)
     [\<lparr>row_id = 1, row_tenant = Some 7\<rparr>, \<lparr>row_id = 2, row_tenant = Some 8\<rparr>, \<lparr>row_id = 3, row_tenant = None\<rparr>] =
     [\<lparr>row_id = 1, row_tenant = Some 7\<rparr>, \<lparr>row_id = 2, row_tenant = Some 8\<rparr>, \<lparr>row_id = 3, row_tenant = None\<rparr>]"
proof -
  let ?rows = "[\<lparr>row_id = 1, row_tenant = Some 7\<rparr>, \<lparr>row_id = 2, row_tenant = Some 8\<rparr>, \<lparr>row_id = 3, row_tenant = None\<rparr>]"
  let ?role = "hermes_role\<lparr>dr_superuser := False, dr_bypassrls := False\<rparr>"
  obtain c where c: "upgrade_to_head revisions sample_catalogue = Inr c" using revisions_undoable(2) [OF sample_catalogue_before] by blast
  note iso = row_security_isolates [OF sample_catalogue_before c refl, of _ "Some 7" ?rows]
  have table: "''model_versions'' \<in> set shared_tables" by (simp add: shared_tables_def)
  have "subject_to_policies ?role" by (simp add: subject_to_policies_def hermes_role_def)
  with iso [of ?role] table have "visible_rows c ?role ''model_versions'' (bind_for_row_security (Some 7) None) ?rows =
      filter (\<lambda>r. row_tenant r = None \<or> row_tenant r = Some 7) ?rows" by blast
  moreover from iso [of hermes_role] table have "visible_rows c hermes_role ''model_versions'' (bind_for_row_security (Some 7) None) ?rows = ?rows"
    by (auto simp only: set_append Un_iff)
  ultimately show ?thesis using c by (intro exI [of _ c]) simp
qed

subsection \<open>Where the policies and the services disagree\<close>

text \<open>
  C39: under row-level security a tenant's retirement of a shared model fails. The service lets
  any tenant deactivate a shared model and the policy of the models lets it write the row; but
  the audit event is recorded for the owner of the model, nobody, and the policy of the trail
  refuses that event in a session bound to a tenant of a role subject to the policies, so that
  the transaction is lost. The role the application connects as may write the event.
\<close>

theorem shared_retirement_is_refused_by_the_database:
  assumes "session_get (db_models db) mid = Some m" and "row_tenant m = None"
    and "before_row_security c0" and "upgrade_to_head revisions c0 = Inr c" and "subject_to_policies role"
  shows "\<exists>db' e. deactivate_model_version mid (Some ctx) db = (Inr (m\<lparr>mo_live := False\<rparr>), db') \<and>
    audit_log db' = audit_log db @ [e] \<and> may_write c role ''model_versions'' (Some (tc_tenant ctx)) (row_tenant m) \<and>
    \<not> may_write c role ''audit_events'' (Some (tc_tenant ctx)) (ae_tenant e) \<and>
    may_write c hermes_role ''audit_events'' (Some (tc_tenant ctx)) (ae_tenant e)"
proof -
  let ?e = "registry_event (Some ctx) (row_tenant m) ''model.deactivate'' ''ModelVersion'' (row_id m) []"
  have c: "c = at_head c0" using revisions_undoable(2) [OF assms(3)] assms(4) by simp
  have "deactivate_model_version mid (Some ctx) db =
      (Inr (m\<lparr>mo_live := False\<rparr>), audit_record ?e (set_model (row_id m) (\<lambda>x. x\<lparr>mo_live := False\<rparr>) db))"
    using assms(1,2) by (simp add: deactivate_model_version_def get_for_stage_mutation_def require_available_for_tenant_def
        get_available_for_tenant_def)
  moreover have "may_write c role ''model_versions'' (Some (tc_tenant ctx)) None"
    by (simp add: c policy_in_force(2) shared_tables_def)
  moreover have "\<not> may_write c role ''audit_events'' (Some (tc_tenant ctx)) (ae_tenant ?e)"
    using assms(2,5) by (simp add: c policy_in_force(3) registry_event_def)
  moreover have "may_write c hermes_role ''audit_events'' (Some (tc_tenant ctx)) (ae_tenant ?e)"
    by (simp add: c policy_in_force(3) subject_to_policies_def hermes_role_def)
  ultimately show ?thesis using assms(2) by (auto simp: audit_record_def set_model_def)
qed

theorem shared_retirement_is_refused_by_the_database_witness:
  "\<exists>db' e c. deactivate_model_version 40 (Some sample_ctx) reg_db3 = (Inr (sample_model\<lparr>mo_stage := PRODUCTION, mo_live := False\<rparr>), db') \<and>
    audit_log db' = audit_log reg_db3 @ [e] \<and> upgrade_to_head revisions sample_catalogue = Inr c \<and>
    \<not> may_write c (hermes_role\<lparr>dr_superuser := False, dr_bypassrls := False\<rparr>) ''audit_events'' (Some (tc_tenant sample_ctx)) (ae_tenant e)"
proof -
  let ?role = "hermes_role\<lparr>dr_superuser := False, dr_bypassrls := False\<rparr>"
  have m: "session_get (db_models reg_db3) 40 = Some (sample_model\<lparr>mo_stage := PRODUCTION\<rparr>)" by code_simp
  have t: "row_tenant (sample_model\<lparr>mo_stage := PRODUCTION\<rparr>) = None" by (simp add: sample_model_def)
  obtain c where c: "upgrade_to_head revisions sample_catalogue = Inr c" using revisions_undoable(2) [OF sample_catalogue_before] by blast
  have "subject_to_policies ?role" by (simp add: subject_to_policies_def hermes_role_def)
  from shared_retirement_is_refused_by_the_database [OF m t sample_catalogue_before c this, of sample_ctx] c show ?thesis by auto
qed

end
