(* ===== verification/Correlation.thy ===== *)
theory Correlation
  imports Prelude
begin

section \<open>Correlation identifiers\<close>

text \<open>
  \<open>hermes_rpt/common/correlation.py\<close>: the middleware that gives every HTTP request an id and a
  correlation id, binds both for the log lines of the request, and echoes them in its response.
  The application it wraps is a parameter: from the correlation id it finds in the scope and the
  variables bound for logging it answers, or raises, and leaves the variables as it likes.
\<close>

definition max_header_len :: nat where "max_header_len = 128"

definition sanitize_incoming_id :: "string option \<Rightarrow> string option" where
  "sanitize_incoming_id raw =
     (case raw of
        None \<Rightarrow> None
      | Some s \<Rightarrow> if s = [] then None
          else (let candidate = take max_header_len (str_strip s) in if candidate = [] then None else Some candidate))"

record header_names =
  hn_request :: string
  hn_correlation :: string

definition lower :: "string \<Rightarrow> string" where
  "lower s = map to_lower_char s"

type_synonym log_context = "(string, string) dict"

text \<open>What the wrapped application answers: an exception, or the headers of its response.\<close>

type_synonym 'e app = "string option \<Rightarrow> log_context \<Rightarrow> ('e + (string \<times> string) list) \<times> log_context"

definition correlation_middleware ::
  "header_names \<Rightarrow> 'e app \<Rightarrow> string \<Rightarrow> string option \<Rightarrow> string \<Rightarrow> log_context \<Rightarrow> ('e + (string \<times> string) list) \<times> log_context" where
  "correlation_middleware hn app scope_type incoming request_id bound =
     (if scope_type \<noteq> ''http'' then app None bound
      else (let correlation_id = (case sanitize_incoming_id incoming of None \<Rightarrow> request_id | Some c \<Rightarrow> c)
        in case app (Some correlation_id) [(''request_id'', request_id), (''correlation_id'', correlation_id)] of
             (Inl e, _) \<Rightarrow> (Inl e, [])
           | (Inr headers, _) \<Rightarrow>
               (Inr (headers @ [(lower (hn_request hn), request_id), (lower (hn_correlation hn), correlation_id)]), [])))"

lemma sanitized_fits:
  "sanitize_incoming_id raw = Some c \<Longrightarrow> c \<noteq> [] \<and> length c \<le> max_header_len"
  by (auto simp: sanitize_incoming_id_def Let_def split: option.splits if_splits)

text \<open>
  A correlation id always fits the column of 128 characters it is stored in and is never empty,
  whatever the caller sent; the response carries the ids the application was given; and
  nothing stays bound for the next request, also when the application raised.
\<close>

lemma correlation_id_fits_its_column:
  assumes "request_id \<noteq> []" and "length request_id \<le> max_header_len"
  obtains c where "c \<noteq> []" and "length c \<le> max_header_len"
    and "correlation_middleware hn app ''http'' incoming request_id bound =
      (case fst (app (Some c) [(''request_id'', request_id), (''correlation_id'', c)]) of
         Inl e \<Rightarrow> Inl e | Inr hs \<Rightarrow> Inr (hs @ [(lower (hn_request hn), request_id), (lower (hn_correlation hn), c)]), [])"
proof -
  define c where "c = (case sanitize_incoming_id incoming of None \<Rightarrow> request_id | Some c \<Rightarrow> c)"
  have "c \<noteq> [] \<and> length c \<le> max_header_len"
    using assms sanitized_fits by (auto simp: c_def split: option.splits)
  then show thesis
    by (intro that [of c]) (auto simp: correlation_middleware_def c_def [symmetric] Let_def split: prod.split sum.split)
qed

text \<open>Blank headers are as good as none, and a long one is cut.\<close>

lemma blank_header: "str_strip s = [] \<Longrightarrow> sanitize_incoming_id (Some s) = None"
  by (simp add: sanitize_incoming_id_def)

lemma sanitize_idempotent:
  assumes "sanitize_incoming_id raw = Some c" and "str_strip c = c"
  shows "sanitize_incoming_id (Some c) = Some c"
  using sanitized_fits [OF assms(1)] assms(2) by (simp add: sanitize_incoming_id_def Let_def)

end
