(* ===== verification/Seeds.thy ===== *)
theory Seeds
  imports Inference
begin

section \<open>The rows every deployment starts with\<close>

text \<open>
  The migration \<open>migrations/versions/96b4009ff8d0\<close>: the fixed roles, and the definition of the
  first prediction task. A role is the name and the description of its row; a long dash is written as a hyphen.
\<close>

record seed_db = pred_db +
  db_roles :: "(uuid \<times> string \<times> string) list"

definition roles :: "(string \<times> string) list" where
  "roles =
     [(''platform_admin'', ''Cross-tenant platform administration (granted via User.is_platform_admin, not a tenant membership row).''),
      (''tenant_admin'', ''Full administrative control within one tenant.''),
      (''data_steward'', ''Owns schema mappings and data access policy decisions for one tenant.''),
      (''ml_engineer'', ''Trains and evaluates models; manages tenant model adapters.''),
      (''manager'', ''Business user consuming predictions and reports.''),
      (''operator'', ''Day-to-day operational use of predictions.''),
      (''read_only_auditor'', ''Read-only access to audit logs and reports for one tenant.''),
      (''service_account'', ''Machine identity acting on behalf of one tenant.'')]"

definition delivery_delay_task_key :: string where
  "delivery_delay_task_key = ''delivery-delay-risk''"

definition seeded_task :: "uuid \<Rightarrow> task_definition" where
  "seeded_task i = \<lparr>row_id = i, row_tenant = None, td_key = delivery_delay_task_key, td_name = ''Delivery delay risk'',
     td_description = ''Probability that a given trip's delivery will be late relative to its planned time. '' @
       ''The platform's first prediction task - see docs/IMPLEMENTATION_PLAN.md section 4.'',
     td_contract = ''unreleased'', td_active = False\<rparr>"

definition upgrade_seed :: "(string \<Rightarrow> uuid) \<Rightarrow> uuid \<Rightarrow> seed_db \<Rightarrow> seed_db" where
  "upgrade_seed role_id task_id db =
     db\<lparr>db_roles := db_roles db @ map (\<lambda>(n, d). (role_id n, n, d)) roles, db_tasks := db_tasks db @ [seeded_task task_id]\<rparr>"

definition downgrade_seed :: "seed_db \<Rightarrow> seed_db" where
  "downgrade_seed db =
     db\<lparr>db_tasks := filter (\<lambda>t. td_key t \<noteq> delivery_delay_task_key) (db_tasks db),
       db_roles := filter (\<lambda>(i, n, d). n \<notin> fst ` set roles) (db_roles db)\<rparr>"

lemma seeded_roles_are_the_roles: "map fst roles = map role_value
    [PLATFORM_ADMIN, TENANT_ADMIN_ROLE, DATA_STEWARD, ML_ENGINEER, MANAGER, OPERATOR, READ_ONLY_AUDITOR, SERVICE_ACCOUNT]"
  by (simp add: roles_def)

text \<open>Every role of the code has exactly one seeded row.\<close>

lemma every_role_is_seeded: "\<exists>!nd. nd \<in> set roles \<and> fst nd = role_value r"
proof -
  have "distinct (map fst roles)" unfolding seeded_roles_are_the_roles by code_simp
  then have one: "inj_on fst (set roles)" by (simp add: distinct_map)
  have "role_value r \<in> set (map fst roles)" unfolding seeded_roles_are_the_roles by (cases r) simp_all
  then obtain nd where nd: "nd \<in> set roles" "fst nd = role_value r" by auto
  show ?thesis
  proof (rule ex1I [of _ nd])
    show "nd \<in> set roles \<and> fst nd = role_value r" using nd by simp
    show "nd' = nd" if "nd' \<in> set roles \<and> fst nd' = role_value r" for nd'
      using inj_onD [OF one, of nd' nd] that nd by simp
  qed
qed

lemma task_key_of_contract: "fc_task delivery_delay_risk_contract = delivery_delay_task_key"
  by code_simp

text \<open>
  The seed is inactive, and nothing asks: on a freshly seeded database the prediction service finds
  its task, although the row says it is reserved and not released.
\<close>

lemma seeded_task_is_used:
  assumes "db_tasks db = []"
  shows "get_by_task_key (fc_task delivery_delay_risk_contract) (upgrade_seed role_id i db) = Inr (Some (seeded_task i)) \<and>
    \<not> td_active (seeded_task i)"
  by (simp add: get_by_task_key_def upgrade_seed_def assms task_key_of_contract seeded_task_def)

lemma seed_downgrades:
  assumes "\<forall>t \<in> set (db_tasks db). td_key t \<noteq> delivery_delay_task_key" and "\<forall>(i, n, d) \<in> set (db_roles db). n \<notin> fst ` set roles"
  shows "downgrade_seed (upgrade_seed role_id i db) = db"
proof -
  have "filter (\<lambda>(i, n, d). n \<notin> fst ` set roles) (map (\<lambda>(n, d). (role_id n, n, d)) roles) = []"
    by (force simp: filter_empty_conv)
  moreover have "filter (\<lambda>(i, n, d). n \<notin> fst ` set roles) (db_roles db) = db_roles db"
    using assms(2) by (simp add: filter_id_conv)
  moreover have "filter (\<lambda>t. td_key t \<noteq> delivery_delay_task_key) (db_tasks db) = db_tasks db"
    using assms(1) by (simp add: filter_id_conv)
  moreover have "td_key (seeded_task i) = delivery_delay_task_key" by (simp add: seeded_task_def)
  ultimately show ?thesis by (simp add: downgrade_seed_def upgrade_seed_def)
qed

end
