(* ===== verification/GoogleSecrets.thy ===== *)
theory GoogleSecrets
  imports SecretStore Settings
begin

section \<open>The Google secret provider\<close>

text \<open>
  \<open>hermes_rpt/secrets/google_provider.py\<close> over the client of Secret Manager, which is a parameter
  on a state of its own: creating a secret under a parent, adding a version, accessing a
  version, and deleting a secret. Any of them may fail; the exception \<open>NotFound\<close>, which the
  provider tells from the others, is the answer none.
\<close>

record 's secret_manager =
  gm_create :: "string \<Rightarrow> string \<Rightarrow> 's \<Rightarrow> (exn + unit) \<times> 's"
  gm_add_version :: "string \<Rightarrow> string \<Rightarrow> 's \<Rightarrow> (exn + unit) \<times> 's"
  gm_access :: "string \<Rightarrow> 's \<Rightarrow> exn + string option"
  gm_delete :: "string \<Rightarrow> 's \<Rightarrow> (exn + unit option) \<times> 's"

definition secret_id_prefix :: string where
  "secret_id_prefix = ''hermes-rpt-conn-''"

definition google_parent :: "string \<Rightarrow> string" where
  "google_parent project = ''projects/'' @ project"

definition google_secret_name :: "string \<Rightarrow> string \<Rightarrow> string" where
  "google_secret_name project secret_id = google_parent project @ ''/secrets/'' @ secret_id"

definition google_store :: "'s secret_manager \<Rightarrow> string \<Rightarrow> string \<Rightarrow> string \<Rightarrow> 's \<Rightarrow> (exn + string) \<times> 's" where
  "google_store gm project u secret s =
     (let secret_id = secret_id_prefix @ u
      in case gm_create gm (google_parent project) secret_id s of
           (Inl e, s1) \<Rightarrow> (Inl e, s1)
         | (Inr _, s1) \<Rightarrow>
             (case gm_add_version gm (google_secret_name project secret_id) secret s1 of
                (Inl e, s2) \<Rightarrow> (Inl e, s2)
              | (Inr _, s2) \<Rightarrow> (Inr secret_id, s2)))"

definition google_resolve :: "'s secret_manager \<Rightarrow> string \<Rightarrow> string \<Rightarrow> 's \<Rightarrow> exn + string" where
  "google_resolve gm project key s =
     (case gm_access gm (google_secret_name project key @ ''/versions/latest'') s of
        Inl e \<Rightarrow> Inl e
      | Inr None \<Rightarrow> Inl (SecretNotFoundError key)
      | Inr (Some v) \<Rightarrow> Inr v)"

definition google_delete :: "'s secret_manager \<Rightarrow> string \<Rightarrow> string \<Rightarrow> 's \<Rightarrow> (exn + unit) \<times> 's" where
  "google_delete gm project key s =
     (case gm_delete gm (google_secret_name project key) s of
        (Inl e, s1) \<Rightarrow> (Inl e, s1)
      | (Inr _, s1) \<Rightarrow> (Inr (), s1))"

datatype provider_choice = LocalDevProvider | GoogleProvider string

definition get_secret_provider :: "settings \<Rightarrow> provider_choice" where
  "get_secret_provider cfg =
     (if set_secret_backend cfg = ''google_secret_manager'' then GoogleProvider (set_gcp_project cfg) else LocalDevProvider)"

text \<open>
  What is documented of Secret Manager: a view of the latest payload by the name of the secret.
  Creating a secret gives it no payload, and fails when the secret exists, adding a version
  sets the payload, deleting takes it away, none is answered exactly when there is no payload,
  and a call that fails changes no payload.
\<close>

definition manager_ok :: "'s secret_manager \<Rightarrow> ('s \<Rightarrow> string \<Rightarrow> string option) \<Rightarrow> bool" where
  "manager_ok gm view \<longleftrightarrow>
     (\<forall>p i s. view (snd (gm_create gm p i s)) = view s) \<and>
     (\<forall>n v s. view (snd (gm_add_version gm n v s)) = (if fst (gm_add_version gm n v s) = Inr () then (view s)(n := Some v) else view s)) \<and>
     (\<forall>n s x. gm_access gm (n @ ''/versions/latest'') s = Inr x \<longrightarrow> x = view s n) \<and>
     (\<forall>n s. view (snd (gm_delete gm n s)) = (case fst (gm_delete gm n s) of Inl _ \<Rightarrow> view s | Inr _ \<Rightarrow> (view s)(n := None)))"

lemma secret_name_inj [simp]: "google_secret_name p i = google_secret_name p j \<longleftrightarrow> i = j"
  by (simp add: google_secret_name_def)

text \<open>Storing under a key sets exactly its payload, or none at all; so does deleting.\<close>

lemma google_store_view:
  assumes "manager_ok gm view" and "google_store gm project u v s = (r, s')"
  shows "view s' = (case r of Inl _ \<Rightarrow> view s | Inr k \<Rightarrow> (view s)(google_secret_name project k := Some v))"
proof -
  let ?n = "google_secret_name project (secret_id_prefix @ u)"
  obtain x s1 where c: "gm_create gm (google_parent project) (secret_id_prefix @ u) s = (x, s1)" by (metis prod.exhaust)
  obtain y s2 where a: "gm_add_version gm ?n v s1 = (y, s2)" by (metis prod.exhaust)
  have v1: "view s1 = view s" using assms(1) c unfolding manager_ok_def by (metis snd_conv)
  have v2: "view s2 = (if y = Inr () then (view s1)(?n := Some v) else view s1)"
    using assms(1) a unfolding manager_ok_def by (metis fst_conv snd_conv)
  from assms(2) v1 v2 show ?thesis
    by (cases x; cases y) (auto simp: google_store_def Let_def c a)
qed

lemma google_delete_view:
  assumes "manager_ok gm view" and "google_delete gm project k s = (r, s')"
  shows "view s' = (case r of Inl _ \<Rightarrow> view s | Inr _ \<Rightarrow> (view s)(google_secret_name project k := None))"
proof -
  obtain x s1 where d: "gm_delete gm (google_secret_name project k) s = (x, s1)" by (metis prod.exhaust)
  have "view s1 = (case x of Inl _ \<Rightarrow> view s | Inr _ \<Rightarrow> (view s)(google_secret_name project k := None))"
    using assms(1) d unfolding manager_ok_def by (metis fst_conv snd_conv)
  with assms(2) show ?thesis by (cases x) (auto simp: google_delete_def d)
qed

lemma google_resolve_view:
  assumes "manager_ok gm view" and "google_resolve gm project k s = r" and "gm_access gm (google_secret_name project k @ ''/versions/latest'') s = Inr x"
  shows "r = (case view s (google_secret_name project k) of None \<Rightarrow> Inl (SecretNotFoundError k) | Some v \<Rightarrow> Inr v)"
proof -
  from assms(1,3) have "x = view s (google_secret_name project k)" unfolding manager_ok_def by blast
  with assms(2,3) show ?thesis by (auto simp: google_resolve_def split: option.splits)
qed

text \<open>
  The laws of the interface, wherever the calls get through: what was stored resolves, a deleted
  key no longer does, and other keys are left alone.
\<close>

lemma google_provider_laws:
  assumes "manager_ok gm view" and "\<And>n s. \<exists>x. gm_access gm n s = Inr x"
  shows "google_store gm project u v s = (Inr k, s') \<Longrightarrow> google_resolve gm project k s' = Inr v"
    and "google_store gm project u v s = (r, s') \<Longrightarrow> r \<noteq> Inr k' \<Longrightarrow> google_resolve gm project k' s' = google_resolve gm project k' s"
    and "google_delete gm project k s = (Inr (), s') \<Longrightarrow> google_resolve gm project k s' = Inl (SecretNotFoundError k)"
    and "google_delete gm project k s = (r2, s') \<Longrightarrow> k' \<noteq> k \<Longrightarrow> google_resolve gm project k' s' = google_resolve gm project k' s"
proof -
  have res: "google_resolve gm project i t =
      (case view t (google_secret_name project i) of None \<Rightarrow> Inl (SecretNotFoundError i) | Some v \<Rightarrow> Inr v)" for i t
    using assms(2) google_resolve_view [OF assms(1) refl] by blast
  show "google_store gm project u v s = (Inr k, s') \<Longrightarrow> google_resolve gm project k s' = Inr v"
    using google_store_view [OF assms(1)] by (simp add: res)
  show "google_store gm project u v s = (r, s') \<Longrightarrow> r \<noteq> Inr k' \<Longrightarrow> google_resolve gm project k' s' = google_resolve gm project k' s"
    using google_store_view [OF assms(1), of project u v s r s'] by (cases r) (simp_all add: res)
  show "google_delete gm project k s = (Inr (), s') \<Longrightarrow> google_resolve gm project k s' = Inl (SecretNotFoundError k)"
    using google_delete_view [OF assms(1)] by (simp add: res)
  show "google_delete gm project k s = (r2, s') \<Longrightarrow> k' \<noteq> k \<Longrightarrow> google_resolve gm project k' s' = google_resolve gm project k' s"
    using google_delete_view [OF assms(1), of project k s r2 s'] by (cases r2) (simp_all add: res)
qed

text \<open>
  A store that fails between its two calls leaves a secret behind, without payload, whose name is
  lost: the caller has the exception and no key to delete it by.
\<close>

lemma failed_store_leaves_secret:
  assumes "gm_create gm (google_parent project) (secret_id_prefix @ u) s = (Inr (), s1)"
    and "gm_add_version gm (google_secret_name project (secret_id_prefix @ u)) v s1 = (Inl e, s1)"
  shows "google_store gm project u v s = (Inl e, s1)"
  using assms by (simp add: google_store_def Let_def)

end
