(* ===== verification/Spec2Isabelle.thy ===== *)
theory Spec2Isabelle
  imports Credentials QueryGuard Api Adaptation LogRedaction RowSecurity Correlation Seeds GoogleSecrets
begin

text \<open>
  A verification development of Hermes-RPT, a multi-tenant service that predicts delivery delays
  from the customers' own databases: \<open>src/hermes_rpt\<close>, the API in \<open>apps/api\<close>, the experiments of
  \<open>apps/trainer\<close>, and the row-level security of
  \<open>migrations/versions\<close>.

  \<^bold>\<open>The program and how its parts interact.\<close> A caller authenticates with a token; its claims give
  a tenant context, which every service takes and every repository filters by. An operator
  registers a connection to a customer database, whose schema is discovered, fingerprinted and
  profiled; a mapping document relates its tables to an ontology and goes through a reviewed life
  cycle; drift of the schema can suspend it. A feature contract is planned and compiled against the active
  mapping into guarded read-only statements, whose rows become features, data sets or relational
  examples. Models are trained on data sets, registered as candidates with a checksum, promoted,
  verified when they are loaded, and serve predictions, whose outcomes are recorded and
  monitored. Every step leaves an audit event; routes decide what of it is committed.

  \<^bold>\<open>How the state corresponds.\<close> The control plane is a record, extended by each component with its
  tables: \<open>audit_db\<close> is the trail; \<open>auth_db\<close> (credentials) and \<open>tenancy_db\<close> extend it each on its own, and
  so does the chain \<open>conn_db\<close>, \<open>snap_db\<close>, \<open>map_db\<close>, \<open>reg_db\<close>, \<open>pred_db\<close>. A table is the list of its rows in order of insertion,
  and every row extends \<open>tenant_row\<close>. The operations of a component are polymorphic in the
  rest of the record, so they run unchanged in the states of the components above. An operation
  that may raise returns \<open>exn + 'a\<close>, with one constructor of \<open>exn\<close> per class of exception, and
  returns the state it leaves behind also when it raises. What lives in the process and not in the
  database (pools, rate limiters, breakers, the cache of models) is explicit state too.

  \<^bold>\<open>Theories, from the bottom up.\<close>

  \<^item> Prelude, Errors: identifiers, instants, dictionaries, JSON, sequencing of fallible
    operations; the exceptions.
  \<^item> Settings, Tenancy, Repository, AuditTrail: \<open>common/settings.py\<close>, \<open>tenants/context.py\<close>,
    \<open>common/repository.py\<close>, \<open>audit\<close>. Repository holds the locale \<open>tenant_isolated\<close>, the contract of
    operations that leave the rows of other tenants alone.
  \<^item> Identity, Credentials, Tenants: \<open>auth\<close> with tokens, scopes and the rate limiter, service
    credentials and their exchange, \<open>tenants\<close> with memberships and consents.
  \<^item> SecretStore, GoogleSecrets, Pools, Connections: \<open>secrets\<close> (the locale \<open>secret_provider\<close>),
    \<open>connectors/{interfaces,postgres,health,pool_registry}.py\<close> (the locale \<open>engine_registry\<close>) and
    \<open>connectors/service.py\<close>.
  \<^item> Introspection, Drift, Profiling, Discovery: \<open>schemas\<close>.
  \<^item> Ontology, Expressions, MappingDocument, Mappings, Suggest: \<open>ontology\<close> and \<open>mappings\<close>.
  \<^item> QueryGuard, FeatureSpecs, FeatureQueries, FeatureExtraction, Datasets:
    \<open>connectors/query_guard.py\<close>, \<open>features\<close> and \<open>datasets\<close>.
  \<^item> Registry, Resilience, ModelLoading, RelationalContext, Inference, Monitoring: \<open>registry\<close>,
    \<open>inference\<close>, \<open>models/transformer/{context,schema,encoding}.py\<close> and \<open>monitoring\<close>.
  \<^item> Pretraining, Training, Adaptation: \<open>models/*.py\<close>,
    \<open>models/transformer/{pretraining,training,pretraining_training,adapter_training}.py\<close> and the
    tasks of \<open>apps/trainer/main.py\<close>.
  \<^item> Routes, Api: \<open>apps/api/routers\<close> and the handlers of exceptions; then every call as one
    datatype, the steps of a process over one state, and what holds of any run. Api holds the
    locale \<open>session_laws\<close>, what a route may assume of the session it runs in, interpreted on the
    sessions of the process and on bare ones.
  \<^item> LogRedaction, Correlation: \<open>common/logging.py\<close> and \<open>common/correlation.py\<close>.
  \<^item> RowSecurity, Seeds: the statements of the migrations on row-level security and policies, what
    they let a database role see and write, with \<open>common/tenant_session.py\<close>; and the rows the
    migrations insert.

  \<^bold>\<open>What is shown.\<close>

  \<^item> Separation of tenants: of whole runs of a process (\<open>processes_isolate_tenants\<close>); of the
    database beneath it, for a role that is subject to row-level security, which the one the platform is
    deployed with is not, being a superuser with \<open>BYPASSRLS\<close> (\<open>row_security_isolates\<close>), so that as
    deployed only the former holds; and where the two disagree (\<open>shared_retirement_is_refused_by_the_database\<close>).
    The migrations can be undone (\<open>row_security_downgrades\<close>).
  \<^item> Authorisation and errors: \<open>calls_need_their_scope\<close>, \<open>only_admins_activate_mappings\<close>,
    \<open>failed_calls_leave_no_trace\<close>, \<open>revoked_credential_never_authenticates\<close>, \<open>rate_limiter_bound\<close>,
    \<open>sensitive_values_never_reach_the_log\<close>.
  \<^item> Mappings and connections: the life cycle, what vets a production version, immutability of
    versions, the exact verdict of validation, suspension by drift, stable suggestions, and
    engines that are always those of the current connection.
  \<^item> Data: statements are confined and bounded, related features and data sets see only the past
    and data set rows are aligned with their raw rows, extraction is complete and reads through the tenant's
    enabled connections only, its features always make an input of a model, targets of pretraining are honest.
  \<^item> Models: the registry refines a small policy, aliases stay sound, retired models stay
    retired, a served model was loaded after the registry's own artifact
    was verified, in a world the loader was called in or retried from, only a strict winner is promoted, adapters stay
    private to their tenants, the threshold is the best, a prediction is what the governed model says of the governed
    data, and is replayed for its key, realised metrics mean what they are called.
  \<^item> Calls to dependencies: retries are bounded, the breaker refines its contract, and, as a liveness
    property, a client that keeps calling gets through once the dependency works again.
  \<^item> Where the code does not do what it means to, the theorem states what it does:
    \<open>target_record_shows_the_outcome\<close>, \<open>failed_predictions_are_never_counted\<close>,
    \<open>drift_never_suspends_in_service\<close>, and in the library \<open>lone_value_stays_degenerate\<close>.

  \<^bold>\<open>Bounds and termination.\<close> No fuel is used. Recursion is over lists, attempts or epochs that are
  left, or positions in a text, structural or with a measure that Isabelle finds, so every
  function is total; \<open>retry_is_bounded\<close> states
  the number of calls of a retried operation. Integers of the source are Python's, hence \<open>int\<close> and \<open>nat\<close>;
  floats are exact rationals, so that rounding and overflow are not seen, and NaN is a missing value.

  \<^bold>\<open>Parameters and hypotheses.\<close> Digests, tokens, conversions of text, the customer databases, secret
  stores, model stores, the machine-learning libraries, the clock, fresh identifiers and random
  draws are arguments. A theorem that needs a law of one of them has it as a named premise, such
  as a distinct draw at every index or a score that is not negative, and its witness
  instantiates the parameter with a concrete function.

  \<^bold>\<open>Not modelled.\<close> The networks of the transformer and gradient descent over torch
  (\<open>models/transformer/{model,modules,pretraining_model,adapter}.py\<close>; a network is a handle and a
  step or a fit a parameter), the parsing of ontology files, the
  synthetic data and the demonstration, which only draw random data and call the services;
  counters of metrics; the assembly of the FastAPI application; the worker,
  a placeholder that logs its start; the columns created by migrations; the foreign keys of the
  control plane, by which the deletion of a connection deletes its snapshots and is refused while
  a mapping uses one. Concurrency is modelled by
  interleaving whole calls, as each runs in a transaction of its own; the optimistic version
  counters of rows are left out.
\<close>

end
